(* ===== verification/Prelude.thy ===== *)
theory Prelude
  imports Main "HOL-Library.Word" "HOL-Library.Monad_Syntax"
begin

text \<open>
  What every component of the development shares.

  \<^item> Fixed-width integers: \<open>u32\<close> is the C++ \<open>unsigned\<close>, \<open>u64\<close> is \<open>uint64_t\<close>; arithmetic on
    them wraps.
  \<^item> Abort as a value: a C++ function that may hit a failing \<open>assert\<close>, dereference a null
    pointer or index a vector out of range returns an option, and \<open>None\<close> is the abort.
    \<open>check\<close> is \<open>assert\<close>, \<open>nth_opt\<close> is an indexed vector read. State is passed explicitly:
    an operation with a result and an effect has type \<open>'s \<Rightarrow> ('a \<times> 's) option\<close>.
  \<^item> \<open>run_ops\<close>: a client driving a component by a list of operations, with the events the
    operations report, and the locale \<open>stable_reads\<close> with the one induction all such
    histories share.
  \<^item> \<open>show_nat\<close>: the decimal text an \<open>unsigned\<close> has in a \<open>std::stringstream\<close>.
\<close>

section \<open>Integers\<close>

type_synonym u8 = "8 word"
type_synonym u32 = "32 word"
type_synonym u64 = "64 word"

lemma ucast_up_down: "ucast (ucast (w :: u32) :: u64) = w"
  by (rule bit_word_eqI) (simp add: bit_simps)

section \<open>Abort as a value\<close>

named_theorems opt_simps \<open>unfolding of the abort-as-option combinators\<close>

definition check :: "bool \<Rightarrow> unit option" where
  "check b = (if b then Some () else None)"

definition nth_opt :: "'a list \<Rightarrow> nat \<Rightarrow> 'a option" where
  "nth_opt xs i = (if i < length xs then Some (xs ! i) else None)"

fun map_opt :: "('a \<Rightarrow> 'b option) \<Rightarrow> 'a list \<Rightarrow> 'b list option" where
  "map_opt f [] = Some []"
| "map_opt f (x # xs) = do { y \<leftarrow> f x; ys \<leftarrow> map_opt f xs; Some (y # ys) }"

lemma check_Some [simp]: "check b = Some u \<longleftrightarrow> b"
  by (simp add: check_def)

lemma check_None [simp]: "check b = None \<longleftrightarrow> \<not> b"
  by (simp add: check_def)

lemma check_True [simp]: "check True = Some ()"
  by (simp add: check_def)

lemma check_False [simp]: "check False = None"
  by (simp add: check_def)

lemma bind_Some_iff [opt_simps]:
  "(m \<bind> f) = Some y \<longleftrightarrow> (\<exists>x. m = Some x \<and> f x = Some y)"
  by (cases m) auto

lemma bind_None_iff [opt_simps]:
  "(m \<bind> f) = None \<longleftrightarrow> m = None \<or> (\<exists>x. m = Some x \<and> f x = None)"
  by (cases m) auto

lemma check_bind [simp]: "(check b \<bind> f) = (if b then f () else None)"
  by (simp add: check_def)

lemma nth_opt_Some [opt_simps]: "nth_opt xs i = Some x \<longleftrightarrow> i < length xs \<and> xs ! i = x"
  by (auto simp: nth_opt_def)

lemma nth_opt_in [simp]: "i < length xs \<Longrightarrow> nth_opt xs i = Some (xs ! i)"
  by (simp add: nth_opt_def)

lemma nth_opt_append: "nth_opt xs i = Some x \<Longrightarrow> nth_opt (xs @ ys) i = Some x"
  by (auto simp: nth_opt_def nth_append split: if_splits)

lemma map_opt_append:
  "map_opt f (xs @ ys) = do { as \<leftarrow> map_opt f xs; bs \<leftarrow> map_opt f ys; Some (as @ bs) }"
  by (induction xs) (auto split: bind_splits)

lemma map_opt_Some_iff:
  "map_opt f xs = Some ys \<longleftrightarrow> list_all2 (\<lambda>x y. f x = Some y) xs ys"
  by (induction xs arbitrary: ys) (auto simp: opt_simps list_all2_Cons1)

lemma map_opt_length: "map_opt f xs = Some ys \<Longrightarrow> length ys = length xs"
  by (simp add: map_opt_Some_iff list_all2_lengthD)

lemma map_opt_back: "map_opt f xs = Some ys \<Longrightarrow> y \<in> set ys \<Longrightarrow> \<exists>x \<in> set xs. f x = Some y"
  by (induction xs arbitrary: ys) (auto simp: opt_simps)

lemma map_opt_forth: "map_opt f xs = Some ys \<Longrightarrow> x \<in> set xs \<Longrightarrow> \<exists>y \<in> set ys. f x = Some y"
  by (induction xs arbitrary: ys) (auto simp: opt_simps)

lemma map_opt_total: "(\<And>x. x \<in> set xs \<Longrightarrow> f x = Some (g x)) \<Longrightarrow> map_opt f xs = Some (map g xs)"
  by (induction xs) auto

text \<open>A loop over a list that updates the state.\<close>

fun fold_opt :: "('a \<Rightarrow> 's \<Rightarrow> 's option) \<Rightarrow> 'a list \<Rightarrow> 's \<Rightarrow> 's option" where
  "fold_opt f [] s = Some s"
| "fold_opt f (x # xs) s = do { s' \<leftarrow> f x s; fold_opt f xs s' }"

lemma fold_opt_append: "fold_opt f (xs @ ys) s = do { t \<leftarrow> fold_opt f xs s; fold_opt f ys t }"
proof (induction xs arbitrary: s)
  case (Cons x xs)
  then show ?case by (cases "f x s") simp_all
qed simp

text \<open>A predicate every step of the loop keeps.\<close>

lemma fold_opt_inv:
  "(\<And>x s s'. x \<in> set xs \<Longrightarrow> P s \<Longrightarrow> f x s = Some s' \<Longrightarrow> P s') \<Longrightarrow> P s \<Longrightarrow> fold_opt f xs s = Some t \<Longrightarrow> P t"
proof (induction xs arbitrary: s)
  case (Cons x xs)
  from Cons.prems(3) obtain s' where s': "f x s = Some s'" "fold_opt f xs s' = Some t" by (auto simp: opt_simps)
  have "P s'" by (rule Cons.prems(1) [OF _ Cons.prems(2) s'(1)]) simp
  then show ?case by (rule Cons.IH [rotated]) (use s'(2) Cons.prems(1) in auto)
qed simp

text \<open>A loop that also collects a result per element.\<close>

fun map_st :: "('a \<Rightarrow> 's \<Rightarrow> ('b \<times> 's) option) \<Rightarrow> 'a list \<Rightarrow> 's \<Rightarrow> ('b list \<times> 's) option" where
  "map_st f [] s = Some ([], s)"
| "map_st f (x # xs) s = do { (y, s) \<leftarrow> f x s; (ys, s) \<leftarrow> map_st f xs s; Some (y # ys, s) }"

section \<open>Searching a list\<close>

lemma find_append:
  "List.find P (xs @ ys) = (case List.find P xs of Some x \<Rightarrow> Some x | None \<Rightarrow> List.find P ys)"
  by (induction xs) auto

section \<open>Histories of operations\<close>

fun run_ops :: "('op \<Rightarrow> 's \<Rightarrow> ('ev list \<times> 's) option) \<Rightarrow> 'op list \<Rightarrow> 's \<Rightarrow> ('ev list \<times> 's) option"
  where
  "run_ops step [] s = Some ([], s)"
| "run_ops step (op # ops) s =
     do { (ev, s') \<leftarrow> step op s; (evs, t) \<leftarrow> run_ops step ops s'; Some (ev @ evs, t) }"

lemma run_ops_Cons_Some:
  "run_ops step (op # ops) s = Some (evs, t) \<longleftrightarrow>
     (\<exists>ev s' evs'. step op s = Some (ev, s') \<and> run_ops step ops s' = Some (evs', t) \<and> evs = ev @ evs')"
  by (auto simp: opt_simps split: prod.splits)

declare run_ops.simps(2) [simp del]

locale stable_reads =
  fixes step :: "'op \<Rightarrow> 's \<Rightarrow> (('h \<times> 'r) list \<times> 's) option"
    and reads :: "'s \<Rightarrow> 'h \<Rightarrow> 'r option"
    and inv :: "('h \<times> 'r) list \<Rightarrow> 's \<Rightarrow> bool"
    and bounded :: "'s \<Rightarrow> bool"
  assumes step_inv: "inv log s \<Longrightarrow> step op s = Some (ev, s') \<Longrightarrow> bounded s' \<Longrightarrow> inv (log @ ev) s'"
    and step_bounded: "step op s = Some (ev, s') \<Longrightarrow> bounded s' \<Longrightarrow> bounded s"
    and inv_reads: "inv log s \<Longrightarrow> (h, r) \<in> set log \<Longrightarrow> reads s h = Some r"
begin

lemma run_bounded: "run_ops step ops s = Some (evs, t) \<Longrightarrow> bounded t \<Longrightarrow> bounded s"
proof (induction ops arbitrary: s evs)
  case Nil
  then show ?case by simp
next
  case (Cons op ops)
  then show ?case by (auto simp: run_ops_Cons_Some intro: step_bounded)
qed

lemma run_inv:
  "inv log s \<Longrightarrow> run_ops step ops s = Some (evs, t) \<Longrightarrow> bounded t \<Longrightarrow> inv (log @ evs) t"
proof (induction ops arbitrary: log s evs)
  case Nil
  then show ?case by simp
next
  case (Cons op ops)
  from Cons.prems(2) obtain ev s' evs' where *: "step op s = Some (ev, s')"
    "run_ops step ops s' = Some (evs', t)" "evs = ev @ evs'"
    by (auto simp: run_ops_Cons_Some)
  have "bounded s'" using run_bounded [OF *(2) Cons.prems(3)] .
  with Cons.prems(1) *(1) have "inv (log @ ev) s'" by (rule step_inv)
  from Cons.IH [OF this *(2) Cons.prems(3)] *(3) show ?case by simp
qed

lemma run_reads:
  assumes "inv log s" "run_ops step ops s = Some (evs, t)" "bounded t"
    and "(h, r) \<in> set (log @ evs)"
  shows "reads t h = Some r"
  using run_inv [OF assms(1-3)] assms(4) by (rule inv_reads)

end

section \<open>Decimal text\<close>

fun show_nat :: "nat \<Rightarrow> string" where
  "show_nat n = (if n < 10 then [char_of (48 + n)] else show_nat (n div 10) @ [char_of (48 + n mod 10)])"

declare show_nat.simps [simp del]

definition read_digits :: "string \<Rightarrow> nat" where
  "read_digits s = foldl (\<lambda>a c. 10 * a + (of_char c - 48)) 0 s"

lemma read_digits_snoc: "read_digits (s @ [c]) = 10 * read_digits s + (of_char c - 48)"
  by (simp add: read_digits_def)

lemma read_show_nat [simp]: "read_digits (show_nat n) = n"
proof (induction n rule: show_nat.induct)
  case (1 n)
  show ?case
  proof (cases "n < 10")
    case True
    then show ?thesis by (subst show_nat.simps) (simp add: read_digits_def)
  next
    case False
    with 1 show ?thesis by (subst show_nat.simps) (simp add: read_digits_snoc)
  qed
qed

lemma show_nat_inject [simp]: "show_nat m = show_nat n \<longleftrightarrow> m = n"
  by (metis read_show_nat)

lemma show_nat_digits: "c \<in> set (show_nat n) \<Longrightarrow> of_char c \<in> {48..(57::nat)}"
proof (induction n rule: show_nat.induct)
  case (1 n)
  then show ?case
    by (subst (asm) show_nat.simps) (auto split: if_splits)
qed

lemma show_nat_no_dot: "CHR ''.'' \<notin> set (show_nat n)"
  using show_nat_digits [of "CHR ''.''" n] by auto

lemma show_nat_nonempty [simp]: "show_nat n \<noteq> []"
  by (subst show_nat.simps) simp

end
