(* ===== verification/NameGen.thy ===== *)
theory NameGen
  imports Prelude
begin

text \<open>
  The name generator of \<^verbatim>\<open>namegen.h\<close>: class \<open>NameGen\<close> hands out names
  \<open>tag.N\<close> from a table with one 32-bit counter per tag. Every component that creates LLVM
  values or types draws its names here, so the locale \<open>fresh_names\<close> states what they rely on:
  as long as no counter wraps, two names generated without an explicit version differ.
\<close>

section \<open>The generator\<close>

type_synonym nametags = "string \<rightharpoonup> u32"

definition ChooseVer :: u32 where
  "ChooseVer = 0xffffffff"

definition next_count :: "nametags \<Rightarrow> string \<Rightarrow> u32" where
  "next_count tags tag = (case tags tag of None \<Rightarrow> 0 | Some c \<Rightarrow> c + 1)"

definition namegen :: "string \<Rightarrow> u32 \<Rightarrow> nametags \<Rightarrow> string \<times> nametags" where
  "namegen tag expl tags =
     (let count = next_count tags tag;
          count = (if expl \<noteq> ChooseVer then expl else count);
          name = tag @ ''.'' @ show_nat (unat count)
      in (name, if expl = ChooseVer then tags(tag \<mapsto> count) else tags))"

fun namegens :: "string list \<Rightarrow> nametags \<Rightarrow> string list \<times> nametags" where
  "namegens [] tags = ([], tags)"
| "namegens (t # ts) tags =
     (let (n, tags') = namegen t ChooseVer tags; (ns, tags'') = namegens ts tags' in (n # ns, tags''))"

section \<open>Distinct names\<close>

text \<open>A name determines its tag and its number: the digits after the last dot hold no dot.\<close>

lemma tagged_name_inject:
  "a @ ''.'' @ show_nat m = b @ ''.'' @ show_nat n \<longleftrightarrow> a = b \<and> m = n"
proof
  assume eq: "a @ ''.'' @ show_nat m = b @ ''.'' @ show_nat n"
  define notdot where "notdot = (\<lambda>c. c \<noteq> CHR ''.'')"
  have *: "takeWhile notdot (rev (x @ ''.'' @ show_nat k)) = rev (show_nat k)" for x k
    using show_nat_no_dot [of k] by (auto simp: notdot_def takeWhile_append)
  from arg_cong [OF eq, of "\<lambda>s. takeWhile notdot (rev s)"] have "show_nat m = show_nat n"
    by (simp only: * rev_is_rev_conv)
  with eq show "a = b \<and> m = n" by simp
qed simp

text \<open>The number of the latest name of a tag, as a count of names; 0 when there is none.\<close>

definition used :: "nametags \<Rightarrow> string \<Rightarrow> nat" where
  "used tags tag = (case tags tag of None \<Rightarrow> 0 | Some c \<Rightarrow> Suc (unat c))"

lemma unat_next_count:
  assumes "used tags tag < 2 ^ 32"
  shows "unat (next_count tags tag) = used tags tag"
proof (cases "tags tag")
  case None
  then show ?thesis by (simp add: next_count_def used_def)
next
  case (Some c)
  with assms have "Suc (unat c) < 2 ^ 32" by (simp add: used_def)
  then have "unat (c + 1) = Suc (unat c)"
    by (simp add: unat_word_ariths)
  with Some show ?thesis by (simp add: next_count_def used_def)
qed

lemma namegen_choose:
  assumes "used tags tag < 2 ^ 32"
  shows "namegen tag ChooseVer tags =
     (tag @ ''.'' @ show_nat (used tags tag), tags(tag \<mapsto> of_nat (used tags tag)))"
  using unat_next_count [OF assms]
  by (simp add: namegen_def Let_def) (metis word_nat_cases unat_of_nat word_of_nat_eq_iff of_nat_unat ucast_id)

lemma used_after_namegen:
  assumes "used tags tag < 2 ^ 32"
  shows "used (snd (namegen tag ChooseVer tags)) t = (if t = tag then Suc (used tags tag) else used tags t)"
proof -
  have "unat (of_nat (used tags tag) :: u32) = used tags tag"
    using assms by (simp add: unat_of_nat)
  then show ?thesis by (simp add: namegen_choose [OF assms] used_def [of "tags(tag \<mapsto> _)"]) (simp add: used_def)
qed

lemma namegen_explicit: "v \<noteq> ChooseVer \<Longrightarrow> namegen tag v tags = (tag @ ''.'' @ show_nat (unat v), tags)"
  by (simp add: namegen_def Let_def)

locale fresh_names =
  fixes gen :: "string \<Rightarrow> 's \<Rightarrow> string \<times> 's"
    and issued :: "'s \<Rightarrow> string \<Rightarrow> nat"
    and limit :: nat
  assumes gen_name: "issued s t < limit \<Longrightarrow> fst (gen t s) = t @ ''.'' @ show_nat (issued s t)"
    and gen_issued: "issued s t < limit \<Longrightarrow>
      issued (snd (gen t s)) u = (if u = t then Suc (issued s t) else issued s u)"
begin

fun gens :: "string list \<Rightarrow> 's \<Rightarrow> string list \<times> 's" where
  "gens [] s = ([], s)"
| "gens (t # ts) s = (let (n, s') = gen t s; (ns, s'') = gens ts s' in (n # ns, s''))"

lemma gens_later:
  assumes "\<forall>t. issued s t + length ts \<le> limit" "n \<in> set (fst (gens ts s))"
  shows "\<exists>t k. n = t @ ''.'' @ show_nat k \<and> issued s t \<le> k"
  using assms
proof (induction ts arbitrary: s)
  case Nil
  then show ?case by simp
next
  case (Cons u ts)
  obtain s' where s': "gen u s = (u @ ''.'' @ show_nat (issued s u), s')"
    using Cons.prems(1) [rule_format, of u] gen_name [of s u] by (cases "gen u s") auto
  have iss: "issued s' t = (if t = u then Suc (issued s u) else issued s t)" for t
    using gen_issued [of s u t] Cons.prems(1) [rule_format, of u] s' by simp
  show ?case
  proof (cases "n = u @ ''.'' @ show_nat (issued s u)")
    case True
    then show ?thesis by blast
  next
    case False
    with Cons.prems(2) s' have n: "n \<in> set (fst (gens ts s'))" by (simp add: case_prod_unfold Let_def)
    have "\<forall>t. issued s' t + length ts \<le> limit"
    proof
      fix t
      show "issued s' t + length ts \<le> limit"
        using Cons.prems(1) [rule_format, of t] by (auto simp: iss)
    qed
    from Cons.IH [OF this n] obtain t k where "n = t @ ''.'' @ show_nat k" "issued s' t \<le> k" by blast
    then show ?thesis by (auto simp: iss split: if_splits intro!: exI [of _ t] exI [of _ k])
  qed
qed

lemma gens_distinct: "\<forall>t. issued s t + length ts \<le> limit \<Longrightarrow> distinct (fst (gens ts s))"
proof (induction ts arbitrary: s)
  case Nil
  then show ?case by simp
next
  case (Cons u ts)
  obtain s' where s': "gen u s = (u @ ''.'' @ show_nat (issued s u), s')"
    using Cons.prems [rule_format, of u] gen_name [of s u] by (cases "gen u s") auto
  have iss: "issued s' t = (if t = u then Suc (issued s u) else issued s t)" for t
    using gen_issued [of s u t] Cons.prems [rule_format, of u] s' by simp
  have lim: "\<forall>t. issued s' t + length ts \<le> limit"
  proof
    fix t
    show "issued s' t + length ts \<le> limit"
      using Cons.prems [rule_format, of t] by (auto simp: iss)
  qed
  have "u @ ''.'' @ show_nat (issued s u) \<notin> set (fst (gens ts s'))"
  proof
    assume "u @ ''.'' @ show_nat (issued s u) \<in> set (fst (gens ts s'))"
    from gens_later [OF lim this] obtain t k
      where "u @ ''.'' @ show_nat (issued s u) = t @ ''.'' @ show_nat k" "issued s' t \<le> k" by blast
    then show False by (simp only: tagged_name_inject) (auto simp: iss)
  qed
  with Cons.IH [OF lim] s' show ?case by (simp add: case_prod_unfold Let_def)
qed

end

interpretation ng: fresh_names "\<lambda>t. namegen t ChooseVer" used "2 ^ 32"
  by unfold_locales (simp add: namegen_choose, simp only: used_after_namegen)

lemma namegens_eq: "namegens ts tags = ng.gens ts tags"
  by (induction ts arbitrary: tags) simp_all

text \<open>
  C4. Names drawn without an explicit version are pairwise distinct, whatever the tags and
  whatever was drawn before, as long as no 32-bit counter can wrap.
\<close>

theorem namegen_distinct:
  assumes "\<forall>t. used tags t + length ts \<le> 2 ^ 32"
  shows "distinct (fst (namegens ts tags))"
  unfolding namegens_eq using assms by (rule ng.gens_distinct)

lemma namegen_distinct_witness:
  "fst (namegens [''tmp'', ''tmp.0'', ''tmp''] Map.empty) = [''tmp.0'', ''tmp.0.0'', ''tmp.1''] \<and>
   distinct (fst (namegens [''tmp'', ''tmp.0'', ''tmp''] Map.empty))"
proof -
  have "\<forall>t. used Map.empty t + length [''tmp'', ''tmp.0'', ''tmp''] \<le> 2 ^ 32"
    by (simp add: used_def)
  from namegen_distinct [OF this]
  have "distinct (fst (namegens [''tmp'', ''tmp.0'', ''tmp''] Map.empty))" .
  moreover have "fst (namegens [''tmp'', ''tmp.0'', ''tmp''] Map.empty) = [''tmp.0'', ''tmp.0.0'', ''tmp.1'']"
    by code_simp
  ultimately show ?thesis by blast
qed

end
