(* ===== verification/Linemap.thy ===== *)
theory Linemap
  imports Prelude
begin

unbundle bit_operations_syntax

text \<open>
  The line map of \<^verbatim>\<open>go-llvm-linemap.cpp\<close>: class \<open>Llvm_linemap\<close> hands out 32-bit handles for
  source positions and decodes them again. A handle is the offset of a pair of ULEB128 numbers
  (line, column) in one byte array; the file is found in a table of segments sorted by their
  last handle, and a handle past the last closed segment belongs to the file being read.

  The ULEB128 coder is LLVM's (\<^verbatim>\<open>llvm/Support/LEB128.h\<close>), so it is a parameter of the model:
  the record \<open>leb128\<close>, with \<open>leb_ok\<close> for its documented round trip. \<open>uleb\<close> is the standard
  coding, the instance the witnesses run on.

  The main result is \<open>linemap_history\<close>: after any sequence of calls, every location handed out
  at any time still decodes to the file, line and column that were current when it was
  requested.
\<close>

section \<open>The coder\<close>

record leb128 =
  encodeULEB128 :: "u64 \<Rightarrow> u8 list"
  decodeULEB128 :: "u8 list \<Rightarrow> u64 \<times> u32"

definition leb_ok :: "leb128 \<Rightarrow> bool" where
  "leb_ok L \<longleftrightarrow>
     (\<forall>n rest. decodeULEB128 L (encodeULEB128 L n @ rest) = (n, of_nat (length (encodeULEB128 L n)))) \<and>
     (\<forall>n. length (encodeULEB128 L n) \<in> {1..10})"

fun uleb_bytes :: "nat \<Rightarrow> u8 list" where
  "uleb_bytes n = (if n < 128 then [of_nat n] else of_nat (n mod 128 + 128) # uleb_bytes (n div 128))"

declare uleb_bytes.simps [simp del]

fun uleb_read :: "u8 list \<Rightarrow> nat \<times> nat" where
  "uleb_read [] = (0, 0)"
| "uleb_read (b # bs) =
     (if unat b < 128 then (unat b, 1)
      else let (v, k) = uleb_read bs in (unat b - 128 + 128 * v, Suc k))"

definition uleb :: leb128 where
  "uleb = \<lparr>encodeULEB128 = (\<lambda>n. uleb_bytes (unat n)),
           decodeULEB128 = (\<lambda>bs. let (v, k) = uleb_read bs in (of_nat v, of_nat k))\<rparr>"

lemma unat_u8_of_nat: "n < 256 \<Longrightarrow> unat (of_nat n :: u8) = n"
  by (simp add: unat_of_nat)

lemma uleb_read_bytes: "uleb_read (uleb_bytes n @ rest) = (n, length (uleb_bytes n))"
proof (induction n rule: uleb_bytes.induct)
  case (1 n)
  show ?case
  proof (cases "n < 128")
    case True
    then show ?thesis by (subst (1 2) uleb_bytes.simps) (simp add: unat_u8_of_nat)
  next
    case False
    have "n mod 128 + 128 < 256" by simp
    from unat_u8_of_nat [OF this] False 1 show ?thesis
      by (subst (1 2) uleb_bytes.simps) (simp add: Let_def)
  qed
qed

lemma uleb_bytes_length: "n < 128 ^ Suc k \<Longrightarrow> length (uleb_bytes n) \<le> Suc k"
proof (induction k arbitrary: n)
  case 0
  then show ?case by (subst uleb_bytes.simps) simp
next
  case (Suc k)
  then have "n div 128 < 128 ^ Suc k" by (simp add: less_mult_imp_div_less)
  from Suc.IH [OF this] show ?case by (subst uleb_bytes.simps) simp
qed

lemma uleb_bytes_nonempty: "uleb_bytes n \<noteq> []"
  by (subst uleb_bytes.simps) simp

lemma leb_ok_uleb: "leb_ok uleb"
proof -
  have "length (uleb_bytes (unat n)) \<le> 10" for n :: u64
  proof -
    have "unat n < 2 ^ LENGTH(64)" by (rule unsigned_less)
    also have "(2::nat) ^ LENGTH(64) \<le> 128 ^ Suc 9" by simp
    finally show ?thesis using uleb_bytes_length [of "unat n" 9] by simp
  qed
  moreover have "1 \<le> length (uleb_bytes n)" for n
    using uleb_bytes_nonempty [of n] by (cases "uleb_bytes n") auto
  ultimately show ?thesis by (simp add: leb_ok_def uleb_def uleb_read_bytes)
qed

lemma leb_decode: "leb_ok L \<Longrightarrow> decodeULEB128 L (encodeULEB128 L n @ rest) = (n, of_nat (length (encodeULEB128 L n)))"
  by (simp add: leb_ok_def)

lemma leb_length: "leb_ok L \<Longrightarrow> 1 \<le> length (encodeULEB128 L n) \<and> length (encodeULEB128 L n) \<le> 10"
  by (simp add: leb_ok_def)

section \<open>The map\<close>

definition NoHandle :: u32 where
  "NoHandle = 0xffffffff"

record FLC =
  flc_fidx :: u32
  flc_line :: u32
  flc_column :: u32

record Segment =
  seg_lo :: u32
  seg_hi :: u32
  seg_fidx :: u32

record linemap =
  files :: "string list"
  fmap :: "string \<rightharpoonup> u32"
  segments :: "Segment list"
  encoded_locations :: "u8 list"
  unknown_fidx :: u32
  builtin_fidx :: u32
  current_fidx :: u32
  current_line :: u32
  builtin_handle :: u32
  unknown_handle :: u32
  firsthandle :: u32
  lasthandle :: u32
  lookups :: u32
  in_file :: bool

definition add_encoded_location :: "leb128 \<Rightarrow> FLC \<Rightarrow> linemap \<Rightarrow> (u32 \<times> linemap) option" where
  "add_encoded_location L flc s =
     (let l1 = encodeULEB128 L (ucast (flc_line flc));
          l2 = encodeULEB128 L (ucast (flc_column flc));
          handle = of_nat (length (encoded_locations s))
      in do {
        check (length l1 + length l2 \<le> 64);
        Some (handle, s\<lparr>encoded_locations := encoded_locations s @ l1 @ l2\<rparr>)
      })"

text \<open>
  \<open>std::lower_bound\<close> with \<open>Segment::cmp\<close>: the first segment whose last handle is not below the
  one asked for (the table is sorted, see \<open>lm_inv\<close>).
\<close>

definition segment_of :: "Segment list \<Rightarrow> u32 \<Rightarrow> Segment option" where
  "segment_of segs handle = List.find (\<lambda>sg. \<not> seg_hi sg < handle) segs"

definition decode_location :: "leb128 \<Rightarrow> linemap \<Rightarrow> u32 \<Rightarrow> FLC option" where
  "decode_location L s handle =
     do {
       check (unat handle < length (encoded_locations s));
       let lptr = drop (unat handle) (encoded_locations s);
       let (line, c1) = decodeULEB128 L lptr;
       let (column, c2) = decodeULEB128 L (drop (unat c1) lptr);
       check (unat (handle + c1 + c2) \<le> length (encoded_locations s));
       Some \<lparr>flc_fidx = (case segment_of (segments s) handle of
                           None \<Rightarrow> current_fidx s | Some sg \<Rightarrow> seg_fidx sg),
             flc_line = ucast line, flc_column = ucast column\<rparr>
     }"

definition start_file :: "string \<Rightarrow> u32 \<Rightarrow> linemap \<Rightarrow> linemap" where
  "start_file file_name line_begin s =
     (let s = (if firsthandle s \<noteq> NoHandle
               then s\<lparr>segments := segments s @
                        [\<lparr>seg_lo = firsthandle s, seg_hi = lasthandle s, seg_fidx = current_fidx s\<rparr>]\<rparr>
               else s);
          s = s\<lparr>firsthandle := NoHandle, lasthandle := NoHandle\<rparr>;
          (fidx, s) = (case fmap s file_name of
             Some fidx \<Rightarrow> (fidx, s)
           | None \<Rightarrow> (let fidx = of_nat (length (files s))
                     in (fidx, s\<lparr>files := files s @ [file_name], fmap := (fmap s)(file_name \<mapsto> fidx)\<rparr>)))
      in s\<lparr>current_fidx := fidx, current_line := line_begin, in_file := True\<rparr>)"

definition stop :: "linemap \<Rightarrow> linemap" where
  "stop s = s\<lparr>in_file := False\<rparr>"

definition start_line :: "u32 \<Rightarrow> u32 \<Rightarrow> linemap \<Rightarrow> linemap" where
  "start_line lineno linesize s = s\<lparr>current_line := lineno\<rparr>"

definition get_location :: "leb128 \<Rightarrow> u32 \<Rightarrow> linemap \<Rightarrow> (u32 \<times> linemap) option" where
  "get_location L column s =
     do {
       check (in_file s);
       let s = s\<lparr>lookups := lookups s + 1\<rparr>;
       (handle, s) \<leftarrow> add_encoded_location L
          \<lparr>flc_fidx = current_fidx s, flc_line = current_line s, flc_column = column\<rparr> s;
       let s = (if firsthandle s = NoHandle then s\<lparr>firsthandle := handle\<rparr> else s);
       Some (handle, s\<lparr>lasthandle := handle\<rparr>)
     }"

definition init_linemap :: "leb128 \<Rightarrow> linemap option" where
  "init_linemap L =
     do {
       let s = \<lparr>files = ['''', ''<built-in>''], fmap = Map.empty, segments = [], encoded_locations = [],
                unknown_fidx = 0, builtin_fidx = 1, current_fidx = 0, current_line = 0xffffffff,
                builtin_handle = NoHandle, unknown_handle = NoHandle,
                firsthandle = NoHandle, lasthandle = NoHandle, lookups = 0, in_file = False\<rparr>;
       (uh, s) \<leftarrow> add_encoded_location L \<lparr>flc_fidx = unknown_fidx s, flc_line = 0, flc_column = 0\<rparr> s;
       let s = s\<lparr>unknown_handle := uh\<rparr>;
       (bh, s) \<leftarrow> add_encoded_location L \<lparr>flc_fidx = builtin_fidx s, flc_line = 1, flc_column = 1\<rparr> s;
       let s = s\<lparr>builtin_handle := bh\<rparr>;
       Some (s\<lparr>segments := [\<lparr>seg_lo = uh, seg_hi = uh, seg_fidx = unknown_fidx s\<rparr>,
                            \<lparr>seg_lo = bh, seg_hi = bh, seg_fidx = builtin_fidx s\<rparr>]\<rparr>)
     }"

section \<open>Reading a location\<close>

definition location_line :: "leb128 \<Rightarrow> linemap \<Rightarrow> u32 \<Rightarrow> int option" where
  "location_line L s loc = do { flc \<leftarrow> decode_location L s loc; Some (sint (flc_line flc)) }"

definition location_file :: "leb128 \<Rightarrow> linemap \<Rightarrow> u32 \<Rightarrow> string option" where
  "location_file L s loc = do { flc \<leftarrow> decode_location L s loc; nth_opt (files s) (unat (flc_fidx flc)) }"

definition location_column :: "leb128 \<Rightarrow> linemap \<Rightarrow> u32 \<Rightarrow> u32 option" where
  "location_column L s loc = do { flc \<leftarrow> decode_location L s loc; Some (flc_column flc) }"

fun lbasename_from :: "string \<Rightarrow> string \<Rightarrow> string" where
  "lbasename_from rval [] = rval"
| "lbasename_from rval (c # cur) = lbasename_from (if c = CHR ''/'' then cur else rval) cur"

definition c_str :: "string \<Rightarrow> string" where
  "c_str s = takeWhile (\<lambda>c. c \<noteq> CHR 0x00) s"

definition lbasename :: "string \<Rightarrow> string" where
  "lbasename path = lbasename_from (c_str path) (c_str path)"

definition to_string :: "leb128 \<Rightarrow> linemap \<Rightarrow> u32 \<Rightarrow> string option" where
  "to_string L s location =
     (if location = unknown_handle s then Some ''''
      else if location = builtin_handle s then Some ''<built-in>''
      else do {
        flc \<leftarrow> decode_location L s location;
        path \<leftarrow> nth_opt (files s) (unat (flc_fidx flc));
        Some (lbasename path @ '':'' @ show_nat (unat (flc_line flc)))
      })"

definition get_initial_file :: "linemap \<Rightarrow> string" where
  "get_initial_file s = (if length (files s) < 3 then '''' else files s ! 2)"

definition get_unknown_location :: "linemap \<Rightarrow> u32" where
  "get_unknown_location s = unknown_handle s"

definition get_predeclared_location :: "linemap \<Rightarrow> u32" where
  "get_predeclared_location s = builtin_handle s"

definition is_predeclared :: "linemap \<Rightarrow> u32 \<Rightarrow> bool" where
  "is_predeclared s loc \<longleftrightarrow> loc = builtin_handle s"

definition is_unknown :: "linemap \<Rightarrow> u32 \<Rightarrow> bool" where
  "is_unknown s loc \<longleftrightarrow> loc = unknown_handle s"

text \<open>
  A client's view: the position a location stands for, and the calls that issue one. The
  event of a \<open>GetLocation\<close> is the handle with the position that was current.
\<close>

definition read_location :: "leb128 \<Rightarrow> linemap \<Rightarrow> u32 \<Rightarrow> (string \<times> u32 \<times> u32) option" where
  "read_location L s loc =
     do { flc \<leftarrow> decode_location L s loc; f \<leftarrow> location_file L s loc; Some (f, flc_line flc, flc_column flc) }"

datatype lm_op = StartFile string u32 | StartLine u32 u32 | GetLocation u32 | Stop

type_synonym lm_event = "u32 \<times> string \<times> u32 \<times> u32"

fun lm_step :: "leb128 \<Rightarrow> lm_op \<Rightarrow> linemap \<Rightarrow> (lm_event list \<times> linemap) option" where
  "lm_step L (StartFile f n) s = Some ([], start_file f n s)"
| "lm_step L (StartLine n sz) s = Some ([], start_line n sz s)"
| "lm_step L Stop s = Some ([], stop s)"
| "lm_step L (GetLocation c) s =
     do { (h, s') \<leftarrow> get_location L c s;
          Some ([(h, files s ! unat (current_fidx s), current_line s, c)], s') }"

section \<open>The invariant\<close>

definition lm_bounded :: "linemap \<Rightarrow> bool" where
  "lm_bounded s \<longleftrightarrow> length (encoded_locations s) < 2 ^ 32 \<and> length (files s) < 2 ^ 32"

definition entry_ok :: "leb128 \<Rightarrow> linemap \<Rightarrow> lm_event \<Rightarrow> bool" where
  "entry_ok L s e = (case e of (h, f, l, c) \<Rightarrow>
     unat h < length (encoded_locations s) \<and>
     (\<exists>rest. drop (unat h) (encoded_locations s) =
        encodeULEB128 L (ucast l) @ encodeULEB128 L (ucast c) @ rest) \<and>
     (case segment_of (segments s) h of
        Some sg \<Rightarrow> files s ! unat (seg_fidx sg) = f
      | None \<Rightarrow> firsthandle s \<noteq> NoHandle \<and> h \<le> lasthandle s \<and> files s ! unat (current_fidx s) = f))"

definition segs_ok :: "linemap \<Rightarrow> bool" where
  "segs_ok s \<longleftrightarrow>
     sorted_wrt (<) (map seg_hi (segments s)) \<and>
     (\<forall>sg \<in> set (segments s). unat (seg_hi sg) < length (encoded_locations s) \<and>
        unat (seg_fidx sg) < length (files s)) \<and>
     (firsthandle s \<noteq> NoHandle \<longrightarrow> unat (lasthandle s) < length (encoded_locations s) \<and>
        (\<forall>sg \<in> set (segments s). seg_hi sg < lasthandle s))"

definition files_ok :: "linemap \<Rightarrow> bool" where
  "files_ok s \<longleftrightarrow> unat (current_fidx s) < length (files s) \<and>
     (\<forall>f i. fmap s f = Some i \<longrightarrow> unat i < length (files s) \<and> files s ! unat i = f)"

definition lm_inv :: "leb128 \<Rightarrow> lm_event list \<Rightarrow> linemap \<Rightarrow> bool" where
  "lm_inv L log s \<longleftrightarrow> leb_ok L \<and> lm_bounded s \<and> files_ok s \<and> segs_ok s \<and> (\<forall>e \<in> set log. entry_ok L s e)"

lemma segment_of_append:
  "segment_of (segs @ [sg]) h =
     (case segment_of segs h of Some x \<Rightarrow> Some x | None \<Rightarrow> if seg_hi sg < h then None else Some sg)"
  by (simp add: segment_of_def find_append split: option.split)

lemma segment_of_Some_in: "segment_of segs h = Some sg \<Longrightarrow> sg \<in> set segs"
  by (auto simp: segment_of_def find_Some_iff)

lemma segment_of_None: "(\<And>sg. sg \<in> set segs \<Longrightarrow> seg_hi sg < h) \<Longrightarrow> segment_of segs h = None"
  by (auto simp: segment_of_def find_None_iff)

lemma entry_ok_decode:
  assumes "leb_ok L" "lm_bounded s" "entry_ok L s (h, f, l, c)"
  shows "decode_location L s h =
     Some \<lparr>flc_fidx = (case segment_of (segments s) h of None \<Rightarrow> current_fidx s | Some sg \<Rightarrow> seg_fidx sg),
           flc_line = l, flc_column = c\<rparr>"
proof -
  let ?el = "encodeULEB128 L (ucast l)" and ?ec = "encodeULEB128 L (ucast c)"
  obtain rest where d: "drop (unat h) (encoded_locations s) = ?el @ ?ec @ rest"
    and h: "unat h < length (encoded_locations s)" using assms(3) by (auto simp: entry_ok_def)
  have len: "unat h + length ?el + length ?ec \<le> length (encoded_locations s)"
    using arg_cong [OF d, of length] h by simp
  have "unat (of_nat (length ?el) :: u32) = length ?el" "unat (of_nat (length ?ec) :: u32) = length ?ec"
    using leb_length [OF assms(1), of "ucast l"] leb_length [OF assms(1), of "ucast c"]
    by (simp_all add: unat_of_nat)
  note c = this
  have sum: "unat (h + of_nat (length ?el) + of_nat (length ?ec)) = unat h + length ?el + length ?ec"
    using len assms(2) c by (simp add: lm_bounded_def unat_word_ariths)
  show ?thesis
    by (simp add: decode_location_def Let_def d leb_decode [OF assms(1)] c sum len h
        ucast_up_down)
qed

lemma entry_ok_read:
  assumes "lm_inv L log s" "(h, r) \<in> set log"
  shows "read_location L s h = Some r"
proof -
  obtain f l c where r: "r = (f, l, c)" by (cases r)
  have e: "entry_ok L s (h, f, l, c)" using assms r by (auto simp: lm_inv_def)
  note dec = entry_ok_decode [OF _ _ this]
  show ?thesis
  proof (cases "segment_of (segments s) h")
    case None
    with e assms(1) show ?thesis
      by (auto simp: read_location_def location_file_def dec lm_inv_def files_ok_def entry_ok_def r)
  next
    case (Some sg)
    then have "unat (seg_fidx sg) < length (files s)"
      using assms(1) segment_of_Some_in by (fastforce simp: lm_inv_def segs_ok_def)
    with Some e assms(1) show ?thesis
      by (auto simp: read_location_def location_file_def dec lm_inv_def entry_ok_def r)
  qed
qed

section \<open>Every call keeps the invariant\<close>

lemma lm_inv_stop: "lm_inv L log s \<Longrightarrow> lm_inv L log (stop s)"
  by (auto simp: lm_inv_def stop_def lm_bounded_def files_ok_def segs_ok_def entry_ok_def split: option.splits)

lemma lm_inv_start_line: "lm_inv L log s \<Longrightarrow> lm_inv L log (start_line n sz s)"
  by (auto simp: lm_inv_def start_line_def lm_bounded_def files_ok_def segs_ok_def entry_ok_def split: option.splits)

definition close_segment :: "linemap \<Rightarrow> linemap" where
  "close_segment s =
     (if firsthandle s \<noteq> NoHandle
      then s\<lparr>segments := segments s @ [\<lparr>seg_lo = firsthandle s, seg_hi = lasthandle s, seg_fidx = current_fidx s\<rparr>]\<rparr>
      else s)\<lparr>firsthandle := NoHandle, lasthandle := NoHandle\<rparr>"

definition enter_file :: "string \<Rightarrow> linemap \<Rightarrow> u32 \<times> linemap" where
  "enter_file f s = (case fmap s f of
       Some fidx \<Rightarrow> (fidx, s)
     | None \<Rightarrow> (of_nat (length (files s)),
         s\<lparr>files := files s @ [f], fmap := (fmap s)(f \<mapsto> of_nat (length (files s)))\<rparr>))"

lemma start_file_split:
  "start_file f n s = (let (fidx, t) = enter_file f (close_segment s)
     in t\<lparr>current_fidx := fidx, current_line := n, in_file := True\<rparr>)"
  by (simp add: start_file_def close_segment_def enter_file_def Let_def split: option.split)

lemma close_segment_inv:
  assumes "lm_inv L log s"
  shows "lm_inv L log (close_segment s) \<and> firsthandle (close_segment s) = NoHandle"
proof (cases "firsthandle s = NoHandle")
  case True
  with assms show ?thesis
    by (auto simp: close_segment_def lm_inv_def lm_bounded_def files_ok_def segs_ok_def entry_ok_def
        split: option.splits)
next
  case False
  let ?t = "close_segment s"
  have "files_ok ?t" "lm_bounded ?t" "leb_ok L"
    using assms False by (auto simp: close_segment_def lm_inv_def lm_bounded_def files_ok_def)
  moreover have "segs_ok ?t"
    using assms False by (auto simp: close_segment_def lm_inv_def files_ok_def segs_ok_def sorted_wrt_append)
  moreover have "entry_ok L ?t e" if "e \<in> set log" for e
  proof -
    obtain h f l c where e: "e = (h, f, l, c)" by (cases e)
    with assms that have "entry_ok L s (h, f, l, c)" by (auto simp: lm_inv_def)
    with False show ?thesis
      by (auto simp: e entry_ok_def close_segment_def segment_of_append split: option.splits)
  qed
  moreover have "firsthandle ?t = NoHandle" by (simp add: close_segment_def)
  ultimately show ?thesis by (simp add: lm_inv_def)
qed

lemma entry_ok_more_files:
  assumes "segs_ok s" "firsthandle s = NoHandle" "entry_ok L s e"
  shows "entry_ok L (s\<lparr>files := files s @ fs, fmap := m, current_fidx := i, current_line := n, in_file := b\<rparr>) e"
proof -
  obtain h f l c where e: "e = (h, f, l, c)" by (cases e)
  with assms obtain sg where sg: "segment_of (segments s) h = Some sg"
    by (auto simp: entry_ok_def split: option.splits)
  with assms(1) segment_of_Some_in have "unat (seg_fidx sg) < length (files s)"
    by (fastforce simp: segs_ok_def)
  with assms(3) sg show ?thesis by (simp add: e entry_ok_def nth_append)
qed

lemma lm_inv_start_file:
  assumes "lm_inv L log s" "lm_bounded (start_file f n s)"
  shows "lm_inv L log (start_file f n s)"
proof -
  let ?c = "close_segment s" and ?t = "start_file f n s"
  have c: "lm_inv L log ?c" "firsthandle ?c = NoHandle" using close_segment_inv [OF assms(1)] by auto
  obtain i fs m where en: "enter_file f ?c = (i, ?c\<lparr>files := files ?c @ fs, fmap := m\<rparr>)"
    "unat i < length (files ?c @ fs)" 
    "\<forall>f i. m f = Some i \<longrightarrow> unat i < length (files ?c @ fs) \<and> (files ?c @ fs) ! unat i = f"
  proof (cases "fmap ?c f")
    case (Some i)
    then have "enter_file f ?c = (i, ?c\<lparr>files := files ?c @ [], fmap := fmap ?c\<rparr>)"
      by (simp add: enter_file_def)
    with Some c show ?thesis
      by (intro that [where i = i and fs = "[]" and m = "fmap ?c"]) (auto simp: lm_inv_def files_ok_def)
  next
    case None
    let ?i = "of_nat (length (files ?c)) :: u32"
    have en: "enter_file f ?c = (?i, ?c\<lparr>files := files ?c @ [f], fmap := (fmap ?c)(f \<mapsto> ?i)\<rparr>)"
      using None by (simp add: enter_file_def)
    with assms(2) have "length (files ?c) + 1 < 2 ^ 32"
      by (simp add: start_file_split lm_bounded_def)
    then have "unat ?i = length (files ?c)" by (simp add: unat_of_nat)
    with en c show ?thesis
      by (intro that [where i = ?i and fs = "[f]" and m = "(fmap ?c)(f \<mapsto> ?i)"])
        (auto simp: lm_inv_def files_ok_def nth_append intro: less_SucI)
  qed
  have t: "?t = ?c\<lparr>files := files ?c @ fs, fmap := m, current_fidx := i, current_line := n, in_file := True\<rparr>"
    by (simp add: start_file_split en)
  have "files_ok ?t" using en(2,3) by (simp add: t files_ok_def)
  moreover have "segs_ok ?t" using c by (auto simp: t lm_inv_def segs_ok_def)
  moreover have "entry_ok L ?t e" if "e \<in> set log" for e
    unfolding t using c that by (intro entry_ok_more_files) (auto simp: lm_inv_def)
  ultimately show ?thesis using assms by (simp add: lm_inv_def)
qed

lemma get_location_Some:
  assumes "get_location L c s = Some (h, s')"
  shows "in_file s \<and> h = of_nat (length (encoded_locations s)) \<and>
    s' = s\<lparr>lookups := lookups s + 1,
           encoded_locations := encoded_locations s @ encodeULEB128 L (ucast (current_line s)) @ encodeULEB128 L (ucast c),
           firsthandle := (if firsthandle s = NoHandle then h else firsthandle s), lasthandle := h\<rparr>"
  using assms
  by (auto simp: get_location_def add_encoded_location_def Let_def opt_simps split: prod.splits if_splits)

lemma lm_inv_get_location:
  assumes inv: "lm_inv L log s" and get: "get_location L c s = Some (h, s')" and b: "lm_bounded s'"
  shows "lm_inv L (log @ [(h, files s ! unat (current_fidx s), current_line s, c)]) s'"
proof -
  note g = get_location_Some [OF get]
  let ?n = "length (encoded_locations s)"
  have L: "leb_ok L" using inv by (simp add: lm_inv_def)
  have len: "?n + 2 \<le> length (encoded_locations s')"
    using g leb_length [OF L, of "ucast (current_line s)"] leb_length [OF L, of "ucast c"] by simp
  then have n: "?n + 2 < 2 ^ 32" using b by (simp add: lm_bounded_def)
  then have h: "unat h = ?n" using g by (simp add: unat_of_nat)
  then have hn: "h \<noteq> NoHandle" using n by (auto simp: NoHandle_def)
  have below: "unat x < ?n \<Longrightarrow> x < h" for x by (simp add: h word_less_nat_alt)
  have seg: "\<forall>sg \<in> set (segments s). seg_hi sg < h"
    using inv below by (auto simp: lm_inv_def segs_ok_def)
  have "files_ok s'" using inv g by (simp add: lm_inv_def files_ok_def)
  moreover have "segs_ok s'" using inv seg h len g by (auto simp: lm_inv_def segs_ok_def)
  moreover have "entry_ok L s' (h, files s ! unat (current_fidx s), current_line s, c)"
    using h hn segment_of_None [of "segments s" h] seg len g by (auto simp: entry_ok_def)
  moreover have "entry_ok L s' e" if "e \<in> set log" for e
  proof -
    obtain h' f l c' where e: "e = (h', f, l, c')" by (cases e)
    with inv that have o: "entry_ok L s (h', f, l, c')" by (auto simp: lm_inv_def)
    then have "h' \<le> h" using below by (auto simp: entry_ok_def intro: less_imp_le)
    with o hn g show ?thesis by (auto simp: e entry_ok_def split: option.splits)
  qed
  ultimately show ?thesis using L b by (simp add: lm_inv_def)
qed

lemma lm_step_inv:
  "lm_inv L log s \<Longrightarrow> lm_step L op s = Some (ev, s') \<Longrightarrow> lm_bounded s' \<Longrightarrow> lm_inv L (log @ ev) s'"
  by (cases op) (auto simp: opt_simps lm_inv_start_file lm_inv_start_line lm_inv_stop lm_inv_get_location
      split: prod.splits)

lemma lm_step_bounded: "lm_step L op s = Some (ev, s') \<Longrightarrow> lm_bounded s' \<Longrightarrow> lm_bounded s"
  by (cases op) (auto simp: opt_simps lm_bounded_def start_file_split close_segment_def enter_file_def
      start_line_def stop_def Let_def dest!: get_location_Some split: prod.splits option.splits if_splits)

interpretation lm: stable_reads "lm_step L" "read_location L" "lm_inv L" lm_bounded
  by unfold_locales (rule lm_step_inv lm_step_bounded entry_ok_read; assumption)+

section \<open>The initial map\<close>

lemma init_linemap_Some:
  assumes "leb_ok L"
  shows "\<exists>s. init_linemap L = Some s \<and> lm_inv L [(unknown_handle s, '''', 0, 0), (builtin_handle s, ''<built-in>'', 1, 1)] s
    \<and> files s = ['''', ''<built-in>''] \<and> unknown_handle s \<noteq> builtin_handle s \<and> \<not> in_file s"
proof -
  let ?z = "encodeULEB128 L 0" and ?o = "encodeULEB128 L 1"
  have z: "1 \<le> length ?z" "length ?z \<le> 10" and o: "1 \<le> length ?o" "length ?o \<le> 10"
    using leb_length [OF assms] by auto
  let ?b = "of_nat (length ?z + length ?z) :: u32"
  have ub: "unat ?b = length ?z + length ?z" unfolding unat_of_nat using z by simp
  have b0: "0 < ?b"
    using ub z unfolding word_less_nat_alt by (cases ?z) simp_all
  have "?b \<noteq> 0" "?z \<noteq> []" "?o \<noteq> []" using b0 z o by auto
  then show ?thesis
    using z o ub b0 assms
    by (simp add: init_linemap_def add_encoded_location_def Let_def lm_inv_def lm_bounded_def
        files_ok_def segs_ok_def entry_ok_def segment_of_def NoHandle_def)
qed

section \<open>Properties\<close>

text \<open>
  C5. A location decodes for ever to the position it was requested at: run any sequence of
  \<open>start_file\<close>, \<open>start_line\<close>, \<open>get_location\<close> and \<open>stop\<close> calls on a fresh map; every handle
  issued along the way reads back, in the final state, the file, line and column that were
  current when it was issued, as long as fewer than 2^32 bytes and files are recorded.
\<close>

theorem linemap_history:
  assumes "leb_ok L" "init_linemap L = Some s" "run_ops (lm_step L) ops s = Some (evs, t)"
    and "lm_bounded t" "(h, r) \<in> set evs"
  shows "read_location L t h = Some r"
proof -
  from init_linemap_Some [OF assms(1)] assms(2) obtain log where "lm_inv L log s" by auto
  from lm.run_reads [OF this assms(3,4)] assms(5) show ?thesis by simp
qed

lemma linemap_history_witness:
  "\<exists>s t. init_linemap uleb = Some s \<and>
     run_ops (lm_step uleb) [StartFile ''a.go'' 1, GetLocation 7, StartFile ''b.go'' 300, GetLocation 2,
       StartFile ''a.go'' 9, StartLine 200 0, GetLocation 1] s
       = Some ([(4, ''a.go'', 1, 7), (6, ''b.go'', 300, 2), (9, ''a.go'', 200, 1)], t) \<and>
     read_location uleb t 4 = Some (''a.go'', 1, 7) \<and> read_location uleb t 6 = Some (''b.go'', 300, 2)"
proof -
  let ?ops = "[StartFile ''a.go'' 1, GetLocation 7, StartFile ''b.go'' 300, GetLocation 2,
       StartFile ''a.go'' 9, StartLine 200 0, GetLocation 1]"
  let ?evs = "[(4, ''a.go'', 1, 7), (6, ''b.go'', 300, 2), (9, ''a.go'', 200, 1)] :: lm_event list"
  obtain s where s: "init_linemap uleb = Some s" using init_linemap_Some [OF leb_ok_uleb] by blast
  have "(case init_linemap uleb of None \<Rightarrow> False | Some s \<Rightarrow>
      (case run_ops (lm_step uleb) ?ops s of None \<Rightarrow> False
       | Some (evs, t) \<Rightarrow> evs = ?evs \<and> length (encoded_locations t) = 12 \<and> length (files t) = 4))"
    by code_simp
  with s obtain t where t: "run_ops (lm_step uleb) ?ops s = Some (?evs, t)" "lm_bounded t"
    by (auto simp: lm_bounded_def split: option.splits)
  with s linemap_history [OF leb_ok_uleb s t] show ?thesis by auto
qed

lemma lm_step_handles: "lm_step L op s = Some (ev, s') \<Longrightarrow>
    unknown_handle s' = unknown_handle s \<and> builtin_handle s' = builtin_handle s"
  by (cases op) (auto simp: opt_simps start_file_split close_segment_def enter_file_def start_line_def
      stop_def Let_def dest!: get_location_Some split: prod.splits option.splits)

lemma run_handles: "run_ops (lm_step L) ops s = Some (evs, t) \<Longrightarrow>
    unknown_handle t = unknown_handle s \<and> builtin_handle t = builtin_handle s"
  by (induction ops arbitrary: s evs) (fastforce simp: run_ops_Cons_Some dest: lm_step_handles)+

text \<open>
  C6. The two predefined locations keep their meaning in every reachable state: the unknown
  location prints as the empty string and decodes to line 0 of the file with the empty name,
  the predeclared one prints as \<open><built-in>\<close>; they differ, and no later call changes them.
\<close>

theorem linemap_predefined:
  assumes "leb_ok L" "init_linemap L = Some s" "run_ops (lm_step L) ops s = Some (evs, t)" "lm_bounded t"
  shows "get_unknown_location t \<noteq> get_predeclared_location t \<and>
    is_unknown t (get_unknown_location s) \<and> is_predeclared t (get_predeclared_location s) \<and>
    to_string L t (get_unknown_location s) = Some '''' \<and>
    to_string L t (get_predeclared_location s) = Some ''<built-in>'' \<and>
    read_location L t (get_unknown_location s) = Some ('''', 0, 0) \<and>
    read_location L t (get_predeclared_location s) = Some (''<built-in>'', 1, 1)"
proof -
  from init_linemap_Some [OF assms(1)] assms(2)
  have inv: "lm_inv L [(unknown_handle s, '''', 0, 0), (builtin_handle s, ''<built-in>'', 1, 1)] s"
    and ne: "unknown_handle s \<noteq> builtin_handle s" by auto
  from run_handles [OF assms(3)] ne lm.run_reads [OF inv assms(3,4), of "unknown_handle s"]
    lm.run_reads [OF inv assms(3,4), of "builtin_handle s"]
  show ?thesis
    by (auto simp: get_unknown_location_def get_predeclared_location_def is_unknown_def
        is_predeclared_def to_string_def)
qed

lemma linemap_predefined_witness:
  "\<exists>s t. init_linemap uleb = Some s \<and>
     run_ops (lm_step uleb) [StartFile '''' 1, GetLocation 0] s = Some ([(4, '''', 1, 0)], t) \<and>
     to_string uleb t (get_predeclared_location s) = Some ''<built-in>''"
proof -
  obtain s where s: "init_linemap uleb = Some s" using init_linemap_Some [OF leb_ok_uleb] by blast
  have "(case init_linemap uleb of None \<Rightarrow> False | Some s \<Rightarrow>
      (case run_ops (lm_step uleb) [StartFile '''' 1, GetLocation 0] s of None \<Rightarrow> False
       | Some (evs, t) \<Rightarrow> evs = [(4, '''', 1, 0)] \<and> length (encoded_locations t) = 6 \<and> length (files t) = 3))"
    by code_simp
  with s obtain t where t: "run_ops (lm_step uleb) [StartFile '''' 1, GetLocation 0] s = Some ([(4, '''', 1, 0)], t)"
    "lm_bounded t"
    by (auto simp: lm_bounded_def split: option.splits)
  with s linemap_predefined [OF leb_ok_uleb s t] show ?thesis by blast
qed

lemma lbasename_from_char:
  "\<exists>dir. rval = dir @ cur \<and> CHR ''/'' \<notin> set dir \<Longrightarrow>
     CHR ''/'' \<notin> set (lbasename_from rval cur) \<and>
     (\<exists>pre. rval = pre @ lbasename_from rval cur \<and> (pre = [] \<or> last pre = CHR ''/''))"
proof (induction rval cur rule: lbasename_from.induct)
  case (1 rval)
  then show ?case by auto
next
  case (2 rval c cur)
  then obtain dir where dir: "rval = dir @ c # cur" "CHR ''/'' \<notin> set dir" by auto
  show ?case
  proof (cases "c = CHR ''/''")
    case True
    with 2(1) obtain pre where pre: "CHR ''/'' \<notin> set (lbasename_from cur cur)"
      "cur = pre @ lbasename_from cur cur" "pre = [] \<or> last pre = CHR ''/''" by auto
    have "rval = (dir @ [c] @ pre) @ lbasename_from cur cur" using dir pre(2) by simp
    moreover have "last (dir @ [c] @ pre) = CHR ''/''" using True pre(3) by auto
    ultimately show ?thesis using True pre(1) by (auto intro!: exI [of _ "dir @ [c] @ pre"])
  next
    case False
    with dir have "\<exists>dir. rval = dir @ cur \<and> CHR ''/'' \<notin> set dir" by (intro exI [of _ "dir @ [c]"]) auto
    with 2(1) False show ?thesis by auto
  qed
qed

text \<open>
  C7. \<open>lbasename\<close> returns the last component of a path: what follows the last slash, or the
  whole path when there is none; the result never holds a slash.
\<close>

theorem lbasename_last_component:
  "CHR ''/'' \<notin> set (lbasename path) \<and>
   (\<exists>dir. c_str path = dir @ lbasename path \<and> (dir = [] \<or> last dir = CHR ''/''))"
  unfolding lbasename_def by (rule lbasename_from_char) auto

end
