(* ===== verification/LlvmTypes.thy ===== *)
theory LlvmTypes
  imports Prelude
begin

text \<open>
  What the program uses of LLVM's type system. LLVM is not part of the repository, so its
  queries are parameters; only the data the program builds and inspects is written out.

  \<^item> \<open>llty\<close> is \<^verbatim>\<open>llvm::Type\<close> as data. LLVM uniques every type but identified structs, so pointer
    equality of types in the code is equality in the model; an identified struct is \<open>NamedTy\<close>
    of an identity, and its body, if it has one yet, lives in the context.
  \<^item> \<open>llctx\<close> is the mutable part of the \<^verbatim>\<open>LLVMContext\<close>: the bodies of identified structs.
    \<open>create_struct\<close> is \<^verbatim>\<open>StructType::create\<close>, \<open>set_body\<close> is \<^verbatim>\<open>StructType::setBody\<close>, which asserts that
    the struct has no body yet.
  \<^item> \<open>layout\<close> is the \<^verbatim>\<open>DataLayout\<close> with \<^verbatim>\<open>Type::isSized\<close>: sizes, alignments and offsets are
    whatever its functions say. \<open>layout_ok\<close> collects the documented facts the program relies
    on; \<open>x86_layout\<close> is an instance that computes them for the x86-64 layout string the
    backend installs, and is what witnesses run on.
\<close>

section \<open>Types\<close>

datatype llty =
    VoidTy
  | IntTy u32
  | FloatTy
  | DoubleTy
  | FP128Ty
  | VectorTy llty u32
  | PointerTy llty
  | ArrayTy llty u64
  | StructTy "llty list"
  | NamedTy nat
  | FunctionTy llty "llty list" bool

fun isPointerTy :: "llty \<Rightarrow> bool" where
  "isPointerTy (PointerTy t) = True" | "isPointerTy _ = False"

fun isIntegerTy :: "llty \<Rightarrow> bool" where
  "isIntegerTy (IntTy n) = True" | "isIntegerTy _ = False"

fun isArrayTy :: "llty \<Rightarrow> bool" where
  "isArrayTy (ArrayTy t n) = True" | "isArrayTy _ = False"

fun isStructTy :: "llty \<Rightarrow> bool" where
  "isStructTy (StructTy ts) = True" | "isStructTy (NamedTy i) = True" | "isStructTy _ = False"

fun isFunctionTy :: "llty \<Rightarrow> bool" where
  "isFunctionTy (FunctionTy r ps va) = True" | "isFunctionTy _ = False"

fun isVectorTy :: "llty \<Rightarrow> bool" where
  "isVectorTy (VectorTy t n) = True" | "isVectorTy _ = False"

definition isFloatTy :: "llty \<Rightarrow> bool" where
  "isFloatTy t \<longleftrightarrow> t = FloatTy"

definition isDoubleTy :: "llty \<Rightarrow> bool" where
  "isDoubleTy t \<longleftrightarrow> t = DoubleTy"

definition isAggregateType :: "llty \<Rightarrow> bool" where
  "isAggregateType t \<longleftrightarrow> isStructTy t \<or> isArrayTy t"

fun getElementType :: "llty \<Rightarrow> llty option" where
  "getElementType (PointerTy t) = Some t"
| "getElementType (ArrayTy t n) = Some t"
| "getElementType _ = None"

section \<open>Identified structs\<close>

record llctx =
  ll_next :: nat
  ll_names :: "nat \<rightharpoonup> string"
  ll_bodies :: "nat \<rightharpoonup> llty list"

definition create_struct :: "string \<Rightarrow> llctx \<Rightarrow> llty \<times> llctx" where
  "create_struct name c =
     (NamedTy (ll_next c), c\<lparr>ll_next := Suc (ll_next c), ll_names := (ll_names c)(ll_next c \<mapsto> name)\<rparr>)"

fun set_body :: "llty \<Rightarrow> llty list \<Rightarrow> llctx \<Rightarrow> llctx option" where
  "set_body (NamedTy i) ts c = do { check (ll_bodies c i = None); Some (c\<lparr>ll_bodies := (ll_bodies c)(i \<mapsto> ts)\<rparr>) }"
| "set_body _ ts c = None"

text \<open>The elements of a struct type; an opaque struct has none.\<close>

fun struct_elems :: "llctx \<Rightarrow> llty \<Rightarrow> llty list option" where
  "struct_elems c (StructTy ts) = Some ts"
| "struct_elems c (NamedTy i) = Some (case ll_bodies c i of None \<Rightarrow> [] | Some ts \<Rightarrow> ts)"
| "struct_elems c _ = None"

section \<open>The data layout\<close>

record layout =
  getTypeSizeInBits :: "llctx \<Rightarrow> llty \<Rightarrow> nat"
  getTypeAllocSize :: "llctx \<Rightarrow> llty \<Rightarrow> nat"
  getPrefTypeAlignment :: "llctx \<Rightarrow> llty \<Rightarrow> nat"
  getElementOffset :: "llctx \<Rightarrow> llty \<Rightarrow> nat \<Rightarrow> nat"
  getPointerSizeInBits :: u32
  isSized :: "llctx \<Rightarrow> llty \<Rightarrow> bool"

text \<open>
  Documented facts of \<^verbatim>\<open>DataLayout\<close> and \<^verbatim>\<open>StructLayout\<close>: an object occupies at least its data
  bytes; the fields of a struct lie in order, one after the other, inside it; an array is its
  elements at a distance of one allocation size.
\<close>

definition layout_ok :: "layout \<Rightarrow> llctx \<Rightarrow> bool" where
  "layout_ok D c \<longleftrightarrow>
     (\<forall>t. getTypeSizeInBits D c t \<le> 8 * getTypeAllocSize D c t) \<and>
     (\<forall>t ts i j. struct_elems c t = Some ts \<longrightarrow> i < j \<longrightarrow> j < length ts \<longrightarrow>
        getElementOffset D c t i + getTypeAllocSize D c (ts ! i) \<le> getElementOffset D c t j) \<and>
     (\<forall>t ts i. struct_elems c t = Some ts \<longrightarrow> i < length ts \<longrightarrow>
        getElementOffset D c t i + getTypeAllocSize D c (ts ! i) \<le> getTypeAllocSize D c t) \<and>
     (\<forall>t n. getTypeAllocSize D c (ArrayTy t n) = unat n * getTypeAllocSize D c t)"

lemma layout_bits: "layout_ok D c \<Longrightarrow> getTypeSizeInBits D c t \<le> 8 * getTypeAllocSize D c t"
  by (simp add: layout_ok_def)

lemma layout_fields_ordered:
  "layout_ok D c \<Longrightarrow> struct_elems c t = Some ts \<Longrightarrow> i < j \<Longrightarrow> j < length ts \<Longrightarrow>
   getElementOffset D c t i + getTypeAllocSize D c (ts ! i) \<le> getElementOffset D c t j"
  by (simp add: layout_ok_def)

lemma layout_field_inside:
  "layout_ok D c \<Longrightarrow> struct_elems c t = Some ts \<Longrightarrow> i < length ts \<Longrightarrow>
   getElementOffset D c t i + getTypeAllocSize D c (ts ! i) \<le> getTypeAllocSize D c t"
  by (simp add: layout_ok_def)

lemma layout_array: "layout_ok D c \<Longrightarrow> getTypeAllocSize D c (ArrayTy t n) = unat n * getTypeAllocSize D c t"
  by (simp add: layout_ok_def)

section \<open>An instance for x86-64\<close>

definition align_up :: "nat \<Rightarrow> nat \<Rightarrow> nat" where
  "align_up n a = (n + a - 1) div a * a"

fun x86_int_align :: "nat \<Rightarrow> nat" where
  "x86_int_align n = (if n \<le> 8 then 1 else if n \<le> 16 then 2 else if n \<le> 32 then 4 else 8)"

text \<open>Offset of the next field and the alignment so far, folded over (size, alignment) pairs.\<close>

fun field_offsets :: "nat \<Rightarrow> (nat \<times> nat) list \<Rightarrow> nat list" where
  "field_offsets n [] = [n]"
| "field_offsets n ((sz, al) # fs) = (let o' = align_up n al in o' # field_offsets (o' + sz) fs)"

fun x86_align :: "llty \<Rightarrow> nat" and x86_alloc :: "llty \<Rightarrow> nat" where
  "x86_align VoidTy = 1"
| "x86_align (IntTy n) = x86_int_align (unat n)"
| "x86_align FloatTy = 4"
| "x86_align DoubleTy = 8"
| "x86_align FP128Ty = 16"
| "x86_align (VectorTy t n) = 8"
| "x86_align (PointerTy t) = 8"
| "x86_align (ArrayTy t n) = x86_align t"
| "x86_align (StructTy ts) = Max (set (1 # map x86_align ts))"
| "x86_align (NamedTy i) = 1"
| "x86_align (FunctionTy r ps va) = 1"
| "x86_alloc VoidTy = 0"
| "x86_alloc (IntTy n) = align_up ((unat n + 7) div 8) (x86_int_align (unat n))"
| "x86_alloc FloatTy = 4"
| "x86_alloc DoubleTy = 8"
| "x86_alloc FP128Ty = 16"
| "x86_alloc (VectorTy t n) = unat n * x86_alloc t"
| "x86_alloc (PointerTy t) = 8"
| "x86_alloc (ArrayTy t n) = unat n * x86_alloc t"
| "x86_alloc (StructTy ts) =
     align_up (last (field_offsets 0 (map (\<lambda>t. (x86_alloc t, x86_align t)) ts)))
       (Max (set (1 # map x86_align ts)))"
| "x86_alloc (NamedTy i) = 0"
| "x86_alloc (FunctionTy r ps va) = 0"

fun x86_bits :: "llty \<Rightarrow> nat" where
  "x86_bits (IntTy n) = unat n"
| "x86_bits t = 8 * x86_alloc t"

fun x86_offset :: "llty \<Rightarrow> nat \<Rightarrow> nat" where
  "x86_offset (StructTy ts) i = field_offsets 0 (map (\<lambda>t. (x86_alloc t, x86_align t)) ts) ! i"
| "x86_offset _ i = 0"

fun x86_sized :: "llty \<Rightarrow> bool" where
  "x86_sized VoidTy = False"
| "x86_sized (NamedTy i) = False"
| "x86_sized (FunctionTy r ps va) = False"
| "x86_sized (ArrayTy t n) = x86_sized t"
| "x86_sized (StructTy ts) = list_all x86_sized ts"
| "x86_sized _ = True"

definition x86_layout :: layout where
  "x86_layout = \<lparr>getTypeSizeInBits = (\<lambda>c. x86_bits), getTypeAllocSize = (\<lambda>c. x86_alloc),
     getPrefTypeAlignment = (\<lambda>c. x86_align), getElementOffset = (\<lambda>c. x86_offset),
     getPointerSizeInBits = 64, isSized = (\<lambda>c. x86_sized)\<rparr>"

definition empty_llctx :: llctx where
  "empty_llctx = \<lparr>ll_next = 0, ll_names = Map.empty, ll_bodies = Map.empty\<rparr>"

lemma align_up_ge: "0 < a \<Longrightarrow> n \<le> align_up n a"
proof -
  assume "0 < a"
  then have "n + a - 1 < (n + a - 1) div a * a + a"
    by (metis add.commute div_mod_decomp mod_less_divisor nat_add_left_cancel_less)
  with \<open>0 < a\<close> show ?thesis by (simp add: align_up_def)
qed

lemma x86_align_pos: "0 < x86_align t"
proof (cases t)
  case (StructTy ts)
  then show ?thesis by (simp add: Max_gr_iff)
next
  case (ArrayTy u n)
  have "0 < x86_align u" for u by (induction u) (auto simp: Max_gr_iff)
  then show ?thesis by (simp add: ArrayTy)
qed auto

lemma field_offsets_length: "length (field_offsets n fs) = Suc (length fs)"
  by (induction n fs rule: field_offsets.induct) (simp_all add: Let_def)

lemma field_offsets_ge: "(\<forall>(s, a) \<in> set fs. 0 < a) \<Longrightarrow> j < length (field_offsets n fs) \<Longrightarrow> n \<le> field_offsets n fs ! j"
proof (induction n fs arbitrary: j rule: field_offsets.induct)
  case (1 n)
  then show ?case by simp
next
  case (2 n sz al fs)
  have up: "n \<le> align_up n al" using 2(2) by (intro align_up_ge) auto
  show ?case
  proof (cases j)
    case 0
    with up show ?thesis by (simp add: Let_def)
  next
    case (Suc k)
    with 2 have "align_up n al + sz \<le> field_offsets (align_up n al + sz) fs ! k"
      by (simp add: Let_def)
    with up Suc show ?thesis by (simp add: Let_def)
  qed
qed

lemma field_offsets_step:
  "(\<forall>(s, a) \<in> set fs. 0 < a) \<Longrightarrow> i < j \<Longrightarrow> j < length (field_offsets n fs) \<Longrightarrow>
   field_offsets n fs ! i + fst (fs ! i) \<le> field_offsets n fs ! j"
proof (induction n fs arbitrary: i j rule: field_offsets.induct)
  case (1 n)
  then show ?case by simp
next
  case (2 n sz al fs)
  from 2(3) obtain j' where j: "j = Suc j'" by (cases j) auto
  show ?case
  proof (cases i)
    case 0
    with 2 j show ?thesis
      by (auto simp: Let_def intro!: field_offsets_ge)
  next
    case (Suc i')
    with 2 j show ?thesis by (simp add: Let_def)
  qed
qed

lemma layout_ok_x86: "ll_bodies c = Map.empty \<Longrightarrow> layout_ok x86_layout c"
proof -
  assume c: "ll_bodies c = Map.empty"
  have bits: "x86_bits t \<le> 8 * x86_alloc t" for t
  proof (cases t)
    case (IntTy n)
    have "(unat n + 7) div 8 \<le> x86_alloc t"
      unfolding IntTy x86_alloc.simps by (intro align_up_ge) simp
    with IntTy show ?thesis by simp
  qed simp_all
  have ord: "x86_offset t i + x86_alloc (ts ! i) \<le> x86_offset t j"
    if "struct_elems c t = Some ts" "i < j" "j < length ts" for t ts i j
    using that field_offsets_step [of "map (\<lambda>t. (x86_alloc t, x86_align t)) ts" i j 0] c
    by (cases t) (auto simp: field_offsets_length x86_align_pos)
  have ins: "x86_offset t i + x86_alloc (ts ! i) \<le> x86_alloc t"
    if "struct_elems c t = Some ts" "i < length ts" for t ts i
  proof -
    from that c have t: "t = StructTy ts" by (cases t) auto
    let ?fs = "map (\<lambda>t. (x86_alloc t, x86_align t)) ts"
    have "field_offsets 0 ?fs ! i + fst (?fs ! i) \<le> field_offsets 0 ?fs ! length ts"
      using that by (intro field_offsets_step) (auto simp: field_offsets_length x86_align_pos)
    moreover have "field_offsets 0 ?fs ! length ts = last (field_offsets 0 ?fs)"
      by (subst last_conv_nth) (auto simp: field_offsets_length simp flip: length_0_conv)
    moreover have "last (field_offsets 0 ?fs) \<le> x86_alloc t"
      unfolding t x86_alloc.simps
      by (rule align_up_ge) (simp add: Max_gr_iff)
    ultimately show ?thesis using that t by simp
  qed
  show ?thesis using bits ord ins by (auto simp: layout_ok_def x86_layout_def)
qed

end
