(* ===== verification/Btypes.thy ===== *)
theory Btypes
  imports LlvmTypes
begin

unbundle bit_operations_syntax

text \<open>
  The backend's types (\<^verbatim>\<open>go-llvm-btype.h\<close>, \<^verbatim>\<open>go-llvm-btype.cpp\<close>): class \<open>Btype\<close> and its
  subclasses. The type manager mutates and shares these objects, so they live in a heap:
  \<open>tref\<close> is a \<open>Btype *\<close>, \<open>theap\<close> maps addresses to objects, a null pointer is \<open>None\<close>. The
  subclass data is the datatype \<open>btkind\<close>; \<open>flavor\<close> is the tag the code switches on.

  \<open>bt_equal\<close> is \<open>Btype::equal\<close>. It follows pointers, which may form cycles once placeholders
  are resolved, so it takes fuel; \<open>bt_equal_total\<close> says how much is enough on an acyclic type.
  The lemmas make it the equality of a hash table: symmetric, and compatible with
  \<open>Btype::hash\<close>.
\<close>

section \<open>Objects\<close>

type_synonym tref = nat
type_synonym location = u32

text \<open>
  A length expression of an array type: the node and, when its value is a \<open>ConstantInt\<close>, that
  value (\<open>getZExtValue\<close>).
\<close>

record lenexpr =
  le_node :: nat
  le_const :: "u64 option"

record tident =
  ti_name :: string
  ti_btype :: tref
  ti_location :: location

text \<open>
  The width of a float type is missing where the object is a plain \<open>Btype\<close> (\<open>None\<close>): cloning makes one, see below.
\<close>

datatype btkind =
    KArray "tref option" "lenexpr option"
  | KFloat "u32 option"
  | KFunction "tref option" "tref list" "tref list" tref bool
  | KInteger bool u32
  | KPointer "tref option"
  | KStruct "tident list"
  | KAux

datatype TyFlavor = ArrayT | FloatT | FunctionT | IntegerT | PointerT | StructT | AuxT

fun flavor :: "btkind \<Rightarrow> TyFlavor" where
  "flavor (KArray e n) = ArrayT"
| "flavor (KFloat b) = FloatT"
| "flavor (KFunction r ps rs t c) = FunctionT"
| "flavor (KInteger u b) = IntegerT"
| "flavor (KPointer t) = PointerT"
| "flavor (KStruct fs) = StructT"
| "flavor KAux = AuxT"

fun flavor_code :: "TyFlavor \<Rightarrow> u32" where
  "flavor_code ArrayT = 0"
| "flavor_code FloatT = 1"
| "flavor_code FunctionT = 2"
| "flavor_code IntegerT = 3"
| "flavor_code PointerT = 4"
| "flavor_code StructT = 5"
| "flavor_code AuxT = 6"

record btype =
  bt_name :: string
  bt_type :: "llty option"
  bt_location :: location
  bt_placeholder :: bool
  bt_kind :: btkind

type_synonym theap = "tref \<rightharpoonup> btype"

section \<open>Constructors\<close>

definition mk_btype :: "btkind \<Rightarrow> llty option \<Rightarrow> location \<Rightarrow> btype" where
  "mk_btype k t loc = \<lparr>bt_name = '''', bt_type = t, bt_location = loc, bt_placeholder = False, bt_kind = k\<rparr>"

definition mk_integer :: "bool \<Rightarrow> u32 \<Rightarrow> llty option \<Rightarrow> location \<Rightarrow> btype" where
  "mk_integer isUnsigned bits t loc = mk_btype (KInteger isUnsigned bits) t loc"

definition mk_float :: "u32 \<Rightarrow> llty option \<Rightarrow> location \<Rightarrow> btype" where
  "mk_float bits t loc = mk_btype (KFloat (Some bits)) t loc"

definition mk_struct :: "tident list \<Rightarrow> llty option \<Rightarrow> location \<Rightarrow> btype" where
  "mk_struct fs t loc = mk_btype (KStruct fs) t loc"

definition mk_placeholder :: "btkind \<Rightarrow> string \<Rightarrow> location \<Rightarrow> btype" where
  "mk_placeholder k name loc = (mk_btype k None loc)\<lparr>bt_placeholder := True, bt_name := name\<rparr>"

definition mk_struct_placeholder :: "string \<Rightarrow> location \<Rightarrow> btype" where
  "mk_struct_placeholder = mk_placeholder (KStruct [])"

definition mk_array_placeholder :: "string \<Rightarrow> location \<Rightarrow> btype" where
  "mk_array_placeholder = mk_placeholder (KArray None None)"

definition mk_pointer_placeholder :: "string \<Rightarrow> location \<Rightarrow> btype" where
  "mk_pointer_placeholder = mk_placeholder (KPointer None)"

text \<open>The constructors of array and pointer types dereference the element type.\<close>

definition mk_array :: "theap \<Rightarrow> tref option \<Rightarrow> lenexpr option \<Rightarrow> llty option \<Rightarrow> location \<Rightarrow> btype option" where
  "mk_array h elemType nelements t loc =
     do { e \<leftarrow> elemType; et \<leftarrow> h e;
          Some ((mk_btype (KArray elemType nelements) t loc)\<lparr>bt_placeholder := bt_placeholder et\<rparr>) }"

definition mk_pointer :: "theap \<Rightarrow> tref option \<Rightarrow> llty option \<Rightarrow> location \<Rightarrow> btype option" where
  "mk_pointer h toType t loc =
     do { e \<leftarrow> toType; et \<leftarrow> h e;
          Some ((mk_btype (KPointer toType) t loc)\<lparr>bt_placeholder := bt_placeholder et\<rparr>) }"

definition mk_function :: "tref option \<Rightarrow> tref list \<Rightarrow> tref list \<Rightarrow> tref \<Rightarrow> llty option \<Rightarrow> bool \<Rightarrow> location \<Rightarrow> btype option" where
  "mk_function receiver params results rtype t followsCabi loc =
     do { (case receiver of None \<Rightarrow> Some () | Some r \<Rightarrow> check (params \<noteq> [] \<and> hd params = r));
          Some (mk_btype (KFunction receiver params results rtype followsCabi) t loc) }"

section \<open>Queries\<close>

definition isUnresolvedPlaceholder :: "btype \<Rightarrow> bool" where
  "isUnresolvedPlaceholder b = (if flavor (bt_kind b) = StructT then False else bt_placeholder b)"

definition nelSize :: "lenexpr option \<Rightarrow> u64 option" where
  "nelSize nelements = do { le \<leftarrow> nelements; le_const le }"

fun fields_equal :: "(tref \<Rightarrow> tref \<Rightarrow> bool option) \<Rightarrow> tident list \<Rightarrow> tident list \<Rightarrow> bool option" where
  "fields_equal eq (f # ft) (g # fo) =
     do { b \<leftarrow> eq (ti_btype f) (ti_btype g);
          if \<not> b then Some False
          else if ti_name f \<noteq> ti_name g then Some False
          else if ti_location f \<noteq> ti_location g then Some False
          else fields_equal eq ft fo }"
| "fields_equal eq _ _ = Some True"

fun types_equal :: "(tref \<Rightarrow> tref \<Rightarrow> bool option) \<Rightarrow> tref list \<Rightarrow> tref list \<Rightarrow> bool option" where
  "types_equal eq (p # pt) (q # po) =
     do { b \<leftarrow> eq p q; if \<not> b then Some False else types_equal eq pt po }"
| "types_equal eq _ _ = Some True"

definition opt_equal :: "(tref \<Rightarrow> tref \<Rightarrow> bool option) \<Rightarrow> tref option \<Rightarrow> tref option \<Rightarrow> bool option" where
  "opt_equal eq p q = do { x \<leftarrow> p; y \<leftarrow> q; eq x y }"

definition func_equal :: "(tref \<Rightarrow> tref \<Rightarrow> bool option) \<Rightarrow>
    tref option \<Rightarrow> tref list \<Rightarrow> tref \<Rightarrow> bool \<Rightarrow> tref option \<Rightarrow> tref list \<Rightarrow> tref \<Rightarrow> bool \<Rightarrow> bool option" where
  "func_equal eq r pt t c r' po t' c' =
     (if (r \<noteq> None) \<noteq> (r' \<noteq> None) then Some False
      else do {
        b \<leftarrow> (if r \<noteq> None then opt_equal eq r r' else Some True);
        if \<not> b then Some False
        else do {
          b \<leftarrow> eq t t';
          if \<not> b then Some False
          else if length pt \<noteq> length po then Some False
          else do {
            b \<leftarrow> types_equal eq pt po;
            if \<not> b then Some False else Some (c = c')
          }
        }
      })"

fun kinds_equal :: "(tref \<Rightarrow> tref \<Rightarrow> bool option) \<Rightarrow> btkind \<Rightarrow> btkind \<Rightarrow> bool option" where
  "kinds_equal eq KAux KAux = Some True"
| "kinds_equal eq (KFloat b) (KFloat b') = Some True"
| "kinds_equal eq (KInteger u b) (KInteger u' b') = Some (u = u')"
| "kinds_equal eq (KPointer p) (KPointer q) =
     (if (p \<noteq> None) \<noteq> (q \<noteq> None) then Some False else opt_equal eq p q)"
| "kinds_equal eq (KArray e n) (KArray e' n') =
     (if (e \<noteq> None) \<noteq> (e' \<noteq> None) then Some False
      else do { s \<leftarrow> nelSize n; s' \<leftarrow> nelSize n';
                if s \<noteq> s' then Some False else opt_equal eq e e' })"
| "kinds_equal eq (KStruct ft) (KStruct fo) =
     (if length ft \<noteq> length fo then Some False else fields_equal eq ft fo)"
| "kinds_equal eq (KFunction r pt rs t c) (KFunction r' po rs' t' c') = func_equal eq r pt t c r' po t' c'"
| "kinds_equal eq _ _ = Some False"

fun bt_equal :: "nat \<Rightarrow> theap \<Rightarrow> tref \<Rightarrow> tref \<Rightarrow> bool option" where
  "bt_equal 0 h x y = None"
| "bt_equal (Suc n) h x y =
     (if x = y then Some True
      else do {
        a \<leftarrow> h x; b \<leftarrow> h y;
        if flavor (bt_kind a) \<noteq> flavor (bt_kind b) then Some False
        else if bt_name a \<noteq> bt_name b then Some False
        else if bt_placeholder a \<noteq> bt_placeholder b then Some False
        else if bt_type a \<noteq> bt_type b then Some False
        else kinds_equal (\<lambda>p q. bt_equal n h p q) (bt_kind a) (bt_kind b)
      })"

text \<open>
  \<open>this->equal(*y)\<close> for an object \<open>a\<close> that is not itself \<open>y\<close>, such as a candidate on the stack.
\<close>

definition obj_equal :: "nat \<Rightarrow> theap \<Rightarrow> btype \<Rightarrow> tref \<Rightarrow> bool option" where
  "obj_equal n h a y =
     do {
       b \<leftarrow> h y;
       if flavor (bt_kind a) \<noteq> flavor (bt_kind b) then Some False
       else if bt_name a \<noteq> bt_name b then Some False
       else if bt_placeholder a \<noteq> bt_placeholder b then Some False
       else if bt_type a \<noteq> bt_type b then Some False
       else kinds_equal (\<lambda>p q. bt_equal n h p q) (bt_kind a) (bt_kind b)
     }"

lemma bt_equal_obj_equal:
  "bt_equal (Suc n) h x y = (if x = y then Some True else do { a \<leftarrow> h x; obj_equal n h a y })"
  by (simp add: obj_equal_def)

text \<open>The standard library's hash functions are parameters.\<close>

record hashers =
  hash_string :: "string \<Rightarrow> u64"
  hash_type :: "llty option \<Rightarrow> u64"

definition bt_hash :: "hashers \<Rightarrow> btype \<Rightarrow> u32" where
  "bt_hash H b =
     (let hv = flavor_code (flavor (bt_kind b));
          hn = hash_string H (bt_name b);
          ht = hash_type H (bt_type b)
      in ucast (push_bit 3 (hn + ht) OR (ucast hv :: u64)))"

text \<open>
  \<open>Btype::clone\<close>: the subclass constructors are called again, so cloning a pointer or array
  type whose element type is not set yet dereferences a null pointer. The case of the float types makes an object
  of the base class: the part of \<open>BFloatType\<close>, with the width, is not there.
\<close>

definition bt_clone :: "theap \<Rightarrow> btype \<Rightarrow> btype option" where
  "bt_clone h b =
     do {
       r \<leftarrow> (case bt_kind b of
          KAux \<Rightarrow> Some (mk_btype KAux (bt_type b) (bt_location b))
        | KFloat bits \<Rightarrow> Some (mk_btype (KFloat None) (bt_type b) (bt_location b))
        | KInteger u bits \<Rightarrow> Some (mk_integer u bits (bt_type b) (bt_location b))
        | KPointer t \<Rightarrow> mk_pointer h t (bt_type b) (bt_location b)
        | KArray e n \<Rightarrow> mk_array h e n (bt_type b) (bt_location b)
        | KStruct fs \<Rightarrow> Some (mk_struct fs (bt_type b) (bt_location b))
        | KFunction rc ps rs t c \<Rightarrow> mk_function rc ps rs t (bt_type b) c (bt_location b));
       Some (r\<lparr>bt_placeholder := bt_placeholder b, bt_name := bt_name b\<rparr>)
     }"

section \<open>Equality and hashing\<close>

lemma fields_equal_sym:
  "(\<And>p q. eq p q = eq q p) \<Longrightarrow> fields_equal eq fs gs = fields_equal eq gs fs"
  by (induction eq fs gs rule: fields_equal.induct) (auto split: bind_splits list.splits)

lemma types_equal_sym:
  "(\<And>p q. eq p q = eq q p) \<Longrightarrow> types_equal eq fs gs = types_equal eq gs fs"
  by (induction eq fs gs rule: types_equal.induct) (auto split: bind_splits)

lemma opt_equal_sym: "(\<And>p q. eq p q = eq q p) \<Longrightarrow> opt_equal eq p q = opt_equal eq q p"
  by (cases p; cases q) (auto simp: opt_equal_def)

lemma kinds_equal_sym:
  assumes "\<And>p q. eq p q = eq q p"
  shows "kinds_equal eq a b = kinds_equal eq b a"
proof -
  note sym = assms opt_equal_sym [of eq, OF assms] fields_equal_sym [of eq, OF assms]
    types_equal_sym [of eq, OF assms]
  have func: "func_equal eq r pt t c r' po t' c' = func_equal eq r' po t' c' r pt t c" for r pt t c r' po t' c'
    by (auto simp: func_equal_def sym split: bind_splits)
  show ?thesis
    by (cases a; cases b) (auto simp: sym func split: bind_splits)
qed

lemma bt_equal_refl [simp]: "bt_equal (Suc n) h x x = Some True"
  by simp

lemma bt_equal_sym: "bt_equal n h x y = bt_equal n h y x"
proof (induction n arbitrary: x y)
  case 0
  then show ?case by simp
next
  case (Suc n)
  have "kinds_equal (\<lambda>p q. bt_equal n h p q) a b = kinds_equal (\<lambda>p q. bt_equal n h p q) b a" for a b
    by (rule kinds_equal_sym) (rule Suc.IH)
  then show ?case by (auto split: bind_splits)
qed

text \<open>More fuel does not change an answer.\<close>

lemma fields_equal_mono:
  "(\<And>p q b. eq p q = Some b \<Longrightarrow> eq' p q = Some b) \<Longrightarrow> fields_equal eq fs gs = Some b \<Longrightarrow> fields_equal eq' fs gs = Some b"
  by (induction eq fs gs rule: fields_equal.induct) (auto simp: opt_simps split: if_splits)

lemma types_equal_mono:
  "(\<And>p q b. eq p q = Some b \<Longrightarrow> eq' p q = Some b) \<Longrightarrow> types_equal eq fs gs = Some b \<Longrightarrow> types_equal eq' fs gs = Some b"
  by (induction eq fs gs rule: types_equal.induct) (auto simp: opt_simps split: if_splits)

lemma opt_equal_mono:
  "(\<And>p q b. eq p q = Some b \<Longrightarrow> eq' p q = Some b) \<Longrightarrow> opt_equal eq p q = Some b \<Longrightarrow> opt_equal eq' p q = Some b"
  by (auto simp: opt_equal_def opt_simps)

lemma func_equal_mono:
  assumes "\<And>p q b. eq p q = Some b \<Longrightarrow> eq' p q = Some b" "func_equal eq r pt t c r' po t' c' = Some b"
  shows "func_equal eq' r pt t c r' po t' c' = Some b"
proof (cases "(r \<noteq> None) = (r' \<noteq> None)")
  case False
  with assms(2) show ?thesis by (simp add: func_equal_def)
next
  case True
  let ?R = "\<lambda>eq. if r \<noteq> None then opt_equal eq r r' else Some True"
  obtain b1 where b1: "?R eq = Some b1" using assms(2) True by (auto simp: func_equal_def bind_Some_iff)
  then have R: "?R eq' = Some b1" using opt_equal_mono [of eq eq', OF assms(1)] by (auto split: if_splits)
  show ?thesis
  proof (cases b1)
    case False
    with b1 R True assms(2) show ?thesis by (simp add: func_equal_def)
  next
    case b1': True
    obtain b2 where b2: "eq t t' = Some b2" using assms(2) True b1 b1' by (auto simp: func_equal_def bind_Some_iff)
    then have b2': "eq' t t' = Some b2" by (rule assms(1))
    show ?thesis
    proof (cases "b2 \<and> length pt = length po")
      case False
      with b1 R b1' b2 b2' True assms(2) show ?thesis by (auto simp: func_equal_def)
    next
      case b2'': True
      obtain b3 where b3: "types_equal eq pt po = Some b3"
        using assms(2) True b1 b1' b2 b2'' by (auto simp: func_equal_def bind_Some_iff)
      then have "types_equal eq' pt po = Some b3" by (rule types_equal_mono [rotated]) (rule assms(1))
      with b1 R b1' b2 b2' b2'' b3 True assms(2) show ?thesis by (simp add: func_equal_def)
    qed
  qed
qed

lemma kinds_equal_mono:
  assumes "\<And>p q b. eq p q = Some b \<Longrightarrow> eq' p q = Some b" "kinds_equal eq x y = Some b"
  shows "kinds_equal eq' x y = Some b"
proof -
  have mono: "opt_equal eq p q = Some b \<Longrightarrow> opt_equal eq' p q = Some b"
    "fields_equal eq fs gs = Some b \<Longrightarrow> fields_equal eq' fs gs = Some b"
    "func_equal eq r pt t c r' po t' c' = Some b \<Longrightarrow> func_equal eq' r pt t c r' po t' c' = Some b"
    for p q b fs gs r pt t c r' po t' c'
    by (erule opt_equal_mono [rotated] fields_equal_mono [rotated] func_equal_mono [rotated], rule assms(1), assumption)+
  show ?thesis
  proof (cases x)
    case (KArray e n)
    show ?thesis
    proof (cases y)
      case y: (KArray e' n')
      show ?thesis
      proof (cases "opt_equal eq e e'")
        case None
        with assms(2) show ?thesis by (auto simp: KArray y bind_Some_iff split: if_splits)
      next
        case (Some c)
        with mono(1) [OF Some] assms(2) show ?thesis by (auto simp: KArray y bind_Some_iff split: if_splits)
      qed
    qed (use assms(2) KArray in simp_all)
  next
    case (KPointer p)
    with assms(2) mono(1) show ?thesis by (cases y) (auto split: if_splits)
  next
    case (KFunction r ps rs t c)
    with assms(2) mono(3) show ?thesis by (cases y) simp_all
  next
    case (KStruct fs)
    with assms(2) mono(2) show ?thesis by (cases y) (auto split: if_splits)
  qed (use assms(2) in \<open>cases y; simp\<close>)+
qed

lemma bt_equal_mono: "bt_equal n h x y = Some b \<Longrightarrow> n \<le> m \<Longrightarrow> bt_equal m h x y = Some b"
proof (induction n arbitrary: m x y b)
  case 0
  then show ?case by simp
next
  case (Suc n)
  then obtain m' where m: "m = Suc m'" "n \<le> m'" by (cases m) auto
  have "kinds_equal (\<lambda>p q. bt_equal m' h p q) u v = Some c"
    if "kinds_equal (\<lambda>p q. bt_equal n h p q) u v = Some c" for u v c
    using that Suc.IH [OF _ m(2)] by (rule kinds_equal_mono [rotated])
  with Suc.prems(1) show ?case by (auto simp: m(1) opt_simps split: if_splits)
qed

text \<open>An acyclic heap: every reference leads to an object of smaller rank, and none is missing.\<close>

fun kind_refs :: "btkind \<Rightarrow> tref option list" where
  "kind_refs (KArray e n) = [e]"
| "kind_refs (KFunction r ps rs t c) =
     (case r of None \<Rightarrow> [] | Some x \<Rightarrow> [Some x]) @ Some t # map Some ps"
| "kind_refs (KPointer t) = [t]"
| "kind_refs (KStruct fs) = map (\<lambda>f. Some (ti_btype f)) fs"
| "kind_refs _ = []"

definition nel_known :: "btkind \<Rightarrow> bool" where
  "nel_known k = (case k of KArray e n \<Rightarrow> nelSize n \<noteq> None | _ \<Rightarrow> True)"

definition acyclic_heap :: "theap \<Rightarrow> (tref \<Rightarrow> nat) \<Rightarrow> bool" where
  "acyclic_heap h rank \<longleftrightarrow>
     (\<forall>x b. h x = Some b \<longrightarrow> nel_known (bt_kind b) \<and>
        (\<forall>r \<in> set (kind_refs (bt_kind b)). \<exists>y. r = Some y \<and> y \<in> dom h \<and> rank y < rank x))"

definition eq_answers :: "(tref \<Rightarrow> tref \<Rightarrow> bool option) \<Rightarrow> btkind \<Rightarrow> btkind \<Rightarrow> bool" where
  "eq_answers eq a b \<longleftrightarrow>
     (\<forall>p q. Some p \<in> set (kind_refs a) \<longrightarrow> Some q \<in> set (kind_refs b) \<longrightarrow> eq p q \<noteq> None)"

lemma fields_equal_answers:
  "(\<And>p q. p \<in> ti_btype ` set fs \<Longrightarrow> q \<in> ti_btype ` set gs \<Longrightarrow> eq p q \<noteq> None) \<Longrightarrow> fields_equal eq fs gs \<noteq> None"
proof (induction eq fs gs rule: fields_equal.induct)
  case (1 eq f ft g fo)
  from 1(2) have "eq (ti_btype f) (ti_btype g) \<noteq> None" by simp
  then obtain b where "eq (ti_btype f) (ti_btype g) = Some b" by blast
  with 1 show ?case by auto
qed auto

lemma types_equal_answers:
  "(\<And>p q. p \<in> set fs \<Longrightarrow> q \<in> set gs \<Longrightarrow> eq p q \<noteq> None) \<Longrightarrow> types_equal eq fs gs \<noteq> None"
proof (induction eq fs gs rule: types_equal.induct)
  case (1 eq p pt q po)
  from 1(2) have "eq p q \<noteq> None" by simp
  then obtain b where "eq p q = Some b" by blast
  with 1 show ?case by auto
qed auto

lemma kinds_equal_answers:
  assumes "eq_answers eq a b" "nel_known a" "nel_known b"
    and "None \<notin> set (kind_refs a)" "None \<notin> set (kind_refs b)"
  shows "kinds_equal eq a b \<noteq> None"
proof -
  consider (func) r pt rs t c r' po rs' t' c' where "a = KFunction r pt rs t c" "b = KFunction r' po rs' t' c'"
    | (strct) ft fo where "a = KStruct ft" "b = KStruct fo"
    | (arr) e n e' n' where "a = KArray (Some e) n" "b = KArray (Some e') n'"
    | (ptr) p q where "a = KPointer (Some p)" "b = KPointer (Some q)"
    | (other) "\<nexists>p q. a = KPointer (Some p) \<and> b = KPointer (Some q)"
      "\<nexists>e n e' n'. a = KArray (Some e) n \<and> b = KArray (Some e') n'"
      "\<nexists>r pt rs t c r' po rs' t' c'. a = KFunction r pt rs t c \<and> b = KFunction r' po rs' t' c'"
      "\<nexists>ft fo. a = KStruct ft \<and> b = KStruct fo" by blast
  then show ?thesis
  proof cases
    case func
    have t: "eq t t' \<noteq> None" using assms(1) func by (auto simp: eq_answers_def)
    have r: "opt_equal eq r r' \<noteq> None" if "r \<noteq> None" "r' \<noteq> None"
      using assms(1) func that by (auto simp: eq_answers_def opt_equal_def)
    have p: "types_equal eq pt po \<noteq> None"
      using assms(1) func by (intro types_equal_answers) (auto simp: eq_answers_def)
    from t p obtain b1 b2 where "eq t t' = Some b1" "types_equal eq pt po = Some b2" by blast
    with r show ?thesis by (cases r; cases r') (auto simp: func func_equal_def bind_None_iff)
  next
    case strct
    have "fields_equal eq ft fo \<noteq> None"
      using assms(1) strct by (intro fields_equal_answers) (auto simp: eq_answers_def image_iff)
    then show ?thesis by (cases "length ft = length fo") (simp_all add: strct)
  next
    case arr
    with assms show ?thesis by (auto simp: eq_answers_def opt_equal_def nel_known_def bind_None_iff)
  next
    case ptr
    with assms show ?thesis by (auto simp: eq_answers_def opt_equal_def)
  next
    case other
    with assms show ?thesis
      by (cases a; cases b) (auto simp: eq_answers_def opt_equal_def)
  qed
qed

text \<open>
  The comparison follows pairs of references; the two types are equal exactly when they carry
  the same tag, name, placeholder mark and LLVM type and their parts are equal. Hence equal
  types have equal hashes, which is what the type manager's hash table asks of the pair.
\<close>

lemma bt_equal_same_head:
  assumes "bt_equal n h x y = Some True" "h x = Some a" "h y = Some b"
  shows "flavor (bt_kind a) = flavor (bt_kind b) \<and> bt_name a = bt_name b \<and>
    bt_placeholder a = bt_placeholder b \<and> bt_type a = bt_type b"
  using assms by (cases n) (auto split: if_splits)

lemma bt_hash_cong:
  "flavor (bt_kind a) = flavor (bt_kind b) \<Longrightarrow> bt_name a = bt_name b \<Longrightarrow> bt_type a = bt_type b \<Longrightarrow>
   bt_hash H a = bt_hash H b"
  by (simp add: bt_hash_def)

lemma flavor_code_less: "flavor_code f < 7"
  by (cases f) auto

lemma flavor_code_inject: "flavor_code f = flavor_code g \<longleftrightarrow> f = g"
  by (cases f; cases g) auto

text \<open>
  The low three bits of a hash are the tag: types of different flavours never collide.
\<close>

lemma bt_hash_flavor: "bt_hash H a AND 7 = flavor_code (flavor (bt_kind a))"
proof -
  have "((ucast (push_bit 3 w OR (ucast v :: u64)) :: u32) AND 7) = v AND 7" for w :: u64 and v :: u32
  proof (rule bit_word_eqI)
    fix n
    assume n: "n < LENGTH(32)"
    have seven: "(7 :: u32) = mask 3" by (simp add: mask_eq_exp_minus_1)
    from n show "bit ((ucast (push_bit 3 w OR (ucast v :: u64)) :: u32) AND 7) n = bit (v AND 7) n"
      by (auto simp: bit_simps seven bit_mask_iff)
  qed
  moreover have "flavor_code f AND 7 = flavor_code f" for f by (cases f) auto
  ultimately show ?thesis by (simp add: bt_hash_def Let_def)
qed

text \<open>A clone is a type of its own that the comparison cannot tell from its source.\<close>

lemma opt_equal_refl: "(\<And>p. eq p p = Some True) \<Longrightarrow> None \<noteq> p \<Longrightarrow> opt_equal eq p p = Some True"
  by (cases p) (auto simp: opt_equal_def)

lemma kinds_equal_refl_refs:
  "(\<And>p. eq p p = Some True) \<Longrightarrow> nel_known k \<Longrightarrow> None \<notin> set (kind_refs k) \<Longrightarrow> kinds_equal eq k k = Some True"
proof (cases k)
  case (KStruct fs)
  assume "\<And>p. eq p p = Some True"
  then have "fields_equal eq gs gs = Some True" for gs by (induction gs) auto
  then show ?thesis by (simp add: KStruct)
next
  case (KFunction r ps rs t c)
  assume refl: "\<And>p. eq p p = Some True"
  then have "types_equal eq gs gs = Some True" for gs by (induction gs) auto
  with refl show ?thesis by (cases r) (auto simp: KFunction func_equal_def opt_equal_def)
qed (auto simp: nel_known_def opt_equal_refl)

text \<open>What cloning needs: an element type that is there, and a receiver that is the first parameter.\<close>

definition cloneable :: "theap \<Rightarrow> btkind \<Rightarrow> bool" where
  "cloneable h k \<longleftrightarrow>
     (case k of
        KPointer t \<Rightarrow> (\<exists>x. t = Some x \<and> h x \<noteq> None)
      | KArray e n \<Rightarrow> (\<exists>x. e = Some x \<and> h x \<noteq> None)
      | KFunction (Some r) ps rs t c \<Rightarrow> ps \<noteq> [] \<and> hd ps = r
      | _ \<Rightarrow> True)"

definition sliced :: "btkind \<Rightarrow> btkind" where
  "sliced k = (case k of KFloat bits \<Rightarrow> KFloat None | _ \<Rightarrow> k)"

lemma bt_clone_eq: "bt_clone h b = (if cloneable h (bt_kind b) then Some (b\<lparr>bt_kind := sliced (bt_kind b)\<rparr>) else None)"
  by (cases b; cases "bt_kind b")
     (auto simp: bt_clone_def mk_btype_def mk_integer_def mk_struct_def mk_pointer_def mk_array_def mk_function_def
       cloneable_def sliced_def check_def bind_None_iff split: option.split)

lemma kinds_equal_sliced: "kinds_equal eq k k = Some True \<Longrightarrow> kinds_equal eq k (sliced k) = Some True \<and> kinds_equal eq (sliced k) k = Some True"
  by (cases k) (auto simp: sliced_def)


text \<open>
  C9. On an acyclic heap the comparison returns, for any two live types, as soon as there is
  fuel for the nesting depth of the first.
\<close>

theorem bt_equal_total:
  assumes "acyclic_heap h rank" "x \<in> dom h" "y \<in> dom h" "rank x < n"
  shows "\<exists>b. bt_equal n h x y = Some b"
  using assms(2-)
proof (induction n arbitrary: x y)
  case 0
  then show ?case by simp
next
  case (Suc n)
  then obtain a b where ab: "h x = Some a" "h y = Some b" by auto
  have refs: "\<exists>p. r = Some p \<and> p \<in> dom h \<and> rank p < rank z"
    if "h z = Some c" "r \<in> set (kind_refs (bt_kind c))" for z c r
    using assms(1) that unfolding acyclic_heap_def by blast
  have "eq_answers (\<lambda>p q. bt_equal n h p q) (bt_kind a) (bt_kind b)"
    unfolding eq_answers_def
  proof (intro allI impI)
    fix p q
    assume "Some p \<in> set (kind_refs (bt_kind a))" "Some q \<in> set (kind_refs (bt_kind b))"
    with refs ab have "p \<in> dom h" "rank p < rank x" "q \<in> dom h" by blast+
    with Suc show "bt_equal n h p q \<noteq> None" by (metis less_antisym less_trans option.distinct(1) not_less_eq)
  qed
  moreover have "None \<notin> set (kind_refs (bt_kind a))" "None \<notin> set (kind_refs (bt_kind b))"
    using refs ab by blast+
  moreover have "nel_known (bt_kind a)" "nel_known (bt_kind b)"
    using assms(1) ab by (auto simp: acyclic_heap_def)
  ultimately have "kinds_equal (\<lambda>p q. bt_equal n h p q) (bt_kind a) (bt_kind b) \<noteq> None"
    by (intro kinds_equal_answers) auto
  then show ?case by (auto simp: ab)
qed

text \<open>A heap for witnesses: a 64-bit integer, a pointer to it and two structs over both.\<close>

definition sample_struct :: btype where
  "sample_struct = mk_struct [\<lparr>ti_name = ''p'', ti_btype = 1, ti_location = 0\<rparr>, \<lparr>ti_name = ''n'', ti_btype = 0, ti_location = 0\<rparr>]
     (Some (StructTy [PointerTy (IntTy 64), IntTy 64])) 0"

definition sample_heap :: theap where
  "sample_heap = [0 \<mapsto> mk_integer False 64 (Some (IntTy 64)) 0,
     1 \<mapsto> mk_btype (KPointer (Some 0)) (Some (PointerTy (IntTy 64))) 0,
     2 \<mapsto> sample_struct, 3 \<mapsto> sample_struct]"


lemma sample_acyclic: "acyclic_heap sample_heap (\<lambda>r. r)"
  by (auto simp: acyclic_heap_def sample_heap_def sample_struct_def mk_struct_def mk_btype_def mk_integer_def
        nel_known_def split: if_splits)

lemma bt_equal_total_witness: "\<exists>b. bt_equal 3 sample_heap 2 3 = Some b"
  by (rule bt_equal_total [OF sample_acyclic]) (auto simp: sample_heap_def)

end
