(* ===== verification/TmBase.thy ===== *)
theory TmBase
  imports Btypes
begin

text \<open>
  The part of class \<open>TypeManager\<close> the ABI oracle calls back into
  (\<^verbatim>\<open>go-llvm-typemanager.cpp\<close>, \<^verbatim>\<open>go-llvm-typemanager.h\<close>). The two classes refer to each other;
  \<open>tmbase\<close> is the state they share, and the type manager's record extends it.

  \<open>tm_datalayout\<close> is null until \<open>initializeTypeManager\<close> runs. Asking the data layout about an
  unsized type is a failed assertion of LLVM, so \<open>bits_of\<close>, \<open>alloc_of\<close> and \<open>offset_of\<close> abort there.
\<close>

datatype callconv = X86_64_SysV | OtherConv nat

record tmbase =
  tm_datalayout :: "layout option"
  tm_context :: llctx
  tm_cconv :: callconv
  tm_heap :: theap
  tm_errorType :: tref

section \<open>Data layout queries\<close>

definition bits_of :: "'a tmbase_scheme \<Rightarrow> llty \<Rightarrow> u64 option" where
  "bits_of tm t = do { D \<leftarrow> tm_datalayout tm; check (isSized D (tm_context tm) t);
                       Some (of_nat (getTypeSizeInBits D (tm_context tm) t)) }"

definition alloc_of :: "'a tmbase_scheme \<Rightarrow> llty \<Rightarrow> u64 option" where
  "alloc_of tm t = do { D \<leftarrow> tm_datalayout tm; check (isSized D (tm_context tm) t);
                        Some (of_nat (getTypeAllocSize D (tm_context tm) t)) }"

definition offset_of :: "'a tmbase_scheme \<Rightarrow> llty \<Rightarrow> nat \<Rightarrow> u64 option" where
  "offset_of tm t i = do { D \<leftarrow> tm_datalayout tm; check (isSized D (tm_context tm) t);
                           ts \<leftarrow> struct_elems (tm_context tm) t; check (i < length ts);
                           Some (of_nat (getElementOffset D (tm_context tm) t i)) }"

text \<open>\<open>TypeManager::typeFieldOffset\<close>; the result is an \<open>int64_t\<close>.\<close>

definition typeFieldOffset :: "'a tmbase_scheme \<Rightarrow> tref \<Rightarrow> nat \<Rightarrow> u64 option" where
  "typeFieldOffset tm btype index =
     (if btype = tm_errorType tm then Some 0
      else do { b \<leftarrow> tm_heap tm btype; t \<leftarrow> bt_type b; check (isStructTy t);
                offset_of tm t index })"

section \<open>LLVM types built for the ABI\<close>

definition llvmVoidType :: llty where
  "llvmVoidType = VoidTy"

definition llvmPtrType :: llty where
  "llvmPtrType = PointerTy (IntTy 8)"

definition llvmTwoFloatVecType :: llty where
  "llvmTwoFloatVecType = VectorTy FloatTy 2"

definition llvmArbitraryIntegerType :: "u32 \<Rightarrow> llty option" where
  "llvmArbitraryIntegerType bytes = do { check (bytes \<noteq> 0); check (bytes \<le> 8); Some (IntTy (bytes * 8)) }"

definition makeLLVMPointerType :: "llty \<Rightarrow> llty" where
  "makeLLVMPointerType toTy = PointerTy toTy"

definition makeLLVMTwoElementStructType :: "llty \<Rightarrow> llty \<Rightarrow> llty" where
  "makeLLVMTwoElementStructType f1 f2 = StructTy [f1, f2]"

definition supported :: "'a tmbase_scheme \<Rightarrow> bool" where
  "supported tm \<longleftrightarrow> tm_cconv tm = X86_64_SysV"

section \<open>Types and their LLVM types agree\<close>

text \<open>
  The class invariant of resolved types: the LLVM type of a struct has the LLVM types of its
  fields as elements, the LLVM type of an array is an array over that of its element type, and
  the parts are resolved as well. Pointers and scalars are leaves.
\<close>

definition typed_part :: "theap \<Rightarrow> tref \<Rightarrow> llty \<Rightarrow> bool" where
  "typed_part h x t \<longleftrightarrow> (\<exists>b. h x = Some b \<and> bt_type b = Some t \<and>
     (flavor (bt_kind b) \<in> {StructT, ArrayT} \<longrightarrow> \<not> bt_placeholder b))"

definition typed_obj :: "theap \<Rightarrow> llctx \<Rightarrow> btype \<Rightarrow> bool" where
  "typed_obj h c b \<longleftrightarrow> (case bt_kind b of
     KStruct fs \<Rightarrow> (\<exists>T ts. bt_type b = Some T \<and> isStructTy T \<and> struct_elems c T = Some ts \<and>
        list_all2 (\<lambda>f t. typed_part h (ti_btype f) t) fs ts)
   | KArray e ne \<Rightarrow> (\<exists>T n x. e = Some x \<and> nelSize ne = Some n \<and> bt_type b = Some (ArrayTy T n) \<and> typed_part h x T)
   | _ \<Rightarrow> True)"

fun scalar_type :: "btkind \<Rightarrow> llty \<Rightarrow> bool" where
  "scalar_type (KInteger u bits) t = (t = IntTy bits)"
| "scalar_type (KFloat bits) t = (t \<in> {FloatTy, DoubleTy, FP128Ty})"
| "scalar_type (KPointer to) t = isPointerTy t"
| "scalar_type _ t = True"

definition heap_typed :: "theap \<Rightarrow> llctx \<Rightarrow> bool" where
  "heap_typed h c \<longleftrightarrow> (\<forall>x b. h x = Some b \<longrightarrow>
     (\<exists>t. bt_type b = Some t \<and> scalar_type (bt_kind b) t) \<and>
     (\<not> bt_placeholder b \<longrightarrow> typed_obj h c b))"

lemma alloc_of_Some:
  "alloc_of tm t = Some w \<longleftrightarrow> (\<exists>D. tm_datalayout tm = Some D \<and> isSized D (tm_context tm) t \<and>
     w = of_nat (getTypeAllocSize D (tm_context tm) t))"
  by (auto simp: alloc_of_def bind_Some_iff)

lemma bits_of_Some:
  "bits_of tm t = Some w \<longleftrightarrow> (\<exists>D. tm_datalayout tm = Some D \<and> isSized D (tm_context tm) t \<and>
     w = of_nat (getTypeSizeInBits D (tm_context tm) t))"
  by (auto simp: bits_of_def bind_Some_iff)

lemma offset_of_Some:
  "offset_of tm t i = Some w \<longleftrightarrow> (\<exists>D ts. tm_datalayout tm = Some D \<and> isSized D (tm_context tm) t \<and>
     struct_elems (tm_context tm) t = Some ts \<and> i < length ts \<and>
     w = of_nat (getElementOffset D (tm_context tm) t i))"
  by (auto simp: offset_of_def bind_Some_iff)

lemma llvmArbitraryIntegerType_Some:
  "llvmArbitraryIntegerType n = Some t \<longleftrightarrow> n \<noteq> 0 \<and> n \<le> 8 \<and> t = IntTy (n * 8)"
  by (auto simp: llvmArbitraryIntegerType_def)

end
