(* ===== verification/CabiOracle.thy ===== *)
theory CabiOracle
  imports TmBase
begin

unbundle bit_operations_syntax

text \<open>
  The C ABI oracle (\<^verbatim>\<open>go-llvm-cabi-oracle.h\<close>, \<^verbatim>\<open>go-llvm-cabi-oracle.cpp\<close>): how the x86-64 SysV
  calling convention passes the parameters and the result of a Go function.

  The definitions follow the file: sizes, the register class of an LLVM type (\<open>getTypDisp\<close>), the
  eight-byte regions of an aggregate (\<open>explodeStruct\<close>, \<open>explodeArray\<close>, \<open>determineABITypes\<close>), the
  register budget (\<open>ABIState\<close>), the analysis of results and parameters and the function type it
  yields (\<open>analyze\<close>), and the queries of its clients.

  Recursion over a type's structure takes fuel: the heap of types and the bodies of LLVM's
  named structs may be cyclic. A loop over an array compares a 32-bit index with a 64-bit
  length and does not end when the length does not fit; that is the abort value, too.
\<close>

section \<open>Data\<close>

datatype CABIParamDisp = ParmDirect | ParmIgnore | ParmIndirect

datatype CABIParamAttr = AttrNone | AttrStructReturn | AttrByVal | AttrNest | AttrZext | AttrSext

record CABIParamInfo =
  pi_abiTypes :: "llty list"
  pi_disp :: CABIParamDisp
  pi_attr :: CABIParamAttr
  pi_sigOffset :: u32

text \<open>The two constructors; \<open>sigOffset\<close> is a signed parameter stored in an unsigned member.\<close>

definition param_info_multi :: "llty list \<Rightarrow> CABIParamDisp \<Rightarrow> CABIParamAttr \<Rightarrow> u32 \<Rightarrow> CABIParamInfo option" where
  "param_info_multi abiTypes disp attr sigOffset =
     do { check (disp = ParmDirect); check (0 \<le> sint sigOffset);
          Some \<lparr>pi_abiTypes = abiTypes, pi_disp = disp, pi_attr = attr, pi_sigOffset = sigOffset\<rparr> }"

definition param_info_single :: "llty \<Rightarrow> CABIParamDisp \<Rightarrow> CABIParamAttr \<Rightarrow> u32 \<Rightarrow> CABIParamInfo option" where
  "param_info_single abiType disp attr sigOffset =
     do { check (-1 \<le> sint sigOffset);
          Some \<lparr>pi_abiTypes = [abiType], pi_disp = disp, pi_attr = attr, pi_sigOffset = sigOffset\<rparr> }"

definition numArgSlots :: "CABIParamInfo \<Rightarrow> nat" where
  "numArgSlots p = length (pi_abiTypes p)"

definition abiType :: "CABIParamInfo \<Rightarrow> llty option" where
  "abiType p = do { check (numArgSlots p = 1); nth_opt (pi_abiTypes p) 0 }"

definition computeABIStructType :: "CABIParamInfo \<Rightarrow> llty option" where
  "computeABIStructType p =
     (if length (pi_abiTypes p) = 1 then
        do { t \<leftarrow> nth_opt (pi_abiTypes p) 0; check (isStructTy t); Some t }
      else do { check (length (pi_abiTypes p) = 2);
                ft0 \<leftarrow> nth_opt (pi_abiTypes p) 0; ft1 \<leftarrow> nth_opt (pi_abiTypes p) 1;
                Some (makeLLVMTwoElementStructType ft0 ft1) })"

section \<open>Sizes and register classes\<close>

definition dataSize :: "'a tmbase_scheme \<Rightarrow> llty \<Rightarrow> u64 option" where
  "dataSize tm t =
     do { w \<leftarrow> bits_of tm t;
          let bits = (ucast w :: u32);
          if bits = 1 then Some 1
          else do { check (bits AND 7 = 0); Some (ucast (bits div 8)) } }"

definition allocSize :: "'a tmbase_scheme \<Rightarrow> llty \<Rightarrow> u64 option" where
  "allocSize tm t = alloc_of tm t"

datatype TypDisp = FlavSSE | FlavInt | FlavEmpty

definition dispMeet :: "TypDisp \<Rightarrow> TypDisp \<Rightarrow> TypDisp" where
  "dispMeet d1 d2 =
     (if d1 = d2 then d1
      else if d1 = FlavEmpty then d2
      else if d2 = FlavEmpty then d1
      else if d1 = FlavSSE \<and> d2 = FlavSSE then FlavSSE
      else FlavInt)"

definition dispMeets :: "TypDisp list \<Rightarrow> TypDisp" where
  "dispMeets ds = foldl (\<lambda>disp d. dispMeet d disp) FlavEmpty ds"

fun getTypDisp :: "nat \<Rightarrow> llctx \<Rightarrow> llty \<Rightarrow> TypDisp option" where
  "getTypDisp 0 c typ = None"
| "getTypDisp (Suc n) c typ =
     (if isFloatTy typ \<or> isDoubleTy typ then Some FlavSSE
      else if isArrayTy typ then do { et \<leftarrow> getElementType typ; getTypDisp n c et }
      else if isStructTy typ then
        do { ts \<leftarrow> struct_elems c typ; ds \<leftarrow> map_opt (\<lambda>t. getTypDisp n c t) ts; Some (dispMeets ds) }
      else Some FlavInt)"

section \<open>Eight-byte regions\<close>

record EightByteRegion =
  ebr_types :: "llty list"
  ebr_offsets :: "u64 list"
  ebr_abiDirectType :: "llty option"
  ebr_attr :: CABIParamAttr

definition empty_region :: EightByteRegion where
  "empty_region = \<lparr>ebr_types = [], ebr_offsets = [], ebr_abiDirectType = None, ebr_attr = AttrNone\<rparr>"

definition add_leaf :: "llty \<Rightarrow> u32 \<Rightarrow> EightByteRegion \<Rightarrow> EightByteRegion" where
  "add_leaf t off r = r\<lparr>ebr_types := ebr_types r @ [t], ebr_offsets := ebr_offsets r @ [ucast off]\<rparr>"

definition getRegionTypDisp :: "nat \<Rightarrow> llctx \<Rightarrow> EightByteRegion \<Rightarrow> TypDisp option" where
  "getRegionTypDisp n c r = do { ds \<leftarrow> map_opt (getTypDisp n c) (ebr_types r); Some (dispMeets ds) }"

fun addLeafTypes :: "nat \<Rightarrow> 'a tmbase_scheme \<Rightarrow> tref option \<Rightarrow> u32 \<Rightarrow> (tref \<times> u32) list option" where
  "addLeafTypes 0 tm bt offset = None"
| "addLeafTypes (Suc n) tm bt offset =
     do {
       x \<leftarrow> bt; b \<leftarrow> tm_heap tm x;
       case bt_kind b of
         KStruct fs \<Rightarrow>
           do { ls \<leftarrow> map_opt (\<lambda>(fidx, f).
                  do { foff \<leftarrow> typeFieldOffset tm x fidx;
                       addLeafTypes n tm (Some (ti_btype f)) (offset + ucast foff) }) (enumerate 0 fs);
                Some (concat ls) }
       | KArray e ne \<Rightarrow>
           do { nel \<leftarrow> nelSize ne;
                check (nel < 2 ^ 32);
                ls \<leftarrow> map_opt (\<lambda>elidx.
                  do { et \<leftarrow> e; eb \<leftarrow> tm_heap tm et; t \<leftarrow> bt_type eb; sz \<leftarrow> allocSize tm t;
                       addLeafTypes n tm (Some et) (offset + ucast (of_nat elidx * sz)) }) [0..<unat nel];
                Some (concat ls) }
       | KAux \<Rightarrow> None
       | KFunction r ps rs t c \<Rightarrow> None
       | _ \<Rightarrow> Some [(x, offset)]
     }"

text \<open>
  One step of \<open>explodeStruct\<close>'s loop. The pointer \<open>cur8\<close> is null exactly while there is no
  region, and points to the last one otherwise.
\<close>

definition place_leaf :: "EightByteRegion list \<Rightarrow> llty \<times> u32 \<Rightarrow> EightByteRegion list" where
  "place_leaf ebrs = (\<lambda>(t, offset).
     if ebrs = [] \<or> (8 \<le> offset \<and> length ebrs = 1) then ebrs @ [add_leaf t offset empty_region]
     else butlast ebrs @ [add_leaf t offset (last ebrs)])"

definition leaf_type :: "'a tmbase_scheme \<Rightarrow> tref \<times> u32 \<Rightarrow> (llty \<times> u32) option" where
  "leaf_type tm = (\<lambda>(x, off). do { b \<leftarrow> tm_heap tm x; t \<leftarrow> bt_type b; Some (t, off) })"

definition explodeStruct :: "nat \<Rightarrow> 'a tmbase_scheme \<Rightarrow> tref \<Rightarrow> EightByteRegion list option" where
  "explodeStruct n tm bst =
     do { b \<leftarrow> tm_heap tm bst; t \<leftarrow> bt_type b; sz \<leftarrow> allocSize tm t; check (sz \<le> 16);
          leafTypes \<leftarrow> addLeafTypes n tm (Some bst) 0;
          leaves \<leftarrow> map_opt (leaf_type tm) leafTypes;
          Some (foldl place_leaf [] leaves) }"

text \<open>\<open>explodeArray\<close>: the loop carries the regions and \<open>curOffset\<close>.\<close>

definition place_elem :: "llty \<Rightarrow> u32 \<Rightarrow> EightByteRegion list \<times> u32 \<Rightarrow> nat \<Rightarrow> EightByteRegion list \<times> u32" where
  "place_elem et elSize = (\<lambda>(ebrs, curOffset) elidx.
     let offset = of_nat elidx * elSize;
         ebrs' = (if ebrs = [] \<or> (8 \<le> offset \<and> curOffset < 8) then ebrs @ [add_leaf et offset empty_region]
                  else butlast ebrs @ [add_leaf et offset (last ebrs)])
     in (ebrs', curOffset + offset))"

definition explodeArray :: "'a tmbase_scheme \<Rightarrow> tref \<Rightarrow> EightByteRegion list option" where
  "explodeArray tm bat =
     do { b \<leftarrow> tm_heap tm bat; t \<leftarrow> bt_type b; sz \<leftarrow> allocSize tm t; check (sz \<le> 16);
          case bt_kind b of
            KArray e ne \<Rightarrow>
              do { x \<leftarrow> e; eb \<leftarrow> tm_heap tm x; et \<leftarrow> bt_type eb; elSize \<leftarrow> dataSize tm et;
                   nel \<leftarrow> nelSize ne; check (nel < 2 ^ 32);
                   Some (fst (foldl (place_elem et (ucast elSize)) ([], 0) [0..<unat nel])) }
          | _ \<Rightarrow> None }"

definition incorporateScalar :: "'a tmbase_scheme \<Rightarrow> tref \<Rightarrow> EightByteRegion list option" where
  "incorporateScalar tm bt =
     do { b \<leftarrow> tm_heap tm bt; t \<leftarrow> bt_type b; sz \<leftarrow> allocSize tm t; check (sz \<le> 8);
          attr \<leftarrow> (case bt_kind b of
              KInteger isUnsigned bits \<Rightarrow>
                do { s \<leftarrow> dataSize tm t;
                     Some (if s < 4 then (if isUnsigned then AttrZext else AttrSext) else AttrNone) }
            | _ \<Rightarrow> Some AttrNone);
          Some [\<lparr>ebr_types = [t], ebr_offsets = [0], ebr_abiDirectType = Some t, ebr_attr = attr\<rparr>] }"

definition region_abi_type :: "nat \<Rightarrow> 'a tmbase_scheme \<Rightarrow> EightByteRegion \<Rightarrow> EightByteRegion option" where
  "region_abi_type n tm ebr =
     (case ebr_abiDirectType ebr of Some t \<Rightarrow> Some ebr | None \<Rightarrow>
      do { regionDisp \<leftarrow> getRegionTypDisp n (tm_context tm) ebr;
           if regionDisp = FlavSSE then
             (if length (ebr_types ebr) = 2 then Some (ebr\<lparr>ebr_abiDirectType := Some llvmTwoFloatVecType\<rparr>)
              else if length (ebr_types ebr) = 1 then
                do { t \<leftarrow> nth_opt (ebr_types ebr) 0; check (t = DoubleTy \<or> t = FloatTy);
                     Some (ebr\<lparr>ebr_abiDirectType := Some t\<rparr>) }
              else None)
           else
             do { let nel = length (ebr_offsets ebr);
                  check (nel \<noteq> 0);
                  o1 \<leftarrow> nth_opt (ebr_offsets ebr) (nel - 1);
                  o0 \<leftarrow> nth_opt (ebr_offsets ebr) 0;
                  t \<leftarrow> nth_opt (ebr_types ebr) (nel - 1);
                  sz \<leftarrow> dataSize tm t;
                  let bytes = (ucast (o1 - o0 + sz) :: u32);
                  check (bytes \<noteq> 0 \<and> bytes \<le> 8);
                  ty \<leftarrow> llvmArbitraryIntegerType bytes;
                  Some (ebr\<lparr>ebr_abiDirectType := Some ty\<rparr>) } })"

definition determineABITypes :: "nat \<Rightarrow> 'a tmbase_scheme \<Rightarrow> EightByteRegion list \<Rightarrow> EightByteRegion list option" where
  "determineABITypes n tm ebrs = map_opt (region_abi_type n tm) ebrs"

definition eightByteInfo :: "nat \<Rightarrow> 'a tmbase_scheme \<Rightarrow> tref \<Rightarrow> EightByteRegion list option" where
  "eightByteInfo n tm bt =
     do { b \<leftarrow> tm_heap tm bt;
          ebrs \<leftarrow> (case flavor (bt_kind b) of
              StructT \<Rightarrow> explodeStruct n tm bt
            | ArrayT \<Rightarrow> explodeArray tm bt
            | _ \<Rightarrow> incorporateScalar tm bt);
          check (length ebrs \<le> 2);
          determineABITypes n tm ebrs }"

definition getRegisterRequirements :: "nat \<Rightarrow> 'a tmbase_scheme \<Rightarrow> EightByteRegion list \<Rightarrow> (u32 \<times> u32) option" where
  "getRegisterRequirements n tm ebrs =
     do { ds \<leftarrow> map_opt (getRegionTypDisp n (tm_context tm)) ebrs;
          Some (foldl (\<lambda>(numInt, numSSE) d. if d = FlavSSE then (numInt, numSSE + 1) else (numInt + 1, numSSE))
                  (0, 0) ds) }"

section \<open>The register budget\<close>

record ABIState =
  availIntRegs :: u32
  availSSERegs :: u32
  argCount :: u32

definition init_state :: ABIState where
  "init_state = \<lparr>availIntRegs = 6, availSSERegs = 8, argCount = 0\<rparr>"

definition take_reg :: "u32 \<Rightarrow> u32" where
  "take_reg n = (if n \<noteq> 0 then n - 1 else n)"

definition addDirectIntArg :: "ABIState \<Rightarrow> ABIState" where
  "addDirectIntArg s = s\<lparr>availIntRegs := take_reg (availIntRegs s), argCount := argCount s + 1\<rparr>"

definition addDirectSSEArg :: "ABIState \<Rightarrow> ABIState" where
  "addDirectSSEArg s = s\<lparr>availSSERegs := take_reg (availSSERegs s), argCount := argCount s + 1\<rparr>"

definition addIndirectArg :: "ABIState \<Rightarrow> ABIState" where
  "addIndirectArg s = s\<lparr>argCount := argCount s + 1\<rparr>"

definition addIndirectReturn :: "ABIState \<Rightarrow> ABIState" where
  "addIndirectReturn s = s\<lparr>availIntRegs := take_reg (availIntRegs s), argCount := argCount s + 1\<rparr>"

definition addChainArg :: "ABIState \<Rightarrow> ABIState" where
  "addChainArg s = s\<lparr>argCount := argCount s + 1\<rparr>"

definition canPassDirectly :: "u32 \<Rightarrow> u32 \<Rightarrow> ABIState \<Rightarrow> bool" where
  "canPassDirectly regsInt regsSSE state =
     (if regsInt + regsSSE = 1 then True
      else if regsInt \<le> availIntRegs state \<and> regsSSE \<le> availSSERegs state then True
      else False)"

section \<open>Results and parameters\<close>

definition classifyArgType :: "'a tmbase_scheme \<Rightarrow> llty \<Rightarrow> CABIParamDisp option" where
  "classifyArgType tm type =
     do { sz \<leftarrow> allocSize tm type;
          Some (if sz = 0 then ParmIgnore else if sz \<le> 16 then ParmDirect else ParmIndirect) }"

definition analyzeABIReturn :: "nat \<Rightarrow> 'a tmbase_scheme \<Rightarrow> tref \<Rightarrow> ABIState \<Rightarrow> (CABIParamInfo \<times> ABIState) option" where
  "analyzeABIReturn n tm resultType state =
     do { b \<leftarrow> tm_heap tm resultType; rtyp \<leftarrow> bt_type b;
          rdisp \<leftarrow> (if rtyp = llvmVoidType then Some ParmIgnore else classifyArgType tm rtyp);
          if rdisp = ParmIgnore then
            do { p \<leftarrow> param_info_single llvmVoidType ParmIgnore AttrNone (-1); Some (p, state) }
          else if rdisp = ParmIndirect then
            do { p \<leftarrow> param_info_single (makeLLVMPointerType rtyp) ParmIndirect AttrStructReturn 0;
                 Some (p, addIndirectReturn state) }
          else do {
            regions \<leftarrow> eightByteInfo n tm resultType;
            if length regions = 1 then
              do { r \<leftarrow> nth_opt regions 0; t \<leftarrow> ebr_abiDirectType r;
                   p \<leftarrow> param_info_single t ParmDirect (ebr_attr r) (-1); Some (p, state) }
            else
              do { check (length regions = 2);
                   r0 \<leftarrow> nth_opt regions 0; r1 \<leftarrow> nth_opt regions 1;
                   t0 \<leftarrow> ebr_abiDirectType r0; t1 \<leftarrow> ebr_abiDirectType r1;
                   p \<leftarrow> param_info_single (makeLLVMTwoElementStructType t0 t1) ParmDirect AttrNone (-1);
                   Some (p, state) } } }"

text \<open>The loop over the regions of a parameter that is passed directly.\<close>

fun pass_regions :: "nat \<Rightarrow> 'a tmbase_scheme \<Rightarrow> EightByteRegion list \<Rightarrow> CABIParamAttr \<Rightarrow> ABIState \<Rightarrow>
    (llty list \<times> CABIParamAttr \<times> ABIState) option" where
  "pass_regions n tm [] attr state = Some ([], attr, state)"
| "pass_regions n tm (ebr # ebrs) attr state =
     do { t \<leftarrow> ebr_abiDirectType ebr;
          check (ebr_attr ebr = AttrNone \<or> attr = AttrNone \<or> attr = ebr_attr ebr);
          let attr' = (if ebr_attr ebr \<noteq> AttrNone then ebr_attr ebr else attr);
          d \<leftarrow> getRegionTypDisp n (tm_context tm) ebr;
          let state' = (if d = FlavSSE then addDirectSSEArg state else addDirectIntArg state);
          (ts, attr'', state'') \<leftarrow> pass_regions n tm ebrs attr' state';
          Some (t # ts, attr'', state'') }"

text \<open>
  Types LLVM calls empty are structs and arrays, so \<open>isEmptyTy\<close> adds nothing to the assertion
  on auxiliary types.
\<close>

definition aux_param_ok :: "btype \<Rightarrow> llty \<Rightarrow> bool" where
  "aux_param_ok b ptyp \<longleftrightarrow> flavor (bt_kind b) \<noteq> AuxT \<or> ptyp = VoidTy \<or>
     \<not> (isStructTy ptyp \<or> isArrayTy ptyp \<or> isVectorTy ptyp \<or> ptyp = IntTy 8 \<or> ptyp = IntTy 16)"

definition analyzeABIParam :: "nat \<Rightarrow> 'a tmbase_scheme \<Rightarrow> tref \<Rightarrow> ABIState \<Rightarrow> (CABIParamInfo \<times> ABIState) option" where
  "analyzeABIParam n tm paramType state =
     do { b \<leftarrow> tm_heap tm paramType; ptyp \<leftarrow> bt_type b;
          check (aux_param_ok b ptyp);
          pdisp \<leftarrow> classifyArgType tm ptyp;
          if pdisp = ParmIgnore then
            do { p \<leftarrow> param_info_single llvmVoidType ParmIgnore AttrNone (-1); Some (p, state) }
          else do {
            let sigOff = argCount state;
            if pdisp = ParmIndirect then
              do { p \<leftarrow> param_info_single (makeLLVMPointerType ptyp) ParmIndirect AttrByVal sigOff;
                   Some (p, addIndirectArg state) }
            else do {
              ebrs \<leftarrow> eightByteInfo n tm paramType;
              (regsInt, regsSSE) \<leftarrow> getRegisterRequirements n tm ebrs;
              if canPassDirectly regsInt regsSSE state then
                do { (abiTypes, attr, state') \<leftarrow> pass_regions n tm ebrs AttrNone state;
                     p \<leftarrow> param_info_multi abiTypes ParmDirect attr sigOff; Some (p, state') }
              else
                do { p \<leftarrow> param_info_single (makeLLVMPointerType ptyp) ParmIndirect AttrByVal sigOff;
                     Some (p, addIndirectArg state) } } } }"

section \<open>The oracle\<close>

record CABIOracle =
  or_fcnParamTypes :: "tref list"
  or_fcnResultType :: tref
  or_fcnTypeForABI :: "llty option"
  or_infov :: "CABIParamInfo list"
  or_followsCabi :: bool

fun raw_params :: "'a tmbase_scheme \<Rightarrow> nat \<Rightarrow> tref list \<Rightarrow> (CABIParamInfo list \<times> llty list) option" where
  "raw_params tm idx [] = Some ([], [])"
| "raw_params tm idx (pType # ps) =
     do { b \<leftarrow> tm_heap tm pType; t \<leftarrow> bt_type b;
          p \<leftarrow> param_info_single t ParmDirect AttrNone (of_nat idx);
          (infos, elems) \<leftarrow> raw_params tm (Suc idx) ps;
          Some (p # infos, t # elems) }"

definition analyzeRaw :: "'a tmbase_scheme \<Rightarrow> CABIOracle \<Rightarrow> CABIOracle option" where
  "analyzeRaw tm oracle =
     do { b \<leftarrow> tm_heap tm (or_fcnResultType oracle); rtyp \<leftarrow> bt_type b;
          rinfo \<leftarrow> param_info_single rtyp ParmDirect AttrNone (-1);
          cinfo \<leftarrow> param_info_single llvmPtrType ParmIgnore AttrNest (-1);
          (infos, elems) \<leftarrow> raw_params tm 0 (or_fcnParamTypes oracle);
          Some (oracle\<lparr>or_infov := or_infov oracle @ rinfo # cinfo # infos,
                       or_fcnTypeForABI := Some (FunctionTy rtyp elems False)\<rparr>) }"

fun analyzeABIParams :: "nat \<Rightarrow> 'a tmbase_scheme \<Rightarrow> tref list \<Rightarrow> ABIState \<Rightarrow> (CABIParamInfo list \<times> ABIState) option" where
  "analyzeABIParams n tm [] state = Some ([], state)"
| "analyzeABIParams n tm (pType # ps) state =
     do { (d, state') \<leftarrow> analyzeABIParam n tm pType state;
          (ds, state'') \<leftarrow> analyzeABIParams n tm ps state';
          Some (d # ds, state'') }"

definition sig_elems :: "CABIParamInfo list \<Rightarrow> llty list" where
  "sig_elems infos = concat (map (\<lambda>p. if pi_disp p = ParmIgnore then [] else pi_abiTypes p) infos)"

definition analyze :: "nat \<Rightarrow> 'a tmbase_scheme \<Rightarrow> CABIOracle \<Rightarrow> CABIOracle option" where
  "analyze n tm oracle =
     (if or_fcnTypeForABI oracle \<noteq> None then Some oracle
      else if \<not> or_followsCabi oracle then analyzeRaw tm oracle
      else do {
        (rinfo, state) \<leftarrow> analyzeABIReturn n tm (or_fcnResultType oracle) init_state;
        cparm \<leftarrow> param_info_single llvmPtrType ParmDirect AttrNest (argCount state);
        (params, state') \<leftarrow> analyzeABIParams n tm (or_fcnParamTypes oracle) (addChainArg state);
        let infov = or_infov oracle @ rinfo # cparm # params;
        ret \<leftarrow> nth_opt infov 0;
        rt \<leftarrow> abiType ret;
        let (rtyp, elems) = (if pi_disp ret = ParmIndirect then (llvmVoidType, [rt]) else (rt, []));
        Some (oracle\<lparr>or_infov := infov,
                     or_fcnTypeForABI := Some (FunctionTy rtyp (elems @ sig_elems (drop 1 infov)) False)\<rparr>)
      })"

definition cabiOracle :: "nat \<Rightarrow> 'a tmbase_scheme \<Rightarrow> tref list \<Rightarrow> tref \<Rightarrow> bool \<Rightarrow> CABIOracle option" where
  "cabiOracle n tm fcnParamTypes fcnResultType followsCabi =
     analyze n tm \<lparr>or_fcnParamTypes = fcnParamTypes, or_fcnResultType = fcnResultType,
       or_fcnTypeForABI = None, or_infov = [], or_followsCabi = followsCabi\<rparr>"

definition cabiOracle_of_type :: "nat \<Rightarrow> 'a tmbase_scheme \<Rightarrow> btype \<Rightarrow> CABIOracle option" where
  "cabiOracle_of_type n tm ft =
     (case bt_kind ft of
        KFunction r ps rs t c \<Rightarrow> cabiOracle n tm ps t c
      | _ \<Rightarrow> None)"

definition getFunctionTypeForABI :: "'a tmbase_scheme \<Rightarrow> CABIOracle \<Rightarrow> llty option" where
  "getFunctionTypeForABI tm oracle = do { check (supported tm); or_fcnTypeForABI oracle }"

definition paramInfo :: "'a tmbase_scheme \<Rightarrow> CABIOracle \<Rightarrow> u32 \<Rightarrow> CABIParamInfo option" where
  "paramInfo tm oracle idx = do { check (supported tm); nth_opt (or_infov oracle) (unat (idx + 2)) }"

definition returnInfo :: "'a tmbase_scheme \<Rightarrow> CABIOracle \<Rightarrow> CABIParamInfo option" where
  "returnInfo tm oracle = do { check (supported tm); nth_opt (or_infov oracle) 0 }"

definition chainInfo :: "'a tmbase_scheme \<Rightarrow> CABIOracle \<Rightarrow> CABIParamInfo option" where
  "chainInfo tm oracle = do { check (supported tm); nth_opt (or_infov oracle) 1 }"

section \<open>Textual dumps\<close>

text \<open>Printing an LLVM type is LLVM's: \<open>print\<close> is a parameter.\<close>

fun show_disp :: "CABIParamDisp \<Rightarrow> string" where
  "show_disp ParmDirect = ''Direct''"
| "show_disp ParmIgnore = ''Ignore''"
| "show_disp ParmIndirect = ''Indirect''"

fun show_attr :: "CABIParamAttr \<Rightarrow> string" where
  "show_attr AttrNone = ''''"
| "show_attr AttrStructReturn = '' AttrStructReturn''"
| "show_attr AttrByVal = '' AttrByVal''"
| "show_attr AttrNest = '' AttrNest''"
| "show_attr AttrZext = '' AttrZext''"
| "show_attr AttrSext = '' AttrSext''"

fun show_types :: "(llty \<Rightarrow> string) \<Rightarrow> nat \<Rightarrow> llty list \<Rightarrow> string" where
  "show_types print idx [] = ''''"
| "show_types print idx (t # ts) = (if idx \<noteq> 0 then '', '' else '''') @ print t @ show_types print (Suc idx) ts"

definition show_int :: "int \<Rightarrow> string" where
  "show_int i = (if i < 0 then ''-'' @ show_nat (nat (- i)) else show_nat (nat i))"

definition param_osdump :: "(llty \<Rightarrow> string) \<Rightarrow> CABIParamInfo \<Rightarrow> string" where
  "param_osdump print p =
     show_disp (pi_disp p) @ show_attr (pi_attr p) @ '' { '' @ show_types print 0 (pi_abiTypes p) @ '' }'' @
     '' sigOffset: '' @ show_int (sint (pi_sigOffset p)) @ ''\<newline>''"

definition oracle_toString :: "(llty \<Rightarrow> string) \<Rightarrow> CABIOracle \<Rightarrow> string option" where
  "oracle_toString print oracle =
     do { r \<leftarrow> nth_opt (or_infov oracle) 0;
          Some (''Return: '' @ param_osdump print r @
            concat (map (\<lambda>(pidx, p). ''Param '' @ show_nat pidx @ '': '' @ param_osdump print p)
              (drop 1 (enumerate 0 (or_infov oracle))))) }"

section \<open>A sample program state\<close>

text \<open>Types for witnesses, with LLVM's x86-64 layout.\<close>

definition sample_array :: "tref \<Rightarrow> llty \<Rightarrow> u64 \<Rightarrow> btype" where
  "sample_array e t n = mk_btype (KArray (Some e) (Some \<lparr>le_node = 0, le_const = Some n\<rparr>)) (Some (ArrayTy t n)) 0"

definition sample_types :: theap where
  "sample_types = [0 \<mapsto> mk_integer False 16 (Some (IntTy 16)) 0,
     1 \<mapsto> sample_array 0 (IntTy 16) 8,
     2 \<mapsto> mk_struct [\<lparr>ti_name = ''x'', ti_btype = 3, ti_location = 0\<rparr>, \<lparr>ti_name = ''y'', ti_btype = 0, ti_location = 0\<rparr>]
            (Some (StructTy [DoubleTy, IntTy 16])) 0,
     3 \<mapsto> mk_float 64 (Some DoubleTy) 0,
     4 \<mapsto> mk_float 32 (Some FloatTy) 0,
     5 \<mapsto> sample_array 4 FloatTy 3,
     6 \<mapsto> sample_array 3 DoubleTy 3]"

definition sample_tm :: tmbase where
  "sample_tm = \<lparr>tm_datalayout = Some x86_layout, tm_context = empty_llctx, tm_cconv = X86_64_SysV,
     tm_heap = sample_types, tm_errorType = 99\<rparr>"

end
