(* ===== verification/CabiFacts.thy ===== *)
theory CabiFacts
  imports CabiOracle
begin

text \<open>
  What the ABI oracle of theory \<open>CabiOracle\<close> guarantees its clients (function creation, calls,
  argument spills): the slots of each parameter in the function type, the use of registers,
  the disposition by size, and when the eight-byte regions of an aggregate are right.
\<close>

section \<open>Slots in the signature\<close>

definition take_region :: "TypDisp \<Rightarrow> ABIState \<Rightarrow> ABIState" where
  "take_region d st = (if d = FlavSSE then addDirectSSEArg st else addDirectIntArg st)"

lemma argCount_take_region [simp]: "argCount (take_region d st) = argCount st + 1"
  by (simp add: take_region_def addDirectSSEArg_def addDirectIntArg_def)

lemma pass_regions_ConsE:
  assumes "pass_regions n tm (r # rs) attr st = Some (ts, attr', st')"
  obtains t d us attr1 where "ebr_abiDirectType r = Some t" "getRegionTypDisp n (tm_context tm) r = Some d"
    "pass_regions n tm rs attr1 (take_region d st) = Some (us, attr', st')" "ts = t # us"
  using assms by (auto simp: bind_Some_iff Let_def take_region_def split: prod.splits if_split_asm)

lemma pass_regions_facts:
  "pass_regions n tm ebrs attr st = Some (ts, attr', st') \<Longrightarrow>
   length ts = length ebrs \<and> argCount st' = argCount st + of_nat (length ts) \<and>
   map Some ts = map ebr_abiDirectType ebrs"
proof (induction ebrs arbitrary: attr st ts)
  case (Cons r rs)
  from Cons.prems show ?case
    by (rule pass_regions_ConsE) (use Cons.IH in fastforce)
qed simp

lemmas param_infos = param_info_single_def param_info_multi_def

text \<open>What one parameter adds: nothing when ignored, else its slots from the current count on.\<close>

lemma analyzeABIParam_slots:
  assumes "analyzeABIParam n tm x st = Some (p, st')"
  shows "(pi_disp p = ParmIgnore \<longrightarrow> st' = st \<and> pi_sigOffset p = -1) \<and>
    (pi_disp p \<noteq> ParmIgnore \<longrightarrow> pi_sigOffset p = argCount st \<and>
       argCount st' = argCount st + of_nat (length (pi_abiTypes p)))"
  using assms pass_regions_facts
  by (fastforce simp: analyzeABIParam_def bind_Some_iff param_infos addIndirectArg_def Let_def
        split: if_splits prod.splits)

lemma analyzeABIParams_length: "analyzeABIParams n tm ps st = Some (infos, st') \<Longrightarrow> length infos = length ps"
  by (induction ps arbitrary: st infos) (auto simp: bind_Some_iff split: prod.splits)

lemma sig_elems_Cons [simp]:
  "sig_elems (p # ps) = (if pi_disp p = ParmIgnore then [] else pi_abiTypes p) @ sig_elems ps"
  by (simp add: sig_elems_def)

lemma sig_elems_Nil [simp]: "sig_elems [] = []"
  by (simp add: sig_elems_def)

lemma sig_elems_append [simp]: "sig_elems (ps @ qs) = sig_elems ps @ sig_elems qs"
  by (simp add: sig_elems_def)

text \<open>
  The client's view of a signature: \<open>slots_from elems k ps\<close> says that from index \<open>k\<close> on, the types
  \<open>elems\<close> are the slots of the parameters \<open>ps\<close> in order, each starting at its \<open>sigOffset\<close>, and
  nothing else.
\<close>

fun slots_from :: "llty list \<Rightarrow> nat \<Rightarrow> CABIParamInfo list \<Rightarrow> bool" where
  "slots_from elems k [] \<longleftrightarrow> k = length elems"
| "slots_from elems k (p # ps) \<longleftrightarrow>
     (if pi_disp p = ParmIgnore then pi_sigOffset p = -1 \<and> slots_from elems k ps
      else pi_sigOffset p = of_nat k \<and> take (numArgSlots p) (drop k elems) = pi_abiTypes p \<and>
        slots_from elems (k + numArgSlots p) ps)"

lemma analyzeABIParams_slots:
  assumes "analyzeABIParams n tm ps st = Some (infos, st')" "argCount st = of_nat (length pre)"
  shows "slots_from (pre @ sig_elems infos) (length pre) infos"
  using assms
proof (induction ps arbitrary: st infos pre)
  case (Cons x xs)
  then obtain d ds st1 where *: "infos = d # ds" "analyzeABIParam n tm x st = Some (d, st1)"
    "analyzeABIParams n tm xs st1 = Some (ds, st')"
    by (auto simp: bind_Some_iff)
  note slots = analyzeABIParam_slots [OF *(2)]
  show ?case
  proof (cases "pi_disp d = ParmIgnore")
    case True
    with Cons.IH [OF *(3), of pre] Cons.prems(2) slots show ?thesis by (simp add: *(1))
  next
    case False
    with Cons.IH [OF *(3), of "pre @ pi_abiTypes d"] Cons.prems(2) slots
    show ?thesis by (simp add: *(1) numArgSlots_def)
  qed
qed simp

lemma analyzeABIReturn_slots:
  assumes "analyzeABIReturn n tm x init_state = Some (p, st)"
  shows "numArgSlots p = 1 \<and>
    argCount st = of_nat (if pi_disp p = ParmIndirect then 1 else 0) \<and>
    pi_sigOffset p = (if pi_disp p = ParmIndirect then 0 else -1)"
  using assms
  by (auto simp: analyzeABIReturn_def bind_Some_iff param_infos addIndirectReturn_def numArgSlots_def
        init_state_def Let_def split: if_splits prod.splits)

definition sret_elems :: "CABIParamInfo \<Rightarrow> llty list" where
  "sret_elems rinfo = (if pi_disp rinfo = ParmIndirect then pi_abiTypes rinfo else [])"

text \<open>The analysis of a function that follows the C ABI, taken apart once for all.\<close>

lemma cabiOracle_parts:
  assumes "cabiOracle n tm ps res True = Some oracle"
  obtains rinfo st infos st' where
    "analyzeABIReturn n tm res init_state = Some (rinfo, st)"
    "analyzeABIParams n tm ps (addChainArg st) = Some (infos, st')"
    "or_infov oracle = rinfo # \<lparr>pi_abiTypes = [llvmPtrType], pi_disp = ParmDirect, pi_attr = AttrNest,
        pi_sigOffset = argCount st\<rparr> # infos"
    "or_fcnTypeForABI oracle = Some (FunctionTy
       (if pi_disp rinfo = ParmIndirect then llvmVoidType else hd (pi_abiTypes rinfo))
       (sret_elems rinfo @ llvmPtrType # sig_elems infos) False)"
proof -
  from assms obtain rinfo st infos st' where *: "analyzeABIReturn n tm res init_state = Some (rinfo, st)"
    "analyzeABIParams n tm ps (addChainArg st) = Some (infos, st')"
    by (auto simp: cabiOracle_def analyze_def bind_Some_iff split: prod.splits)
  from analyzeABIReturn_slots [OF *(1)] obtain rt where rt: "pi_abiTypes rinfo = [rt]"
    by (auto simp: numArgSlots_def length_Suc_conv)
  from assms * rt show ?thesis
    by (intro that [of rinfo st infos st'])
       (auto simp: cabiOracle_def analyze_def param_infos abiType_def numArgSlots_def sret_elems_def split: if_splits)
qed

lemma cabiOracle_slots:
  assumes "cabiOracle n tm ps res True = Some oracle"
  shows "\<exists>rinfo cinfo infos rt elems. or_infov oracle = rinfo # cinfo # infos \<and>
    length infos = length ps \<and> numArgSlots rinfo = 1 \<and> pi_disp cinfo = ParmDirect \<and>
    or_fcnTypeForABI oracle = Some (FunctionTy rt elems False) \<and>
    take (length (sret_elems rinfo)) elems = sret_elems rinfo \<and>
    pi_abiTypes cinfo = [llvmPtrType] \<and>
    slots_from elems (length (sret_elems rinfo)) (cinfo # infos)"
proof -
  obtain rinfo st infos st' where *: "analyzeABIReturn n tm res init_state = Some (rinfo, st)"
    "analyzeABIParams n tm ps (addChainArg st) = Some (infos, st')"
    "or_infov oracle = rinfo # \<lparr>pi_abiTypes = [llvmPtrType], pi_disp = ParmDirect, pi_attr = AttrNest,
        pi_sigOffset = argCount st\<rparr> # infos"
    "or_fcnTypeForABI oracle = Some (FunctionTy
       (if pi_disp rinfo = ParmIndirect then llvmVoidType else hd (pi_abiTypes rinfo))
       (sret_elems rinfo @ llvmPtrType # sig_elems infos) False)"
    by (rule cabiOracle_parts [OF assms])
  have len: "length infos = length ps" by (rule analyzeABIParams_length [OF *(2)])
  have cnt: "argCount st = of_nat (length (sret_elems rinfo))"
    using analyzeABIReturn_slots [OF *(1)] by (simp add: numArgSlots_def sret_elems_def)
  have "slots_from ((sret_elems rinfo @ [llvmPtrType]) @ sig_elems infos) (length (sret_elems rinfo @ [llvmPtrType])) infos"
    by (rule analyzeABIParams_slots [OF *(2)]) (simp add: cnt addChainArg_def)
  with *(3,4) len cnt analyzeABIReturn_slots [OF *(1)] show ?thesis
    by (simp add: numArgSlots_def)
qed

text \<open>
  C10. The function type of the ABI and the parameter descriptions fit together. The type's
  parameters are: a pointer to the result, if it is returned in memory; the static chain; then
  for each Go parameter, in order, exactly the slots its description lists. Hence the
  description's \<open>sigOffset\<close> is the index of its first slot, and the types from there on are its
  \<open>abiTypes\<close>; an ignored parameter has no slot and offset -1.
\<close>

theorem cabi_signature_slots:
  assumes "cabiOracle n tm ps res True = Some oracle"
  shows "\<exists>rinfo cinfo infos rt elems. or_infov oracle = rinfo # cinfo # infos \<and>
    length infos = length ps \<and>
    or_fcnTypeForABI oracle = Some (FunctionTy rt elems False) \<and>
    take (length (sret_elems rinfo)) elems = sret_elems rinfo \<and>
    pi_abiTypes cinfo = [llvmPtrType] \<and>
    slots_from elems (length (sret_elems rinfo)) (cinfo # infos)"
  using cabiOracle_slots [OF assms] by blast

section \<open>Registers\<close>

text \<open>
  The register class of a slot, read off its ABI type, and the number of registers of each class
  a parameter takes: the slots of a parameter passed directly, nothing otherwise.
\<close>

definition sse_slot :: "nat \<Rightarrow> llctx \<Rightarrow> llty \<Rightarrow> bool" where
  "sse_slot n c t \<longleftrightarrow> t = llvmTwoFloatVecType \<or> getTypDisp n c t = Some FlavSSE"

definition direct_types :: "CABIParamInfo \<Rightarrow> llty list" where
  "direct_types p = (if pi_disp p = ParmDirect then pi_abiTypes p else [])"

definition int_slots :: "nat \<Rightarrow> llctx \<Rightarrow> CABIParamInfo \<Rightarrow> nat" where
  "int_slots n c p = length (filter (\<lambda>t. \<not> sse_slot n c t) (direct_types p))"

definition sse_slots :: "nat \<Rightarrow> llctx \<Rightarrow> CABIParamInfo \<Rightarrow> nat" where
  "sse_slots n c p = length (filter (sse_slot n c) (direct_types p))"

definition regs_left :: "nat \<Rightarrow> nat \<Rightarrow> ABIState \<Rightarrow> bool" where
  "regs_left ui us st \<longleftrightarrow> availIntRegs st = of_nat (6 - ui) \<and> availSSERegs st = of_nat (8 - us)"

lemma take_reg_of_nat: "a \<le> 8 \<Longrightarrow> take_reg (of_nat (a - u)) = of_nat (a - Suc u)"
proof -
  assume a: "a \<le> 8"
  have "(of_nat (a - u) :: u32) = 0 \<longleftrightarrow> a - u = 0"
    using a by (subst word_of_nat_eq_0_iff) (auto dest: dvd_imp_le)
  moreover have "a - u \<noteq> 0 \<Longrightarrow> (of_nat (a - Suc u) :: u32) = of_nat (a - u) - 1"
  proof -
    assume "a - u \<noteq> 0"
    then have "a - u = Suc (a - Suc u)" by simp
    then have "(of_nat (a - u) :: u32) = of_nat (Suc (a - Suc u))" by (rule arg_cong)
    then show ?thesis by simp
  qed
  ultimately show ?thesis by (auto simp: take_reg_def)
qed

lemma regs_left_take:
  "regs_left ui us st \<Longrightarrow>
   regs_left (if d = FlavSSE then ui else Suc ui) (if d = FlavSSE then Suc us else us) (take_region d st)"
  by (auto simp: regs_left_def take_region_def addDirectIntArg_def addDirectSSEArg_def take_reg_of_nat)

lemma getRegionTypDisp_cong: "ebr_types r = ebr_types s \<Longrightarrow> getRegionTypDisp n c r = getRegionTypDisp n c s"
  by (simp add: getRegionTypDisp_def)

lemma region_abi_type_types: "region_abi_type n tm r = Some s \<Longrightarrow> ebr_types s = ebr_types r"
  by (auto simp: region_abi_type_def bind_Some_iff Let_def split: option.splits if_splits)

lemma dispMeets_single [simp]: "dispMeets [d] = d"
  by (cases d) (simp_all add: dispMeets_def dispMeet_def)

text \<open>The register class the analysis counts for a region is that of the type it is passed as.\<close>

lemma region_class_fresh:
  assumes "region_abi_type n tm r = Some s" "ebr_abiDirectType r = None"
    and "getRegionTypDisp n (tm_context tm) s = Some d" "ebr_abiDirectType s = Some t"
  shows "d = FlavSSE \<longleftrightarrow> sse_slot n (tm_context tm) t"
proof -
  have d: "getRegionTypDisp n (tm_context tm) r = Some d"
    using assms(3) getRegionTypDisp_cong [OF region_abi_type_types [OF assms(1)]] by simp
  show ?thesis
  proof (cases "d = FlavSSE")
    case False
    with assms(1,2,4) d have "\<exists>k. t = IntTy k"
      by (auto simp: region_abi_type_def bind_Some_iff llvmArbitraryIntegerType_Some Let_def split: if_splits)
    moreover have "\<not> sse_slot n c (IntTy k)" for c k
      by (cases n) (simp_all add: sse_slot_def llvmTwoFloatVecType_def isFloatTy_def isDoubleTy_def)
    ultimately show ?thesis using False by auto
  next
    case True
    with assms(1,2,4) d consider "t = llvmTwoFloatVecType" | "ebr_types r = [t]" "t = DoubleTy \<or> t = FloatTy"
      by (auto simp: region_abi_type_def bind_Some_iff length_Suc_conv Let_def split: if_splits)
    then show ?thesis
    proof cases
      case 2
      with d True show ?thesis by (auto simp: sse_slot_def getRegionTypDisp_def bind_Some_iff)
    qed (simp add: True sse_slot_def)
  qed
qed

definition fresh_regions :: "EightByteRegion list \<Rightarrow> bool" where
  "fresh_regions rs \<longleftrightarrow> (\<forall>r \<in> set rs. ebr_abiDirectType r = None \<and> ebr_attr r = AttrNone)"

lemma fresh_regions_Nil [simp]: "fresh_regions []"
  by (simp add: fresh_regions_def)

lemma fresh_regions_new: "fresh_regions rs \<Longrightarrow> fresh_regions (rs @ [add_leaf t off empty_region])"
  by (simp add: fresh_regions_def add_leaf_def empty_region_def)

lemma fresh_regions_last:
  "fresh_regions rs \<Longrightarrow> rs \<noteq> [] \<Longrightarrow> fresh_regions (butlast rs @ [add_leaf t off (last rs)])"
  by (auto simp: fresh_regions_def add_leaf_def dest: in_set_butlastD)

lemma place_leaf_fresh: "fresh_regions rs \<Longrightarrow> fresh_regions (place_leaf rs l)"
  using fresh_regions_new [of "[]"] by (auto simp: place_leaf_def split: prod.split intro: fresh_regions_new fresh_regions_last)

lemma place_elem_fresh: "fresh_regions (fst acc) \<Longrightarrow> fresh_regions (fst (place_elem et s acc i))"
  using fresh_regions_new [of "[]"]
  by (auto simp: place_elem_def Let_def split: prod.split intro: fresh_regions_new fresh_regions_last)

lemma explode_fresh: "fresh_regions rs \<Longrightarrow> fresh_regions (foldl place_leaf rs ls)"
  by (induction ls arbitrary: rs) (simp_all add: place_leaf_fresh)

lemma explode_array_fresh: "fresh_regions (fst acc) \<Longrightarrow> fresh_regions (fst (foldl (place_elem et s) acc is))"
  by (induction "is" arbitrary: acc) (simp_all add: place_elem_fresh)

lemma explodeStruct_fresh: "explodeStruct n tm x = Some rs \<Longrightarrow> fresh_regions rs"
  by (auto simp: explodeStruct_def bind_Some_iff explode_fresh split: if_split_asm)

lemma explodeArray_fresh:
  assumes "explodeArray tm x = Some rs"
  shows "fresh_regions rs"
proof -
  from assms obtain b where b: "tm_heap tm x = Some b" by (auto simp: explodeArray_def bind_Some_iff)
  show ?thesis
  proof (cases "bt_kind b")
    case (KArray e ne)
    with assms b obtain et sz n where "rs = fst (foldl (place_elem et sz) ([], 0) [0..<n])"
      by (auto simp: explodeArray_def bind_Some_iff split: if_split_asm)
    then show ?thesis by (simp add: explode_array_fresh)
  qed (use assms b in \<open>auto simp: explodeArray_def bind_Some_iff split: if_split_asm\<close>)
qed

lemma incorporateScalar_Some:
  assumes "incorporateScalar tm x = Some rs"
  obtains b t a where "tm_heap tm x = Some b" "bt_type b = Some t"
    "rs = [\<lparr>ebr_types = [t], ebr_offsets = [0], ebr_abiDirectType = Some t, ebr_attr = a\<rparr>]"
  using assms by (auto simp: incorporateScalar_def bind_Some_iff simp del: not_None_eq split: if_split_asm)

definition class_agrees :: "nat \<Rightarrow> llctx \<Rightarrow> EightByteRegion \<Rightarrow> bool" where
  "class_agrees n c s \<longleftrightarrow> (\<forall>d t. getRegionTypDisp n c s = Some d \<longrightarrow> ebr_abiDirectType s = Some t \<longrightarrow>
     (d = FlavSSE \<longleftrightarrow> sse_slot n c t))"

lemma class_agreesD:
  "class_agrees n c s \<Longrightarrow> getRegionTypDisp n c s = Some d \<Longrightarrow> ebr_abiDirectType s = Some t \<Longrightarrow>
   d = FlavSSE \<longleftrightarrow> sse_slot n c t"
  by (simp add: class_agrees_def)

lemma eightByteInfo_class:
  assumes "eightByteInfo n tm x = Some ebrs" "tm_heap tm x = Some b" "bt_type b \<noteq> Some llvmTwoFloatVecType"
    and "s \<in> set ebrs"
  shows "class_agrees n (tm_context tm) s"
  unfolding class_agrees_def
proof (intro allI impI)
  fix d t
  assume dt: "getRegionTypDisp n (tm_context tm) s = Some d" "ebr_abiDirectType s = Some t"
  from assms(1,2) obtain rs where rs: "determineABITypes n tm rs = Some ebrs"
    "(case flavor (bt_kind b) of StructT \<Rightarrow> explodeStruct n tm x | ArrayT \<Rightarrow> explodeArray tm x
      | _ \<Rightarrow> incorporateScalar tm x) = Some rs"
    by (auto simp: eightByteInfo_def bind_Some_iff split: if_split_asm)
  from rs(1) assms(4) obtain r where r: "r \<in> set rs" "region_abi_type n tm r = Some s"
    unfolding determineABITypes_def by (blast dest: map_opt_back)
  show "d = FlavSSE \<longleftrightarrow> sse_slot n (tm_context tm) t"
  proof (cases "ebr_abiDirectType r")
    case None
    show ?thesis by (rule region_class_fresh [OF r(2) None dt])
  next
    case (Some t')
    with r(2) have s: "s = r" by (simp add: region_abi_type_def)
    have "flavor (bt_kind b) \<noteq> StructT" "flavor (bt_kind b) \<noteq> ArrayT"
      using rs(2) r(1) Some explodeStruct_fresh [of n tm x rs] explodeArray_fresh [of tm x rs]
      by (auto simp: fresh_regions_def)
    with rs(2) have "incorporateScalar tm x = Some rs" by (cases "flavor (bt_kind b)") auto
    then obtain b' u a where "tm_heap tm x = Some b'" "bt_type b' = Some u"
      "rs = [\<lparr>ebr_types = [u], ebr_offsets = [0], ebr_abiDirectType = Some u, ebr_attr = a\<rparr>]"
      by (rule incorporateScalar_Some)
    with r(1) assms(2) Some have "ebr_types r = [t']" "bt_type b = Some t'" by auto
    with assms(3) dt Some s show ?thesis
      by (auto simp: getRegionTypDisp_def sse_slot_def bind_Some_iff)
  qed
qed

text \<open>The register requirements count the regions of each class.\<close>

lemma getRegisterRequirements_counts:
  assumes "map_opt (getRegionTypDisp n (tm_context tm)) ebrs = Some ds"
  shows "getRegisterRequirements n tm ebrs =
    Some (of_nat (length (filter (\<lambda>d. d \<noteq> FlavSSE) ds)), of_nat (length (filter (\<lambda>d. d = FlavSSE) ds)))"
proof -
  have "foldl (\<lambda>(i, s) d. if d = FlavSSE then (i, s + 1) else (i + 1, s)) (i, s) ds =
    (i + of_nat (length (filter (\<lambda>d. d \<noteq> FlavSSE) ds)), s + of_nat (length (filter (\<lambda>d. d = FlavSSE) ds)))"
    for i s :: u32
    by (induction ds arbitrary: i s) auto
  with assms show ?thesis by (simp add: getRegisterRequirements_def)
qed

lemma regs_left_pass:
  assumes "pass_regions n tm ebrs attr st = Some (ts, attr', st')" "regs_left ui us st"
    and "\<forall>s \<in> set ebrs. class_agrees n (tm_context tm) s"
  shows "regs_left (ui + length (filter (\<lambda>t. \<not> sse_slot n (tm_context tm) t) ts))
           (us + length (filter (sse_slot n (tm_context tm)) ts)) st'"
  using assms
proof (induction ebrs arbitrary: attr st ts ui us)
  case (Cons r rs)
  from Cons.prems(1) obtain t d vs attr1 where *: "ebr_abiDirectType r = Some t"
    "getRegionTypDisp n (tm_context tm) r = Some d"
    "pass_regions n tm rs attr1 (take_region d st) = Some (vs, attr', st')" "ts = t # vs"
    by (rule pass_regions_ConsE)
  have cls: "d = FlavSSE \<longleftrightarrow> sse_slot n (tm_context tm) t"
    by (rule class_agreesD [OF _ *(2,1)]) (use Cons.prems(3) in simp)
  from Cons.IH [OF *(3) regs_left_take [OF Cons.prems(2)]] Cons.prems(3) cls
  show ?case by (cases "d = FlavSSE") (simp_all add: *(4))
qed simp

lemma class_counts:
  assumes "map_opt (getRegionTypDisp n c) ebrs = Some ds" "map Some ts = map ebr_abiDirectType ebrs"
    and "\<forall>s \<in> set ebrs. class_agrees n c s"
  shows "length (filter (\<lambda>d. d = FlavSSE) ds) = length (filter (sse_slot n c) ts) \<and>
    length (filter (\<lambda>d. d \<noteq> FlavSSE) ds) = length (filter (\<lambda>t. \<not> sse_slot n c t) ts)"
  using assms
proof (induction ebrs arbitrary: ds ts)
  case (Cons r rs)
  from Cons.prems(1,2) obtain d es t us where *: "getRegionTypDisp n c r = Some d" "map_opt (getRegionTypDisp n c) rs = Some es"
    "ds = d # es" "ts = t # us" "ebr_abiDirectType r = Some t" "map Some us = map ebr_abiDirectType rs"
    by (cases ts) (auto simp: bind_Some_iff)
  have "d = FlavSSE \<longleftrightarrow> sse_slot n c t" by (rule class_agreesD [OF _ *(1,5)]) (use Cons.prems(3) in simp)
  with Cons.IH [OF *(2,6)] Cons.prems(3) *(3,4) show ?case by simp
qed simp

lemma eightByteInfo_shape:
  assumes "eightByteInfo n tm x = Some ebrs"
  shows "length ebrs \<le> 2 \<and> (\<forall>r \<in> set ebrs. ebr_abiDirectType r \<noteq> None)"
proof -
  from assms obtain rs where rs: "length rs \<le> 2" "map_opt (region_abi_type n tm) rs = Some ebrs"
    by (auto simp: eightByteInfo_def determineABITypes_def bind_Some_iff split: if_split_asm)
  have "ebr_abiDirectType s \<noteq> None" if "region_abi_type n tm r = Some s" for r s
    using that by (auto simp: region_abi_type_def bind_Some_iff Let_def split: option.splits if_split_asm)
  with rs show ?thesis by (metis map_opt_back map_opt_length)
qed

text \<open>
  Everything about one parameter: its disposition is decided by its size and, between 1 and 16
  bytes, by the registers left.
\<close>

definition fits_regs :: "TypDisp list \<Rightarrow> nat \<Rightarrow> nat \<Rightarrow> bool" where
  "fits_regs ds ui us \<longleftrightarrow> length ds = 1 \<or>
     length (filter (\<lambda>d. d \<noteq> FlavSSE) ds) \<le> 6 - ui \<and> length (filter (\<lambda>d. d = FlavSSE) ds) \<le> 8 - us"

definition param_spec :: "nat \<Rightarrow> 'a tmbase_scheme \<Rightarrow> tref \<Rightarrow> nat \<Rightarrow> nat \<Rightarrow> CABIParamInfo \<Rightarrow> bool" where
  "param_spec n tm x ui us p \<longleftrightarrow> (\<exists>b t sz. tm_heap tm x = Some b \<and> bt_type b = Some t \<and> allocSize tm t = Some sz \<and>
     (sz = 0 \<longrightarrow> pi_disp p = ParmIgnore) \<and>
     (16 < sz \<longrightarrow> pi_disp p = ParmIndirect) \<and>
     (0 < sz \<longrightarrow> sz \<le> 16 \<longrightarrow> (\<exists>ebrs ds. eightByteInfo n tm x = Some ebrs \<and>
        map_opt (getRegionTypDisp n (tm_context tm)) ebrs = Some ds \<and>
        pi_disp p = (if fits_regs ds ui us then ParmDirect else ParmIndirect) \<and>
        (fits_regs ds ui us \<longrightarrow> map Some (pi_abiTypes p) = map ebr_abiDirectType ebrs))) \<and>
     (pi_disp p = ParmIndirect \<longrightarrow> pi_abiTypes p = [PointerTy t] \<and> pi_attr p = AttrByVal))"

lemma canPassDirectly_fits:
  assumes "regs_left ui us st" "length ds \<le> 2"
  shows "canPassDirectly (of_nat (length (filter (\<lambda>d. d \<noteq> FlavSSE) ds))) (of_nat (length (filter (\<lambda>d. d = FlavSSE) ds))) st
    \<longleftrightarrow> fits_regs ds ui us"
proof -
  let ?i = "length (filter (\<lambda>d. d \<noteq> FlavSSE) ds)" and ?s = "length (filter (\<lambda>d. d = FlavSSE) ds)"
  have sum: "?s + ?i = length ds" by (rule sum_length_filter_compl)
  have i: "?i \<le> 2" and s: "?s \<le> 2" using sum assms(2) by linarith+
  have le: "(of_nat k :: u32) \<le> of_nat (a - u) \<longleftrightarrow> k \<le> a - u" if "k \<le> 2" "a \<le> 8" for k a u
    using that by (simp add: word_le_nat_alt unat_of_nat take_bit_nat_eq_self)
  have one: "(of_nat ?i + of_nat ?s :: u32) = 1 \<longleftrightarrow> length ds = 1"
  proof -
    have "(of_nat ?i + of_nat ?s :: u32) = of_nat (length ds)" using sum by (simp flip: of_nat_add add: add.commute)
    moreover have "length ds = 0 \<or> length ds = 1 \<or> length ds = 2" using assms(2) by linarith
    ultimately show ?thesis by auto
  qed
  show ?thesis
    using assms(1) i s by (auto simp: canPassDirectly_def one fits_regs_def regs_left_def le)
qed

lemma analyzeABIParam_spec:
  assumes "analyzeABIParam n tm x st = Some (p, st')" "regs_left ui us st"
    and "\<And>b. tm_heap tm x = Some b \<Longrightarrow> bt_type b \<noteq> Some llvmTwoFloatVecType"
  shows "param_spec n tm x ui us p \<and>
    regs_left (ui + int_slots n (tm_context tm) p) (us + sse_slots n (tm_context tm) p) st'"
proof -
  from assms(1) obtain b t sz where b: "tm_heap tm x = Some b" "bt_type b = Some t" "allocSize tm t = Some sz"
    by (auto simp: analyzeABIParam_def classifyArgType_def bind_Some_iff split: if_split_asm)
  show ?thesis
  proof (cases "sz = 0 \<or> 16 < sz")
    case True
    with assms(1,2) b show ?thesis
      by (auto simp: analyzeABIParam_def classifyArgType_def bind_Some_iff param_infos Let_def param_spec_def
            int_slots_def sse_slots_def direct_types_def regs_left_def addIndirectArg_def makeLLVMPointerType_def
            split: if_split_asm)
  next
    case False
    with assms(1) b obtain ebrs ri rs where e: "eightByteInfo n tm x = Some ebrs"
      "getRegisterRequirements n tm ebrs = Some (ri, rs)"
      by (auto simp: analyzeABIParam_def classifyArgType_def bind_Some_iff param_infos Let_def not_less split: if_split_asm)
    obtain ds where ds: "map_opt (getRegionTypDisp n (tm_context tm)) ebrs = Some ds"
      using e(2) by (auto simp: getRegisterRequirements_def bind_Some_iff)
    have len: "length ds \<le> 2" using eightByteInfo_shape [OF e(1)] map_opt_length [OF ds] by simp
    have cls: "\<forall>s \<in> set ebrs. class_agrees n (tm_context tm) s"
      using eightByteInfo_class [OF e(1) b(1)] assms(3) [OF b(1)] by blast
    have fits: "canPassDirectly ri rs st \<longleftrightarrow> fits_regs ds ui us"
      using canPassDirectly_fits [OF assms(2) len] getRegisterRequirements_counts [OF ds] e(2) by simp
    show ?thesis
    proof (cases "fits_regs ds ui us")
      case True
      with assms(1) b False e fits obtain ts attr where d: "pass_regions n tm ebrs AttrNone st = Some (ts, attr, st')"
        "pi_disp p = ParmDirect" "pi_abiTypes p = ts"
        by (auto simp: analyzeABIParam_def classifyArgType_def bind_Some_iff param_infos Let_def not_less split: if_split_asm)
      have "param_spec n tm x ui us p"
        using b e(1) ds True d pass_regions_facts [OF d(1)] False by (auto simp: param_spec_def)
      with regs_left_pass [OF d(1) assms(2) cls] d(2,3) show ?thesis
        by (simp add: int_slots_def sse_slots_def direct_types_def)
    next
      case no: False
      with assms(1,2) b False e fits ds show ?thesis
        by (auto simp: analyzeABIParam_def classifyArgType_def bind_Some_iff param_infos Let_def not_less param_spec_def
            int_slots_def sse_slots_def direct_types_def regs_left_def addIndirectArg_def makeLLVMPointerType_def
            split: if_split_asm)
    qed
  qed
qed

text \<open>The registers of the parameters before the \<open>i\<close>-th, the hidden result pointer included.\<close>

definition ints_before :: "nat \<Rightarrow> llctx \<Rightarrow> CABIParamInfo list \<Rightarrow> nat \<Rightarrow> nat" where
  "ints_before n c infov i =
     (if pi_disp (infov ! 0) = ParmIndirect then 1 else 0) + sum_list (map (int_slots n c) (take i (drop 2 infov)))"

definition sses_before :: "nat \<Rightarrow> llctx \<Rightarrow> CABIParamInfo list \<Rightarrow> nat \<Rightarrow> nat" where
  "sses_before n c infov i = sum_list (map (sse_slots n c) (take i (drop 2 infov)))"

text \<open>Go has no vector types; only the ABI types of float pairs are vectors.\<close>

definition no_vector_params :: "'a tmbase_scheme \<Rightarrow> tref list \<Rightarrow> bool" where
  "no_vector_params tm ps \<longleftrightarrow>
     (\<forall>x \<in> set ps. \<forall>b. tm_heap tm x = Some b \<longrightarrow> bt_type b \<noteq> Some llvmTwoFloatVecType)"

lemma analyzeABIParams_spec:
  assumes "analyzeABIParams n tm ps st = Some (infos, st')" "regs_left ui us st" "i < length ps"
    and "no_vector_params tm ps"
  shows "param_spec n tm (ps ! i) (ui + sum_list (map (int_slots n (tm_context tm)) (take i infos)))
    (us + sum_list (map (sse_slots n (tm_context tm)) (take i infos))) (infos ! i)"
  using assms
proof (induction ps arbitrary: st infos i ui us)
  case (Cons x xs)
  then obtain d ds st1 where *: "infos = d # ds" "analyzeABIParam n tm x st = Some (d, st1)"
    "analyzeABIParams n tm xs st1 = Some (ds, st')"
    by (auto simp: bind_Some_iff)
  note spec = analyzeABIParam_spec [OF *(2) Cons.prems(2)]
  show ?case
  proof (cases i)
    case 0
    with spec Cons.prems(4) *(1) show ?thesis by (simp add: no_vector_params_def)
  next
    case (Suc j)
    have "regs_left (ui + int_slots n (tm_context tm) d) (us + sse_slots n (tm_context tm) d) st1"
      using spec Cons.prems(4) by (simp add: no_vector_params_def)
    from Cons.IH [OF *(3) this, of j] Cons.prems(3,4) Suc *(1) show ?thesis
      by (simp add: add.assoc no_vector_params_def)
  qed
qed simp

lemma analyzeABIReturn_regs:
  assumes "analyzeABIReturn n tm x init_state = Some (p, st)"
  shows "regs_left (if pi_disp p = ParmIndirect then 1 else 0) 0 st"
  using assms
  by (auto simp: analyzeABIReturn_def bind_Some_iff param_infos addIndirectReturn_def regs_left_def
        init_state_def take_reg_def Let_def split: if_splits prod.splits)

text \<open>
  C11. Parameters are classified as the calling convention asks: the size decides (nothing for 0
  bytes, memory above 16), and in between a parameter goes into registers exactly if it needs a
  single one or all the registers it needs are left, counting six integer and eight SSE
  registers, what earlier parameters took and the pointer to an indirect result. A parameter in
  memory is one pointer to its type, marked by-value.
\<close>

theorem cabi_disposition:
  assumes "cabiOracle n tm ps res True = Some oracle" "i < length ps"
    and "no_vector_params tm ps"
  shows "param_spec n tm (ps ! i) (ints_before n (tm_context tm) (or_infov oracle) i)
    (sses_before n (tm_context tm) (or_infov oracle) i) (or_infov oracle ! (i + 2))"
proof -
  obtain rinfo st infos st' cinfo where *: "analyzeABIReturn n tm res init_state = Some (rinfo, st)"
    "analyzeABIParams n tm ps (addChainArg st) = Some (infos, st')"
    "or_infov oracle = rinfo # cinfo # infos"
    using assms(1) by (rule cabiOracle_parts) blast
  have "regs_left (if pi_disp rinfo = ParmIndirect then 1 else 0) 0 (addChainArg st)"
    using analyzeABIReturn_regs [OF *(1)] by (simp add: regs_left_def addChainArg_def)
  from analyzeABIParams_spec [OF *(2) this assms(2,3)] show ?thesis
    by (simp add: *(3) ints_before_def sses_before_def)
qed

text \<open>
  C12. No aggregate is split between registers and memory: a parameter passed in two slots has all
  its registers, beside those of the parameters before it.
\<close>

theorem cabi_no_split:
  assumes "cabiOracle n tm ps res True = Some oracle" "i < length ps"
    and "no_vector_params tm ps"
    and "p = or_infov oracle ! (i + 2)" "pi_disp p = ParmDirect" "c = tm_context tm"
  shows "numArgSlots p \<le> 2 \<and> (numArgSlots p = 2 \<longrightarrow>
    (0 < int_slots n c p \<longrightarrow> ints_before n c (or_infov oracle) i + int_slots n c p \<le> 6) \<and>
    (0 < sse_slots n c p \<longrightarrow> sses_before n c (or_infov oracle) i + sse_slots n c p \<le> 8))"
proof -
  obtain rinfo st infos st' cinfo where *: "analyzeABIReturn n tm res init_state = Some (rinfo, st)"
    "analyzeABIParams n tm ps (addChainArg st) = Some (infos, st')"
    "or_infov oracle = rinfo # cinfo # infos"
    using assms(1) by (rule cabiOracle_parts) blast
  let ?ui = "ints_before n c (or_infov oracle) i" and ?us = "sses_before n c (or_infov oracle) i"
  have "regs_left (if pi_disp rinfo = ParmIndirect then 1 else 0) 0 (addChainArg st)"
    using analyzeABIReturn_regs [OF *(1)] by (simp add: regs_left_def addChainArg_def)
  from analyzeABIParams_spec [OF *(2) this assms(2,3)]
  have spec: "param_spec n tm (ps ! i) ?ui ?us p"
    by (simp add: *(3) ints_before_def sses_before_def assms(4,6))
  with assms(5) obtain b t sz where b: "tm_heap tm (ps ! i) = Some b" "bt_type b = Some t"
    "allocSize tm t = Some sz" "0 < sz" "sz \<le> 16"
    by (auto simp: param_spec_def simp flip: word_neq_0_conv)
  with spec assms(5) obtain ebrs ds where e: "eightByteInfo n tm (ps ! i) = Some ebrs"
    "map_opt (getRegionTypDisp n c) ebrs = Some ds" "fits_regs ds ?ui ?us"
    "map Some (pi_abiTypes p) = map ebr_abiDirectType ebrs"
    by (auto simp: param_spec_def assms(6) split: if_split_asm)
  have len: "numArgSlots p = length ebrs" using arg_cong [OF e(4), of length] by (simp add: numArgSlots_def)
  have "bt_type b \<noteq> Some llvmTwoFloatVecType" using assms(3) b(1) nth_mem [OF assms(2)] unfolding no_vector_params_def by blast
  with eightByteInfo_class [OF e(1) b(1)] have "\<forall>s \<in> set ebrs. class_agrees n c s" by (simp add: assms(6))
  from class_counts [OF e(2,4) this] e(3)
  have "length ds = 1 \<or> int_slots n c p \<le> 6 - ?ui \<and> sse_slots n c p \<le> 8 - ?us"
    by (auto simp: fits_regs_def int_slots_def sse_slots_def direct_types_def assms(5))
  moreover have "length ds = length ebrs" "length ebrs \<le> 2"
    using map_opt_length [OF e(2)] eightByteInfo_shape [OF e(1)] by simp_all
  ultimately show ?thesis using len by auto
qed

section \<open>The theorems on a sample signature\<close>

text \<open>\<open>func(struct{float64; int16}, int16, [3]float64, [3]float32) [3]float64\<close>.\<close>

lemma sample_oracle: "\<exists>oracle. cabiOracle 3 sample_tm [2, 0, 6, 5] 6 True = Some oracle"
proof -
  have "cabiOracle 3 sample_tm [2, 0, 6, 5] 6 True \<noteq> None" by code_simp
  then show ?thesis by simp
qed

lemma sample_no_vector: "no_vector_params sample_tm [2, 0, 6, 5]"
  by (simp add: no_vector_params_def sample_tm_def sample_types_def sample_array_def mk_btype_def mk_struct_def
      mk_integer_def llvmTwoFloatVecType_def)

lemma cabi_signature_slots_witness:
  "\<exists>oracle rinfo cinfo infos rt elems. cabiOracle 3 sample_tm [2, 0, 6, 5] 6 True = Some oracle \<and>
    or_infov oracle = rinfo # cinfo # infos \<and> or_fcnTypeForABI oracle = Some (FunctionTy rt elems False) \<and>
    slots_from elems (length (sret_elems rinfo)) (cinfo # infos)"
proof -
  obtain orc where o: "cabiOracle 3 sample_tm [2, 0, 6, 5] 6 True = Some orc" using sample_oracle by blast
  from cabi_signature_slots [OF o] o show ?thesis by blast
qed

lemma cabi_disposition_witness:
  "\<exists>oracle ui us. cabiOracle 3 sample_tm [2, 0, 6, 5] 6 True = Some oracle \<and>
    param_spec 3 sample_tm 5 ui us (or_infov oracle ! 5)"
proof -
  obtain orc where o: "cabiOracle 3 sample_tm [2, 0, 6, 5] 6 True = Some orc" using sample_oracle by blast
  from cabi_disposition [OF o _ sample_no_vector, of 3] o show ?thesis by (auto simp: eval_nat_numeral)
qed

lemma cabi_no_split_witness:
  "\<exists>oracle. cabiOracle 3 sample_tm [2, 0, 6, 5] 6 True = Some oracle \<and> numArgSlots (or_infov oracle ! 2) = 2 \<and>
    ints_before 3 empty_llctx (or_infov oracle) 0 + int_slots 3 empty_llctx (or_infov oracle ! 2) \<le> 6"
proof -
  have run: "(case cabiOracle 3 sample_tm [2, 0, 6, 5] 6 True of None \<Rightarrow> False | Some oracle \<Rightarrow>
    pi_disp (or_infov oracle ! 2) = ParmDirect \<and> numArgSlots (or_infov oracle ! 2) = 2 \<and>
    0 < int_slots 3 empty_llctx (or_infov oracle ! 2))" by code_simp
  obtain orc where o: "cabiOracle 3 sample_tm [2, 0, 6, 5] 6 True = Some orc" using sample_oracle by blast
  have c: "empty_llctx = tm_context sample_tm" by (simp add: sample_tm_def)
  from run o have "pi_disp (or_infov orc ! (0 + 2)) = ParmDirect" by (simp add: numeral_2_eq_2)
  from cabi_no_split [OF o _ sample_no_vector refl this c] run o show ?thesis by (auto simp: numeral_2_eq_2)
qed

end
