(* ===== verification/CabiLayout.thy ===== *)
theory CabiLayout
  imports CabiOracle
begin

text \<open>
  The eight-byte regions the ABI oracle computes for structs and arrays (\<open>addLeafTypes\<close>,
  \<open>explodeStruct\<close>, \<open>explodeArray\<close>, \<open>determineABITypes\<close> of \<^verbatim>\<open>go-llvm-cabi-oracle.cpp\<close>) against the
  memory layout of the type: where they are right, and the arrays on which the compiler aborts.
\<close>

section \<open>Leaves of an aggregate\<close>

text \<open>
  \<open>leaves_in tm lo hi ls\<close>: the leaves \<open>ls\<close> lie one behind the other, without overlap, between the
  byte offsets \<open>lo\<close> and \<open>hi\<close>.
\<close>

definition obj_size :: "'a tmbase_scheme \<Rightarrow> layout \<Rightarrow> tref \<Rightarrow> nat" where
  "obj_size tm D x = (case tm_heap tm x of None \<Rightarrow> 0 | Some b \<Rightarrow>
     (case bt_type b of None \<Rightarrow> 0 | Some t \<Rightarrow> getTypeAllocSize D (tm_context tm) t))"

fun leaves_in :: "'a tmbase_scheme \<Rightarrow> layout \<Rightarrow> nat \<Rightarrow> nat \<Rightarrow> (tref \<times> u32) list \<Rightarrow> bool" where
  "leaves_in tm D lo hi [] \<longleftrightarrow> lo \<le> hi"
| "leaves_in tm D lo hi ((x, off) # ls) \<longleftrightarrow>
     lo \<le> unat off \<and> leaves_in tm D (unat off + obj_size tm D x) hi ls"

lemma leaves_in_widen: "leaves_in tm D lo hi ls \<Longrightarrow> lo' \<le> lo \<Longrightarrow> hi \<le> hi' \<Longrightarrow> leaves_in tm D lo' hi' ls"
  by (induction ls arbitrary: lo lo') auto

lemma leaves_in_append:
  "leaves_in tm D lo mid ls \<Longrightarrow> leaves_in tm D mid hi ms \<Longrightarrow> leaves_in tm D lo hi (ls @ ms)"
  by (induction ls arbitrary: lo) (auto elim: leaves_in_widen)

lemma leaves_in_le: "leaves_in tm D lo hi ls \<Longrightarrow> lo \<le> hi"
  by (induction ls arbitrary: lo) fastforce+

text \<open>A row of parts, each inside its own range.\<close>

lemma leaves_in_concat:
  assumes "\<And>i. i < length lss \<Longrightarrow> leaves_in tm D (f i) (g i) (lss ! i)"
    and "\<And>i. Suc i < length lss \<Longrightarrow> g i \<le> f (Suc i)"
    and "lss \<noteq> [] \<Longrightarrow> lo \<le> f 0" "lss \<noteq> [] \<Longrightarrow> g (length lss - 1) \<le> hi" "lo \<le> hi"
  shows "leaves_in tm D lo hi (concat lss)"
  using assms
proof (induction lss arbitrary: lo f g)
  case (Cons ls lss)
  have first: "leaves_in tm D lo (g 0) ls"
    using Cons.prems(1) [of 0] Cons.prems(3) by (auto intro: leaves_in_widen)
  have "leaves_in tm D (g 0) hi (concat lss)"
  proof (rule Cons.IH [of "\<lambda>i. f (Suc i)" "\<lambda>i. g (Suc i)"])
    show "g 0 \<le> hi"
    proof -
      have mono: "i < length (ls # lss) \<Longrightarrow> g 0 \<le> g i" for i :: nat
      proof (induction i)
        case (Suc i)
        have "f (Suc i) \<le> g (Suc i)" using Cons.prems(1) [OF Suc.prems] by (rule leaves_in_le)
        with Suc Cons.prems(2) [of i] show ?case by simp
      qed simp
      then have "g 0 \<le> g (length lss)" by simp
      with Cons.prems(4) show ?thesis by simp
    qed
  next
    fix i
    assume i: "i < length lss"
    show "leaves_in tm D (f (Suc i)) (g (Suc i)) (lss ! i)" using Cons.prems(1) [of "Suc i"] i by simp
  next
    show "lss \<noteq> [] \<Longrightarrow> g 0 \<le> f (Suc 0)" using Cons.prems(2) [of 0] by simp
  next
    show "lss \<noteq> [] \<Longrightarrow> g (Suc (length lss - 1)) \<le> hi" using Cons.prems(4) by simp
  next
    show "Suc i < length lss \<Longrightarrow> g (Suc i) \<le> f (Suc (Suc i))" for i using Cons.prems(2) [of "Suc i"] by simp
  qed
  with first show ?case by (simp add: leaves_in_append)
qed simp

text \<open>The state the analysis runs in: types and LLVM types agree, and the error type is no aggregate.\<close>

definition tm_wf :: "'a tmbase_scheme \<Rightarrow> layout \<Rightarrow> bool" where
  "tm_wf tm D \<longleftrightarrow> tm_datalayout tm = Some D \<and> layout_ok D (tm_context tm) \<and>
     heap_typed (tm_heap tm) (tm_context tm) \<and>
     (\<forall>b. tm_heap tm (tm_errorType tm) = Some b \<longrightarrow> bt_kind b = KAux)"

lemma tm_wf_typed:
  assumes "tm_wf tm D" "typed_part (tm_heap tm) x t" "tm_heap tm x = Some b"
    and "flavor (bt_kind b) \<in> {StructT, ArrayT}"
  shows "typed_obj (tm_heap tm) (tm_context tm) b \<and> bt_type b = Some t"
  using assms by (auto simp: tm_wf_def typed_part_def heap_typed_def)

lemma unat_offset_add:
  "unat (off :: u32) + k < 2 ^ 32 \<Longrightarrow> unat (off + ucast (of_nat k :: u64)) = unat off + k"
proof -
  assume a: "unat off + k < 2 ^ 32"
  then have "(ucast (of_nat k :: u64) :: u32) = of_nat k"
    by (simp add: unsigned_of_nat take_bit_nat_eq_self)
  with a show ?thesis by (simp add: unat_word_ariths unat_of_nat take_bit_nat_eq_self)
qed

lemma enumerate_map_opt:
  assumes "map_opt F (enumerate 0 fs) = Some ys" "i < length fs"
  shows "i < length ys \<and> F (i, fs ! i) = Some (ys ! i)"
proof -
  have all: "list_all2 (\<lambda>x y. F x = Some y) (enumerate 0 fs) ys" using assms(1) by (simp add: map_opt_Some_iff)
  have "length ys = length fs" using list_all2_lengthD [OF all] by simp
  with list_all2_nthD [OF all, of i] assms(2) show ?thesis by (simp add: nth_enumerate_eq)
qed

lemma addLeafTypes_in:
  assumes "tm_wf tm D"
  shows "addLeafTypes n tm (Some x) off = Some ls \<Longrightarrow> typed_part (tm_heap tm) x t \<Longrightarrow>
    unat off + getTypeAllocSize D (tm_context tm) t < 2 ^ 32 \<Longrightarrow>
    leaves_in tm D (unat off) (unat off + getTypeAllocSize D (tm_context tm) t) ls"
proof (induction n arbitrary: x off ls t)
  case (Suc n)
  let ?h = "tm_heap tm" and ?c = "tm_context tm"
  let ?sz = "getTypeAllocSize D ?c"
  have D: "tm_datalayout tm = Some D" "layout_ok D ?c" using assms by (auto simp: tm_wf_def)
  from Suc.prems(2) obtain b where b: "?h x = Some b" "bt_type b = Some t" by (auto simp: typed_part_def)
  then have size: "obj_size tm D x = ?sz t" by (simp add: obj_size_def)
  note typed = tm_wf_typed [OF assms Suc.prems(2) b(1)]
  show ?case
  proof (cases "bt_kind b")
    case (KStruct fs)
    with typed b(2) obtain ts where ts: "isStructTy t" "struct_elems ?c t = Some ts"
      "list_all2 (\<lambda>f t. typed_part ?h (ti_btype f) t) fs ts"
      by (auto simp: typed_obj_def)
    from Suc.prems(1) b KStruct obtain lss where lss: "ls = concat lss"
      "map_opt (\<lambda>(fidx, f). do { foff \<leftarrow> typeFieldOffset tm x fidx;
         addLeafTypes n tm (Some (ti_btype f)) (off + ucast foff) }) (enumerate 0 fs) = Some lss"
      by (auto simp: bind_Some_iff)
    have noerr: "x \<noteq> tm_errorType tm" using assms b(1) KStruct by (auto simp: tm_wf_def)
    have len: "length lss = length fs" "length ts = length fs"
      using map_opt_length [OF lss(2)] list_all2_lengthD [OF ts(3)] by simp_all
    let ?o = "getElementOffset D ?c t"
    have part: "leaves_in tm D (unat off + ?o i) (unat off + ?o i + ?sz (ts ! i)) (lss ! i)" if i: "i < length lss" for i
    proof -
      have "addLeafTypes n tm (Some (ti_btype (fs ! i))) (off + ucast (of_nat (?o i) :: u64)) = Some (lss ! i)"
        using enumerate_map_opt [OF lss(2), of i] i len b ts noerr D(1)
        by (auto simp: typeFieldOffset_def bind_Some_iff offset_of_Some)
      moreover have "typed_part ?h (ti_btype (fs ! i)) (ts ! i)" using list_all2_nthD [OF ts(3), of i] i len by simp
      moreover have "?o i + ?sz (ts ! i) \<le> ?sz t" using layout_field_inside [OF D(2) ts(2)] i len by simp
      ultimately show ?thesis
        using Suc.IH [of "ti_btype (fs ! i)" "off + ucast (of_nat (?o i) :: u64)" "lss ! i" "ts ! i"] Suc.prems(3)
        by (simp add: unat_offset_add)
    qed
    show ?thesis unfolding lss(1)
    proof (rule leaves_in_concat [OF part])
      fix i assume "Suc i < length lss"
      then show "unat off + ?o i + ?sz (ts ! i) \<le> unat off + ?o (Suc i)"
        using layout_fields_ordered [OF D(2) ts(2), of i "Suc i"] len by simp
    next
      assume "lss \<noteq> []"
      then show "unat off + ?o (length lss - 1) + ?sz (ts ! (length lss - 1)) \<le> unat off + ?sz t"
        using layout_field_inside [OF D(2) ts(2), of "length lss - 1"] len by (cases fs) simp_all
    qed simp_all
  next
    case (KArray e ne)
    with typed b(2) obtain T nel y where ty: "e = Some y" "nelSize ne = Some nel" "t = ArrayTy T nel" "typed_part ?h y T"
      by (auto simp: typed_obj_def)
    then obtain eb where eb: "?h y = Some eb" "bt_type eb = Some T" by (auto simp: typed_part_def)
    let ?off = "\<lambda>i. off + ucast (of_nat i * of_nat (?sz T) :: u64)"
    have ix: "map_opt (\<lambda>i. do { sz \<leftarrow> allocSize tm T; addLeafTypes n tm (Some y) (off + ucast (of_nat i * sz)) }) xs = Some lss \<Longrightarrow>
      list_all2 (\<lambda>i ls. addLeafTypes n tm (Some y) (?off i) = Some ls) xs lss" for xs lss
      by (auto simp: map_opt_Some_iff bind_Some_iff allocSize_def alloc_of_Some D(1) elim!: list_all2_mono)
    from Suc.prems(1) b KArray ty eb obtain lss where lss: "ls = concat lss"
      "list_all2 (\<lambda>i ls. addLeafTypes n tm (Some y) (?off i) = Some ls) [0..<unat nel] lss"
      by (auto simp: bind_Some_iff dest!: ix split: if_split_asm)
    have len: "length lss = unat nel" using list_all2_lengthD [OF lss(2)] by simp
    have total: "?sz t = unat nel * ?sz T" by (simp add: ty(3) layout_array [OF D(2)])
    have inside: "Suc i * ?sz T \<le> ?sz t" if "i < length lss" for i
      unfolding total using that len by (intro mult_le_mono1) simp
    have part: "leaves_in tm D (unat off + i * ?sz T) (unat off + Suc i * ?sz T) (lss ! i)" if i: "i < length lss" for i
    proof -
      have "addLeafTypes n tm (Some y) (?off i) = Some (lss ! i)" using list_all2_nthD2 [OF lss(2) i] i len by simp
      moreover have "unat (?off i) = unat off + i * ?sz T"
        using inside [OF i] Suc.prems(3) unat_offset_add [of off "i * ?sz T"] by simp
      ultimately show ?thesis
        using Suc.IH [of y "?off i" "lss ! i" T] ty(4) inside [OF i] Suc.prems(3) by (simp add: add_ac)
    qed
    show ?thesis unfolding lss(1)
    proof (rule leaves_in_concat [OF part])
      assume "lss \<noteq> []"
      then show "unat off + Suc (length lss - 1) * ?sz T \<le> unat off + ?sz t" using inside [of "length lss - 1"] by simp
    qed simp_all
  qed (use Suc.prems(1) b size in auto)
qed simp

section \<open>Regions of a struct\<close>

text \<open>
  The LLVM view of the leaves, and what a leaf must be for the ABI's rules to apply: a scalar of
  1, 2, 4 or 8 bytes without padding, at a multiple of its size.
\<close>

fun tleaves_in :: "layout \<Rightarrow> llctx \<Rightarrow> nat \<Rightarrow> nat \<Rightarrow> (llty \<times> u32) list \<Rightarrow> bool" where
  "tleaves_in D c lo hi [] \<longleftrightarrow> lo \<le> hi"
| "tleaves_in D c lo hi ((t, off) # ls) \<longleftrightarrow>
     lo \<le> unat off \<and> tleaves_in D c (unat off + getTypeAllocSize D c t) hi ls"

definition scalar_leaf :: "layout \<Rightarrow> llctx \<Rightarrow> llty \<Rightarrow> bool" where
  "scalar_leaf D c t \<longleftrightarrow> (isIntegerTy t \<or> isPointerTy t \<or> t = FloatTy \<or> t = DoubleTy) \<and> isSized D c t \<and>
     getTypeAllocSize D c t \<in> {1, 2, 4, 8} \<and> getTypeSizeInBits D c t = 8 * getTypeAllocSize D c t"

definition abi_leaf :: "layout \<Rightarrow> llctx \<Rightarrow> llty \<times> u32 \<Rightarrow> bool" where
  "abi_leaf D c l \<longleftrightarrow> scalar_leaf D c (fst l) \<and> unat (snd l) mod getTypeAllocSize D c (fst l) = 0"

definition float_sizes :: "layout \<Rightarrow> llctx \<Rightarrow> bool" where
  "float_sizes D c \<longleftrightarrow> getTypeAllocSize D c FloatTy = 4 \<and> getTypeAllocSize D c DoubleTy = 8"

definition is_sse :: "llty \<Rightarrow> bool" where
  "is_sse t \<longleftrightarrow> t = FloatTy \<or> t = DoubleTy"

definition mk_region :: "(llty \<times> u32) list \<Rightarrow> EightByteRegion" where
  "mk_region g = \<lparr>ebr_types = map fst g, ebr_offsets = map (\<lambda>l. ucast (snd l)) g, ebr_abiDirectType = None, ebr_attr = AttrNone\<rparr>"

definition in_block :: "(llty \<times> u32) list \<Rightarrow> bool" where
  "in_block g \<longleftrightarrow> (\<exists>q. \<forall>l \<in> set g. unat (snd l) div 8 = q)"

lemma tleaves_in_le: "tleaves_in D c lo hi ls \<Longrightarrow> lo \<le> hi"
  by (induction ls arbitrary: lo) fastforce+

lemma tleaves_in_of: "leaves_in tm D lo hi ls \<Longrightarrow> map_opt (leaf_type tm) ls = Some ts \<Longrightarrow> tleaves_in D (tm_context tm) lo hi ts"
  by (induction ls arbitrary: lo ts) (auto simp: bind_Some_iff leaf_type_def obj_size_def)

lemma tleaves_in_append:
  "tleaves_in D c lo hi (xs @ ys) \<Longrightarrow> \<exists>mid. tleaves_in D c lo mid xs \<and> tleaves_in D c mid hi ys"
proof (induction xs arbitrary: lo)
  case Nil
  then show ?case by auto
next
  case (Cons l xs)
  obtain t off where l: "l = (t, off)" by (cases l)
  from Cons.prems l have "tleaves_in D c (unat off + getTypeAllocSize D c t) hi (xs @ ys)" by simp
  from Cons.IH [OF this] Cons.prems l show ?case by auto
qed

lemma tleaves_in_ge: "tleaves_in D c lo hi ls \<Longrightarrow> l \<in> set ls \<Longrightarrow> lo \<le> unat (snd l) \<and> unat (snd l) + getTypeAllocSize D c (fst l) \<le> hi"
  by (induction ls arbitrary: lo) (fastforce dest: tleaves_in_le)+

lemma place_leaf_first: "place_leaf [] l = [mk_region [l]]"
  by (simp add: place_leaf_def mk_region_def add_leaf_def empty_region_def split: prod.split)

lemma add_leaf_mk_region: "add_leaf t off (mk_region g) = mk_region (g @ [(t, off)])"
  by (simp add: add_leaf_def mk_region_def)

lemma place_low: "\<forall>l \<in> set ls. snd l < 8 \<Longrightarrow> foldl place_leaf [mk_region g] ls = [mk_region (g @ ls)]"
  by (induction ls arbitrary: g) (auto simp: place_leaf_def add_leaf_mk_region split: prod.splits)

lemma place_second: "foldl place_leaf [r, mk_region g] ls = [r, mk_region (g @ ls)]"
  by (induction ls arbitrary: g) (auto simp: place_leaf_def add_leaf_mk_region split: prod.splits)

lemma place_high: "8 \<le> snd l \<Longrightarrow> place_leaf [mk_region g] l = [mk_region g, mk_region [l]]"
  by (cases l) (simp add: place_leaf_def mk_region_def add_leaf_def empty_region_def)

lemma tleaves_split:
  assumes "tleaves_in D c lo hi ls"
  shows "\<exists>xs ys. ls = xs @ ys \<and> (\<forall>l \<in> set xs. snd l < 8) \<and> (\<forall>l \<in> set ys. 8 \<le> snd l)"
  using assms
proof (induction ls arbitrary: lo)
  case (Cons l ls)
  obtain t off where l: "l = (t, off)" by (cases l)
  show ?case
  proof (cases "off < 8")
    case True
    from Cons l obtain xs ys where "ls = xs @ ys" "\<forall>l \<in> set xs. snd l < 8" "\<forall>l \<in> set ys. 8 \<le> snd l"
      by fastforce
    with True l show ?thesis by (intro exI [of _ "l # xs"] exI [of _ ys]) simp
  next
    case False
    then have "8 \<le> unat off" by (simp add: word_less_nat_alt)
    with Cons.prems l have "\<forall>m \<in> set (l # ls). 8 \<le> unat (snd m)"
      using tleaves_in_ge [OF Cons.prems] l by (auto dest!: tleaves_in_ge)
    then have "\<forall>m \<in> set (l # ls). 8 \<le> snd m" by (simp add: word_le_nat_alt)
    then show ?thesis by (intro exI [of _ "[]"] exI [of _ "l # ls"]) simp
  qed
qed simp

lemma blocks:
  "\<forall>l \<in> set xs. snd l < (8 :: u32) \<Longrightarrow> in_block xs"
  "\<forall>l \<in> set xs. 8 \<le> snd l \<Longrightarrow> tleaves_in D c lo 16 xs \<Longrightarrow> \<forall>l \<in> set xs. 0 < getTypeAllocSize D c (fst l) \<Longrightarrow> in_block xs"
proof -
  show "\<forall>l \<in> set xs. snd l < (8 :: u32) \<Longrightarrow> in_block xs"
    unfolding in_block_def by (intro exI [of _ 0]) (auto simp: word_less_nat_alt)
  assume a: "\<forall>l \<in> set xs. 8 \<le> snd l" "tleaves_in D c lo 16 xs" "\<forall>l \<in> set xs. 0 < getTypeAllocSize D c (fst l)"
  have "unat (snd l) div 8 = 1" if "l \<in> set xs" for l
  proof -
    have "8 \<le> unat (snd l)" "unat (snd l) < 16"
      using a tleaves_in_ge [OF a(2) that] that by (auto simp: word_le_nat_alt)
    then show ?thesis by (simp add: div_nat_eqI)
  qed
  then show "in_block xs" unfolding in_block_def by blast
qed

text \<open>The loop of \<open>explodeStruct\<close> splits ordered leaves at byte 8.\<close>

lemma place_all:
  assumes "tleaves_in D c 0 16 ls" "\<forall>l \<in> set ls. 0 < getTypeAllocSize D c (fst l)"
  shows "\<exists>gs. foldl place_leaf [] ls = map mk_region gs \<and> concat gs = ls \<and> length gs \<le> 2 \<and>
    (\<forall>g \<in> set gs. g \<noteq> [] \<and> in_block g)"
proof -
  obtain xs ys where split: "ls = xs @ ys" "\<forall>l \<in> set xs. snd l < 8" "\<forall>l \<in> set ys. 8 \<le> snd l"
    using tleaves_split [OF assms(1)] by blast
  obtain mid where ys: "tleaves_in D c mid 16 ys" using tleaves_in_append assms(1) split(1) by blast
  have blk: "in_block ys" by (rule blocks(2) [OF split(3) ys]) (use assms(2) split(1) in simp)
  have sub: "in_block zs" if "in_block ys" "set zs \<subseteq> set ys" for zs using that by (auto simp: in_block_def)
  show ?thesis
  proof (cases xs)
    case Nil
    then show ?thesis
    proof (cases ys)
      case (Cons h t)
      show ?thesis
      proof (cases t)
        case Nil
        with Cons \<open>xs = []\<close> split(1) blk show ?thesis
          by (intro exI [of _ "[[h]]"]) (simp add: place_leaf_first)
      next
        case t: (Cons u v)
        with Cons \<open>xs = []\<close> split(1,3) have "foldl place_leaf [] ls = [mk_region [h], mk_region t]"
          by (simp add: place_leaf_first place_high place_second)
        with Cons \<open>xs = []\<close> split(1) t sub [OF blk, of "[h]"] sub [OF blk, of t] show ?thesis
          by (intro exI [of _ "[[h], t]"]) auto
      qed
    qed (simp add: split(1))
  next
    case (Cons h t)
    then have low: "foldl place_leaf [] xs = [mk_region xs]"
      using split(2) place_low [of t "[h]"] by (simp add: place_leaf_first)
    show ?thesis
    proof (cases ys)
      case Nil
      with low Cons split(1) blocks(1) [OF split(2)] show ?thesis by (intro exI [of _ "[xs]"]) simp
    next
      case ys': (Cons u v)
      with low split(1,3) have "foldl place_leaf [] ls = [mk_region xs, mk_region ys]"
        by (simp add: place_high place_second)
      with Cons ys' split(1) blocks(1) [OF split(2)] blk show ?thesis by (intro exI [of _ "[xs, ys]"]) simp
    qed
  qed
qed

text \<open>
  What the type of a region must be: a region of floats and doubles is a single one or a pair of
  floats and keeps that type; any other is passed as the integer that spans its leaves, from the
  first byte of the first to the last byte of the last.
\<close>

definition span :: "layout \<Rightarrow> llctx \<Rightarrow> (llty \<times> u32) list \<Rightarrow> nat" where
  "span D c g = unat (snd (last g)) + getTypeAllocSize D c (fst (last g)) - unat (snd (hd g))"

definition region_type :: "layout \<Rightarrow> llctx \<Rightarrow> (llty \<times> u32) list \<Rightarrow> llty \<Rightarrow> bool" where
  "region_type D c g t \<longleftrightarrow>
     (if \<forall>l \<in> set g. is_sse (fst l)
      then map fst g = [t] \<or> map fst g = [FloatTy, FloatTy] \<and> t = llvmTwoFloatVecType
      else t = IntTy (of_nat (8 * span D c g)) \<and> 0 < span D c g \<and> span D c g \<le> 8)"

definition region_ok :: "layout \<Rightarrow> llctx \<Rightarrow> (llty \<times> u32) list \<Rightarrow> EightByteRegion \<Rightarrow> bool" where
  "region_ok D c g r \<longleftrightarrow> in_block g \<and> ebr_types r = map fst g \<and> ebr_offsets r = map (\<lambda>l. ucast (snd l)) g \<and>
     ebr_attr r = AttrNone \<and> (\<exists>t. ebr_abiDirectType r = Some t \<and> region_type D c g t)"

lemma scalar_disp: "scalar_leaf D c t \<Longrightarrow> getTypDisp (Suc n) c t = Some (if is_sse t then FlavSSE else FlavInt)"
  by (cases t) (auto simp: scalar_leaf_def is_sse_def isFloatTy_def isDoubleTy_def)

lemma dispMeets_Cons_scalar:
  "dispMeets (map (\<lambda>x. if P x then FlavSSE else FlavInt) (x # xs)) = (if \<forall>y \<in> set (x # xs). P y then FlavSSE else FlavInt)"
proof -
  have acc: "foldl (\<lambda>disp d. dispMeet d disp) d (map (\<lambda>x. if P x then FlavSSE else FlavInt) ys) =
    (if d = FlavSSE \<and> (\<forall>y \<in> set ys. P y) then FlavSSE else FlavInt)" if "d \<noteq> FlavEmpty" for d ys
    using that
  proof (induction ys arbitrary: d)
    case Nil
    then show ?case by (cases d) auto
  next
    case (Cons y ys)
    then show ?case by (cases d) (auto simp: dispMeet_def)
  qed
  have first: "dispMeet d FlavEmpty = d" for d by (cases d) (simp_all add: dispMeet_def)
  show ?thesis by (simp add: dispMeets_def first acc)
qed

lemma mk_region_disp:
  assumes "\<forall>l \<in> set g. scalar_leaf D c (fst l)" "g \<noteq> []"
  shows "getRegionTypDisp (Suc n) c (mk_region g) = Some (if \<forall>l \<in> set g. is_sse (fst l) then FlavSSE else FlavInt)"
proof -
  have "map_opt (getTypDisp (Suc n) c) (map fst g) = Some (map (\<lambda>t. if is_sse t then FlavSSE else FlavInt) (map fst g))"
  proof (rule map_opt_total)
    fix t assume "t \<in> set (map fst g)"
    with assms(1) have "scalar_leaf D c t" by auto
    then show "getTypDisp (Suc n) c t = Some (if is_sse t then FlavSSE else FlavInt)" by (rule scalar_disp)
  qed
  moreover obtain l g' where "g = l # g'" using assms(2) by (cases g) auto
  ultimately show ?thesis
    using dispMeets_Cons_scalar [of is_sse "fst l" "map fst g'"]
    by (simp add: getRegionTypDisp_def mk_region_def del: getTypDisp.simps)
qed

lemma dataSize_scalar:
  assumes "tm_datalayout tm = Some D" "scalar_leaf D (tm_context tm) t"
  shows "dataSize tm t = Some (of_nat (getTypeAllocSize D (tm_context tm) t))"
proof -
  let ?a = "getTypeAllocSize D (tm_context tm) t"
  have "?a = 1 \<or> ?a = 2 \<or> ?a = 4 \<or> ?a = 8" using assms(2) by (simp add: scalar_leaf_def)
  with assms show ?thesis
    by (elim disjE) (simp_all add: dataSize_def bits_of_def scalar_leaf_def Let_def)
qed

text \<open>A leaf at a multiple of its size does not cross an eight-byte boundary.\<close>

lemma abi_leaf_block: "abi_leaf D c (t, off) \<Longrightarrow> unat off + getTypeAllocSize D c t \<le> 8 * (unat off div 8) + 8"
proof -
  assume "abi_leaf D c (t, off)"
  then have "getTypeAllocSize D c t \<in> {1, 2, 4, 8}" "unat off mod getTypeAllocSize D c t = 0"
    by (simp_all add: abi_leaf_def scalar_leaf_def)
  then show ?thesis by (elim insertE emptyE) (simp_all; presburger)+
qed

lemma sse_group:
  assumes "tleaves_in D c lo (lo + 8) g" "g \<noteq> []" "\<forall>l \<in> set g. is_sse (fst l)" "float_sizes D c"
  shows "\<exists>t. map fst g = [t] \<or> map fst g = [FloatTy, FloatTy]"
proof -
  obtain t off g1 where g: "g = (t, off) # g1" using assms(2) by (cases g) auto
  show ?thesis
  proof (cases g1)
    case Nil
    with g show ?thesis by simp
  next
    case (Cons l g2)
    obtain u off2 where l: "l = (u, off2)" by (cases l)
    have sz: "4 \<le> getTypeAllocSize D c v" "v \<noteq> FloatTy \<Longrightarrow> getTypeAllocSize D c v = 8" if "v \<in> fst ` set g" for v
      using assms(3,4) that by (auto simp: is_sse_def float_sizes_def)
    have rest: "tleaves_in D c (unat off2 + getTypeAllocSize D c u) (lo + 8) g2"
      and o: "lo \<le> unat off" "unat off + getTypeAllocSize D c t \<le> unat off2"
      using assms(1) g Cons l by simp_all
    have o2: "unat off2 + getTypeAllocSize D c u \<le> lo + 8" using tleaves_in_le [OF rest] .
    have t: "t = FloatTy" using sz(2) [of t] sz(1) [of u] o o2 g Cons l by fastforce
    have u: "u = FloatTy" using sz(2) [of u] sz(1) [of t] o o2 g Cons l by fastforce
    have "g2 = []"
    proof (cases g2)
      case c: (Cons m g3)
      obtain v off3 where m: "m = (v, off3)" by (cases m)
      have "lo + 8 < unat off3 + getTypeAllocSize D c v"
        using rest c m o o2 sz(1) [of t] sz(1) [of u] sz(1) [of v] g Cons l by simp
      then show ?thesis using rest c m tleaves_in_le by fastforce
    qed
    with g Cons l t u show ?thesis by simp
  qed
qed

lemma region_abi_type_ok:
  assumes tm: "tm_datalayout tm = Some D" "c = tm_context tm" "float_sizes D c"
    and g: "g \<noteq> []" "in_block g" "\<forall>l \<in> set g. abi_leaf D c l" "tleaves_in D c lo hi g"
  shows "\<exists>r. region_abi_type (Suc n) tm (mk_region g) = Some r \<and> region_ok D c g r"
proof -
  have sc: "\<forall>l \<in> set g. scalar_leaf D c (fst l)" using g(3) by (simp add: abi_leaf_def)
  obtain q where q: "\<forall>l \<in> set g. unat (snd l) div 8 = q" using g(2) by (auto simp: in_block_def)
  have range: "8 * q \<le> unat (snd l)" "unat (snd l) + getTypeAllocSize D c (fst l) \<le> 8 * q + 8" if "l \<in> set g" for l
    using q that g(3) abi_leaf_block [of D c "fst l" "snd l"] by auto
  note disp = mk_region_disp [OF sc g(1), of n]
  show ?thesis
  proof (cases "\<forall>l \<in> set g. is_sse (fst l)")
    case True
    have "tleaves_in D c (8 * q) (8 * q + 8) g"
    proof -
      have "tleaves_in D c lo hi xs \<Longrightarrow> (\<forall>l \<in> set xs. 8 * q \<le> unat (snd l) \<and> unat (snd l) + getTypeAllocSize D c (fst l) \<le> 8 * q + 8)
        \<Longrightarrow> xs \<noteq> [] \<Longrightarrow> tleaves_in D c (unat (snd (hd xs))) (8 * q + 8) xs" for xs lo
      proof (induction xs arbitrary: lo)
        case (Cons x xs)
        then show ?case
        proof (cases xs)
          case (Cons y ys)
          with Cons.IH [of "unat (snd x) + getTypeAllocSize D c (fst x)"] Cons.prems Cons show ?thesis
            by (cases x; cases y) auto
        qed (cases x; auto)
      qed simp
      from this [OF g(4)] range g(1) have "tleaves_in D c (unat (snd (hd g))) (8 * q + 8) g" by blast
      moreover have "8 * q \<le> unat (snd (hd g))" using range(1) g(1) by simp
      ultimately show ?thesis by (cases g) (auto split: prod.splits)
    qed
    then have "\<exists>t. map fst g = [t] \<or> map fst g = [FloatTy, FloatTy]" by (rule sse_group) (fact g(1) True tm(3))+
    then obtain t where t: "map fst g = [t] \<or> map fst g = [FloatTy, FloatTy]" by (rule exE)
    have ty: "t = DoubleTy \<or> t = FloatTy" if "map fst g = [t]"
    proof -
      from that have "t \<in> fst ` set g" by (metis list.set_intros(1) set_map)
      with True show ?thesis by (auto simp: is_sse_def)
    qed
    have dsse: "getRegionTypDisp (Suc n) (tm_context tm) (mk_region g) = Some FlavSSE" using disp True tm(2) by simp
    have fresh: "ebr_abiDirectType (mk_region g) = None" "ebr_types (mk_region g) = map fst g"
      by (simp_all add: mk_region_def)
    from t show ?thesis
    proof
      assume one: "map fst g = [t]"
      then have "region_abi_type (Suc n) tm (mk_region g) = Some ((mk_region g)\<lparr>ebr_abiDirectType := Some t\<rparr>)"
        unfolding region_abi_type_def fresh option.case dsse using ty [OF one] by (elim disjE) (simp_all add: nth_opt_def)
      with one True g(2) show ?thesis by (simp add: region_ok_def region_type_def mk_region_def)
    next
      assume two: "map fst g = [FloatTy, FloatTy]"
      then have "region_abi_type (Suc n) tm (mk_region g) = Some ((mk_region g)\<lparr>ebr_abiDirectType := Some llvmTwoFloatVecType\<rparr>)"
        unfolding region_abi_type_def fresh option.case dsse by (simp add: nth_opt_def)
      with two True g(2) show ?thesis by (simp add: region_ok_def region_type_def mk_region_def)
    qed
  next
    case False
    let ?tl = "fst (last g)" and ?s = "span D c g"
    have last: "last g \<in> set g" and hd: "hd g \<in> set g" using g(1) by simp_all
    have size: "dataSize tm ?tl = Some (of_nat (getTypeAllocSize D c ?tl))"
      using dataSize_scalar [OF tm(1)] sc last tm(2) by blast
    have pos: "0 < getTypeAllocSize D c ?tl" using sc last by (auto simp: scalar_leaf_def)
    have le: "unat (snd (hd g)) \<le> unat (snd (last g))"
    proof (cases g)
      case (Cons l g1)
      obtain t off where l: "l = (t, off)" by (cases l)
      show ?thesis
      proof (cases "g1 = []")
        case False
        from g(4) Cons l have "tleaves_in D c (unat off + getTypeAllocSize D c t) hi g1" by simp
        from tleaves_in_ge [OF this last_in_set [OF False]] Cons l False show ?thesis by simp
      qed (simp add: Cons)
    qed (use g(1) in simp)
    have s: "0 < ?s" "?s \<le> 8" using range [OF last] range [OF hd] pos le by (auto simp: span_def)
    have bytes: "(ucast (ucast (snd (last g)) - ucast (snd (hd g)) + of_nat (getTypeAllocSize D c ?tl) :: u64) :: u32) = of_nat ?s"
    proof -
      have "ucast (snd (hd g)) = (of_nat (unat (snd (hd g))) :: u64)" "ucast (snd (last g)) = (of_nat (unat (snd (last g))) :: u64)"
        by simp_all
      then have "(ucast (snd (last g)) - ucast (snd (hd g)) + of_nat (getTypeAllocSize D c ?tl) :: u64) = of_nat ?s"
        using le by (simp add: span_def of_nat_diff algebra_simps)
      then show ?thesis using s by (simp add: unsigned_of_nat take_bit_nat_eq_self)
    qed
    show ?thesis
    proof -
      have "(of_nat ?s :: u32) \<noteq> 0 \<and> (of_nat ?s :: u32) \<le> 8"
        using s by (auto simp: word_of_nat_eq_0_iff word_le_nat_alt unat_of_nat take_bit_nat_eq_self dest: dvd_imp_le)
      moreover have dint: "getRegionTypDisp (Suc n) (tm_context tm) (mk_region g) = Some FlavInt"
        using disp False tm(2) by (simp only: if_False)
      have fresh: "ebr_abiDirectType (mk_region g) = None" "ebr_types (mk_region g) = map fst g"
        "ebr_offsets (mk_region g) = map (\<lambda>l. ucast (snd l)) g"
        by (simp_all add: mk_region_def)
      have ends: "nth_opt (map f g) (length g - 1) = Some (f (last g))" "nth_opt (map f g) 0 = Some (f (hd g))"
        for f :: "llty \<times> u32 \<Rightarrow> 'z"
        using g(1) by (simp_all add: nth_opt_def last_conv_nth hd_conv_nth)
      ultimately have "region_abi_type (Suc n) tm (mk_region g) =
        Some ((mk_region g)\<lparr>ebr_abiDirectType := Some (IntTy (of_nat ?s * 8))\<rparr>)"
        unfolding region_abi_type_def fresh option.case dint
        using g(1) size bytes by (simp add: Let_def ends [simplified] llvmArbitraryIntegerType_def)
      moreover have "region_type D c g (IntTy (of_nat ?s * 8))"
        unfolding region_type_def if_not_P [OF False] using s by (simp add: mult.commute)
      ultimately show ?thesis using g(2) by (simp add: region_ok_def mk_region_def)
    qed
  qed
qed



section \<open>Regions of an array\<close>

text \<open>
  The elements of an array as leaves. \<open>explodeArray\<close> means to start a second region at byte 8,
  but the test that this has not happened yet reads \<open>curOffset\<close>, to which every iteration adds
  the offset of the element: from the fifth element of two bytes, and from the sixth of one
  byte on, it holds too late, and an array of more than eight bytes keeps a single region.
\<close>

definition array_leaves :: "llty \<Rightarrow> nat \<Rightarrow> nat \<Rightarrow> (llty \<times> u32) list" where
  "array_leaves T s k = map (\<lambda>i. (T, of_nat (i * s))) [0..<k]"

definition array_groups :: "llty \<Rightarrow> nat \<Rightarrow> nat \<Rightarrow> (llty \<times> u32) list list" where
  "array_groups T s k =
     (if k * s \<le> 8 \<or> s < 4 then [array_leaves T s k]
      else [take (8 div s) (array_leaves T s k), drop (8 div s) (array_leaves T s k)])"

lemmas place_elems_eval = place_elem_def array_groups_def array_leaves_def mk_region_def add_leaf_def
  empty_region_def Let_def upt_conv_Cons

text \<open>Elements of one or two bytes: by the time the offset reaches 8, \<open>curOffset\<close> is past it.\<close>

lemma place_elems_small:
  assumes "s = 1 \<or> s = 2" "k \<le> 16"
  shows "0 < k \<Longrightarrow> foldl (place_elem T (of_nat s)) ([], 0) [0..<k] =
    ([mk_region (array_leaves T s k)], of_nat (s * (k * (k - 1) div 2)))"
  using assms(2)
proof (induction k)
  case (Suc k)
  show ?case
  proof (cases "k = 0")
    case True
    then show ?thesis by (simp add: place_elem_def array_leaves_def mk_region_def add_leaf_def empty_region_def)
  next
    case False
    let ?cur = "s * (k * (k - 1) div 2)"
    have IH: "foldl (place_elem T (of_nat s)) ([], 0) [0..<k] = ([mk_region (array_leaves T s k)], of_nat ?cur)"
      using Suc False by simp
    have tri: "Suc k * (Suc k - 1) div 2 = k * (k - 1) div 2 + k" by (cases k) simp_all
    have bound: "?cur < 2 ^ 32" "k * s < 2 ^ 32"
    proof -
      have "k * (k - 1) \<le> 16 * 16" using Suc.prems(2) by (intro mult_le_mono) auto
      then have "k * (k - 1) div 2 \<le> 128" by simp
      then have "?cur \<le> 2 * 128" using assms(1) by auto
      then show "?cur < 2 ^ 32" by simp
      show "k * s < 2 ^ 32" using assms(1) Suc.prems(2) by auto
    qed
    have late: "\<not> (8 \<le> (of_nat (k * s) :: u32) \<and> (of_nat ?cur :: u32) < 8)"
    proof
      assume a: "8 \<le> (of_nat (k * s) :: u32) \<and> (of_nat ?cur :: u32) < 8"
      then have "8 \<le> k * s" "?cur < 8"
        using bound by (auto simp: word_le_nat_alt word_less_nat_alt unat_of_nat take_bit_nat_eq_self simp del: of_nat_mult)
      moreover from this(1) assms(1) have "4 \<le> k" by auto
      then have "4 * 3 \<le> k * (k - 1)" by (intro mult_le_mono) auto
      moreover have "s = 1 \<Longrightarrow> 8 * 7 \<le> k * (k - 1)" using \<open>8 \<le> k * s\<close> by (intro mult_le_mono) auto
      ultimately show False using assms(1) by auto
    qed
    have "place_elem T (of_nat s) ([mk_region (array_leaves T s k)], of_nat ?cur) k =
      ([add_leaf T (of_nat (k * s)) (mk_region (array_leaves T s k))], of_nat ?cur + of_nat (k * s))"
      using late by (simp add: place_elem_def Let_def)
    also have "\<dots> = ([mk_region (array_leaves T s (Suc k))], of_nat (?cur + k * s))"
      by (simp add: add_leaf_mk_region array_leaves_def)
    also have "?cur + k * s = s * (Suc k * (Suc k - 1) div 2)" unfolding tri by (simp add: algebra_simps)
    finally show ?thesis using IH by simp
  qed
qed simp

lemma place_elems_12:
  "s = 1 \<or> s = 2 \<Longrightarrow> 0 < k \<Longrightarrow> k \<le> 16 \<Longrightarrow>
   fst (foldl (place_elem T (of_nat s)) ([], 0) [0..<k]) = map mk_region (array_groups T s k)"
  by (auto simp: place_elems_small array_groups_def)

lemma place_elems_4: "0 < k \<Longrightarrow> k \<le> 4 \<Longrightarrow>
  fst (foldl (place_elem T 4) ([], 0) [0..<k]) = map mk_region (array_groups T 4 k)"
proof -
  assume "0 < k" "k \<le> 4"
  then have "k \<in> {1, 2, 3, 4}" by (simp; linarith)
  then show ?thesis by (elim insertE emptyE; simp add: place_elems_eval)
qed

lemma place_elems_8: "0 < k \<Longrightarrow> k \<le> 2 \<Longrightarrow>
  fst (foldl (place_elem T 8) ([], 0) [0..<k]) = map mk_region (array_groups T 8 k)"
proof -
  assume "0 < k" "k \<le> 2"
  then have "k \<in> {1, 2}" by (simp; linarith)
  then show ?thesis by (elim insertE emptyE; simp add: place_elems_eval)
qed

text \<open>An array of \<open>k\<close> scalars, of at most 16 bytes.\<close>

definition scalar_array :: "'a tmbase_scheme \<Rightarrow> layout \<Rightarrow> tref \<Rightarrow> llty \<Rightarrow> nat \<Rightarrow> bool" where
  "scalar_array tm D x T k \<longleftrightarrow> tm_datalayout tm = Some D \<and> scalar_leaf D (tm_context tm) T \<and> 0 < k \<and>
     k * getTypeAllocSize D (tm_context tm) T \<le> 16 \<and>
     (\<exists>b y ne t eb. tm_heap tm x = Some b \<and> bt_kind b = KArray (Some y) ne \<and> nelSize ne = Some (of_nat k) \<and>
        bt_type b = Some t \<and> isSized D (tm_context tm) t \<and>
        getTypeAllocSize D (tm_context tm) t = k * getTypeAllocSize D (tm_context tm) T \<and>
        tm_heap tm y = Some eb \<and> bt_type eb = Some T)"

lemma scalar_array_explode:
  assumes "scalar_array tm D x T k"
  shows "eightByteInfo n tm x = (if length (array_groups T (getTypeAllocSize D (tm_context tm) T) k) \<le> 2
    then map_opt (region_abi_type n tm) (map mk_region (array_groups T (getTypeAllocSize D (tm_context tm) T) k)) else None)"
proof -
  let ?s = "getTypeAllocSize D (tm_context tm) T"
  have s: "?s \<in> {1, 2, 4, 8}" and k: "0 < k" "k * ?s \<le> 16" and D: "tm_datalayout tm = Some D"
    and sc: "scalar_leaf D (tm_context tm) T"
    using assms by (auto simp: scalar_array_def scalar_leaf_def)
  have k16: "k \<le> 16"
    using s k by (elim insertE emptyE) simp_all
  have "fst (foldl (place_elem T (of_nat ?s)) ([], 0) [0..<k]) = map mk_region (array_groups T ?s k)"
    using s k k16 place_elems_12 [of 1 k T] place_elems_12 [of 2 k T] place_elems_4 [of k T] place_elems_8 [of k T]
    by (elim insertE emptyE) simp_all
  moreover have "(ucast (of_nat ?s :: u64) :: u32) = of_nat ?s" using s by (elim insertE emptyE) simp_all
  moreover have "(of_nat k :: u64) < 2 ^ 32 \<and> unat (of_nat k :: u64) = k"
    using k16 by (simp add: word_less_nat_alt unat_of_nat take_bit_nat_eq_self)
  moreover have "(of_nat (k * ?s) :: u64) \<le> 16"
    using k(2) unfolding word_le_nat_alt by (simp add: unat_of_nat take_bit_nat_eq_self del: of_nat_mult)
  ultimately have "explodeArray tm x = Some (map mk_region (array_groups T ?s k))"
    using assms dataSize_scalar [OF D sc]
    by (auto simp: scalar_array_def explodeArray_def allocSize_def alloc_of_def simp del: of_nat_mult)
  with assms show ?thesis by (auto simp: scalar_array_def eightByteInfo_def determineABITypes_def)
qed


lemma tleaves_in_part:
  assumes "tleaves_in D c lo hi (xs @ g @ ys)"
  obtains lo' hi' where "tleaves_in D c lo' hi' g"
proof -
  from tleaves_in_append [OF assms] obtain mid where "tleaves_in D c mid hi (g @ ys)" by blast
  from tleaves_in_append [OF this] that show ?thesis by blast
qed

lemma array_groups_block:
  assumes "s \<in> {1, 2, 4, 8}" "0 < k" "k * s \<le> 16" "4 \<le> s \<or> k * s \<le> 8" "g \<in> set (array_groups T s k)"
  shows "g \<noteq> [] \<and> in_block g"
proof -
  have "k \<le> 16" using assms(1-3) by (elim insertE emptyE) simp_all
  have pow: "(16 :: nat) < 2 ^ 32" by simp
  have off: "unat (of_nat (i * s) :: u32) = i * s" if "i < k" for i
  proof -
    have "i * s \<le> k * s" using that by (intro mult_le_mono1) simp
    then have "i * s < 2 ^ 32" using assms(3) pow by linarith
    then show ?thesis by (simp add: unat_of_nat take_bit_nat_eq_self del: of_nat_mult)
  qed
  show ?thesis
  proof (cases "k * s \<le> 8")
    case True
    then have "i * s < 8" if "i < k" for i
      using that assms(1) by (metis (no_types) insertE emptyE less_le_trans mult_less_mono1 zero_less_numeral zero_less_one)
    with True off assms(2,5) show ?thesis
      by (auto simp: array_groups_def array_leaves_def in_block_def simp del: of_nat_mult intro!: exI [of _ 0])
  next
    case False
    let ?m = "8 div s"
    have m: "?m * s = 8" "0 < ?m" using assms(1) by (elim insertE emptyE; simp)+
    with False have mk: "?m < k" by (metis leI mult_le_mono1)
    have g: "g = map (\<lambda>i. (T, of_nat (i * s))) [0..<?m] \<or> g = map (\<lambda>i. (T, of_nat (i * s))) [?m..<k]"
      using False assms(4,5) mk by (auto simp: array_groups_def array_leaves_def take_map drop_map min_def simp del: of_nat_mult)
    have low: "i * s < 8" if "i < ?m" for i using that m by (metis mult_less_mono1 not_less_zero mult_0_right neq0_conv zero_less_numeral)
    have high: "8 \<le> i * s \<and> i * s < 16" if "?m \<le> i" "i < k" for i
    proof
      show "8 \<le> i * s" using mult_le_mono1 [OF that(1), of s] m by simp
      have "Suc i * s \<le> 16" using mult_le_mono1 [of "Suc i" k s] that(2) assms(3) by simp
      then show "i * s < 16" using assms(1) by auto
    qed
    from g show ?thesis
    proof
      assume g: "g = map (\<lambda>i. (T, of_nat (i * s))) [0..<?m]"
      then have "unat (snd l) div 8 = 0" if "l \<in> set g" for l
        using that off low mk by (auto simp del: of_nat_mult)
      with g m(2) show ?thesis by (auto simp: in_block_def simp del: of_nat_mult)
    next
      assume g: "g = map (\<lambda>i. (T, of_nat (i * s))) [?m..<k]"
      have "unat (snd l) div 8 = 1" if "l \<in> set g" for l
        using that off high g by (force simp: div_nat_eqI simp del: of_nat_mult)
      with g mk show ?thesis by (auto simp: in_block_def simp del: of_nat_mult)
    qed
  qed
qed

text \<open>
  C14. Arrays of at most 16 bytes whose elements are four or eight bytes, and arrays of at most
  eight bytes, are divided correctly: the elements fall into the groups a struct with the same
  leaves would have, and every region is passed as a type that covers its group.
\<close>

theorem explodeArray_regions:
  assumes "scalar_array tm D x T k" "float_sizes D (tm_context tm)"
    and "4 \<le> s \<or> k * s \<le> 8" "s = getTypeAllocSize D (tm_context tm) T"
  shows "\<exists>gs ebrs. concat gs = array_leaves T s k \<and> length gs \<le> 2 \<and>
    eightByteInfo (Suc n) tm x = Some ebrs \<and> list_all2 (region_ok D (tm_context tm)) gs ebrs"
proof -
  let ?c = "tm_context tm" and ?gs = "array_groups T s k"
  have s: "s \<in> {1, 2, 4, 8}" and k: "0 < k" "k * s \<le> 16" and D: "tm_datalayout tm = Some D"
    and sc: "scalar_leaf D ?c T"
    using assms(1,4) by (auto simp: scalar_array_def scalar_leaf_def)
  have k16: "k \<le> 16" using s k by (elim insertE emptyE) simp_all
  have pow: "(16 :: nat) < 2 ^ 32" by simp
  have off: "unat (of_nat (i * s) :: u32) = i * s" if "i < k" for i
  proof -
    have "i * s \<le> k * s" using that by (intro mult_le_mono1) simp
    then have "i * s < 2 ^ 32" using k(2) pow by linarith
    then show ?thesis by (simp add: unat_of_nat take_bit_nat_eq_self del: of_nat_mult)
  qed
  have cat: "concat ?gs = array_leaves T s k" and len: "length ?gs \<le> 2"
    by (simp_all add: array_groups_def)
  have leaf: "\<forall>l \<in> set (array_leaves T s k). abi_leaf D ?c l"
    using off sc assms(4) by (auto simp: array_leaves_def abi_leaf_def simp del: of_nat_mult)
  have order: "tleaves_in D ?c (i * s) (k * s) (map (\<lambda>i. (T, of_nat (i * s))) [i..<k])" if "i \<le> k" for i
    using that
  proof (induction "k - i" arbitrary: i)
    case (Suc d)
    then have "i < k" "d = k - Suc i" "Suc i \<le> k" by linarith+
    with Suc.hyps(1) [of "Suc i"] off [of i] assms(4) show ?case
      by (simp add: upt_conv_Cons add.commute del: of_nat_mult)
  qed simp
  have all: "tleaves_in D ?c 0 (k * s) (array_leaves T s k)"
    using order [of 0] by (simp add: array_leaves_def del: of_nat_mult)
  have each: "\<exists>r. region_abi_type (Suc n) tm (mk_region g) = Some r \<and> region_ok D ?c g r"
    if g: "g \<in> set ?gs" "g \<noteq> []" "in_block g" for g
  proof -
    from split_list [OF g(1)] obtain as bs where "concat as @ g @ concat bs = array_leaves T s k" using cat by auto
    with all have "tleaves_in D ?c 0 (k * s) (concat as @ g @ concat bs)" by simp
    then obtain lo hi where "tleaves_in D ?c lo hi g" by (rule tleaves_in_part)
    moreover have "\<forall>l \<in> set g. abi_leaf D ?c l"
    proof -
      have "set g \<subseteq> set (concat ?gs)" using g(1) by auto
      then show ?thesis using leaf unfolding cat by blast
    qed
    ultimately show ?thesis using g by (intro region_abi_type_ok [OF D refl assms(2)]) auto
  qed
  have blk: "g \<noteq> [] \<and> in_block g" if "g \<in> set ?gs" for g
    by (rule array_groups_block [OF s k assms(3) that])
  have "\<exists>ebrs. map_opt (region_abi_type (Suc n) tm) (map mk_region hs) = Some ebrs \<and> list_all2 (region_ok D ?c) hs ebrs"
    if "set hs \<subseteq> set ?gs" for hs
    using that
  proof (induction hs)
    case (Cons h hs)
    with each [of h] blk [of h] show ?case by auto
  qed simp
  then obtain ebrs where "map_opt (region_abi_type (Suc n) tm) (map mk_region ?gs) = Some ebrs"
    "list_all2 (region_ok D ?c) ?gs ebrs" by blast
  with scalar_array_explode [OF assms(1), of "Suc n"] cat len assms(4) show ?thesis by auto
qed

text \<open>
  C15. The compiler aborts on the other arrays of 9 to 16 bytes, those of one- and two-byte
  integers (\<open>[9]uint8\<close> to \<open>[16]uint8\<close>, \<open>[5]int16\<close> to \<open>[8]int16\<close>), whether passed or returned by value:
  their single region spans more than eight bytes, which the assertion of \<open>determineABITypes\<close>
  rejects. The comment above \<open>explodeArray\<close> describes two regions for such an array.
\<close>

theorem explodeArray_small_elements_abort:
  assumes "scalar_array tm D x T k" "\<not> is_sse T" "s = getTypeAllocSize D (tm_context tm) T"
    and "s = 1 \<or> s = 2" "8 < k * s"
  shows "eightByteInfo n tm x = None"
proof -
  let ?c = "tm_context tm" and ?g = "array_leaves T s k"
  have k: "0 < k" "k * s \<le> 16" and D: "tm_datalayout tm = Some D" and sc: "scalar_leaf D ?c T"
    using assms(1,3) by (auto simp: scalar_array_def)
  have gs: "array_groups T s k = [?g]" using assms(4) by (auto simp: array_groups_def)
  have ne: "?g \<noteq> []" using k(1) by (simp add: array_leaves_def)
  have fsts: "fst l = T" if "l \<in> set ?g" for l using that by (auto simp: array_leaves_def)
  have "region_abi_type n tm (mk_region ?g) = None"
  proof (cases n)
    case 0
    then show ?thesis using ne by (cases ?g) (simp_all add: region_abi_type_def mk_region_def getRegionTypDisp_def)
  next
    case (Suc m)
    have nsse: "\<not> (\<forall>l \<in> set ?g. is_sse (fst l))"
    proof -
      from ne have "last ?g \<in> set ?g" by (rule last_in_set)
      with fsts [OF this] assms(2) show ?thesis by metis
    qed
    have "\<forall>l \<in> set ?g. scalar_leaf D ?c (fst l)" using fsts sc by simp
    from mk_region_disp [OF this ne, of m]
    have dint: "getRegionTypDisp n ?c (mk_region ?g) = Some FlavInt" unfolding Suc if_not_P [OF nsse] .
    have ends: "nth_opt (ebr_offsets (mk_region ?g)) (length (ebr_offsets (mk_region ?g)) - 1) = Some (of_nat ((k - 1) * s))"
      "nth_opt (ebr_offsets (mk_region ?g)) 0 = Some 0" "length (ebr_offsets (mk_region ?g)) = k"
      "nth_opt (ebr_types (mk_region ?g)) (length (ebr_offsets (mk_region ?g)) - 1) = Some T"
    proof -
      have "(k - 1) * s \<le> k * s" by simp
      moreover have "(16 :: nat) < 2 ^ 32" by simp
      ultimately have "(k - 1) * s < 2 ^ 32" using k(2) by linarith
      then show "nth_opt (ebr_offsets (mk_region ?g)) (length (ebr_offsets (mk_region ?g)) - 1) = Some (of_nat ((k - 1) * s))"
        using k(1) by (simp add: mk_region_def array_leaves_def nth_opt_def unsigned_of_nat take_bit_nat_eq_self del: of_nat_mult)
    qed (use k(1) in \<open>simp_all add: mk_region_def array_leaves_def nth_opt_def\<close>)
    have sum: "(k - 1) * s + s = k * s" using k(1) by (cases k) simp_all
    have "(of_nat ((k - 1) * s) - 0 + of_nat s :: u64) = of_nat (k * s)"
      by (simp only: diff_zero of_nat_add [symmetric] sum)
    then have "(ucast (of_nat ((k - 1) * s) - 0 + of_nat s :: u64) :: u32) = of_nat (k * s)"
      using k(2) by (simp add: unsigned_of_nat take_bit_nat_eq_self del: of_nat_mult)
    moreover have "\<not> (of_nat (k * s) :: u32) \<le> 8"
      using k(2) assms(5) by (simp add: word_le_nat_alt unat_of_nat take_bit_nat_eq_self del: of_nat_mult)
    moreover have "ebr_abiDirectType (mk_region ?g) = None" by (simp add: mk_region_def)
    moreover have "dataSize tm T = Some (of_nat s)" using dataSize_scalar [OF D sc] assms(3) by simp
    ultimately show ?thesis
      unfolding region_abi_type_def
      by (simp add: dint ends ends(1,4) [unfolded ends(3) One_nat_def] Let_def del: of_nat_mult nth_opt_in)
  qed
  with scalar_array_explode [OF assms(1), of n] gs assms(3) show ?thesis by simp
qed

section \<open>The theorems on sample types\<close>

lemma sample_tm_wf: "tm_wf sample_tm x86_layout"
proof -
  have "heap_typed sample_types empty_llctx"
    unfolding heap_typed_def
    by (auto simp: sample_types_def sample_array_def mk_btype_def mk_struct_def mk_integer_def mk_float_def
        typed_obj_def typed_part_def nelSize_def split: if_splits)
  moreover have "sample_types 99 = None" by (simp add: sample_types_def)
  ultimately show ?thesis by (simp add: tm_wf_def sample_tm_def layout_ok_x86 empty_llctx_def)
qed

lemma sample_float_sizes: "float_sizes x86_layout empty_llctx"
  by (simp add: float_sizes_def x86_layout_def)


lemma explodeArray_regions_witness:
  "\<exists>gs ebrs. concat gs = array_leaves FloatTy 4 3 \<and> length gs \<le> 2 \<and> eightByteInfo (Suc 0) sample_tm 5 = Some ebrs \<and>
    list_all2 (region_ok x86_layout empty_llctx) gs ebrs"
proof -
  have c: "tm_context sample_tm = empty_llctx" by (simp add: sample_tm_def)
  have "scalar_array sample_tm x86_layout 5 FloatTy 3"
    by (simp add: scalar_array_def scalar_leaf_def sample_tm_def sample_types_def sample_array_def mk_btype_def
        x86_layout_def nelSize_def mk_float_def)
  then show ?thesis unfolding c [symmetric]
    by (rule explodeArray_regions) (simp_all add: c sample_float_sizes, simp add: x86_layout_def)
qed

lemma explodeArray_small_elements_abort_witness: "eightByteInfo 3 sample_tm 1 = None"
proof -
  have "scalar_array sample_tm x86_layout 1 (IntTy 16) 8"
    by (simp add: scalar_array_def scalar_leaf_def sample_tm_def sample_types_def sample_array_def mk_btype_def
        x86_layout_def nelSize_def mk_integer_def align_up_def)
  then show ?thesis
    by (rule explodeArray_small_elements_abort [where s = 2]) (simp_all add: is_sse_def x86_layout_def align_up_def)
qed

end
