(* ===== verification/TypeManager.thy ===== *)
theory TypeManager
  imports CabiOracle NameGen "HOL-Library.AList"
begin

text \<open>
  Class \<open>TypeManager\<close> (\<^verbatim>\<open>go-llvm-typemanager.h\<close>, \<^verbatim>\<open>go-llvm-typemanager.cpp\<close>): it creates and commons the
  backend's types, manages placeholder types and resolves what depends on them.

  \<open>typemanager\<close> extends \<open>tmbase\<close> by the class's tables. Objects are allocated at increasing
  addresses; a set of pointers ordered by address is a sorted list, an unordered one a list
  without repetition. \<open>anonTypes\<close>, an unordered set under \<open>Btype::equal\<close>, is the list of its
  elements in the order of insertion; if several elements have become equal to a key, a look-up
  takes the first of them (the library may take any). An operation is a function
  \<open>typemanager \<Rightarrow> ('a \<times> typemanager) option\<close>; \<open>k\<close> is the fuel for comparing types.
  The trace output is left out.
\<close>

section \<open>State\<close>

record typemanager = tmbase +
  tm_next :: tref
  tm_nametags :: "nametags option"
  tm_errorExpression :: "nat option"
  anonTypes :: "tref list"
  auxTypeMap :: "llty \<rightharpoonup> tref"
  namedTypes :: "tref list"
  revNames :: "tref \<rightharpoonup> tref"
  placeholders :: "tref list"
  duplicates :: "tref list"
  placeholderRefs :: "tref \<rightharpoonup> tref list"
  circularPointerTypes :: "llty list"
  circularPointerTypeMap :: "tref \<rightharpoonup> tref"
  circularConversionLoadMap :: "tref \<rightharpoonup> tref"
  circularConversionAddrMap :: "tref \<rightharpoonup> tref"
  circularPointerLoop :: "(tref \<times> tref) list"
  complexFloatType :: "tref option"
  complexDoubleType :: "tref option"
  stringType :: "tref option"
  llvmIntegerType :: "llty option"

text \<open>Reading and writing an object through a pointer; \<open>new\<close>.\<close>

definition obj :: "tref \<Rightarrow> typemanager \<Rightarrow> btype option" where
  "obj x s = tm_heap s x"

definition ll_of :: "tref \<Rightarrow> typemanager \<Rightarrow> llty option" where
  "ll_of x s = do { b \<leftarrow> obj x s; bt_type b }"

definition upd :: "tref \<Rightarrow> (btype \<Rightarrow> btype) \<Rightarrow> typemanager \<Rightarrow> typemanager option" where
  "upd x f s = do { b \<leftarrow> obj x s; Some (s\<lparr>tm_heap := (tm_heap s)(x \<mapsto> f b)\<rparr>) }"

definition new_btype :: "btype \<Rightarrow> typemanager \<Rightarrow> tref \<times> typemanager" where
  "new_btype b s = (tm_next s, s\<lparr>tm_heap := (tm_heap s)(tm_next s \<mapsto> b), tm_next := Suc (tm_next s)\<rparr>)"

definition insert_ptr :: "tref \<Rightarrow> tref list \<Rightarrow> tref list" where
  "insert_ptr x xs = (if x \<in> set xs then xs else xs @ [x])"

definition setType :: "tref \<Rightarrow> llty \<Rightarrow> typemanager \<Rightarrow> typemanager option" where
  "setType x t = upd x (\<lambda>b. b\<lparr>bt_type := Some t\<rparr>)"

definition setPlaceholder :: "tref \<Rightarrow> bool \<Rightarrow> typemanager \<Rightarrow> typemanager option" where
  "setPlaceholder x v = upd x (\<lambda>b. b\<lparr>bt_placeholder := v\<rparr>)"

definition setElemType :: "tref \<Rightarrow> tref \<Rightarrow> typemanager \<Rightarrow> typemanager option" where
  "setElemType x e s =
     do { et \<leftarrow> obj e s; b \<leftarrow> obj x s;
          case bt_kind b of
            KArray _ ne \<Rightarrow>
              upd x (\<lambda>b. b\<lparr>bt_kind := KArray (Some e) ne, bt_placeholder := bt_placeholder et \<or> bt_placeholder b\<rparr>) s
          | _ \<Rightarrow> None }"

definition setNelements :: "tref \<Rightarrow> lenexpr \<Rightarrow> typemanager \<Rightarrow> typemanager option" where
  "setNelements x n s =
     do { b \<leftarrow> obj x s;
          case bt_kind b of KArray e _ \<Rightarrow> upd x (\<lambda>b. b\<lparr>bt_kind := KArray e (Some n)\<rparr>) s | _ \<Rightarrow> None }"

definition setToType :: "tref \<Rightarrow> tref \<Rightarrow> typemanager \<Rightarrow> typemanager option" where
  "setToType x t s =
     do { b \<leftarrow> obj x s;
          case bt_kind b of KPointer _ \<Rightarrow> upd x (\<lambda>b. b\<lparr>bt_kind := KPointer (Some t)\<rparr>) s | _ \<Rightarrow> None }"

definition setFields :: "tref \<Rightarrow> tident list \<Rightarrow> typemanager \<Rightarrow> typemanager option" where
  "setFields x fs s =
     do { b \<leftarrow> obj x s;
          case bt_kind b of KStruct _ \<Rightarrow> upd x (\<lambda>b. b\<lparr>bt_kind := KStruct fs\<rparr>) s | _ \<Rightarrow> None }"

section \<open>The table of anonymous types\<close>

fun find_equal :: "(tref \<Rightarrow> bool option) \<Rightarrow> tref list \<Rightarrow> tref option option" where
  "find_equal eq [] = Some None"
| "find_equal eq (y # ys) = do { b \<leftarrow> eq y; if b then Some (Some y) else find_equal eq ys }"

text \<open>Look-up of a candidate on the stack, and of an existing object.\<close>

definition find_cand :: "nat \<Rightarrow> btype \<Rightarrow> typemanager \<Rightarrow> tref option option" where
  "find_cand k cand s = find_equal (\<lambda>y. obj_equal k (tm_heap s) cand y) (anonTypes s)"

definition find_anon :: "nat \<Rightarrow> tref \<Rightarrow> typemanager \<Rightarrow> tref option option" where
  "find_anon k x s = find_equal (\<lambda>y. bt_equal (Suc k) (tm_heap s) x y) (anonTypes s)"

definition insert_anon :: "nat \<Rightarrow> tref \<Rightarrow> typemanager \<Rightarrow> typemanager option" where
  "insert_anon k x s =
     do { r \<leftarrow> find_anon k x s;
          Some (case r of Some y \<Rightarrow> s | None \<Rightarrow> s\<lparr>anonTypes := anonTypes s @ [x]\<rparr>) }"

definition removeAnonType :: "nat \<Rightarrow> tref \<Rightarrow> typemanager \<Rightarrow> (bool \<times> typemanager) option" where
  "removeAnonType k typ s =
     do { r \<leftarrow> find_anon k typ s;
          Some (case r of Some y \<Rightarrow> (True, s\<lparr>anonTypes := remove1 y (anonTypes s)\<rparr>) | None \<Rightarrow> (False, s)) }"

definition reinstallAnonType :: "nat \<Rightarrow> tref \<Rightarrow> typemanager \<Rightarrow> typemanager option" where
  "reinstallAnonType k typ s =
     do { r \<leftarrow> find_anon k typ s;
          case r of Some y \<Rightarrow> Some (s\<lparr>duplicates := insert_ptr typ (duplicates s)\<rparr>)
          | None \<Rightarrow> insert_anon k typ s }"

section \<open>Auxiliary types and names\<close>

definition makeAuxType :: "llty \<Rightarrow> typemanager \<Rightarrow> tref \<times> typemanager" where
  "makeAuxType lt s =
     (case auxTypeMap s lt of Some x \<Rightarrow> (x, s)
      | None \<Rightarrow> let (x, s) = new_btype (mk_btype KAux (Some lt) 0) s
                in (x, s\<lparr>auxTypeMap := (auxTypeMap s)(lt \<mapsto> x)\<rparr>))"

fun makeAuxTypes :: "llty list \<Rightarrow> typemanager \<Rightarrow> tref list \<times> typemanager" where
  "makeAuxTypes [] s = ([], s)"
| "makeAuxTypes (t # ts) s = (let (x, s) = makeAuxType t s; (xs, s) = makeAuxTypes ts s in (x # xs, s))"

definition makeAuxFcnType :: "llty \<Rightarrow> typemanager \<Rightarrow> (tref \<times> typemanager) option" where
  "makeAuxFcnType ft s =
     (case auxTypeMap s ft of
        Some x \<Rightarrow> do { b \<leftarrow> obj x s; check (flavor (bt_kind b) = FunctionT); Some (x, s) }
      | None \<Rightarrow>
          (case ft of
             FunctionTy rt ps va \<Rightarrow>
               (let (rbtype, s) = makeAuxType rt s;
                    results = (if rt \<noteq> llvmVoidType then [rbtype] else []);
                    (params, s) = makeAuxTypes ps s
                in do { b \<leftarrow> mk_function None params results rbtype (Some ft) False 0;
                        let (x, s) = new_btype b s;
                        Some (x, s\<lparr>auxTypeMap := (auxTypeMap s)(ft \<mapsto> x)\<rparr>) })
           | _ \<Rightarrow> None))"

definition errorType :: "typemanager \<Rightarrow> tref" where
  "errorType s = tm_errorType s"

definition voidType :: "typemanager \<Rightarrow> tref \<times> typemanager" where
  "voidType s = makeAuxType llvmVoidType s"

definition tnamegen :: "string \<Rightarrow> typemanager \<Rightarrow> (string \<times> typemanager) option" where
  "tnamegen tag s =
     do { nt \<leftarrow> tm_nametags s;
          let (nm, nt') = namegen tag ChooseVer nt;
          Some (nm, s\<lparr>tm_nametags := Some nt'\<rparr>) }"

definition makeOpaqueLlvmType :: "string \<Rightarrow> typemanager \<Rightarrow> (llty \<times> typemanager) option" where
  "makeOpaqueLlvmType tag s =
     do { (tname, s) \<leftarrow> tnamegen tag s;
          let (t, c) = create_struct tname (tm_context s);
          Some (t, s\<lparr>tm_context := c\<rparr>) }"

section \<open>Scalar types\<close>

definition int_type :: "u32 \<Rightarrow> llty option" where
  "int_type bits = do { check (0 < bits \<and> bits < 2 ^ 23); Some (IntTy bits) }"

definition integerType :: "nat \<Rightarrow> bool \<Rightarrow> u32 \<Rightarrow> typemanager \<Rightarrow> (tref \<times> typemanager) option" where
  "integerType k is_unsigned bits s =
     do { llit \<leftarrow> int_type bits;
          r \<leftarrow> find_cand k (mk_integer is_unsigned bits (Some llit) 0) s;
          case r of
            Some existing \<Rightarrow> do { b \<leftarrow> obj existing s; check (flavor (bt_kind b) = IntegerT); Some (existing, s) }
          | None \<Rightarrow> do { let (rval, s) = new_btype (mk_integer is_unsigned bits (Some llit) 0) s;
                         s \<leftarrow> insert_anon k rval s; Some (rval, s) } }"

definition boolType :: "nat \<Rightarrow> typemanager \<Rightarrow> (tref \<times> typemanager) option" where
  "boolType k s = integerType k True 8 s"

definition isBooleanType :: "tref \<Rightarrow> typemanager \<Rightarrow> bool option" where
  "isBooleanType x s =
     do { b \<leftarrow> obj x s;
          Some (case bt_kind b of KInteger u bits \<Rightarrow> u \<and> bt_type b = Some (IntTy 8) | _ \<Rightarrow> False) }"

definition makeLLVMFloatType :: "u32 \<Rightarrow> llty option" where
  "makeLLVMFloatType bits =
     (if bits = 32 then Some FloatTy else if bits = 64 then Some DoubleTy
      else if bits = 128 then Some FP128Ty else None)"

definition floatType :: "nat \<Rightarrow> u32 \<Rightarrow> typemanager \<Rightarrow> (tref \<times> typemanager) option" where
  "floatType k bits s =
     do { llft \<leftarrow> makeLLVMFloatType bits;
          r \<leftarrow> find_cand k (mk_float bits (Some llft) 0) s;
          case r of
            Some existing \<Rightarrow> do { b \<leftarrow> obj existing s; check (flavor (bt_kind b) = FloatT); Some (existing, s) }
          | None \<Rightarrow> do { let (rval, s) = new_btype (mk_float bits (Some llft) 0) s;
                         s \<leftarrow> insert_anon k rval s; Some (rval, s) } }"

definition complexType :: "u32 \<Rightarrow> typemanager \<Rightarrow> (tref \<times> typemanager) option" where
  "complexType bits s =
     (case if bits = 64 then complexFloatType s else if bits = 128 then complexDoubleType s else None of
        Some x \<Rightarrow> Some (x, s)
      | None \<Rightarrow>
          do { check (bits = 64 \<or> bits = 128);
               let elemTy = (if bits = 64 then FloatTy else DoubleTy);
               let (rval, s) = makeAuxType (makeLLVMTwoElementStructType elemTy elemTy) s;
               Some (rval, if bits = 64 then s\<lparr>complexFloatType := Some rval\<rparr> else s\<lparr>complexDoubleType := Some rval\<rparr>) })"

section \<open>Composite types\<close>

text \<open>\<open>placeholderRefs_[x].insert(y)\<close>.\<close>

definition ref_table :: "tref \<Rightarrow> tref \<Rightarrow> (tref \<rightharpoonup> tref list) \<Rightarrow> (tref \<rightharpoonup> tref list)" where
  "ref_table x y refs =
     (let ys = (case refs x of None \<Rightarrow> [] | Some ys \<Rightarrow> ys)
      in refs(x \<mapsto> (if y \<in> set ys then ys else insort y ys)))"

definition add_ref :: "tref \<Rightarrow> tref \<Rightarrow> typemanager \<Rightarrow> typemanager" where
  "add_ref x y s = s\<lparr>placeholderRefs := ref_table x y (placeholderRefs s)\<rparr>"

text \<open>If \<open>x\<close> is an unresolved placeholder, record that \<open>y\<close> refers to it.\<close>

definition ref_if_placeholder :: "tref \<Rightarrow> tref \<Rightarrow> typemanager \<Rightarrow> (bool \<times> typemanager) option" where
  "ref_if_placeholder x y s =
     do { b \<leftarrow> obj x s;
          Some (if isUnresolvedPlaceholder b then (True, add_ref x y s) else (False, s)) }"

fun refs_if_placeholder :: "tref list \<Rightarrow> tref \<Rightarrow> typemanager \<Rightarrow> (bool \<times> typemanager) option" where
  "refs_if_placeholder [] y s = Some (False, s)"
| "refs_if_placeholder (x # xs) y s =
     do { (r, s) \<leftarrow> ref_if_placeholder x y s; (r', s) \<leftarrow> refs_if_placeholder xs y s; Some (r \<or> r', s) }"

definition addPlaceholderRefs :: "tref \<Rightarrow> typemanager \<Rightarrow> (bool \<times> typemanager) option" where
  "addPlaceholderRefs x s =
     do { b \<leftarrow> obj x s;
          case bt_kind b of
            KArray e ne \<Rightarrow> do { et \<leftarrow> e; ref_if_placeholder et x s }
          | KPointer t \<Rightarrow> do { to \<leftarrow> t; ref_if_placeholder to x s }
          | KStruct fs \<Rightarrow> refs_if_placeholder (map ti_btype fs) x s
          | _ \<Rightarrow> Some (False, s) }"

definition pointerType :: "nat \<Rightarrow> tref \<Rightarrow> typemanager \<Rightarrow> (tref \<times> typemanager) option" where
  "pointerType k toType s =
     (if toType = tm_errorType s then Some (tm_errorType s, s)
      else do {
        t \<leftarrow> ll_of toType s;
        let llpt = PointerTy (if t = llvmVoidType then IntTy 8 else t);
        cand \<leftarrow> mk_pointer (tm_heap s) (Some toType) (Some llpt) 0;
        r \<leftarrow> find_cand k cand s;
        case r of
          Some existing \<Rightarrow> do { b \<leftarrow> obj existing s; check (flavor (bt_kind b) = PointerT); Some (existing, s) }
        | None \<Rightarrow> do { let (rval, s) = new_btype cand s;
                       (p, s) \<leftarrow> addPlaceholderRefs rval s;
                       s \<leftarrow> setPlaceholder rval p s;
                       s \<leftarrow> insert_anon k rval s;
                       Some (rval, s) } })"

fun sanitizeFields :: "nat \<Rightarrow> tident list \<Rightarrow> typemanager \<Rightarrow> (tident list \<times> typemanager) option" where
  "sanitizeFields k [] s = Some ([], s)"
| "sanitizeFields k (f # fs) s =
     do { t \<leftarrow> ll_of (ti_btype f) s;
          (f', s) \<leftarrow> (if isFunctionTy t
             then do { (p, s) \<leftarrow> pointerType k (ti_btype f) s; Some (f\<lparr>ti_btype := p\<rparr>, s) }
             else Some (f, s));
          (fs', s) \<leftarrow> sanitizeFields k fs s;
          Some (f' # fs', s) }"

definition makeLLVMStructType :: "tident list \<Rightarrow> typemanager \<Rightarrow> llty option" where
  "makeLLVMStructType flds s = do { elems \<leftarrow> map_opt (\<lambda>f. ll_of (ti_btype f) s) flds; Some (StructTy elems) }"

text \<open>
  The first loop of \<open>structType\<close>: \<open>Some None\<close> when a field has error type, else whether a field
  is an unresolved placeholder.
\<close>

fun scan_fields :: "tident list \<Rightarrow> typemanager \<Rightarrow> bool option option" where
  "scan_fields [] s = Some (Some False)"
| "scan_fields (f # fs) s =
     (if ti_btype f = tm_errorType s then Some None
      else do { b \<leftarrow> obj (ti_btype f) s; r \<leftarrow> scan_fields fs s;
                Some (case r of None \<Rightarrow> None | Some p \<Rightarrow> Some (isUnresolvedPlaceholder b \<or> p)) })"

definition structType :: "nat \<Rightarrow> tident list \<Rightarrow> typemanager \<Rightarrow> (tref \<times> typemanager) option" where
  "structType k rawfields s =
     do { scan \<leftarrow> scan_fields rawfields s;
          case scan of
            None \<Rightarrow> Some (tm_errorType s, s)
          | Some True \<Rightarrow>
              do { (flds, s) \<leftarrow> sanitizeFields k rawfields s;
                   (llst, s) \<leftarrow> makeOpaqueLlvmType ''IPST'' s;
                   let (rval, s) = new_btype (mk_struct flds (Some llst) 0) s;
                   (p, s) \<leftarrow> addPlaceholderRefs rval s;
                   s \<leftarrow> setPlaceholder rval p s;
                   s \<leftarrow> insert_anon k rval s;
                   Some (rval, s) }
          | Some False \<Rightarrow>
              do { (flds, s) \<leftarrow> sanitizeFields k rawfields s;
                   llst \<leftarrow> makeLLVMStructType flds s;
                   r \<leftarrow> find_cand k (mk_struct flds (Some llst) 0) s;
                   case r of
                     Some existing \<Rightarrow> do { b \<leftarrow> obj existing s; check (flavor (bt_kind b) = StructT); Some (existing, s) }
                   | None \<Rightarrow> do { let (rval, s) = new_btype (mk_struct flds (Some llst) 0) s;
                                  s \<leftarrow> insert_anon k rval s; Some (rval, s) } } }"

definition arrayType :: "nat \<Rightarrow> tref \<Rightarrow> lenexpr \<Rightarrow> typemanager \<Rightarrow> (tref \<times> typemanager) option" where
  "arrayType k elemType len s =
     (if tm_errorExpression s = Some (le_node len) \<or> elemType = tm_errorType s then Some (tm_errorType s, s)
      else do {
        asize \<leftarrow> le_const len;
        et \<leftarrow> ll_of elemType s;
        cand \<leftarrow> mk_array (tm_heap s) (Some elemType) (Some len) (Some (ArrayTy et asize)) 0;
        r \<leftarrow> find_cand k cand s;
        case r of
          Some existing \<Rightarrow> do { b \<leftarrow> obj existing s; check (flavor (bt_kind b) = ArrayT); Some (existing, s) }
        | None \<Rightarrow> do { let (rval, s) = new_btype cand s;
                       (p, s) \<leftarrow> addPlaceholderRefs rval s;
                       s \<leftarrow> setPlaceholder rval p s;
                       s \<leftarrow> insert_anon k rval s;
                       Some (rval, s) } })"

fun getReturnType :: "llty \<Rightarrow> llty option" where
  "getReturnType (FunctionTy r ps va) = Some r"
| "getReturnType _ = None"

definition makeLLVMFunctionType :: "nat \<Rightarrow> tref list \<Rightarrow> tref \<Rightarrow> bool \<Rightarrow> typemanager \<Rightarrow> llty option" where
  "makeLLVMFunctionType k paramTypes rbtype followsCabi s =
     do { abiOracle \<leftarrow> cabiOracle k s paramTypes rbtype followsCabi;
          llvmft \<leftarrow> getFunctionTypeForABI s abiOracle;
          rtyp \<leftarrow> ll_of rbtype s;
          D \<leftarrow> tm_datalayout s;
          check (\<not> isSized D (tm_context s) rtyp \<or> bits_of s rtyp \<noteq> Some 0 \<or> getReturnType llvmft = Some VoidTy);
          Some llvmft }"

text \<open>The type an error in the signature yields, if there is one.\<close>

definition signature_error :: "tref option \<Rightarrow> tident list \<Rightarrow> tident list \<Rightarrow> tref option \<Rightarrow> tref \<Rightarrow> bool" where
  "signature_error receiver parameters results result_struct err \<longleftrightarrow>
     receiver = Some err \<or> err \<in> ti_btype ` set parameters \<or> err \<in> ti_btype ` set results \<or> result_struct = Some err"

definition functionType :: "nat \<Rightarrow> tref option \<Rightarrow> tident list \<Rightarrow> tident list \<Rightarrow> tref option \<Rightarrow> bool \<Rightarrow> location \<Rightarrow>
    typemanager \<Rightarrow> (tref \<times> typemanager) option" where
  "functionType k receiver parameters results result_struct followsCabi loc s =
     (if signature_error receiver parameters results result_struct (tm_errorType s) then Some (tm_errorType s, s)
      else do {
        let paramTypes = (case receiver of None \<Rightarrow> [] | Some r \<Rightarrow> [r]) @ map ti_btype parameters;
        let resultTypes = map ti_btype results;
        (rbtype, s) \<leftarrow> (case resultTypes of
            [] \<Rightarrow> Some (makeAuxType VoidTy s)
          | [r] \<Rightarrow> Some (r, s)
          | _ \<Rightarrow> do { rs \<leftarrow> result_struct; Some (rs, s) });
        llft \<leftarrow> makeLLVMFunctionType k paramTypes rbtype followsCabi s;
        cand \<leftarrow> mk_function receiver paramTypes resultTypes rbtype (Some llft) followsCabi loc;
        r \<leftarrow> find_cand k cand s;
        case r of
          Some existing \<Rightarrow> do { b \<leftarrow> obj existing s; check (flavor (bt_kind b) = FunctionT); Some (existing, s) }
        | None \<Rightarrow> do {
            let (rval, s) = new_btype cand s;
            (isPlace, s) \<leftarrow> refs_if_placeholder ((case result_struct of None \<Rightarrow> [] | Some r \<Rightarrow> [r]) @
                (case receiver of None \<Rightarrow> [] | Some r \<Rightarrow> [r]) @ paramTypes @ resultTypes) rval s;
            s \<leftarrow> (if isPlace then setPlaceholder rval True s else Some s);
            check (\<not> isPlace \<or> \<not> followsCabi);
            s \<leftarrow> insert_anon k rval s;
            Some (rval, s) } })"

definition functionReturnType :: "tref \<Rightarrow> typemanager \<Rightarrow> tref option" where
  "functionReturnType typ s =
     do { check (typ \<noteq> tm_errorType s);
          b \<leftarrow> obj typ s;
          b' \<leftarrow> (case bt_kind b of KPointer t \<Rightarrow> do { to \<leftarrow> t; obj to s } | _ \<Rightarrow> Some b);
          case bt_kind b' of KFunction r ps rs t c \<Rightarrow> Some t | _ \<Rightarrow> None }"

definition elementTypeByIndex :: "tref \<Rightarrow> nat \<Rightarrow> typemanager \<Rightarrow> tref option" where
  "elementTypeByIndex btype fieldIndex s =
     do { check (btype \<noteq> tm_errorType s);
          b \<leftarrow> obj btype s;
          case bt_kind b of
            KStruct fs \<Rightarrow> do { f \<leftarrow> nth_opt fs fieldIndex; Some (ti_btype f) }
          | KArray e ne \<Rightarrow> e
          | _ \<Rightarrow> None }"

section \<open>Placeholders\<close>

definition placeholderStructType :: "string \<Rightarrow> location \<Rightarrow> typemanager \<Rightarrow> (tref \<times> typemanager) option" where
  "placeholderStructType name loc s =
     do { let (pst, s) = new_btype (mk_struct_placeholder name loc) s;
          (opaque, s) \<leftarrow> makeOpaqueLlvmType ''PST'' s;
          s \<leftarrow> setType pst opaque s;
          Some (pst, s\<lparr>placeholders := insert_ptr pst (placeholders s)\<rparr>) }"

definition placeholderPointerType :: "string \<Rightarrow> location \<Rightarrow> typemanager \<Rightarrow> (tref \<times> typemanager) option" where
  "placeholderPointerType name loc s =
     do { let (ppt, s) = new_btype (mk_pointer_placeholder name loc) s;
          (opaque, s) \<leftarrow> makeOpaqueLlvmType ''PPT'' s;
          s \<leftarrow> setType ppt (PointerTy opaque) s;
          Some (ppt, s\<lparr>placeholders := insert_ptr ppt (placeholders s)\<rparr>) }"

definition placeholderArrayType :: "string \<Rightarrow> location \<Rightarrow> typemanager \<Rightarrow> (tref \<times> typemanager) option" where
  "placeholderArrayType name loc s =
     do { let (pat, s) = new_btype (mk_array_placeholder name loc) s;
          (opaque, s) \<leftarrow> makeOpaqueLlvmType ''PAT'' s;
          s \<leftarrow> setType pat opaque s;
          Some (pat, s\<lparr>placeholders := insert_ptr pat (placeholders s)\<rparr>) }"

end
