(* ===== verification/TypeResolve.thy ===== *)
theory TypeResolve
  imports TypeManager
begin

text \<open>
  Second half of class \<open>TypeManager\<close>: resolving placeholder types and everything that refers to
  them, named and circular types, sizes of types that are not resolved yet, and the queries on
  LLVM types (\<^verbatim>\<open>go-llvm-typemanager.cpp\<close>).

  Resolution is mutually recursive; \<open>postProcessResolvedPlaceholder\<close> takes its depth as fuel. The
  helpers for the four kinds of type take the function to call at their end as the argument \<open>pp\<close>.
\<close>

section \<open>Resolving what refers to a placeholder\<close>

definition postProcessResolvedPointerPlaceholder ::
    "(tref \<Rightarrow> typemanager \<Rightarrow> typemanager option) \<Rightarrow> nat \<Rightarrow> tref \<Rightarrow> tref \<Rightarrow> typemanager \<Rightarrow> typemanager option" where
  "postProcessResolvedPointerPlaceholder pp k bpt btype s =
     do { b \<leftarrow> obj bpt s; check (bt_placeholder b);
          t \<leftarrow> ll_of btype s;
          (wasHashed, s) \<leftarrow> removeAnonType k bpt s;
          s \<leftarrow> setType bpt (PointerTy t) s;
          s \<leftarrow> setPlaceholder bpt False s;
          s \<leftarrow> (if wasHashed then reinstallAnonType k bpt s else Some s);
          pp bpt s }"

definition postProcessResolvedStructPlaceholder ::
    "(tref \<Rightarrow> typemanager \<Rightarrow> typemanager option) \<Rightarrow> tref \<Rightarrow> tref \<Rightarrow> typemanager \<Rightarrow> typemanager option" where
  "postProcessResolvedStructPlaceholder pp bst btype s =
     do { b \<leftarrow> obj bst s; check (bt_placeholder b);
          case bt_kind b of
            KStruct flds \<Rightarrow>
              do { pls \<leftarrow> map_opt (\<lambda>f. if btype = ti_btype f then Some False
                     else do { ft \<leftarrow> obj (ti_btype f) s; Some (isUnresolvedPlaceholder ft) }) flds;
                   if True \<in> set pls then Some s
                   else do {
                     elems \<leftarrow> map_opt (\<lambda>f. ll_of (ti_btype f) s) flds;
                     llst \<leftarrow> bt_type b;
                     c \<leftarrow> set_body llst elems (tm_context s);
                     s \<leftarrow> setPlaceholder bst False (s\<lparr>tm_context := c\<rparr>);
                     pp bst s } }
          | _ \<Rightarrow> None }"

definition postProcessResolvedArrayPlaceholder ::
    "(tref \<Rightarrow> typemanager \<Rightarrow> typemanager option) \<Rightarrow> nat \<Rightarrow> tref \<Rightarrow> tref \<Rightarrow> typemanager \<Rightarrow> typemanager option" where
  "postProcessResolvedArrayPlaceholder pp k bat btype s =
     do { b \<leftarrow> obj bat s; check (bt_placeholder b);
          asize \<leftarrow> (case bt_kind b of KArray e ne \<Rightarrow> nelSize ne | _ \<Rightarrow> None);
          t \<leftarrow> ll_of btype s;
          (wasHashed, s) \<leftarrow> removeAnonType k bat s;
          s \<leftarrow> setType bat (ArrayTy t asize) s;
          s \<leftarrow> setPlaceholder bat False s;
          s \<leftarrow> (if wasHashed then reinstallAnonType k bat s else Some s);
          pp bat s }"

definition postProcessResolvedFunctionPlaceholder ::
    "(tref \<Rightarrow> typemanager \<Rightarrow> typemanager option) \<Rightarrow> nat \<Rightarrow> tref \<Rightarrow> tref \<Rightarrow> typemanager \<Rightarrow> typemanager option" where
  "postProcessResolvedFunctionPlaceholder pp k bft btype s =
     do { b \<leftarrow> obj bft s; check (bt_placeholder b);
          abiOracle \<leftarrow> cabiOracle_of_type k s b;
          newllft \<leftarrow> getFunctionTypeForABI s abiOracle;
          (wasHashed, s) \<leftarrow> removeAnonType k bft s;
          s \<leftarrow> setType bft newllft s;
          s \<leftarrow> setPlaceholder bft False s;
          s \<leftarrow> (if wasHashed then reinstallAnonType k bft s else Some s);
          pp bft s }"

text \<open>The body of the loop over the types that refer to \<open>btype\<close>.\<close>

definition resolve_ref ::
    "(tref \<Rightarrow> typemanager \<Rightarrow> typemanager option) \<Rightarrow> nat \<Rightarrow> tref \<Rightarrow> tref \<Rightarrow> typemanager \<Rightarrow> typemanager option" where
  "resolve_ref pp k btype refType s =
     do { b \<leftarrow> obj refType s;
          if \<not> bt_placeholder b then Some s
          else case flavor (bt_kind b) of
            PointerT \<Rightarrow> postProcessResolvedPointerPlaceholder pp k refType btype s
          | ArrayT \<Rightarrow> postProcessResolvedArrayPlaceholder pp k refType btype s
          | StructT \<Rightarrow> postProcessResolvedStructPlaceholder pp refType btype s
          | FunctionT \<Rightarrow> postProcessResolvedFunctionPlaceholder pp k refType btype s
          | _ \<Rightarrow> None }"

fun postProcessResolvedPlaceholder :: "nat \<Rightarrow> nat \<Rightarrow> tref \<Rightarrow> typemanager \<Rightarrow> typemanager option" where
  "postProcessResolvedPlaceholder 0 k btype s = None"
| "postProcessResolvedPlaceholder (Suc n) k btype s =
     (case placeholderRefs s btype of
        None \<Rightarrow> Some s
      | Some refs \<Rightarrow> fold_opt (\<lambda>refType s. resolve_ref (\<lambda>x s. postProcessResolvedPlaceholder n k x s) k btype refType s) refs s)"

definition updatePlaceholderUnderlyingType :: "nat \<Rightarrow> nat \<Rightarrow> tref \<Rightarrow> tref \<Rightarrow> typemanager \<Rightarrow> typemanager option" where
  "updatePlaceholderUnderlyingType n k pht newtyp s =
     do { check (pht \<in> set (placeholders s));
          r \<leftarrow> find_anon k pht s; check (r = None);
          b \<leftarrow> obj pht s; check (bt_placeholder b);
          t \<leftarrow> ll_of newtyp s;
          s \<leftarrow> setType pht t s;
          nb \<leftarrow> obj newtyp s;
          s \<leftarrow> (if \<not> bt_placeholder nb then setPlaceholder pht False s else Some s);
          b \<leftarrow> obj pht s;
          if \<not> bt_placeholder b then postProcessResolvedPlaceholder n k pht s else Some s }"

section \<open>Setting placeholder types\<close>

text \<open>The end of \<open>setPlaceholderPointerType\<close>: extending or closing a loop of circular pointers.\<close>

definition circular_step :: "tref \<Rightarrow> tref \<Rightarrow> typemanager \<Rightarrow> typemanager" where
  "circular_step placeholder to_type s =
     (case circularPointerLoop s of
        [] \<Rightarrow> s
      | p # loop \<Rightarrow>
          if to_type = snd p then
            (let nct = length (circularPointerLoop s);
                 adPair = circularPointerLoop s ! (if nct = 1 then 0 else 1);
                 loadConvTT = snd (last (circularPointerLoop s))
             in s\<lparr>circularConversionLoadMap := (circularConversionLoadMap s)(to_type \<mapsto> loadConvTT, placeholder \<mapsto> loadConvTT),
                  circularConversionAddrMap := (circularConversionAddrMap s)(fst adPair \<mapsto> to_type, snd adPair \<mapsto> to_type),
                  circularPointerLoop := []\<rparr>)
          else s\<lparr>circularPointerLoop := circularPointerLoop s @ [(placeholder, to_type)]\<rparr>)"

definition setPlaceholderPointerType :: "nat \<Rightarrow> nat \<Rightarrow> tref \<Rightarrow> tref \<Rightarrow> typemanager \<Rightarrow> (bool \<times> typemanager) option" where
  "setPlaceholderPointerType n k placeholder to_type s =
     (if placeholder = tm_errorType s \<or> to_type = tm_errorType s then Some (False, s)
      else do {
        t \<leftarrow> ll_of to_type s; check (isPointerTy t);
        r \<leftarrow> find_anon k placeholder s; check (r = None);
        check (placeholder \<in> set (placeholders s));
        s \<leftarrow> setToType placeholder to_type s;
        s \<leftarrow> setType placeholder t s;
        tb \<leftarrow> obj to_type s;
        s \<leftarrow> (if isUnresolvedPlaceholder tb then Some (add_ref to_type placeholder s)
             else do { s \<leftarrow> setPlaceholder placeholder False s; postProcessResolvedPlaceholder n k placeholder s });
        Some (True, circular_step placeholder to_type s) })"

definition setPlaceholderFunctionType :: "nat \<Rightarrow> nat \<Rightarrow> tref \<Rightarrow> tref \<Rightarrow> typemanager \<Rightarrow> (bool \<times> typemanager) option" where
  "setPlaceholderFunctionType n k placeholder ft s = setPlaceholderPointerType n k placeholder ft s"

text \<open>
  A field of error type makes the function return \<open>errorType_\<close>, a non-null pointer, as a
  \<open>bool\<close>: the caller is told that the placeholder was set.
\<close>

definition setPlaceholderStructType :: "nat \<Rightarrow> nat \<Rightarrow> tref \<Rightarrow> tident list \<Rightarrow> typemanager \<Rightarrow> (bool \<times> typemanager) option" where
  "setPlaceholderStructType n k placeholder rawfields s =
     (if placeholder = tm_errorType s then Some (False, s)
      else if tm_errorType s \<in> ti_btype ` set rawfields then Some (True, s)
      else do {
        (flds, s) \<leftarrow> sanitizeFields k rawfields s;
        r \<leftarrow> find_anon k placeholder s; check (r = None);
        check (placeholder \<in> set (placeholders s));
        b \<leftarrow> obj placeholder s; check (flavor (bt_kind b) = StructT);
        s \<leftarrow> setFields placeholder flds s;
        (isplace, s) \<leftarrow> addPlaceholderRefs placeholder s;
        if isplace then Some (True, s)
        else do {
          llst \<leftarrow> ll_of placeholder s;
          fieldtypes \<leftarrow> map_opt (\<lambda>f. ll_of (ti_btype f) s) flds;
          c \<leftarrow> set_body llst fieldtypes (tm_context s);
          s \<leftarrow> setPlaceholder placeholder False (s\<lparr>tm_context := c\<rparr>);
          s \<leftarrow> postProcessResolvedPlaceholder n k placeholder s;
          Some (True, s) } })"

definition setPlaceholderArrayType :: "nat \<Rightarrow> nat \<Rightarrow> tref \<Rightarrow> tref \<Rightarrow> lenexpr \<Rightarrow> typemanager \<Rightarrow> (bool \<times> typemanager) option" where
  "setPlaceholderArrayType n k placeholder element_btype len s =
     (if placeholder = tm_errorType s \<or> element_btype = tm_errorType s \<or> tm_errorExpression s = Some (le_node len)
      then Some (False, s)
      else do {
        r \<leftarrow> find_anon k placeholder s; check (r = None);
        check (placeholder \<in> set (placeholders s));
        b \<leftarrow> obj placeholder s; check (flavor (bt_kind b) = ArrayT);
        s \<leftarrow> setElemType placeholder element_btype s;
        s \<leftarrow> setNelements placeholder len s;
        (isplace, s) \<leftarrow> addPlaceholderRefs placeholder s;
        asize \<leftarrow> le_const len;
        et \<leftarrow> ll_of element_btype s;
        let (atype, s) = makeAuxType (ArrayTy et asize) s;
        s \<leftarrow> setPlaceholder atype isplace s;
        s \<leftarrow> updatePlaceholderUnderlyingType n k placeholder atype s;
        Some (True, s) })"

section \<open>Named and circular types\<close>

definition namedType :: "string \<Rightarrow> tref \<Rightarrow> location \<Rightarrow> typemanager \<Rightarrow> (tref \<times> typemanager) option" where
  "namedType name btype loc s =
     do { b \<leftarrow> obj btype s;
          c \<leftarrow> bt_clone (tm_heap s) b;
          let (rval, s) = new_btype (c\<lparr>bt_location := loc\<rparr>) s;
          (p, s) \<leftarrow> addPlaceholderRefs rval s;
          s \<leftarrow> upd rval (\<lambda>b. b\<lparr>bt_name := name\<rparr>) s;
          Some (rval, s\<lparr>namedTypes := insert_ptr rval (namedTypes s), revNames := (revNames s)(btype \<mapsto> rval)\<rparr>) }"

definition circularPointerType :: "tref \<Rightarrow> typemanager \<Rightarrow> (tref \<times> typemanager) option" where
  "circularPointerType placeholder s =
     (if placeholder = tm_errorType s then Some (tm_errorType s, s)
      else case circularPointerTypeMap s placeholder of
        Some x \<Rightarrow> Some (x, s)
      | None \<Rightarrow>
          do { (opaque, s) \<leftarrow> makeOpaqueLlvmType ''CPT'' s;
               let circ_ptr_typ = PointerTy opaque;
               let (rval, s) = makeAuxType circ_ptr_typ s;
               check (circularPointerLoop s = []);
               Some (rval, s\<lparr>circularPointerTypes :=
                   (if circ_ptr_typ \<in> set (circularPointerTypes s) then circularPointerTypes s
                    else circularPointerTypes s @ [circ_ptr_typ]),
                 circularPointerTypeMap := (circularPointerTypeMap s)(placeholder \<mapsto> rval),
                 circularPointerLoop := [(placeholder, rval)]\<rparr>) })"

definition isCircularPointerType_ll :: "llty \<Rightarrow> typemanager \<Rightarrow> bool" where
  "isCircularPointerType_ll t s \<longleftrightarrow> t \<in> set (circularPointerTypes s)"

definition isCircularPointerType :: "tref \<Rightarrow> typemanager \<Rightarrow> bool option" where
  "isCircularPointerType btype s = do { t \<leftarrow> ll_of btype s; Some (isCircularPointerType_ll t s) }"

definition circularTypeLoadConversion :: "tref \<Rightarrow> typemanager \<Rightarrow> tref option" where
  "circularTypeLoadConversion typ s = circularConversionLoadMap s typ"

definition circularTypeAddrConversion :: "tref \<Rightarrow> typemanager \<Rightarrow> tref option" where
  "circularTypeAddrConversion typ s = circularConversionAddrMap s typ"

section \<open>Sizes\<close>

text \<open>
  \<open>placeholderProxyType\<close> threads a map of the types already replaced; the result is a null
  pointer, an LLVM type, or an abort.
\<close>

fun proxy_fields :: "(tref \<Rightarrow> (tref \<rightharpoonup> llty) \<Rightarrow> (llty \<times> (tref \<rightharpoonup> llty)) option) \<Rightarrow> tident list \<Rightarrow> (tref \<rightharpoonup> llty) \<Rightarrow>
    (llty list \<times> (tref \<rightharpoonup> llty)) option" where
  "proxy_fields pr [] pmap = Some ([], pmap)"
| "proxy_fields pr (f # fs) pmap =
     do { (t, pmap) \<leftarrow> pr (ti_btype f) pmap; (ts, pmap) \<leftarrow> proxy_fields pr fs pmap; Some (t # ts, pmap) }"

fun placeholderProxyType :: "nat \<Rightarrow> typemanager \<Rightarrow> tref \<Rightarrow> (tref \<rightharpoonup> llty) \<Rightarrow> (llty \<times> (tref \<rightharpoonup> llty)) option" where
  "placeholderProxyType 0 s typ pmap = None"
| "placeholderProxyType (Suc n) s typ pmap =
     do { D \<leftarrow> tm_datalayout s;
          b \<leftarrow> obj typ s; t \<leftarrow> bt_type b;
          if isSized D (tm_context s) t then Some (t, pmap)
          else case pmap typ of
            Some t \<Rightarrow> Some (t, pmap)
          | None \<Rightarrow>
              (case bt_kind b of
                 KArray e ne \<Rightarrow>
                   do { elt \<leftarrow> e;
                        (elprox, pmap) \<leftarrow> placeholderProxyType n s elt pmap;
                        nel \<leftarrow> nelSize ne;
                        Some (ArrayTy elprox nel, pmap(typ \<mapsto> ArrayTy elprox nel)) }
               | KStruct fs \<Rightarrow>
                   do { (elems, pmap) \<leftarrow> proxy_fields (\<lambda>x p. placeholderProxyType n s x p) fs pmap;
                        Some (StructTy elems, pmap(typ \<mapsto> StructTy elems)) }
               | KPointer to \<Rightarrow> Some (llvmPtrType, pmap)
               | KFunction r ps rs rt c \<Rightarrow> Some (llvmPtrType, pmap)
               | _ \<Rightarrow> None) }"

definition typeSize :: "nat \<Rightarrow> tref \<Rightarrow> typemanager \<Rightarrow> u64 option" where
  "typeSize n btype s =
     (if btype = tm_errorType s then Some 1
      else do { D \<leftarrow> tm_datalayout s; t \<leftarrow> ll_of btype s;
                toget \<leftarrow> (if isSized D (tm_context s) t then Some t
                  else do { (p, pmap) \<leftarrow> placeholderProxyType n s btype Map.empty; Some p });
                alloc_of s toget })"

definition typeAlignment :: "tref \<Rightarrow> typemanager \<Rightarrow> u64 option" where
  "typeAlignment btype s =
     (if btype = tm_errorType s then Some 1
      else do { D \<leftarrow> tm_datalayout s; t \<leftarrow> ll_of btype s; check (isSized D (tm_context s) t);
                Some (ucast (of_nat (getPrefTypeAlignment D (tm_context s) t) :: u32)) })"

definition typeFieldAlignment :: "tref \<Rightarrow> typemanager \<Rightarrow> u64 option" where
  "typeFieldAlignment btype s =
     do { t \<leftarrow> ll_of btype s;
          if btype = tm_errorType s then Some (-1)
          else do { D \<leftarrow> tm_datalayout s;
          if \<not> isSized D (tm_context s) t then Some (-1)
          else do { uoff \<leftarrow> offset_of s (StructTy [IntTy 1, t]) 1;
                    let talign = (ucast (of_nat (getPrefTypeAlignment D (tm_context s) t) :: u32) :: u64);
                    Some (if uoff < talign then uoff else talign) } } }"

section \<open>Queries on LLVM types\<close>

definition landingPadExceptionType :: llty where
  "landingPadExceptionType = StructTy [llvmPtrType, IntTy 32]"

definition personalityFunctionType :: llty where
  "personalityFunctionType = FunctionTy (IntTy 32) [IntTy 32, IntTy 32, IntTy 64, llvmPtrType, llvmPtrType] False"

definition isPtrToIfaceStructType :: "typemanager \<Rightarrow> llty \<Rightarrow> bool" where
  "isPtrToIfaceStructType s typ =
     (case typ of
        PointerTy elt \<Rightarrow>
          (case struct_elems (tm_context s) elt of
             Some [t0, t1] \<Rightarrow> isPointerTy t0 \<and> (isPointerTy t1 \<or> Some t1 = llvmIntegerType s)
           | _ \<Rightarrow> False)
      | _ \<Rightarrow> False)"

definition isFuncDescriptorType :: "typemanager \<Rightarrow> llty \<Rightarrow> bool" where
  "isFuncDescriptorType s typ =
     (case struct_elems (tm_context s) typ of
        Some [f0t] \<Rightarrow> Some f0t = llvmIntegerType s \<or> isFunctionTy f0t \<or>
           (case f0t of PointerTy t \<Rightarrow> isFunctionTy t | _ \<Rightarrow> False)
      | _ \<Rightarrow> False)"

definition isPtrToFuncDescriptorType :: "typemanager \<Rightarrow> llty \<Rightarrow> bool" where
  "isPtrToFuncDescriptorType s typ = (case typ of PointerTy t \<Rightarrow> isFuncDescriptorType s t | _ \<Rightarrow> False)"

definition isPtrToFuncType :: "llty \<Rightarrow> bool" where
  "isPtrToFuncType typ = (case typ of PointerTy t \<Rightarrow> isFunctionTy t | _ \<Rightarrow> False)"

definition isPtrToVoidType :: "llty \<Rightarrow> bool" where
  "isPtrToVoidType typ = (case typ of PointerTy t \<Rightarrow> t = IntTy 8 | _ \<Rightarrow> False)"

definition isPtrToArrayOf :: "llty \<Rightarrow> llty \<Rightarrow> bool" where
  "isPtrToArrayOf typ arElmTyp = (case typ of PointerTy (ArrayTy t n) \<Rightarrow> t = arElmTyp | _ \<Rightarrow> False)"

section \<open>Type names\<close>

type_synonym smap = "tref \<rightharpoonup> string"

text \<open>\<open>smap.size()\<close> needs a finite map: it is kept as an association list.\<close>

fun strings_sep :: "(tref \<Rightarrow> (tref \<times> string) list \<Rightarrow> (string \<times> (tref \<times> string) list) option) \<Rightarrow> bool \<Rightarrow> tref list \<Rightarrow>
    (tref \<times> string) list \<Rightarrow> (string \<times> (tref \<times> string) list) option" where
  "strings_sep rc first [] smap = Some ('''', smap)"
| "strings_sep rc first (x # xs) smap =
     do { (s1, smap) \<leftarrow> rc x smap; (s2, smap) \<leftarrow> strings_sep rc False xs smap;
          Some ((if first then '''' else '','') @ s1 @ s2, smap) }"

fun typToStringRec :: "nat \<Rightarrow> (llty \<Rightarrow> string) \<Rightarrow> typemanager \<Rightarrow> tref \<Rightarrow> (tref \<times> string) list \<Rightarrow>
    (string \<times> (tref \<times> string) list) option" where
  "typToStringRec 0 print s typ smap = None"
| "typToStringRec (Suc n) print s typ smap =
     do { b \<leftarrow> obj typ s;
          if typ \<in> set (namedTypes s) then Some (bt_name b, smap)
          else case revNames s typ of
            Some nt \<Rightarrow> do { nb \<leftarrow> obj nt s; Some (bt_name nb, smap) }
          | None \<Rightarrow>
              (case map_of smap typ of
                 Some str \<Rightarrow> Some (str, smap)
               | None \<Rightarrow>
                   do { (ss, smap) \<leftarrow>
                     (case bt_kind b of
                        KAux \<Rightarrow> do { t \<leftarrow> bt_type b; Some (if t = llvmVoidType then ''void'' else print t, smap) }
                      | KFloat width \<Rightarrow> do { bits \<leftarrow> width; Some (''float'' @ show_nat (unat bits), smap) }
                      | KInteger u bits \<Rightarrow> Some ((if u then ''u'' else '''') @ ''int'' @ show_nat (unat bits), smap)
                      | KPointer t \<Rightarrow>
                          do { to \<leftarrow> t; (str, smap) \<leftarrow> typToStringRec n print s to smap; Some (''*'' @ str, smap) }
                      | KStruct fs \<Rightarrow>
                          do { (str, smap) \<leftarrow> strings_sep (\<lambda>x m. typToStringRec n print s x m) True (map ti_btype fs)
                                 (AList.update typ (''$struct$'' @ show_nat (length smap)) smap);
                               Some (''struct{'' @ str @ ''}'', smap) }
                      | KFunction rc ps rs rt c \<Rightarrow>
                          do { (rstr, smap) \<leftarrow> (case rc of None \<Rightarrow> Some ('''', smap)
                                 | Some r \<Rightarrow> typToStringRec n print s r smap);
                               (pstr, smap) \<leftarrow> strings_sep (\<lambda>x m. typToStringRec n print s x m) (rc = None) ps smap;
                               (tstr, smap) \<leftarrow> typToStringRec n print s rt smap;
                               Some (''func('' @ rstr @ pstr @ '')'' @ tstr, smap) }
                      | KArray e ne \<Rightarrow>
                          do { nel \<leftarrow> nelSize ne; et \<leftarrow> e; (str, smap) \<leftarrow> typToStringRec n print s et smap;
                               Some (''['' @ show_nat (unat nel) @ '']'' @ str, smap) });
                     Some (ss, AList.update typ ss smap) }) }"

definition typToString :: "nat \<Rightarrow> (llty \<Rightarrow> string) \<Rightarrow> typemanager \<Rightarrow> tref \<Rightarrow> string option" where
  "typToString n print s typ = do { (str, smap) \<leftarrow> typToStringRec n print s typ []; Some str }"

section \<open>Construction\<close>

text \<open>
  The constructor: the error type, then the predefined string type. Every other type the class
  precomputes is a constant of the model.
\<close>

definition new_typemanager :: "callconv \<Rightarrow> llctx \<Rightarrow> (typemanager) option" where
  "new_typemanager conv c =
     (let (err, c') = create_struct ''$Error$'' c;
          s = \<lparr>tm_datalayout = None, tm_context = c', tm_cconv = conv, tm_heap = Map.empty, tm_errorType = 0,
               tm_next = 0, tm_nametags = None, tm_errorExpression = None, anonTypes = [], auxTypeMap = Map.empty,
               namedTypes = [], revNames = Map.empty, placeholders = [], duplicates = [], placeholderRefs = Map.empty,
               circularPointerTypes = [], circularPointerTypeMap = Map.empty, circularConversionLoadMap = Map.empty,
               circularConversionAddrMap = Map.empty, circularPointerLoop = [], complexFloatType = None,
               complexDoubleType = None, stringType = None, llvmIntegerType = None\<rparr>;
          (e, s) = makeAuxType err s
      in do { (u8t, s) \<leftarrow> integerType 1 True 8 (s\<lparr>tm_errorType := e\<rparr>);
              (str, s) \<leftarrow> pointerType 1 u8t s;
              Some (s\<lparr>stringType := Some str\<rparr>) })"

definition initializeTypeManager :: "nat \<Rightarrow> layout \<Rightarrow> nametags \<Rightarrow> typemanager \<Rightarrow> typemanager" where
  "initializeTypeManager errorExpression D nt s =
     s\<lparr>tm_datalayout := Some D, tm_errorExpression := Some errorExpression, tm_nametags := Some nt,
       llvmIntegerType := Some (IntTy (getPointerSizeInBits D))\<rparr>"

end
