(* ===== verification/TypeFacts.thy ===== *)
theory TypeFacts
  imports TypeResolve
begin

text \<open>
  Properties of the type manager. A history of operations is a run of \<open>tm_step\<close>. \<open>grows\<close> is the
  order in which every operation moves the state up: no object disappears or changes its
  flavour, scalar types stay as they are and stay in the table of anonymous types. From it
  follows that the type manager hands out one object per scalar type for a whole compilation.
  The second part is about resolving placeholders: it ends, and it changes nothing but
  placeholders.
\<close>

section \<open>States grow\<close>

definition scalar_kind :: "btkind \<Rightarrow> bool" where
  "scalar_kind k \<longleftrightarrow> flavor k = IntegerT \<or> flavor k = FloatT"

definition scalar_at :: "typemanager \<Rightarrow> tref \<Rightarrow> bool" where
  "scalar_at s x \<longleftrightarrow> (case tm_heap s x of None \<Rightarrow> False | Some b \<Rightarrow> scalar_kind (bt_kind b))"

text \<open>
  Addresses below \<open>tm_next\<close> are the live ones, the tables hold live objects, and auxiliary types
  are no scalars.
\<close>

definition tm_live :: "typemanager \<Rightarrow> bool" where
  "tm_live s \<longleftrightarrow> dom (tm_heap s) = {..<tm_next s} \<and> set (anonTypes s) \<subseteq> {..<tm_next s} \<and>
     (\<forall>x \<in> ran (auxTypeMap s). x < tm_next s \<and> \<not> scalar_at s x)"

definition grows :: "typemanager \<Rightarrow> typemanager \<Rightarrow> bool" where
  "grows s t \<longleftrightarrow> tm_errorType t = tm_errorType s \<and> tm_next s \<le> tm_next t \<and>
     (\<forall>x b. tm_heap s x = Some b \<longrightarrow> (\<exists>c. tm_heap t x = Some c \<and> flavor (bt_kind c) = flavor (bt_kind b) \<and>
        (scalar_kind (bt_kind b) \<longrightarrow> c = b))) \<and>
     (\<exists>ys. filter (scalar_at t) (anonTypes t) = filter (scalar_at s) (anonTypes s) @ ys)"

text \<open>A step of an operation: from a live state to a live state above it.\<close>

definition moves :: "typemanager \<Rightarrow> typemanager \<Rightarrow> bool" where
  "moves s t \<longleftrightarrow> (tm_live s \<longrightarrow> tm_live t \<and> grows s t)"

named_theorems moves_intros \<open>the operations that move the state up\<close>

lemma grows_refl [simp]: "grows s s"
  by (auto simp: grows_def)

lemma grows_trans:
  assumes "grows s t" "grows t u"
  shows "grows s u"
proof -
  have "\<exists>c. tm_heap u x = Some c \<and> flavor (bt_kind c) = flavor (bt_kind b) \<and> (scalar_kind (bt_kind b) \<longrightarrow> c = b)"
    if "tm_heap s x = Some b" for x b
  proof -
    from assms(1) that obtain c where c: "tm_heap t x = Some c" "flavor (bt_kind c) = flavor (bt_kind b)"
      "scalar_kind (bt_kind b) \<longrightarrow> c = b" unfolding grows_def by blast
    from assms(2) c(1) obtain d where "tm_heap u x = Some d" "flavor (bt_kind d) = flavor (bt_kind c)"
      "scalar_kind (bt_kind c) \<longrightarrow> d = c" unfolding grows_def by blast
    with c show ?thesis by (auto simp: scalar_kind_def)
  qed
  moreover have "\<exists>ys. filter (scalar_at u) (anonTypes u) = filter (scalar_at s) (anonTypes s) @ ys"
    using assms unfolding grows_def by (metis append.assoc)
  ultimately show ?thesis using assms unfolding grows_def by simp
qed

lemma moves_refl [simp]: "moves s s"
  by (simp add: moves_def)

lemma moves_trans: "moves s t \<Longrightarrow> moves t u \<Longrightarrow> moves s u"
  by (auto simp: moves_def intro: grows_trans)

text \<open>The tables other than \<open>anonTypes\<close> do not matter.\<close>

definition same_core :: "typemanager \<Rightarrow> typemanager \<Rightarrow> bool" where
  "same_core s t \<longleftrightarrow> tm_heap t = tm_heap s \<and> tm_next t = tm_next s \<and> anonTypes t = anonTypes s \<and>
     tm_errorType t = tm_errorType s \<and> auxTypeMap t = auxTypeMap s"

lemma scalar_at_cong: "tm_heap t = tm_heap s \<Longrightarrow> scalar_at t = scalar_at s"
  by (simp add: scalar_at_def fun_eq_iff)

lemma same_core_moves: "same_core s t \<Longrightarrow> moves s t"
  using scalar_at_cong [of t s] by (auto simp: same_core_def moves_def grows_def tm_live_def)

section \<open>The building blocks\<close>

lemma new_btype_moves:
  assumes "new_btype b s = (x, t)"
  shows "moves s t"
  unfolding moves_def
proof
  assume live: "tm_live s"
  have t: "x = tm_next s" "t = s\<lparr>tm_heap := (tm_heap s)(x \<mapsto> b), tm_next := Suc x\<rparr>"
    using assms by (auto simp: new_btype_def)
  have old: "y \<noteq> x" if "y < tm_next s" for y using that t(1) by simp
  then have same: "scalar_at t y = scalar_at s y" if "y < tm_next s" for y
    using that unfolding scalar_at_def t by simp
  have "tm_live t" using live same unfolding tm_live_def t by (auto simp: less_Suc_eq)
  moreover have "filter (scalar_at t) (anonTypes s) = filter (scalar_at s) (anonTypes s)"
    using live same unfolding tm_live_def by (intro filter_cong) auto
  moreover have "tm_heap s y = Some c \<Longrightarrow> y \<noteq> x" for y c
    using live old unfolding tm_live_def by blast
  ultimately show "tm_live t \<and> grows s t"
    unfolding grows_def t by auto
qed

lemma upd_moves:
  assumes "upd x f s = Some t"
    and "\<And>b. tm_heap s x = Some b \<Longrightarrow> flavor (bt_kind (f b)) = flavor (bt_kind b) \<and> \<not> scalar_kind (bt_kind b)"
  shows "moves s t"
  unfolding moves_def
proof
  assume live: "tm_live s"
  from assms(1) obtain b where b: "tm_heap s x = Some b" and t: "t = s\<lparr>tm_heap := (tm_heap s)(x \<mapsto> f b)\<rparr>"
    by (auto simp: upd_def obj_def bind_Some_iff)
  note f = assms(2) [OF b]
  have "x < tm_next s" using live b unfolding tm_live_def by auto
  moreover have same: "scalar_at t = scalar_at s"
    using f b by (auto simp: fun_eq_iff scalar_at_def t scalar_kind_def)
  ultimately have "tm_live t" using live unfolding tm_live_def same unfolding t by auto
  with same show "tm_live t \<and> grows s t"
    using f b unfolding grows_def t by auto
qed

lemma find_equal_Some:
  "find_equal eq ys = Some (Some y) \<Longrightarrow> y \<in> set ys \<and> eq y = Some True"
  by (induction ys) (auto simp: bind_Some_iff split: if_splits)

lemma obj_equal_flavor:
  "obj_equal k h a y = Some True \<Longrightarrow> \<exists>b. h y = Some b \<and> flavor (bt_kind b) = flavor (bt_kind a) \<and>
     bt_name b = bt_name a \<and> bt_placeholder b = bt_placeholder a \<and> bt_type b = bt_type a"
  by (auto simp: obj_equal_def bind_Some_iff split: if_splits)

lemma find_anon_flavor:
  assumes "find_anon k x s = Some (Some y)" "tm_heap s x = Some a"
  shows "y \<in> set (anonTypes s) \<and> (\<exists>b. tm_heap s y = Some b \<and> flavor (bt_kind b) = flavor (bt_kind a))"
  using find_equal_Some [OF assms(1) [unfolded find_anon_def]] assms(2)
  by (auto simp: bt_equal_obj_equal simp del: bt_equal.simps dest: obj_equal_flavor split: if_splits)

lemma insert_anon_moves:
  assumes "insert_anon k x s = Some t" "x < tm_next s"
  shows "moves s t"
proof -
  from assms(1) consider "t = s" | "t = s\<lparr>anonTypes := anonTypes s @ [x]\<rparr>"
    by (auto simp: insert_anon_def bind_Some_iff split: option.splits)
  then show ?thesis
  proof cases
    case 2
    then have "scalar_at t = scalar_at s" by (intro scalar_at_cong) simp
    with 2 assms(2) show ?thesis by (auto simp: moves_def tm_live_def grows_def)
  qed simp
qed

lemma removeAnonType_moves:
  assumes "removeAnonType k x s = Some (w, t)" "tm_heap s x = Some b" "\<not> scalar_kind (bt_kind b)"
  shows "moves s t"
proof -
  from assms(1) consider "t = s"
    | y where "find_anon k x s = Some (Some y)" "t = s\<lparr>anonTypes := remove1 y (anonTypes s)\<rparr>"
    by (auto simp: removeAnonType_def bind_Some_iff split: option.splits)
  then show ?thesis
  proof cases
    case 2
    have "\<not> scalar_at s y"
      using find_anon_flavor [OF 2(1) assms(2)] assms(3) by (auto simp: scalar_at_def scalar_kind_def)
    moreover have "scalar_at t = scalar_at s" using 2 by (intro scalar_at_cong) simp
    moreover have "filter (scalar_at s) (remove1 y (anonTypes s)) = filter (scalar_at s) (anonTypes s)"
      using \<open>\<not> scalar_at s y\<close> by (simp add: filter_remove1 remove1_idem)
    ultimately show ?thesis using 2 set_remove1_subset [of y "anonTypes s"]
      by (auto simp: moves_def tm_live_def grows_def)
  qed simp
qed

lemma reinstallAnonType_moves:
  assumes "reinstallAnonType k x s = Some t" "x < tm_next s"
  shows "moves s t"
proof -
  from assms(1) consider "insert_anon k x s = Some t" | "same_core s t"
    by (auto simp: reinstallAnonType_def bind_Some_iff same_core_def split: option.splits)
  then show ?thesis by cases (use assms(2) in \<open>auto intro: insert_anon_moves same_core_moves\<close>)
qed

lemma setType_moves: "setType x ty s = Some t \<Longrightarrow> tm_heap s x = Some b \<Longrightarrow> \<not> scalar_kind (bt_kind b) \<Longrightarrow> moves s t"
  unfolding setType_def by (erule upd_moves) simp

lemma setPlaceholder_moves:
  "setPlaceholder x v s = Some t \<Longrightarrow> tm_heap s x = Some b \<Longrightarrow> \<not> scalar_kind (bt_kind b) \<Longrightarrow> moves s t"
  unfolding setPlaceholder_def by (erule upd_moves) simp

text \<open>The four steps every resolved pointer, array and function type goes through.\<close>

lemma resolve_steps_moves:
  assumes "removeAnonType k x s = Some (w, s1)" "setType x ty s1 = Some s2" "setPlaceholder x False s2 = Some s3"
    and "(if w then reinstallAnonType k x s3 else Some s3) = Some s4"
    and "tm_heap s x = Some b" "\<not> scalar_kind (bt_kind b)"
  shows "moves s s4"
  unfolding moves_def
proof
  assume live: "tm_live s"
  have x: "x < tm_next s" using live assms(5) unfolding tm_live_def by auto
  have 1: "tm_heap s1 = tm_heap s" "tm_next s1 = tm_next s"
    using assms(1) by (auto simp: removeAnonType_def bind_Some_iff split: option.splits)
  then have h1: "tm_heap s1 x = Some b" using assms(5) by simp
  have 2: "tm_heap s2 x = Some (b\<lparr>bt_type := Some ty\<rparr>)" "tm_next s2 = tm_next s"
    using assms(2) h1 1 by (auto simp: setType_def upd_def obj_def)
  have 3: "tm_next s3 = tm_next s" using assms(3) 2 by (auto simp: setPlaceholder_def upd_def obj_def)
  have "moves s s1" using assms(1,5,6) by (rule removeAnonType_moves)
  moreover have "moves s1 s2" using assms(2) h1 assms(6) by (rule setType_moves)
  moreover have "moves s2 s3" using assms(3) 2(1) by (rule setPlaceholder_moves) (simp add: assms(6))
  moreover have "moves s3 s4"
    using assms(4) x 3 by (auto intro: reinstallAnonType_moves split: if_splits)
  ultimately have "moves s s4" by (blast intro: moves_trans)
  with live show "tm_live s4 \<and> grows s s4" by (simp add: moves_def)
qed

section \<open>Resolution moves the state up\<close>

lemma resolve_chain_moves:
  assumes "do { (w, s) \<leftarrow> removeAnonType k x s; s \<leftarrow> setType x ty s; s \<leftarrow> setPlaceholder x False s;
      s \<leftarrow> (if w then reinstallAnonType k x s else Some s); pp x s } = Some t"
    and "\<And>u v. pp x u = Some v \<Longrightarrow> moves u v" "tm_heap s x = Some b" "\<not> scalar_kind (bt_kind b)"
  shows "moves s t"
proof -
  from assms(1) obtain w s1 s2 s3 s4 where "removeAnonType k x s = Some (w, s1)" "setType x ty s1 = Some s2"
    "setPlaceholder x False s2 = Some s3" "(if w then reinstallAnonType k x s3 else Some s3) = Some s4" "pp x s4 = Some t"
    by (auto simp: bind_Some_iff)
  with resolve_steps_moves [OF this(1-4) assms(3,4)] assms(2) show ?thesis by (blast intro: moves_trans)
qed

lemma resolve_ref_moves:
  assumes "resolve_ref pp k y x s = Some t" "\<And>z u v. pp z u = Some v \<Longrightarrow> moves u v"
  shows "moves s t"
proof -
  from assms(1) obtain b where b: "tm_heap s x = Some b" by (auto simp: resolve_ref_def obj_def bind_Some_iff)
  show ?thesis
  proof (cases "bt_placeholder b")
    case True
    note chain = resolve_chain_moves [OF _ assms(2) b]
    show ?thesis
    proof (cases "flavor (bt_kind b)")
      case PointerT
      with assms(1) b True have r: "postProcessResolvedPointerPlaceholder pp k x y s = Some t"
        by (simp add: resolve_ref_def obj_def)
      from r b PointerT show ?thesis
        unfolding postProcessResolvedPointerPlaceholder_def
        by (auto simp: bind_Some_iff [of "obj x s"] bind_Some_iff [of "ll_of y s"] bind_Some_iff [of "getFunctionTypeForABI s _"]
            bind_Some_iff [of "cabiOracle_of_type k s b"] bind_Some_iff [of "case_btkind _ _ _ _ _ _ _ _"]
            obj_def scalar_kind_def split: if_split_asm intro!: chain)
    next
      case ArrayT
      with assms(1) b True have r: "postProcessResolvedArrayPlaceholder pp k x y s = Some t"
        by (simp add: resolve_ref_def obj_def)
      from r b ArrayT show ?thesis
        unfolding postProcessResolvedArrayPlaceholder_def
        by (auto simp: bind_Some_iff [of "obj x s"] bind_Some_iff [of "ll_of y s"] bind_Some_iff [of "getFunctionTypeForABI s _"]
            bind_Some_iff [of "cabiOracle_of_type k s b"] bind_Some_iff [of "case_btkind _ _ _ _ _ _ _ _"]
            obj_def scalar_kind_def split: if_split_asm intro!: chain)
    next
      case FunctionT
      with assms(1) b True have r: "postProcessResolvedFunctionPlaceholder pp k x y s = Some t"
        by (simp add: resolve_ref_def obj_def)
      from r b FunctionT show ?thesis
        unfolding postProcessResolvedFunctionPlaceholder_def
        by (auto simp: bind_Some_iff [of "obj x s"] bind_Some_iff [of "ll_of y s"] bind_Some_iff [of "getFunctionTypeForABI s _"]
            bind_Some_iff [of "cabiOracle_of_type k s b"] bind_Some_iff [of "case_btkind _ _ _ _ _ _ _ _"]
            obj_def scalar_kind_def split: if_split_asm intro!: chain)
    next
      case StructT
      with assms(1) b True have r: "postProcessResolvedStructPlaceholder pp x y s = Some t"
        by (simp add: resolve_ref_def obj_def)
      obtain fs where fs: "bt_kind b = KStruct fs" using StructT by (cases "bt_kind b") auto
      from r b fs consider "t = s"
        | c u where "setPlaceholder x False (s\<lparr>tm_context := c\<rparr>) = Some u" "pp x u = Some t"
        by (auto simp: postProcessResolvedStructPlaceholder_def bind_Some_iff obj_def split: if_split_asm)
      then show ?thesis
      proof cases
        case 2
        have "moves s (s\<lparr>tm_context := c\<rparr>)" by (rule same_core_moves) (simp add: same_core_def)
        moreover have "moves (s\<lparr>tm_context := c\<rparr>) u"
          by (rule setPlaceholder_moves [OF 2(1), of b]) (simp_all add: b fs scalar_kind_def)
        ultimately show ?thesis using assms(2) [OF 2(2)] by (blast intro: moves_trans)
      qed simp
    qed (use assms(1) b True in \<open>simp_all add: resolve_ref_def obj_def\<close>)
  qed (use assms(1) b in \<open>simp add: resolve_ref_def obj_def\<close>)
qed

lemma postProcess_moves: "postProcessResolvedPlaceholder n k x s = Some t \<Longrightarrow> moves s t"
proof (induction n arbitrary: x s t)
  case (Suc n)
  show ?case
  proof (cases "placeholderRefs s x")
    case (Some refs)
    with Suc.prems have "fold_opt (\<lambda>r s. resolve_ref (\<lambda>x s. postProcessResolvedPlaceholder n k x s) k x r s) refs s = Some t"
      by simp
    then show ?thesis
    proof (rule fold_opt_inv [where P = "moves s", rotated 2])
      fix r u v
      assume "moves s u" "resolve_ref (\<lambda>x s. postProcessResolvedPlaceholder n k x s) k x r u = Some v"
      then show "moves s v" using Suc.IH by (blast intro: moves_trans resolve_ref_moves)
    qed simp
  qed (use Suc.prems in simp)
qed simp

section \<open>Every operation moves the state up\<close>

lemma add_ref_core [simp]: "same_core s (add_ref x y s)"
  by (simp add: add_ref_def same_core_def)

lemma same_core_refl [simp]: "same_core s s"
  by (simp add: same_core_def)

lemma same_core_trans: "same_core s t \<Longrightarrow> same_core t u \<Longrightarrow> same_core s u"
  by (simp add: same_core_def)

lemma refs_if_placeholder_core: "refs_if_placeholder xs y s = Some (p, t) \<Longrightarrow> same_core s t"
  by (induction xs arbitrary: s p)
     (auto simp: ref_if_placeholder_def bind_Some_iff split: if_split_asm dest: same_core_trans [OF add_ref_core])

lemma addPlaceholderRefs_core: "addPlaceholderRefs x s = Some (p, t) \<Longrightarrow> same_core s t"
proof -
  assume r: "addPlaceholderRefs x s = Some (p, t)"
  then obtain b where b: "obj x s = Some b" by (auto simp: addPlaceholderRefs_def bind_Some_iff)
  from r b show ?thesis
    by (cases "bt_kind b")
       (auto simp: addPlaceholderRefs_def ref_if_placeholder_def bind_Some_iff split: if_split_asm dest: refs_if_placeholder_core)
qed

lemma makeAuxType_moves:
  assumes "makeAuxType lt s = (x, t)"
  shows "moves s t"
proof (cases "auxTypeMap s lt")
  case None
  with assms have t: "x = tm_next s"
    "t = s\<lparr>tm_heap := (tm_heap s)(x \<mapsto> mk_btype KAux (Some lt) 0), tm_next := Suc x, auxTypeMap := (auxTypeMap s)(lt \<mapsto> x)\<rparr>"
    by (auto simp: makeAuxType_def new_btype_def)
  let ?u = "s\<lparr>tm_heap := (tm_heap s)(x \<mapsto> mk_btype KAux (Some lt) 0), tm_next := Suc x\<rparr>"
  have m: "moves s ?u" by (rule new_btype_moves [of "mk_btype KAux (Some lt) 0" s x]) (simp add: new_btype_def t(1))
  have same: "scalar_at t = scalar_at ?u" by (rule scalar_at_cong) (simp add: t)
  have nos: "\<not> scalar_at ?u x" by (simp add: scalar_at_def scalar_kind_def mk_btype_def)
  show ?thesis unfolding moves_def
  proof
    assume "tm_live s"
    with m have u: "tm_live ?u" "grows s ?u" by (simp_all add: moves_def)
    have "ran (auxTypeMap t) \<subseteq> insert x (ran (auxTypeMap ?u))" by (auto simp: t ran_def)
    with u(1) nos have "tm_live t" unfolding tm_live_def same by (auto simp: t)
    moreover have "grows s t" using u(2) unfolding grows_def same by (simp add: t)
    ultimately show "tm_live t \<and> grows s t" by simp
  qed
qed (use assms in \<open>auto simp: makeAuxType_def\<close>)

lemma makeAuxType_nonscalar:
  assumes "makeAuxType lt s = (x, t)" "tm_live s"
  shows "\<exists>b. tm_heap t x = Some b \<and> \<not> scalar_kind (bt_kind b)"
proof (cases "auxTypeMap s lt")
  case None
  with assms(1) show ?thesis by (auto simp: makeAuxType_def new_btype_def mk_btype_def scalar_kind_def)
next
  case (Some y)
  with assms(2) have "y < tm_next s" "\<not> scalar_at s y" by (auto simp: tm_live_def ran_def)
  moreover from this(1) assms(2) obtain b where "tm_heap s y = Some b" unfolding tm_live_def by blast
  ultimately show ?thesis using assms(1) Some by (auto simp: makeAuxType_def scalar_at_def)
qed

lemma tnamegen_core: "tnamegen tag s = Some (nm, t) \<Longrightarrow> same_core s t"
  by (auto simp: tnamegen_def bind_Some_iff same_core_def case_prod_beta Let_def)

lemma makeOpaqueLlvmType_core: "makeOpaqueLlvmType tag s = Some (ty, t) \<Longrightarrow> same_core s t"
  by (auto simp: makeOpaqueLlvmType_def bind_Some_iff case_prod_beta Let_def same_core_def dest!: tnamegen_core)

text \<open>Creating an object and entering it into the table, with or without the placeholder steps.\<close>

lemma create_moves:
  assumes "new_btype b s = (x, s1)" "insert_anon k x s1 = Some t"
  shows "moves s t"
  using moves_trans [OF new_btype_moves [OF assms(1)] insert_anon_moves [OF assms(2)]] assms(1)
  by (auto simp: new_btype_def)

lemma create_placeholder_moves:
  assumes "new_btype b s = (x, s1)" "addPlaceholderRefs x s1 = Some (p, s2)" "setPlaceholder x p s2 = Some s3"
    and "insert_anon k x s3 = Some t" "\<not> scalar_kind (bt_kind b)"
  shows "moves s t"
proof -
  have 1: "tm_heap s1 x = Some b" "tm_next s1 = Suc x" using assms(1) by (auto simp: new_btype_def)
  have c: "same_core s1 s2" by (rule addPlaceholderRefs_core [OF assms(2)])
  have 2: "tm_heap s2 x = Some b" "tm_next s2 = Suc x" using c 1 by (simp_all add: same_core_def)
  have "x < tm_next s3" using assms(3) 2 by (auto simp: setPlaceholder_def upd_def obj_def)
  then have "moves s3 t" by (rule insert_anon_moves [OF assms(4)])
  moreover have "moves s2 s3" by (rule setPlaceholder_moves [OF assms(3) 2(1) assms(5)])
  ultimately show ?thesis
    using new_btype_moves [OF assms(1)] same_core_moves [OF c] by (blast intro: moves_trans)
qed

lemma integerType_moves:
  assumes "integerType k u bits s = Some (x, t)"
  shows "moves s t"
proof -
  obtain y s1 where nb: "new_btype (mk_integer u bits (Some (IntTy bits)) 0) s = (y, s1)" by fastforce
  from assms nb show ?thesis
    by (auto simp: integerType_def int_type_def bind_Some_iff split: option.split_asm if_split_asm intro: create_moves [OF nb])
qed

lemma floatType_moves:
  assumes "floatType k bits s = Some (x, t)"
  shows "moves s t"
proof -
  from assms obtain ft where ft: "makeLLVMFloatType bits = Some ft" by (auto simp: floatType_def bind_Some_iff)
  obtain y s1 where nb: "new_btype (mk_float bits (Some ft) 0) s = (y, s1)" by fastforce
  from assms ft nb show ?thesis
    by (auto simp: floatType_def bind_Some_iff split: option.split_asm if_split_asm intro: create_moves [OF nb])
qed

lemma pointerType_moves:
  assumes "pointerType k to s = Some (x, t)"
  shows "moves s t"
proof (cases "to = tm_errorType s")
  case False
  with assms obtain lt c where c: "ll_of to s = Some lt"
    "mk_pointer (tm_heap s) (Some to) (Some (PointerTy (if lt = llvmVoidType then IntTy 8 else lt))) 0 = Some c"
    by (auto simp: pointerType_def bind_Some_iff Let_def)
  obtain y s1 where nb: "new_btype c s = (y, s1)" by fastforce
  have "\<not> scalar_kind (bt_kind c)" using c(2) by (auto simp: mk_pointer_def mk_btype_def scalar_kind_def bind_Some_iff)
  with assms False c nb show ?thesis
    by (auto simp: pointerType_def bind_Some_iff Let_def split: option.split_asm if_split_asm
        intro: create_placeholder_moves [OF nb])
qed (use assms in \<open>simp add: pointerType_def\<close>)

text \<open>What existed before is not changed by a request for a pointer type.\<close>

lemma live_fresh: "tm_live s \<Longrightarrow> tm_heap s (tm_next s) = None"
  unfolding tm_live_def by blast

lemma pointerType_old:
  assumes "pointerType k to s = Some (x, t)" "tm_live s"
  shows "(\<forall>x b. tm_heap s x = Some b \<longrightarrow> tm_heap t x = Some b) \<and> auxTypeMap t = auxTypeMap s \<and> tm_errorType t = tm_errorType s"
proof (cases "t = s")
  case False
  with assms(1) obtain c s2 p s3 where
    c: "addPlaceholderRefs (tm_next s) (s\<lparr>tm_heap := (tm_heap s)(tm_next s \<mapsto> c), tm_next := Suc (tm_next s)\<rparr>) = Some (p, s2)"
    "setPlaceholder (tm_next s) p s2 = Some s3" "insert_anon k (tm_next s) s3 = Some t"
    by (auto simp: pointerType_def new_btype_def bind_Some_iff Let_def split: option.split_asm if_split_asm)
  have "same_core (s\<lparr>tm_heap := (tm_heap s)(tm_next s \<mapsto> c), tm_next := Suc (tm_next s)\<rparr>) s2"
    by (rule addPlaceholderRefs_core [OF c(1)])
  moreover have "tm_heap t = tm_heap s3 \<and> auxTypeMap t = auxTypeMap s3 \<and> tm_errorType t = tm_errorType s3"
    using c(3) by (auto simp: insert_anon_def bind_Some_iff split: option.split_asm)
  ultimately show ?thesis using c(2) live_fresh [OF assms(2)]
    by (auto simp: setPlaceholder_def upd_def obj_def bind_Some_iff same_core_def)
qed simp

lemma sanitizeFields_moves: "sanitizeFields k fs s = Some (fs', t) \<Longrightarrow> moves s t"
proof (induction fs arbitrary: fs' s)
  case (Cons f fs)
  then show ?case
    by (auto simp: bind_Some_iff split: if_split_asm dest!: pointerType_moves intro: moves_trans)
qed simp

lemma structType_moves:
  assumes "structType k fs s = Some (x, t)"
  shows "moves s t"
proof -
  from assms obtain scan where scan: "scan_fields fs s = Some scan" by (auto simp: structType_def bind_Some_iff)
  consider "scan = None" | "scan = Some True" | "scan = Some False" by (cases scan) auto
  then show ?thesis
  proof cases
    case 1
    with assms scan show ?thesis by (simp add: structType_def)
  next
    case 2
    with assms scan obtain flds u ty v where u: "sanitizeFields k fs s = Some (flds, u)"
      "makeOpaqueLlvmType ''IPST'' u = Some (ty, v)" by (auto simp: structType_def bind_Some_iff)
    obtain y w where nb: "new_btype (mk_struct flds (Some ty) 0) v = (y, w)" by fastforce
    have "\<not> scalar_kind (bt_kind (mk_struct flds (Some ty) 0))" by (simp add: mk_struct_def mk_btype_def scalar_kind_def)
    with assms scan 2 u nb have "moves v t"
      by (auto simp: structType_def bind_Some_iff intro: create_placeholder_moves [OF nb])
    with sanitizeFields_moves [OF u(1)] same_core_moves [OF makeOpaqueLlvmType_core [OF u(2)]] show ?thesis
      by (blast intro: moves_trans)
  next
    case 3
    with assms scan obtain flds u ty where u: "sanitizeFields k fs s = Some (flds, u)"
      "makeLLVMStructType flds u = Some ty" by (auto simp: structType_def bind_Some_iff)
    obtain y w where nb: "new_btype (mk_struct flds (Some ty) 0) u = (y, w)" by fastforce
    from assms scan 3 u nb have "moves u t"
      by (auto simp: structType_def bind_Some_iff split: option.split_asm if_split_asm intro: create_moves [OF nb])
    with sanitizeFields_moves [OF u(1)] show ?thesis by (blast intro: moves_trans)
  qed
qed

lemma arrayType_moves:
  assumes "arrayType k e n s = Some (x, t)"
  shows "moves s t"
proof (cases "tm_errorExpression s = Some (le_node n) \<or> e = tm_errorType s")
  case False
  with assms obtain sz et c where c: "le_const n = Some sz" "ll_of e s = Some et"
    "mk_array (tm_heap s) (Some e) (Some n) (Some (ArrayTy et sz)) 0 = Some c"
    by (auto simp: arrayType_def bind_Some_iff)
  obtain y s1 where nb: "new_btype c s = (y, s1)" by fastforce
  have "\<not> scalar_kind (bt_kind c)" using c(3) by (auto simp: mk_array_def mk_btype_def scalar_kind_def bind_Some_iff)
  with assms False c nb show ?thesis
    by (auto simp: arrayType_def bind_Some_iff split: option.split_asm if_split_asm intro: create_placeholder_moves [OF nb])
qed (use assms in \<open>auto simp: arrayType_def\<close>)

lemma functionType_moves:
  assumes "functionType k rc ps rs rst cabi loc s = Some (x, t)"
  shows "moves s t"
proof (cases "signature_error rc ps rs rst (tm_errorType s)")
  case False
  define pts where "pts = (case rc of None \<Rightarrow> [] | Some r \<Rightarrow> [r]) @ map ti_btype ps"
  from assms False obtain rb u ft c where u: "(case map ti_btype rs of [] \<Rightarrow> Some (makeAuxType VoidTy s) | [r] \<Rightarrow> Some (r, s)
      | _ \<Rightarrow> do { r \<leftarrow> rst; Some (r, s) }) = Some (rb, u)"
    "makeLLVMFunctionType k pts rb cabi u = Some ft" "mk_function rc pts (map ti_btype rs) rb (Some ft) cabi loc = Some c"
    by (auto simp: functionType_def Let_def bind_Some_iff pts_def)
  have su: "moves s u"
    using u(1) by (auto simp: bind_Some_iff split: list.split_asm dest: makeAuxType_moves)
  obtain y v where nb: "new_btype c u = (y, v)" by fastforce
  have ns: "\<not> scalar_kind (bt_kind c)" using u(3) by (auto simp: mk_function_def mk_btype_def scalar_kind_def bind_Some_iff)
  from assms False u obtain r where r: "find_cand k c u = Some r"
    by (auto simp: functionType_def Let_def bind_Some_iff pts_def)
  consider "t = u"
    | w pl z where "refs_if_placeholder ((case rst of None \<Rightarrow> [] | Some r \<Rightarrow> [r]) @ (case rc of None \<Rightarrow> [] | Some r \<Rightarrow> [r])
          @ pts @ map ti_btype rs) y v = Some (pl, w)"
      "(if pl then setPlaceholder y True w else Some w) = Some z" "insert_anon k y z = Some t"
  proof (cases r)
    case None
    from assms False u nb r None that(2) show ?thesis
      unfolding functionType_def Let_def pts_def [symmetric] by (auto simp: bind_Some_iff split: if_split_asm)
  next
    case (Some e)
    from assms False u nb r Some that(1) show ?thesis
      unfolding functionType_def Let_def pts_def [symmetric] by (auto simp: bind_Some_iff split: if_split_asm)
  qed
  then have "moves u t"
  proof cases
    case 2
    have 1: "tm_heap v y = Some c" "tm_next v = Suc y" using nb by (auto simp: new_btype_def)
    have cv: "same_core v w" by (rule refs_if_placeholder_core [OF 2(1)])
    then have w: "tm_heap w y = Some c" "tm_next w = Suc y" using 1 by (simp_all add: same_core_def)
    have "moves w z \<and> tm_next z = Suc y"
    proof (cases pl)
      case True
      with 2(2) have "setPlaceholder y True w = Some z" by simp
      then show ?thesis using setPlaceholder_moves [OF _ w(1) ns] w by (auto simp: setPlaceholder_def upd_def obj_def)
    qed (use 2(2) w in simp)
    with insert_anon_moves [OF 2(3)] new_btype_moves [OF nb] same_core_moves [OF cv] show ?thesis
      by (auto intro: moves_trans)
  qed simp
  with su show ?thesis by (rule moves_trans)
qed (use assms in \<open>simp add: functionType_def\<close>)

text \<open>A new object whose contents are adjusted before anyone sees it.\<close>

lemma new_upd_moves:
  assumes "new_btype b s = (x, s1)" "same_core s1 s2" "upd x f s2 = Some s3"
  shows "moves s s3"
proof -
  obtain s4 where s4: "new_btype (f b) s = (x, s4)" using assms(1) by (auto simp: new_btype_def)
  have "same_core s4 s3" using assms s4 by (auto simp: new_btype_def same_core_def upd_def obj_def)
  with new_btype_moves [OF s4] show ?thesis by (blast intro: moves_trans same_core_moves)
qed

lemma core_step: "moves s t \<Longrightarrow> same_core t u \<Longrightarrow> moves s u"
  by (blast intro: moves_trans same_core_moves)

lemma placeholder_create_moves:
  assumes "do { let (x, s) = new_btype b s; (opaque, s) \<leftarrow> makeOpaqueLlvmType tag s; s \<leftarrow> setType x (f opaque) s;
      Some (x, s\<lparr>placeholders := insert_ptr x (placeholders s)\<rparr>) } = Some (x, t)"
  shows "moves s t"
proof -
  obtain y s1 where nb: "new_btype b s = (y, s1)" by fastforce
  with assms obtain ty s2 s3 where r: "makeOpaqueLlvmType tag s1 = Some (ty, s2)" "setType y (f ty) s2 = Some s3"
    "t = s3\<lparr>placeholders := insert_ptr y (placeholders s3)\<rparr>"
    by (auto simp: bind_Some_iff)
  have "moves s s3"
    using new_upd_moves [OF nb makeOpaqueLlvmType_core [OF r(1)]] r(2) by (simp add: setType_def)
  then show ?thesis by (rule core_step) (simp add: r(3) same_core_def)
qed

lemma placeholderStructType_moves: "placeholderStructType nm loc s = Some (x, t) \<Longrightarrow> moves s t"
  unfolding placeholderStructType_def by (rule placeholder_create_moves [where f = "\<lambda>t. t"])

lemma placeholderPointerType_moves: "placeholderPointerType nm loc s = Some (x, t) \<Longrightarrow> moves s t"
  unfolding placeholderPointerType_def by (rule placeholder_create_moves)

lemma placeholderArrayType_moves: "placeholderArrayType nm loc s = Some (x, t) \<Longrightarrow> moves s t"
  unfolding placeholderArrayType_def by (rule placeholder_create_moves [where f = "\<lambda>t. t"])

lemma namedType_moves:
  assumes "namedType nm y loc s = Some (x, t)"
  shows "moves s t"
proof -
  from assms obtain b c where c: "obj y s = Some b" "bt_clone (tm_heap s) b = Some c" by (auto simp: namedType_def bind_Some_iff)
  obtain z s1 where nb: "new_btype (c\<lparr>bt_location := loc\<rparr>) s = (z, s1)" by fastforce
  from assms c nb obtain p s2 s3 where r: "addPlaceholderRefs z s1 = Some (p, s2)" "upd z (\<lambda>b. b\<lparr>bt_name := nm\<rparr>) s2 = Some s3"
    "t = s3\<lparr>namedTypes := insert_ptr z (namedTypes s3), revNames := (revNames s3)(y \<mapsto> z)\<rparr>"
    by (auto simp: namedType_def bind_Some_iff)
  have "moves s s3" by (rule new_upd_moves [OF nb addPlaceholderRefs_core [OF r(1)] r(2)])
  then show ?thesis by (rule core_step) (simp add: r(3) same_core_def)
qed

lemma circularPointerType_moves:
  assumes "circularPointerType y s = Some (x, t)"
  shows "moves s t"
proof (cases "y = tm_errorType s \<or> circularPointerTypeMap s y \<noteq> None")
  case False
  with assms obtain ty u where u: "makeOpaqueLlvmType ''CPT'' s = Some (ty, u)"
    by (auto simp: circularPointerType_def bind_Some_iff)
  obtain z v where v: "makeAuxType (PointerTy ty) u = (z, v)" by fastforce
  have "same_core v t" using assms False u v by (auto simp: circularPointerType_def Let_def bind_Some_iff same_core_def split: if_split_asm)
  with same_core_moves [OF makeOpaqueLlvmType_core [OF u]] makeAuxType_moves [OF v] show ?thesis
    by (blast intro: moves_trans core_step)
qed (use assms in \<open>auto simp: circularPointerType_def split: if_split_asm\<close>)

lemma complexType_moves:
  assumes "complexType bits s = Some (x, t)"
  shows "moves s t"
proof -
  define e where "e = (if bits = 64 then FloatTy else DoubleTy)"
  obtain z v where v: "makeAuxType (makeLLVMTwoElementStructType e e) s = (z, v)" by fastforce
  have "t = s \<or> same_core v t"
    using assms v by (auto simp: complexType_def e_def bind_Some_iff same_core_def split: option.split_asm if_split_asm)
  with makeAuxType_moves [OF v] show ?thesis by (auto intro: core_step)
qed

lemma setToType_moves: "setToType x y s = Some t \<Longrightarrow> moves s t"
proof -
  assume r: "setToType x y s = Some t"
  then obtain b where b: "tm_heap s x = Some b" by (auto simp: setToType_def bind_Some_iff obj_def)
  show ?thesis using r b
    by (cases "bt_kind b") (auto simp: setToType_def bind_Some_iff obj_def scalar_kind_def elim!: upd_moves)
qed

lemma setFields_moves: "setFields x fs s = Some t \<Longrightarrow> moves s t"
proof -
  assume r: "setFields x fs s = Some t"
  then obtain b where b: "tm_heap s x = Some b" by (auto simp: setFields_def bind_Some_iff obj_def)
  show ?thesis using r b
    by (cases "bt_kind b") (auto simp: setFields_def bind_Some_iff obj_def scalar_kind_def elim!: upd_moves)
qed

lemma setElemType_moves: "setElemType x y s = Some t \<Longrightarrow> moves s t"
proof -
  assume r: "setElemType x y s = Some t"
  then obtain b where b: "tm_heap s x = Some b" by (auto simp: setElemType_def bind_Some_iff obj_def)
  show ?thesis using r b
    by (cases "bt_kind b") (auto simp: setElemType_def bind_Some_iff obj_def scalar_kind_def elim!: upd_moves)
qed

lemma setNelements_moves: "setNelements x n s = Some t \<Longrightarrow> moves s t"
proof -
  assume r: "setNelements x n s = Some t"
  then obtain b where b: "tm_heap s x = Some b" by (auto simp: setNelements_def bind_Some_iff obj_def)
  show ?thesis using r b
    by (cases "bt_kind b") (auto simp: setNelements_def bind_Some_iff obj_def scalar_kind_def elim!: upd_moves)
qed

text \<open>A placeholder is never a scalar once its setter has found the class it expects.\<close>

lemma setPlaceholder_core_moves:
  assumes "setPlaceholder x v s = Some t" "tm_heap s x = Some b" "flavor (bt_kind b) \<notin> {IntegerT, FloatT}"
  shows "moves s t"
  using setPlaceholder_moves [OF assms(1,2)] assms(3) by (simp add: scalar_kind_def)

lemma updatePlaceholderUnderlyingType_moves:
  assumes "updatePlaceholderUnderlyingType n k x y s = Some t" "tm_heap s x = Some b" "\<not> scalar_kind (bt_kind b)"
  shows "moves s t"
proof -
  from assms(1) obtain ty nb u v c where r: "setType x ty s = Some u" "obj y u = Some nb"
    "(if \<not> bt_placeholder nb then setPlaceholder x False u else Some u) = Some v" "obj x v = Some c"
    "(if \<not> bt_placeholder c then postProcessResolvedPlaceholder n k x v else Some v) = Some t"
    by (auto simp: updatePlaceholderUnderlyingType_def bind_Some_iff simp del: check_bind split del: if_split)
  have "tm_heap u x = Some (b\<lparr>bt_type := Some ty\<rparr>)" using r(1) assms(2) by (auto simp: setType_def upd_def obj_def)
  then have "moves u v" using r(3) assms(3) by (auto split: if_split_asm intro: setPlaceholder_moves)
  moreover have "moves v t" using r(5) by (auto split: if_split_asm intro: postProcess_moves)
  ultimately show ?thesis using setType_moves [OF r(1) assms(2,3)] by (blast intro: moves_trans)
qed

lemma setToType_pointer:
  "setToType x y s = Some t \<Longrightarrow> \<exists>b. tm_heap t x = Some b \<and> flavor (bt_kind b) = PointerT"
proof -
  assume r: "setToType x y s = Some t"
  then obtain b where b: "tm_heap s x = Some b" by (auto simp: setToType_def bind_Some_iff obj_def)
  show ?thesis using r b by (cases "bt_kind b") (auto simp: setToType_def bind_Some_iff obj_def upd_def)
qed

lemma circular_step_core: "same_core s (circular_step x y s)"
  by (auto simp: circular_step_def same_core_def Let_def split: list.split)

lemma setPlaceholderPointerType_moves:
  assumes "setPlaceholderPointerType n k x y s = Some (r, t)"
  shows "moves s t"
proof (cases "x = tm_errorType s \<or> y = tm_errorType s")
  case False
  with assms obtain ty u v tb w where r: "setToType x y s = Some u" "setType x ty u = Some v"
    "(if isUnresolvedPlaceholder tb then Some (add_ref y x v)
      else do { s \<leftarrow> setPlaceholder x False v; postProcessResolvedPlaceholder n k x s }) = Some w"
    "t = circular_step x y w"
    unfolding setPlaceholderPointerType_def by (auto simp: bind_Some_iff simp del: check_bind split del: if_split)
  from setToType_pointer [OF r(1)] obtain b where b: "tm_heap u x = Some b" "\<not> scalar_kind (bt_kind b)"
    by (auto simp: scalar_kind_def)
  have vb: "tm_heap v x = Some (b\<lparr>bt_type := Some ty\<rparr>)" using r(2) b by (auto simp: setType_def upd_def obj_def)
  have "moves v w"
  proof (cases "isUnresolvedPlaceholder tb")
    case False
    with r(3) obtain z where "setPlaceholder x False v = Some z" "postProcessResolvedPlaceholder n k x z = Some w"
      by (auto simp: bind_Some_iff)
    then show ?thesis using setPlaceholder_moves [OF _ vb] b(2) postProcess_moves by (auto intro: moves_trans [of v z w])
  qed (use r(3) same_core_moves [OF add_ref_core] in auto)
  with setToType_moves [OF r(1)] setType_moves [OF r(2) b] show ?thesis
    unfolding r(4) by (blast intro: moves_trans core_step circular_step_core)
qed (use assms in \<open>auto simp: setPlaceholderPointerType_def\<close>)

lemma setPlaceholderStructType_moves:
  assumes "setPlaceholderStructType n k x fs s = Some (r, t)"
  shows "moves s t"
proof (cases "x = tm_errorType s \<or> tm_errorType s \<in> ti_btype ` set fs")
  case False
  with assms obtain flds u v p w b where r: "sanitizeFields k fs s = Some (flds, u)" "setFields x flds u = Some v"
    "addPlaceholderRefs x v = Some (p, w)" "obj x u = Some b" "flavor (bt_kind b) = StructT"
    unfolding setPlaceholderStructType_def by (auto simp: bind_Some_iff simp del: check_bind split del: if_split)
  have "\<exists>b'. tm_heap v x = Some b' \<and> flavor (bt_kind b') = StructT"
    using r(2,4,5) by (cases "bt_kind b") (auto simp: setFields_def bind_Some_iff obj_def upd_def)
  with addPlaceholderRefs_core [OF r(3)] obtain b' where b': "tm_heap w x = Some b'" "\<not> scalar_kind (bt_kind b')"
    by (auto simp: same_core_def scalar_kind_def)
  have "moves w t"
  proof (cases p)
    case False
    with \<open>\<not> (x = _ \<or> _)\<close> assms r obtain c z where "setPlaceholder x False (w\<lparr>tm_context := c\<rparr>) = Some z"
      "postProcessResolvedPlaceholder n k x z = Some t"
      unfolding setPlaceholderStructType_def by (auto simp: bind_Some_iff simp del: check_bind)
    moreover from this(1) have "moves (w\<lparr>tm_context := c\<rparr>) z" by (rule setPlaceholder_moves) (use b' in simp_all)
    moreover have "moves w (w\<lparr>tm_context := c\<rparr>)" by (rule same_core_moves) (simp add: same_core_def)
    ultimately show ?thesis by (blast intro: moves_trans postProcess_moves)
  next
    case True
    with \<open>\<not> (x = _ \<or> _)\<close> assms r show ?thesis
      unfolding setPlaceholderStructType_def by (auto simp: bind_Some_iff simp del: check_bind)
  qed
  with sanitizeFields_moves [OF r(1)] setFields_moves [OF r(2)] same_core_moves [OF addPlaceholderRefs_core [OF r(3)]]
  show ?thesis by (blast intro: moves_trans)
qed (use assms in \<open>auto simp: setPlaceholderStructType_def split: if_split_asm\<close>)

lemma moves_live: "moves s t \<Longrightarrow> tm_live s \<Longrightarrow> tm_live t"
  by (simp add: moves_def)

lemma moves_nonscalar:
  assumes "moves s t" "tm_live s" "tm_heap s x = Some b" "\<not> scalar_kind (bt_kind b)"
  shows "\<exists>c. tm_heap t x = Some c \<and> \<not> scalar_kind (bt_kind c)"
  using assms unfolding moves_def grows_def scalar_kind_def by metis

lemma setPlaceholderArrayType_moves:
  assumes "setPlaceholderArrayType n k x e len s = Some (r, t)"
  shows "moves s t"
  unfolding moves_def
proof
  assume live: "tm_live s"
  show "tm_live t \<and> grows s t"
  proof (cases "x = tm_errorType s \<or> e = tm_errorType s \<or> tm_errorExpression s = Some (le_node len)")
    case False
    with assms obtain b u v p w sz et where r: "obj x s = Some b" "flavor (bt_kind b) = ArrayT"
      "setElemType x e s = Some u" "setNelements x len u = Some v" "addPlaceholderRefs x v = Some (p, w)"
      unfolding setPlaceholderArrayType_def by (auto simp: bind_Some_iff simp del: check_bind)
    from False assms r obtain sz et where sz: "le_const len = Some sz" "ll_of e w = Some et"
      unfolding setPlaceholderArrayType_def by (auto simp: bind_Some_iff simp del: check_bind)
    obtain y z where y: "makeAuxType (ArrayTy et sz) w = (y, z)" by fastforce
    from False assms r sz y obtain z' where z': "setPlaceholder y p z = Some z'"
      "updatePlaceholderUnderlyingType n k x y z' = Some t"
      unfolding setPlaceholderArrayType_def by (auto simp: bind_Some_iff simp del: check_bind)
    have sw: "moves s w" using setElemType_moves [OF r(3)] setNelements_moves [OF r(4)]
        same_core_moves [OF addPlaceholderRefs_core [OF r(5)]] by (blast intro: moves_trans)
    have wz: "moves w z" by (rule makeAuxType_moves [OF y])
    from makeAuxType_nonscalar [OF y moves_live [OF sw live]] obtain c where c: "tm_heap z y = Some c"
      "\<not> scalar_kind (bt_kind c)" by blast
    have zz: "moves z z'" by (rule setPlaceholder_moves [OF z'(1) c])
    have all: "moves s z'" using sw wz zz by (blast intro: moves_trans)
    have "\<not> scalar_kind (bt_kind b)" using r(2) by (simp add: scalar_kind_def)
    from moves_nonscalar [OF all live r(1) [unfolded obj_def] this] obtain d where
      d: "tm_heap z' x = Some d" "\<not> scalar_kind (bt_kind d)" by blast
    from moves_trans [OF all updatePlaceholderUnderlyingType_moves [OF z'(2) d]] live
    show ?thesis by (simp add: moves_def)
  qed (use assms live in \<open>auto simp: setPlaceholderArrayType_def\<close>)
qed

section \<open>Histories: one object per scalar type\<close>

text \<open>Every operation of the class that changes its state.\<close>

datatype tm_op =
    OpInteger bool u32
  | OpFloat u32
  | OpComplex u32
  | OpVoid
  | OpPointer tref
  | OpStruct "tident list"
  | OpArray tref lenexpr
  | OpFunction "tref option" "tident list" "tident list" "tref option" bool location
  | OpNamed string tref location
  | OpCircular tref
  | OpPlaceholderStruct string location
  | OpPlaceholderPointer string location
  | OpPlaceholderArray string location
  | OpSetPointer tref tref
  | OpSetFunction tref tref
  | OpSetStruct tref "tident list"
  | OpSetArray tref tref lenexpr

text \<open>What a history records: the objects handed out for the scalar types.\<close>

type_synonym scalar_key = "bool option \<times> u32"

definition no_event :: "('a \<times> typemanager) option \<Rightarrow> ((scalar_key \<times> tref) list \<times> typemanager) option" where
  "no_event r = do { (x, s) \<leftarrow> r; Some ([], s) }"

definition scalar_event :: "scalar_key \<Rightarrow> (tref \<times> typemanager) option \<Rightarrow> ((scalar_key \<times> tref) list \<times> typemanager) option" where
  "scalar_event key r = do { (x, s) \<leftarrow> r; Some ([(key, x)], s) }"

fun tm_step :: "nat \<Rightarrow> nat \<Rightarrow> tm_op \<Rightarrow> typemanager \<Rightarrow> ((scalar_key \<times> tref) list \<times> typemanager) option" where
  "tm_step n k (OpInteger u bits) s = scalar_event (Some u, bits) (integerType k u bits s)"
| "tm_step n k (OpFloat bits) s = scalar_event (None, bits) (floatType k bits s)"
| "tm_step n k (OpComplex bits) s = no_event (complexType bits s)"
| "tm_step n k OpVoid s = no_event (Some (voidType s))"
| "tm_step n k (OpPointer x) s = no_event (pointerType k x s)"
| "tm_step n k (OpStruct fs) s = no_event (structType k fs s)"
| "tm_step n k (OpArray e len) s = no_event (arrayType k e len s)"
| "tm_step n k (OpFunction r ps rs rst c loc) s = no_event (functionType k r ps rs rst c loc s)"
| "tm_step n k (OpNamed nm x loc) s = no_event (namedType nm x loc s)"
| "tm_step n k (OpCircular x) s = no_event (circularPointerType x s)"
| "tm_step n k (OpPlaceholderStruct nm loc) s = no_event (placeholderStructType nm loc s)"
| "tm_step n k (OpPlaceholderPointer nm loc) s = no_event (placeholderPointerType nm loc s)"
| "tm_step n k (OpPlaceholderArray nm loc) s = no_event (placeholderArrayType nm loc s)"
| "tm_step n k (OpSetPointer x y) s = no_event (setPlaceholderPointerType n k x y s)"
| "tm_step n k (OpSetFunction x y) s = no_event (setPlaceholderFunctionType n k x y s)"
| "tm_step n k (OpSetStruct x fs) s = no_event (setPlaceholderStructType n k x fs s)"
| "tm_step n k (OpSetArray x e len) s = no_event (setPlaceholderArrayType n k x e len s)"

lemma no_event_Some: "no_event r = Some (ev, t) \<longleftrightarrow> ev = [] \<and> (\<exists>x. r = Some (x, t))"
  by (auto simp: no_event_def bind_Some_iff)

lemma scalar_event_Some: "scalar_event key r = Some (ev, t) \<longleftrightarrow> (\<exists>x. ev = [(key, x)] \<and> r = Some (x, t))"
  by (auto simp: scalar_event_def bind_Some_iff)

lemmas op_moves = integerType_moves floatType_moves complexType_moves makeAuxType_moves pointerType_moves structType_moves
  arrayType_moves functionType_moves namedType_moves circularPointerType_moves placeholderStructType_moves
  placeholderPointerType_moves placeholderArrayType_moves setPlaceholderPointerType_moves
  setPlaceholderStructType_moves setPlaceholderArrayType_moves

lemma tm_step_moves: "tm_step n k op s = Some (ev, t) \<Longrightarrow> moves s t"
  by (cases op) (auto simp: no_event_Some scalar_event_Some voidType_def setPlaceholderFunctionType_def dest: op_moves)

text \<open>The object a request for a scalar type finds: the first in the table that is that scalar.\<close>

definition key_type :: "scalar_key \<Rightarrow> btype option" where
  "key_type key = (case key of
     (Some u, bits) \<Rightarrow> do { t \<leftarrow> int_type bits; Some (mk_integer u bits (Some t) 0) }
   | (None, bits) \<Rightarrow> do { t \<leftarrow> makeLLVMFloatType bits; Some (mk_float bits (Some t) 0) })"

fun key_kind :: "scalar_key \<Rightarrow> btkind \<Rightarrow> llty option \<Rightarrow> bool" where
  "key_kind (Some u, bits) (KInteger u' bits') t \<longleftrightarrow> u' = u \<and> t = Some (IntTy bits)"
| "key_kind (None, bits) (KFloat bits') t \<longleftrightarrow> (case makeLLVMFloatType bits of None \<Rightarrow> False | Some ft \<Rightarrow> t = Some ft)"
| "key_kind _ _ t \<longleftrightarrow> False"

definition is_scalar :: "typemanager \<Rightarrow> scalar_key \<Rightarrow> tref \<Rightarrow> bool" where
  "is_scalar s key x \<longleftrightarrow> (case tm_heap s x of None \<Rightarrow> False
     | Some b \<Rightarrow> bt_name b = '''' \<and> \<not> bt_placeholder b \<and> key_kind key (bt_kind b) (bt_type b))"

definition scalar_of :: "typemanager \<Rightarrow> scalar_key \<Rightarrow> tref option" where
  "scalar_of s key = List.find (is_scalar s key) (anonTypes s)"

lemma key_kind_unique: "key_kind key b t \<Longrightarrow> key_kind key' b t \<Longrightarrow> key = key'"
  by (cases "(key, b, t)" rule: key_kind.cases; cases "(key', b, t)" rule: key_kind.cases)
     (auto simp: makeLLVMFloatType_def split: if_split_asm option.split_asm)

lemma key_kind_scalar: "key_kind key b t \<Longrightarrow> scalar_kind b"
  by (cases "(key, b, t)" rule: key_kind.cases) (auto simp: scalar_kind_def)

lemma is_scalar_scalar_at: "is_scalar s key x \<Longrightarrow> scalar_at s x"
  by (auto simp: is_scalar_def scalar_at_def key_kind_scalar split: option.split_asm)

lemma is_scalar_unique: "is_scalar s key x \<Longrightarrow> is_scalar s key' x \<Longrightarrow> key = key'"
  by (auto simp: is_scalar_def split: option.split_asm dest: key_kind_unique)

lemma find_filter: "(\<And>x. P x \<Longrightarrow> Q x) \<Longrightarrow> List.find P (filter Q xs) = List.find P xs"
  by (induction xs) auto

lemma scalar_of_grows:
  assumes "grows s t" "tm_live s" "scalar_of s key = Some x"
  shows "scalar_of t key = Some x"
proof -
  let ?S = "filter (scalar_at s) (anonTypes s)"
  from assms(1) obtain ys where ys: "filter (scalar_at t) (anonTypes t) = ?S @ ys" unfolding grows_def by blast
  have same: "is_scalar t key y = is_scalar s key y" if "scalar_at s y" for y
  proof -
    from that obtain b where "tm_heap s y = Some b" "scalar_kind (bt_kind b)"
      by (auto simp: scalar_at_def split: option.split_asm)
    moreover from this assms(1) have "tm_heap t y = Some b" unfolding grows_def by blast
    ultimately show ?thesis by (simp add: is_scalar_def)
  qed
  have "List.find (is_scalar t key) ?S = List.find (is_scalar s key) ?S"
    using same by (intro find_cong) auto
  also have "\<dots> = Some x"
    using assms(3) by (simp add: scalar_of_def find_filter is_scalar_scalar_at)
  finally have "List.find (is_scalar t key) (filter (scalar_at t) (anonTypes t)) = Some x"
    by (simp add: ys find_append)
  then show ?thesis by (simp add: scalar_of_def find_filter is_scalar_scalar_at)
qed

lemma find_equal_find: "(\<And>y. y \<in> set ys \<Longrightarrow> eq y = Some (P y)) \<Longrightarrow> find_equal eq ys = Some (List.find P ys)"
  by (induction ys) auto

lemma obj_equal_scalar:
  assumes "key_type key = Some c" "tm_heap s y = Some b"
  shows "obj_equal k (tm_heap s) c y = Some (is_scalar s key y)"
proof (cases key)
  case (Pair u bits)
  show ?thesis
  proof (cases u)
    case None
    with assms Pair obtain t where t: "makeLLVMFloatType bits = Some t" by (auto simp: key_type_def bind_Some_iff)
    with None assms Pair show ?thesis
      by (cases "bt_kind b") (auto simp: t key_type_def obj_equal_def is_scalar_def mk_float_def mk_btype_def bind_Some_iff)
  next
    case (Some v)
    with assms Pair show ?thesis
      by (cases "bt_kind b") (auto simp: key_type_def obj_equal_def is_scalar_def mk_integer_def mk_btype_def int_type_def bind_Some_iff split: if_split_asm)
  qed
qed

lemma find_scalar:
  assumes "key_type key = Some c" "tm_live s"
  shows "find_cand k c s = Some (scalar_of s key)"
  unfolding find_cand_def scalar_of_def
proof (rule find_equal_find)
  fix y assume "y \<in> set (anonTypes s)"
  with assms(2) obtain b where "tm_heap s y = Some b" unfolding tm_live_def by blast
  with assms(1) show "obj_equal k (tm_heap s) c y = Some (is_scalar s key y)" by (rule obj_equal_scalar)
qed

text \<open>The two look-ups, as one operation on keys.\<close>

definition scalarType :: "nat \<Rightarrow> scalar_key \<Rightarrow> typemanager \<Rightarrow> (tref \<times> typemanager) option" where
  "scalarType k key s = (case key of (Some u, bits) \<Rightarrow> integerType k u bits s | (None, bits) \<Rightarrow> floatType k bits s)"

lemma key_type_key_kind: "key_type key = Some c \<Longrightarrow> key_kind key (bt_kind c) (bt_type c) \<and> bt_name c = '''' \<and> \<not> bt_placeholder c"
  by (auto simp: key_type_def mk_integer_def mk_float_def mk_btype_def int_type_def bind_Some_iff
      split: prod.split_asm option.split_asm if_split_asm)

lemma scalarType_eq:
  "scalarType k key s = do { c \<leftarrow> key_type key; r \<leftarrow> find_cand k c s;
     case r of Some e \<Rightarrow> do { b \<leftarrow> obj e s; check (flavor (bt_kind b) = (case fst key of None \<Rightarrow> FloatT | Some u \<Rightarrow> IntegerT)); Some (e, s) }
     | None \<Rightarrow> do { let (rval, s) = new_btype c s; s \<leftarrow> insert_anon k rval s; Some (rval, s) } }"
proof (cases key)
  case (Pair u bits)
  then show ?thesis
    by (cases u) (simp_all add: scalarType_def integerType_def floatType_def key_type_def)
qed

lemma scalarType_cases:
  assumes "scalarType k key s = Some (x, t)"
  obtains c where "key_type key = Some c" "find_cand k c s = Some (Some x)" "t = s"
  | c s1 where "key_type key = Some c" "find_cand k c s = Some None" "new_btype c s = (x, s1)" "insert_anon k x s1 = Some t"
proof -
  from assms obtain c r where c: "key_type key = Some c" and r: "find_cand k c s = Some r"
    by (auto simp: scalarType_eq bind_Some_iff)
  show ?thesis
  proof (cases r)
    case None
    obtain y u where "new_btype c s = (y, u)" by fastforce
    with None assms r c that(2) show ?thesis by (auto simp: scalarType_eq bind_Some_iff)
  next
    case (Some e)
    with assms r c that(1) show ?thesis by (auto simp: scalarType_eq bind_Some_iff split: if_split_asm)
  qed
qed

lemma scalarType_reads:
  assumes "scalarType k key s = Some (x, t)" "tm_live s"
  shows "scalar_of t key = Some x"
  using assms(1)
proof (cases rule: scalarType_cases)
  case (1 c)
  with find_scalar [OF 1(1) assms(2)] show ?thesis by simp
next
  case (2 c s1)
  have s1: "x = tm_next s" "tm_heap s1 = (tm_heap s)(x \<mapsto> c)" "anonTypes s1 = anonTypes s"
    using 2(3) by (auto simp: new_btype_def)
  have none: "scalar_of s key = None" using find_scalar [OF 2(1) assms(2)] 2(2) by simp
  have old: "y \<noteq> x \<and> is_scalar s1 key y = is_scalar s key y \<and> (\<exists>b. tm_heap s1 y = Some b)" if "y \<in> set (anonTypes s)" for y
  proof -
    from that assms(2) obtain b where "tm_heap s y = Some b" "y < tm_next s" unfolding tm_live_def by blast
    then show ?thesis by (simp add: is_scalar_def s1)
  qed
  have "bt_equal (Suc k) (tm_heap s1) x y = Some (is_scalar s1 key y)" if "y \<in> set (anonTypes s)" for y
    proof -
    from old [OF that] obtain b where "y \<noteq> x" "tm_heap s1 y = Some b" by blast
    with obj_equal_scalar [OF 2(1) this(2), of k] show ?thesis
      by (simp add: bt_equal_obj_equal [of k "tm_heap s1"] del: bt_equal.simps) (simp add: s1)
  qed
  then have "find_anon k x s1 = Some (List.find (is_scalar s1 key) (anonTypes s))"
    unfolding find_anon_def s1 by (intro find_equal_find) auto
  also have "List.find (is_scalar s1 key) (anonTypes s) = List.find (is_scalar s key) (anonTypes s)"
    using old by (intro find_cong) auto
  also have "\<dots> = None" using none by (simp add: scalar_of_def)
  finally have t: "t = s1\<lparr>anonTypes := anonTypes s @ [x]\<rparr>" using 2(4) by (simp add: insert_anon_def s1)
  then have "is_scalar t key = is_scalar s1 key" by (simp add: fun_eq_iff is_scalar_def)
  moreover have "is_scalar s1 key x" using key_type_key_kind [OF 2(1)] by (simp add: is_scalar_def s1)
  moreover have "List.find (is_scalar s1 key) (anonTypes s) = None"
    using \<open>List.find (is_scalar s1 key) (anonTypes s) = List.find (is_scalar s key) (anonTypes s)\<close> none by (simp add: scalar_of_def)
  ultimately show ?thesis by (simp add: scalar_of_def t find_append)
qed

lemma tm_step_event:
  "tm_step n k op s = Some (ev, t) \<Longrightarrow> (key, x) \<in> set ev \<Longrightarrow> scalarType k key s = Some (x, t)"
  by (cases op) (auto simp: no_event_Some scalar_event_Some scalarType_def)

definition scalars_inv :: "(scalar_key \<times> tref) list \<Rightarrow> typemanager \<Rightarrow> bool" where
  "scalars_inv log s \<longleftrightarrow> tm_live s \<and> (\<forall>(key, x) \<in> set log. scalar_of s key = Some x)"

interpretation scalars: stable_reads "tm_step n k" scalar_of scalars_inv "\<lambda>s. True" for n k
proof
  fix log s op ev s'
  assume inv: "scalars_inv log s" and step: "tm_step n k op s = Some (ev, s')"
  have live: "tm_live s" using inv by (simp add: scalars_inv_def)
  with tm_step_moves [OF step] have *: "tm_live s'" "grows s s'" by (simp_all add: moves_def)
  show "scalars_inv (log @ ev) s'"
    using inv * scalar_of_grows [OF *(2) live] scalarType_reads [OF tm_step_event [OF step] live]
    by (auto simp: scalars_inv_def)
qed (auto simp: scalars_inv_def)

lemma scalars_run:
  "tm_live s \<Longrightarrow> run_ops (tm_step n k) ops s = Some (evs, t) \<Longrightarrow> (key, x) \<in> set evs \<Longrightarrow> scalar_of t key = Some x"
  using scalars.run_reads [of "[]" s n k ops evs t key x] by (simp add: scalars_inv_def)

lemma scalar_of_is_scalar: "scalar_of s key = Some x \<Longrightarrow> is_scalar s key x"
  by (auto simp: scalar_of_def find_Some_iff)

text \<open>
  C16. In any history of type requests, placeholder requests and placeholder resolutions the type manager hands out one
  object per scalar type: two requests for an integer or floating-point type yield the same
  object if and only if they ask for the same signedness and width.
\<close>

lemma scalar_types_unique:
  assumes "tm_live s" "run_ops (tm_step n k) ops s = Some (evs, t)" "(key, x) \<in> set evs" "(key', y) \<in> set evs"
  shows "x = y \<longleftrightarrow> key = key'"
proof -
  note reads = scalars_run [OF assms(1,2,3)] scalars_run [OF assms(1,2,4)]
  show ?thesis
  proof
    assume "x = y"
    with scalar_of_is_scalar [OF reads(1)] scalar_of_is_scalar [OF reads(2)] show "key = key'"
      by (auto intro: is_scalar_unique)
  qed (use reads in simp)
qed

lemma new_typemanager_live:
  assumes "new_typemanager conv c = Some s"
  shows "tm_live s"
proof -
  define s0 where "s0 = \<lparr>tm_datalayout = None, tm_context = snd (create_struct ''$Error$'' c), tm_cconv = conv, tm_heap = Map.empty,
    tm_errorType = 0, tm_next = 0, tm_nametags = None, tm_errorExpression = None, anonTypes = [], auxTypeMap = Map.empty,
    namedTypes = [], revNames = Map.empty, placeholders = [], duplicates = [], placeholderRefs = Map.empty,
    circularPointerTypes = [], circularPointerTypeMap = Map.empty, circularConversionLoadMap = Map.empty,
    circularConversionAddrMap = Map.empty, circularPointerLoop = [], complexFloatType = None,
    complexDoubleType = None, stringType = None, llvmIntegerType = None\<rparr>"
  obtain e s1 where e: "makeAuxType (fst (create_struct ''$Error$'' c)) s0 = (e, s1)" by fastforce
  from assms e obtain u s2 p s3 where r: "integerType 1 True 8 (s1\<lparr>tm_errorType := e\<rparr>) = Some (u, s2)"
    "pointerType 1 u s2 = Some (p, s3)" "s = s3\<lparr>stringType := Some p\<rparr>"
    by (auto simp: new_typemanager_def s0_def bind_Some_iff case_prod_beta Let_def)
  have "tm_live s0" by (simp add: tm_live_def s0_def)
  then have "tm_live s1" using makeAuxType_moves [OF e] by (rule moves_live [rotated])
  then have "tm_live (s1\<lparr>tm_errorType := e\<rparr>)" by (simp add: tm_live_def scalar_at_def)
  then have "tm_live s3" using integerType_moves [OF r(1)] pointerType_moves [OF r(2)] by (blast intro: moves_live)
  then show ?thesis by (simp add: r(3) tm_live_def scalar_at_def)
qed

definition sample_ops :: "tm_op list" where
  "sample_ops = [OpInteger False 32, OpFloat 64, OpPointer 3, OpInteger False 32, OpInteger True 32]"

definition start_tm :: "typemanager option" where
  "start_tm = new_typemanager X86_64_SysV empty_llctx"

lemma scalar_types_unique_witness:
  "\<exists>s evs t. start_tm = Some s \<and> run_ops (tm_step 1 1) sample_ops s = Some (evs, t) \<and>
     ((Some False, 32), 3) \<in> set evs \<and> ((None, 64), 4) \<in> set evs \<and> ((3::tref) = 4 \<longleftrightarrow> (Some False, 32::u32) = (None, 64))"
proof -
  have "map_option fst (do { s \<leftarrow> start_tm; run_ops (tm_step 1 1) sample_ops s }) =
      Some [((Some False, 32), 3), ((None, 64), 4), ((Some False, 32), 3), ((Some True, 32), 6)]"
    by code_simp
  then obtain s evs t where r: "start_tm = Some s" "run_ops (tm_step 1 1) sample_ops s = Some (evs, t)"
    "evs = [((Some False, 32), 3), ((None, 64), 4), ((Some False, 32), 3), ((Some True, 32), 6)]"
    by (auto simp: bind_Some_iff map_option_case split: option.split_asm)
  have "tm_live s" using r(1) unfolding start_tm_def by (rule new_typemanager_live)
  then have "(3::tref) = 4 \<longleftrightarrow> (Some False, 32::u32) = (None, 64)"
    by (rule scalar_types_unique [OF _ r(2)]) (simp_all add: r(3))
  moreover have "((Some False, 32), 3) \<in> set evs" "((None, 64), 4) \<in> set evs" by (simp_all add: r(3))
  ultimately show ?thesis using r(1,2) by blast
qed

end
