(* ===== verification/ResolveFacts.thy ===== *)
theory ResolveFacts
  imports TypeFacts
begin

text \<open>
  Resolving placeholders (\<^verbatim>\<open>go-llvm-typemanager.cpp\<close>): the mutual recursion of the
  \<open>postProcessResolved\<close> functions ends, and it changes nothing but placeholder objects, in which it
  sets the LLVM type and clears the placeholder flag. Also here: what the placeholder setters
  promise and the cases in which commoning a type that contains an unresolved placeholder
  fails.
\<close>

section \<open>What one resolution step does\<close>

definition is_place :: "typemanager \<Rightarrow> tref \<Rightarrow> bool" where
  "is_place s x \<longleftrightarrow> (case tm_heap s x of None \<Rightarrow> False | Some b \<Rightarrow> bt_placeholder b)"

definition place_set :: "typemanager \<Rightarrow> tref set" where
  "place_set s = {x. is_place s x}"

text \<open>Everything but the LLVM type and the flag.\<close>

definition same_object :: "btype \<Rightarrow> btype \<Rightarrow> bool" where
  "same_object b c \<longleftrightarrow> bt_kind c = bt_kind b \<and> bt_name c = bt_name b \<and> bt_location c = bt_location b"

definition resolves :: "typemanager \<Rightarrow> typemanager \<Rightarrow> bool" where
  "resolves s t \<longleftrightarrow> dom (tm_heap t) = dom (tm_heap s) \<and> place_set t \<subseteq> place_set s \<and>
     (\<forall>x b. tm_heap s x = Some b \<longrightarrow>
        (\<exists>c. tm_heap t x = Some c \<and> same_object b c \<and> (bt_placeholder b \<or> c = b)))"

lemma same_object_refl [simp]: "same_object b b"
  by (simp add: same_object_def)

lemma same_object_trans: "same_object a b \<Longrightarrow> same_object b c \<Longrightarrow> same_object a c"
  by (simp add: same_object_def)

lemma resolves_refl [simp]: "resolves s s"
  by (simp add: resolves_def)

lemma resolves_trans:
  assumes "resolves s t" "resolves t u"
  shows "resolves s u"
  unfolding resolves_def
proof (intro conjI allI impI)
  show "dom (tm_heap u) = dom (tm_heap s)" "place_set u \<subseteq> place_set s"
    using assms unfolding resolves_def by auto
next
  fix x b assume "tm_heap s x = Some b"
  with assms(1) obtain c where c: "tm_heap t x = Some c" "same_object b c" "bt_placeholder b \<or> c = b"
    unfolding resolves_def by blast
  with assms(2) obtain d where d: "tm_heap u x = Some d" "same_object c d" "bt_placeholder c \<or> d = c"
    unfolding resolves_def by blast
  with c show "\<exists>d. tm_heap u x = Some d \<and> same_object b d \<and> (bt_placeholder b \<or> d = b)"
    using same_object_trans by metis
qed

lemma is_place_heap: "tm_heap t = tm_heap s \<Longrightarrow> is_place t = is_place s"
  by (simp add: is_place_def fun_eq_iff)

lemma removeAnonType_heap: "removeAnonType k x s = Some (w, t) \<Longrightarrow> tm_heap t = tm_heap s"
  by (auto simp: removeAnonType_def bind_Some_iff split: option.split_asm)

lemma reinstallAnonType_heap: "reinstallAnonType k x s = Some t \<Longrightarrow> tm_heap t = tm_heap s"
  by (auto simp: reinstallAnonType_def insert_anon_def bind_Some_iff split: option.split_asm)

text \<open>One object resolved: its new contents, the other objects as before.\<close>

definition settled :: "tref \<Rightarrow> typemanager \<Rightarrow> typemanager \<Rightarrow> bool" where
  "settled x s u \<longleftrightarrow> (\<exists>b t. tm_heap s x = Some b \<and> bt_placeholder b \<and>
     tm_heap u = (tm_heap s)(x \<mapsto> b\<lparr>bt_type := t, bt_placeholder := False\<rparr>))"

lemma settled_resolves: "settled x s u \<Longrightarrow> resolves s u"
  by (auto simp: settled_def resolves_def place_set_def is_place_def same_object_def split: if_split_asm)

lemma settled_place_set: "settled x s u \<Longrightarrow> x \<in> place_set s \<and> place_set u = place_set s - {x}"
  by (auto simp: settled_def place_set_def is_place_def split: if_split_asm)

text \<open>
  Each step either ends without changing an object, whatever follows it would do, or settles
  the object \<open>x\<close> and goes on with it.
\<close>

definition step_shape :: "((tref \<Rightarrow> typemanager \<Rightarrow> typemanager option) \<Rightarrow> typemanager option) \<Rightarrow> tref \<Rightarrow> typemanager \<Rightarrow> bool" where
  "step_shape F x s \<longleftrightarrow> (\<forall>pp. F pp = None) \<or> (\<forall>pp. F pp = Some s) \<or> (\<exists>u. settled x s u \<and> (\<forall>pp. F pp = pp x u))"

lemma chain_shape:
  assumes "tm_heap s x = Some b" "bt_placeholder b"
  shows "step_shape (\<lambda>pp. do { (w, s) \<leftarrow> removeAnonType k x s; s \<leftarrow> setType x ty s; s \<leftarrow> setPlaceholder x False s;
      s \<leftarrow> (if w then reinstallAnonType k x s else Some s); pp x s }) x s"
proof (cases "do { (w, s) \<leftarrow> removeAnonType k x s; s \<leftarrow> setType x ty s; s \<leftarrow> setPlaceholder x False s;
      (if w then reinstallAnonType k x s else Some s) }")
  case None
  have "do { (w, s) \<leftarrow> removeAnonType k x s; s \<leftarrow> setType x ty s; s \<leftarrow> setPlaceholder x False s;
      s \<leftarrow> (if w then reinstallAnonType k x s else Some s); pp x s } =
    do { s \<leftarrow> do { (w, s) \<leftarrow> removeAnonType k x s; s \<leftarrow> setType x ty s; s \<leftarrow> setPlaceholder x False s;
      (if w then reinstallAnonType k x s else Some s) }; pp x s }" for pp :: "tref \<Rightarrow> typemanager \<Rightarrow> typemanager option"
    by (simp add: case_prod_unfold)
  with None show ?thesis by (simp add: step_shape_def)
next
  case (Some u)
  then obtain w s1 s2 s3 where r: "removeAnonType k x s = Some (w, s1)" "setType x ty s1 = Some s2"
    "setPlaceholder x False s2 = Some s3" "(if w then reinstallAnonType k x s3 else Some s3) = Some u"
    by (auto simp: bind_Some_iff)
  have "tm_heap s3 = (tm_heap s)(x \<mapsto> b\<lparr>bt_type := Some ty, bt_placeholder := False\<rparr>)"
    using r(2,3) removeAnonType_heap [OF r(1)] assms(1)
    by (auto simp: setType_def setPlaceholder_def upd_def obj_def)
  moreover have "tm_heap u = tm_heap s3" using r(4) reinstallAnonType_heap by (auto split: if_split_asm)
  ultimately have "settled x s u" using assms by (auto simp: settled_def)
  moreover have "do { (w, s) \<leftarrow> removeAnonType k x s; s \<leftarrow> setType x ty s; s \<leftarrow> setPlaceholder x False s;
      s \<leftarrow> (if w then reinstallAnonType k x s else Some s); pp x s } = pp x u" for pp
    using r by simp
  ultimately show ?thesis by (auto simp: step_shape_def)
qed

lemma bind_shape:
  assumes "\<And>a. m = Some a \<Longrightarrow> step_shape (F a) x s"
  shows "step_shape (\<lambda>pp. m \<bind> (\<lambda>a. F a pp)) x s"
  using assms by (cases m) (auto simp: step_shape_def)

lemma if_shape:
  assumes "c \<Longrightarrow> step_shape F x s"
  shows "step_shape (\<lambda>pp. if c then F pp else None) x s"
  using assms by (cases c) (auto simp: step_shape_def)

lemma resolve_ref_shape: "step_shape (\<lambda>pp. resolve_ref pp k y x s) x s"
proof (cases "tm_heap s x")
  case None
  then show ?thesis by (simp add: step_shape_def resolve_ref_def obj_def)
next
  case (Some b)
  show ?thesis
  proof (cases "bt_placeholder b")
    case False
    with Some show ?thesis by (simp add: step_shape_def resolve_ref_def obj_def)
  next
    case True
    note chain = chain_shape [OF Some True]
    show ?thesis
    proof (cases "flavor (bt_kind b)")
      case PointerT
      with Some True show ?thesis
        by (simp add: resolve_ref_def obj_def postProcessResolvedPointerPlaceholder_def bind_shape chain)
    next
      case ArrayT
      with Some True show ?thesis
        by (simp add: resolve_ref_def obj_def postProcessResolvedArrayPlaceholder_def bind_shape chain)
    next
      case FunctionT
      with Some True show ?thesis
        by (simp add: resolve_ref_def obj_def postProcessResolvedFunctionPlaceholder_def bind_shape chain)
    next
      case StructT
      then obtain fs where fs: "bt_kind b = KStruct fs" by (cases "bt_kind b") auto
      have "step_shape (\<lambda>pp. do { s \<leftarrow> setPlaceholder x False (s\<lparr>tm_context := c\<rparr>); pp x s }) x s" for c
      proof -
        have "setPlaceholder x False (s\<lparr>tm_context := c\<rparr>) =
            Some (s\<lparr>tm_context := c, tm_heap := (tm_heap s)(x \<mapsto> b\<lparr>bt_placeholder := False\<rparr>)\<rparr>)"
          using Some by (simp add: setPlaceholder_def upd_def obj_def)
        moreover have "settled x s (s\<lparr>tm_context := c, tm_heap := (tm_heap s)(x \<mapsto> b\<lparr>bt_placeholder := False\<rparr>)\<rparr>)"
          unfolding settled_def using Some True
          by (intro exI [of _ b] exI [of _ "bt_type b"]) simp
        ultimately show ?thesis by (auto simp: step_shape_def)
      qed
      note str = this
      have "step_shape (\<lambda>pp. if True \<in> set pls then Some s else do { elems \<leftarrow> map_opt (\<lambda>f. ll_of (ti_btype f) s) fs;
          llst \<leftarrow> bt_type b; c \<leftarrow> set_body llst elems (tm_context s);
          s \<leftarrow> setPlaceholder x False (s\<lparr>tm_context := c\<rparr>); pp x s }) x s" for pls
        by (cases "True \<in> set pls") (simp add: step_shape_def, simp add: bind_shape str)
      with Some True fs show ?thesis
        by (simp add: resolve_ref_def obj_def postProcessResolvedStructPlaceholder_def bind_shape)
    qed (use Some True in \<open>simp_all add: step_shape_def resolve_ref_def obj_def\<close>)
  qed
qed

section \<open>Resolution changes nothing but placeholders\<close>

lemma resolve_ref_resolves:
  assumes "resolve_ref pp k y x s = Some t" "\<And>z u v. pp z u = Some v \<Longrightarrow> resolves u v"
  shows "resolves s t"
  using resolve_ref_shape [of k y x s, unfolded step_shape_def] assms
  by (auto intro: resolves_trans dest: settled_resolves)

lemma postProcess_resolves: "postProcessResolvedPlaceholder n k x s = Some t \<Longrightarrow> resolves s t"
proof (induction n arbitrary: x s t)
  case (Suc n)
  show ?case
  proof (cases "placeholderRefs s x")
    case (Some refs)
    with Suc.prems have "fold_opt (\<lambda>r s. resolve_ref (\<lambda>x s. postProcessResolvedPlaceholder n k x s) k x r s) refs s = Some t"
      by simp
    then show ?thesis
    proof (rule fold_opt_inv [where P = "resolves s", rotated 2])
      fix r u v
      assume "resolves s u" "resolve_ref (\<lambda>x s. postProcessResolvedPlaceholder n k x s) k x r u = Some v"
      then show "resolves s v" using Suc.IH by (blast intro: resolves_trans resolve_ref_resolves)
    qed simp
  qed (use Suc.prems in simp)
qed simp

section \<open>Resolution ends\<close>

text \<open>The recursion with another answer \<open>f\<close> in the place where the fuel is used up.\<close>

fun resolve_upto :: "(tref \<Rightarrow> typemanager \<Rightarrow> typemanager option) \<Rightarrow> nat \<Rightarrow> nat \<Rightarrow> tref \<Rightarrow> typemanager \<Rightarrow> typemanager option" where
  "resolve_upto f 0 k x s = f x s"
| "resolve_upto f (Suc n) k x s =
     (case placeholderRefs s x of
        None \<Rightarrow> Some s
      | Some refs \<Rightarrow> fold_opt (\<lambda>r s. resolve_ref (\<lambda>x s. resolve_upto f n k x s) k x r s) refs s)"

lemma resolve_upto_None: "resolve_upto (\<lambda>x s. None) n k = postProcessResolvedPlaceholder n k"
proof (induction n)
  case (Suc n)
  show ?case by (intro ext) (simp add: Suc split: option.split)
qed (simp add: fun_eq_iff)

lemma loop_agree:
  assumes "\<And>z u. place_set u \<subset> place_set s \<Longrightarrow> pp z u = qq z u"
    and "\<And>z u v. qq z u = Some v \<Longrightarrow> place_set v \<subseteq> place_set u"
  shows "fold_opt (\<lambda>r s. resolve_ref pp k y r s) refs s = fold_opt (\<lambda>r s. resolve_ref qq k y r s) refs s"
  using assms(1)
proof (induction refs arbitrary: s)
  case (Cons r refs)
  have one: "resolve_ref pp k y r s = resolve_ref qq k y r s \<and>
      (\<forall>t. resolve_ref qq k y r s = Some t \<longrightarrow> place_set t \<subseteq> place_set s)"
    using resolve_ref_shape [of k y r s] unfolding step_shape_def
  proof (elim disjE exE conjE)
    fix u assume u: "settled r s u" "\<forall>pp. resolve_ref pp k y r s = pp r u"
    have "place_set u \<subset> place_set s" using settled_place_set [OF u(1)] by blast
    with u(2) Cons.prems have "resolve_ref pp k y r s = qq r u" "resolve_ref qq k y r s = qq r u" by simp_all
    with \<open>place_set u \<subset> place_set s\<close> assms(2) [of r u] show ?thesis by (auto dest: psubset_imp_subset order_trans)
  qed simp_all
  show ?case
  proof (cases "resolve_ref qq k y r s")
    case (Some t)
    from one Some Cons.prems have "pp z u = qq z u" if "place_set u \<subset> place_set t" for z u
      using that by blast
    from Cons.IH [OF this] one Some show ?thesis by simp
  qed (simp add: one)
qed simp

lemma resolve_upto_agree:
  assumes "finite (place_set s)" "card (place_set s) < n" "card (place_set s) < m"
  shows "resolve_upto f n k x s = postProcessResolvedPlaceholder m k x s"
  using assms
proof (induction n arbitrary: m x s)
  case (Suc n)
  then obtain m' where m: "m = Suc m'" by (cases m) auto
  have "resolve_upto f n k z u = postProcessResolvedPlaceholder m' k z u" if "place_set u \<subset> place_set s" for z u
  proof (rule Suc.IH)
    show "finite (place_set u)" using Suc.prems(1) that by (auto intro: finite_subset)
    have "card (place_set u) < card (place_set s)" using Suc.prems(1) that by (rule psubset_card_mono)
    then show "card (place_set u) < n" "card (place_set u) < m'" using Suc.prems(2,3) m by auto
  qed
  then have "fold_opt (\<lambda>r s. resolve_ref (\<lambda>x s. resolve_upto f n k x s) k x r s) refs s =
      fold_opt (\<lambda>r s. resolve_ref (\<lambda>x s. postProcessResolvedPlaceholder m' k x s) k x r s) refs s" for refs
    by (rule loop_agree) (auto dest!: postProcess_resolves simp: resolves_def)
  then show ?case by (simp add: m split: option.split)
qed simp

lemma place_set_finite: "tm_live s \<Longrightarrow> finite (place_set s)"
  by (rule finite_subset [of _ "{..<tm_next s}"]) (auto simp: place_set_def is_place_def tm_live_def split: option.split_asm)

text \<open>
  C17. The mutual recursion that resolves everything depending on a placeholder ends: with fuel above
  the number of placeholder objects the answer \<open>f\<close> for used-up fuel is never asked for, whatever
  it is, also when types refer to each other in a cycle.
\<close>

theorem resolution_ends:
  assumes "tm_live s" "card (place_set s) < n"
  shows "resolve_upto f n k x s = postProcessResolvedPlaceholder (Suc (card (place_set s))) k x s"
  by (rule resolve_upto_agree [OF place_set_finite [OF assms(1)] assms(2)]) simp

text \<open>
  C18. Resolving what depends on a type leaves every object that is no placeholder untouched;
  a placeholder keeps its kind, name and location, and no object becomes a placeholder.
\<close>

theorem resolution_only_placeholders:
  assumes "postProcessResolvedPlaceholder n k x s = Some t" "tm_heap s y = Some b"
  shows "\<exists>c. tm_heap t y = Some c \<and> bt_kind c = bt_kind b \<and> bt_name c = bt_name b \<and> bt_location c = bt_location b \<and>
     (\<not> bt_placeholder b \<longrightarrow> c = b) \<and> (bt_placeholder c \<longrightarrow> bt_placeholder b)"
  using postProcess_resolves [OF assms(1)] assms(2) unfolding resolves_def same_object_def by blast

section \<open>Whatever waited for a type is resolved\<close>

lemma resolve_ref_clears:
  assumes "resolve_ref pp k y x s = Some t" "\<And>z u v. pp z u = Some v \<Longrightarrow> resolves u v"
    and "tm_heap s x = Some b" "flavor (bt_kind b) \<noteq> StructT"
  shows "\<not> is_place t x"
proof (cases "bt_placeholder b")
  case True
  have "resolve_ref (\<lambda>x s. None) k y x s = None"
    using assms(3,4) True
    by (simp add: resolve_ref_def obj_def postProcessResolvedPointerPlaceholder_def postProcessResolvedArrayPlaceholder_def
        postProcessResolvedFunctionPlaceholder_def bind_eq_None_conv case_prod_unfold split: TyFlavor.split)
  with resolve_ref_shape [of k y x s, unfolded step_shape_def] assms(1) obtain u where
    u: "settled x s u" "pp x u = Some t" by auto
  have "x \<notin> place_set u" using settled_place_set [OF u(1)] by simp
  with assms(2) [OF u(2)] show ?thesis unfolding resolves_def place_set_def by blast
qed (use assms(1,3) in \<open>simp add: resolve_ref_def obj_def is_place_def\<close>)

text \<open>
  C19. Once the resolution of what depends on a type has returned, no pointer, array or function
  type that was registered as waiting for it is a placeholder any more.
\<close>

theorem resolution_complete:
  assumes "postProcessResolvedPlaceholder n k x s = Some t" "placeholderRefs s x = Some refs" "r \<in> set refs"
    and "tm_heap s r = Some b" "flavor (bt_kind b) \<noteq> StructT"
  shows "\<not> is_place t r"
proof -
  from assms(1) obtain m where n: "n = Suc m" by (cases n) auto
  let ?pp = "\<lambda>x s. postProcessResolvedPlaceholder m k x s"
  have "\<forall>b. tm_heap u r = Some b \<longrightarrow> flavor (bt_kind b) \<noteq> StructT \<Longrightarrow> tm_heap u r \<noteq> None \<Longrightarrow>
      fold_opt (\<lambda>r s. resolve_ref ?pp k x r s) rs u = Some t \<Longrightarrow> r \<in> set rs \<or> \<not> is_place u r \<Longrightarrow> \<not> is_place t r" for rs u
  proof (induction rs arbitrary: u)
    case (Cons q rs)
    from Cons.prems(3) obtain v where v: "resolve_ref ?pp k x q u = Some v"
      "fold_opt (\<lambda>r s. resolve_ref ?pp k x r s) rs v = Some t" by (auto simp: bind_Some_iff)
    have uv: "resolves u v" using v(1) by (rule resolve_ref_resolves) (rule postProcess_resolves)
    from Cons.prems(2) obtain c where c: "tm_heap u r = Some c" by auto
    with uv obtain d where d: "tm_heap v r = Some d" "bt_kind d = bt_kind c"
      unfolding resolves_def same_object_def by blast
    have "r \<in> set rs \<or> \<not> is_place v r"
    proof (cases "q = r")
      case True
      with resolve_ref_clears [OF v(1), of c] c Cons.prems(1) show ?thesis by (auto intro: postProcess_resolves)
    next
      case False
      with Cons.prems(4) uv show ?thesis unfolding resolves_def place_set_def by auto
    qed
    then show ?case using Cons.IH [OF _ _ v(2)] d c Cons.prems(1) by simp
  qed simp
  from this [of s refs] assms n show ?thesis by simp
qed

section \<open>Commoning of pointer types\<close>

text \<open>Equality of types only looks at existing objects, so new objects do not change it.\<close>

lemma bt_equal_heap_mono: "bt_equal n h x y = Some r \<Longrightarrow> h \<subseteq>\<^sub>m h' \<Longrightarrow> bt_equal n h' x y = Some r"
proof (induction n arbitrary: x y r)
  case (Suc n)
  show ?case
  proof (cases "x = y")
    case False
    with Suc.prems obtain a b where ab: "h x = Some a" "h y = Some b" by (auto simp: bind_Some_iff)
    with Suc.prems(2) have "h' x = Some a" "h' y = Some b" by (auto simp: map_le_def dom_def)
    with ab False Suc.prems(1) show ?thesis
      by (auto split: if_split_asm intro: kinds_equal_mono [OF Suc.IH [OF _ Suc.prems(2)]])
  qed (use Suc.prems in simp)
qed simp

lemma obj_equal_heap_mono:
  assumes "obj_equal n h a y = Some r" "h \<subseteq>\<^sub>m h'"
  shows "obj_equal n h' a y = Some r"
proof -
  from assms(1) obtain b where b: "h y = Some b" by (auto simp: obj_equal_def bind_Some_iff)
  with assms(2) have "h' y = Some b" by (auto simp: map_le_def dom_def)
  with b assms show ?thesis
    by (auto simp: obj_equal_def split: if_split_asm intro: kinds_equal_mono [OF bt_equal_heap_mono])
qed

lemma find_equal_None: "find_equal eq ys = Some None \<longleftrightarrow> (\<forall>y \<in> set ys. eq y = Some False)"
  by (induction ys) (auto simp: bind_Some_iff split: if_split_asm)

lemma find_equal_snoc:
  "(\<forall>y \<in> set ys. eq y = Some False) \<Longrightarrow> eq x = Some True \<Longrightarrow> find_equal eq (ys @ [x]) = Some (Some x)"
  by (induction ys) auto

text \<open>The two ways a pointer type is obtained.\<close>

definition lpt :: "llty \<Rightarrow> llty" where
  "lpt ty = PointerTy (if ty = llvmVoidType then IntTy 8 else ty)"

lemma pointerType_cases:
  assumes "pointerType k x s = Some (p, t)" "x \<noteq> tm_errorType s"
  obtains ty c where "ll_of x s = Some ty" "mk_pointer (tm_heap s) (Some x) (Some (lpt ty)) 0 = Some c"
    "find_cand k c s = Some (Some p)" "t = s"
  | ty c s1 pl s2 s3 where "ll_of x s = Some ty" "mk_pointer (tm_heap s) (Some x) (Some (lpt ty)) 0 = Some c"
    "find_cand k c s = Some None" "new_btype c s = (p, s1)" "addPlaceholderRefs p s1 = Some (pl, s2)"
    "setPlaceholder p pl s2 = Some s3" "insert_anon k p s3 = Some t"
proof -
  from assms obtain ty c r where r: "ll_of x s = Some ty" "mk_pointer (tm_heap s) (Some x) (Some (lpt ty)) 0 = Some c"
    "find_cand k c s = Some r"
    by (auto simp: pointerType_def bind_Some_iff Let_def lpt_def)
  obtain y s1 where nb: "new_btype c s = (y, s1)" by fastforce
  show ?thesis
  proof (cases r)
    case None
    with assms r nb that(2) [OF r(1,2)] show ?thesis
      unfolding pointerType_def by (auto simp: bind_Some_iff lpt_def [symmetric])
  next
    case (Some e)
    with assms r that(1) [OF r(1,2)] show ?thesis
      unfolding pointerType_def by (auto simp: bind_Some_iff lpt_def [symmetric] split: if_split_asm)
  qed
qed

text \<open>
  C20. Pointer types are commoned: asking again for the pointer to a type that is no placeholder
  yields the same object and changes nothing.
\<close>

theorem pointerType_commoned:
  assumes "tm_live s" "pointerType (Suc k) x s = Some (p, t)" "tm_heap s x = Some b" "\<not> bt_placeholder b"
  shows "pointerType (Suc k) x t = Some (p, t)"
proof (cases "x = tm_errorType s")
  case True
  with assms(2) show ?thesis by (auto simp: pointerType_def)
next
  case False
  from assms(2) False show ?thesis
  proof (cases rule: pointerType_cases)
    case 1
    with assms(2) show ?thesis by simp
  next
    case (2 ty c u pl s2 s3)
    have c: "c = mk_btype (KPointer (Some x)) (Some (lpt ty)) 0" "bt_type b = Some ty"
      using 2(1,2) assms(3,4) by (simp_all add: mk_pointer_def mk_btype_def ll_of_def obj_def)
    have p: "p = tm_next s" "u = s\<lparr>tm_heap := (tm_heap s)(p \<mapsto> c), tm_next := Suc p\<rparr>"
      using 2(4) by (auto simp: new_btype_def)
    have x: "x < tm_next s" using assms(1,3) unfolding tm_live_def by auto
    have ux: "tm_heap u x = Some b" "tm_heap u p = Some c" using x assms(3) by (simp_all add: p)
    have "addPlaceholderRefs p u = Some (False, u)"
      using ux assms(4) by (simp add: addPlaceholderRefs_def obj_def c mk_btype_def ref_if_placeholder_def isUnresolvedPlaceholder_def)
    with 2(5) have s2: "pl = False" "s2 = u" by simp_all
    have "c\<lparr>bt_placeholder := False\<rparr> = c" by (simp add: c mk_btype_def)
    then have s3: "s3 = u" using 2(6) ux by (auto simp: s2 setPlaceholder_def upd_def obj_def p(2))
    have none: "\<forall>y \<in> set (anonTypes s). obj_equal (Suc k) (tm_heap s) c y = Some False"
      using 2(3) by (simp add: find_cand_def find_equal_None)
    have le: "tm_heap s \<subseteq>\<^sub>m tm_heap u" using assms(1) by (auto simp: p map_le_def tm_live_def)
    have none': "\<forall>y \<in> set (anonTypes s). obj_equal (Suc k) (tm_heap u) c y = Some False"
      using none obj_equal_heap_mono [OF _ le] by blast
    moreover have "p \<notin> set (anonTypes s)" using assms(1) by (auto simp: tm_live_def p)
    moreover have "anonTypes u = anonTypes s" by (simp add: p)
    ultimately have "find_anon (Suc k) p u = Some None"
      using ux(2) by (auto simp: find_anon_def find_equal_None bt_equal_obj_equal [of "Suc k"] simp del: bt_equal.simps)
    with 2(7) have t: "t = u\<lparr>anonTypes := anonTypes s @ [p]\<rparr>" by (simp add: insert_anon_def s3 p)
    have "obj_equal (Suc k) (tm_heap u) c p = Some True"
      using ux(2) by (simp add: obj_equal_def opt_equal_def c mk_btype_def)
    with none' have "find_cand (Suc k) c t = Some (Some p)"
      unfolding find_cand_def by (simp add: t find_equal_snoc)
    moreover have "mk_pointer (tm_heap t) (Some x) (Some (lpt ty)) 0 = Some c"
      using assms(4) ux(1) by (simp add: mk_pointer_def c mk_btype_def t)
    moreover have "ll_of x t = Some ty" "obj p t = Some c" "tm_errorType t = tm_errorType s"
      using ux c(2) by (simp_all add: ll_of_def obj_def t p(2))
    moreover have "flavor (bt_kind c) = PointerT" by (simp add: c mk_btype_def)
    ultimately show ?thesis
      using False by (simp add: pointerType_def lpt_def [symmetric])
  qed
qed

lemma setPlaceholder_flag: "setPlaceholder x v s = Some t \<Longrightarrow> \<exists>b. tm_heap t x = Some b \<and> bt_placeholder b = v"
  by (auto simp: setPlaceholder_def upd_def obj_def bind_Some_iff)

lemma insert_anon_heap: "insert_anon k x s = Some t \<Longrightarrow> tm_heap t = tm_heap s \<and> tm_next t = tm_next s \<and> tm_errorType t = tm_errorType s"
  by (auto simp: insert_anon_def bind_Some_iff split: option.split_asm)

text \<open>
  While \<open>x\<close> is a struct placeholder and the object \<open>p\<close> is not flagged as a placeholder, no request for the pointer
  to \<open>x\<close> finds \<open>p\<close>, and requests for pointers keep it that way.
\<close>

definition unfound :: "tref \<Rightarrow> tref \<Rightarrow> tref \<Rightarrow> typemanager \<Rightarrow> bool" where
  "unfound e x p t \<longleftrightarrow> tm_live t \<and> tm_errorType t = e \<and> x \<noteq> e \<and>
     (\<exists>b. tm_heap t x = Some b \<and> bt_placeholder b) \<and> (\<exists>d. tm_heap t p = Some d \<and> \<not> bt_placeholder d)"

lemma unfound_step:
  assumes "unfound e x p t" "pointerType k y t = Some (q, u)"
  shows "unfound e x p u \<and> (y = x \<longrightarrow> q \<noteq> p)"
proof (intro conjI impI)
  have live: "tm_live t" using assms(1) by (simp add: unfound_def)
  show "unfound e x p u"
    using assms(1) pointerType_old [OF assms(2) live] pointerType_moves [OF assms(2)] unfolding unfound_def moves_def by metis
  assume "y = x"
  with assms(1) have "y \<noteq> tm_errorType t" by (simp add: unfound_def)
  with assms(2) show "q \<noteq> p"
  proof (cases rule: pointerType_cases)
    case (1 ty c)
    have "bt_placeholder c" using 1(2) assms(1) \<open>y = x\<close> by (auto simp: mk_pointer_def unfound_def)
    with find_equal_Some [OF 1(3) [unfolded find_cand_def]] assms(1) show ?thesis by (auto simp: unfound_def dest: obj_equal_flavor)
  next
    case (2 ty c s1 pl s2 s3)
    with live assms(1) show ?thesis by (auto simp: new_btype_def unfound_def live_fresh)
  qed
qed

lemma unfound_run:
  "unfound e x p t \<Longrightarrow> map_st (pointerType k) ys t = Some (qs, u) \<Longrightarrow> j < length ys \<Longrightarrow> ys ! j = x \<Longrightarrow> qs ! j \<noteq> p"
proof (induction ys arbitrary: t qs j)
  case (Cons y ys)
  from Cons.prems(2) obtain q t' qs' where q: "pointerType k y t = Some (q, t')" "map_st (pointerType k) ys t' = Some (qs', u)" "qs = q # qs'"
    by (auto simp: bind_Some_iff)
  from unfound_step [OF Cons.prems(1) q(1)] have s: "unfound e x p t'" "y = x \<longrightarrow> q \<noteq> p" by blast+
  show ?case using Cons.IH [OF s(1) q(2)] Cons.prems(3,4) s(2) q(3) by (cases j) auto
qed simp

text \<open>
  C21. Pointers to a struct placeholder are not commoned: the candidate takes its flag from
  \<open>isPlaceholder\<close>, the object that is entered from \<open>isUnresolvedPlaceholder\<close>, which is false for
  structs. So the pointer type created for such a placeholder is not what a later request for the same pointer
  yields, whichever pointer types are requested in between.
\<close>

theorem pointerType_placeholder_not_commoned:
  assumes "tm_live s" "pointerType k x s = Some (p, t)" "p = tm_next s" "x \<noteq> tm_errorType s"
    and "tm_heap s x = Some b" "flavor (bt_kind b) = StructT" "bt_placeholder b"
    and "map_st (pointerType k') ys t = Some (qs, u)" "j < length ys" "ys ! j = x"
  shows "qs ! j \<noteq> p"
proof -
  have px: "x \<noteq> p" using assms(1,3,5) by (auto simp: tm_live_def)
  have "\<exists>d. tm_heap t p = Some d \<and> \<not> bt_placeholder d"
    using assms(2,4)
  proof (cases rule: pointerType_cases)
    case (1 ty c)
    then have "p \<in> set (anonTypes s)" using find_equal_Some unfolding find_cand_def by blast
    with assms(1,3) show ?thesis by (auto simp: tm_live_def)
  next
    case (2 ty c s1 pl s2 s3)
    have s1: "tm_heap s1 = (tm_heap s)(p \<mapsto> c)" using 2(4) by (auto simp: new_btype_def)
    have "bt_kind c = KPointer (Some x)" using 2(2) by (auto simp: mk_pointer_def mk_btype_def bind_Some_iff)
    then have "pl = False" using 2(5) assms(5,6) px
      by (simp add: addPlaceholderRefs_def obj_def s1 ref_if_placeholder_def isUnresolvedPlaceholder_def)
    with setPlaceholder_flag [OF 2(6)] insert_anon_heap [OF 2(7)] show ?thesis by auto
  qed
  moreover have "tm_heap t x = Some b \<and> tm_errorType t = tm_errorType s \<and> tm_live t"
    using pointerType_old [OF assms(2,1)] pointerType_moves [OF assms(2)] assms(1,5) by (auto simp: moves_def)
  ultimately have "unfound (tm_errorType s) x p t" using assms(4,7) by (auto simp: unfound_def)
  then show ?thesis using assms(8-10) by (rule unfound_run)
qed

section \<open>A sample state\<close>

text \<open>
  Objects: 0 the error type, 1 and 2 the byte and string types, 3 a placeholder pointer, 4 a pointer
  to it, 5 a placeholder struct.
\<close>

definition sample_place :: "typemanager option" where
  "sample_place = do { s \<leftarrow> start_tm;
     (ev, t) \<leftarrow> run_ops (tm_step 3 3) [OpPlaceholderPointer ''p'' 0, OpPointer 3, OpPlaceholderStruct ''S'' 0]
                (initializeTypeManager 0 x86_layout Map.empty s);
     Some t }"

lemma run_live: "tm_live s \<Longrightarrow> run_ops (tm_step n k) ops s = Some (evs, t) \<Longrightarrow> tm_live t"
  using scalars.run_inv [of "[]" s n k ops evs t] by (simp add: scalars_inv_def)

lemma initialize_live: "tm_live s \<Longrightarrow> tm_live (initializeTypeManager e D nt s)"
  by (simp add: initializeTypeManager_def tm_live_def scalar_at_def)

lemma sample_place_live: "sample_place = Some s \<Longrightarrow> tm_live s"
  by (auto simp: sample_place_def start_tm_def bind_Some_iff dest!: new_typemanager_live intro: run_live initialize_live)

lemma sample_place_next: "map_option (\<lambda>s. (tm_next s, tm_errorType s)) sample_place = Some (6, 0)"
  by code_simp

lemma sample_place_Some: "\<exists>s. sample_place = Some s \<and> tm_live s \<and> tm_next s = 6 \<and> tm_errorType s = 0"
  using sample_place_next sample_place_live by (auto simp: map_option_case split: option.split_asm)

lemma resolution_ends_witness:
  "\<exists>s. sample_place = Some s \<and> resolve_upto (\<lambda>x s. Some s) 7 3 3 s = postProcessResolvedPlaceholder (Suc (card (place_set s))) 3 3 s"
proof -
  obtain s where s: "sample_place = Some s" "tm_live s" "tm_next s = 6" using sample_place_Some by blast
  have "place_set s \<subseteq> {..<6}" using s(2,3) by (auto simp: place_set_def is_place_def tm_live_def split: option.split_asm)
  then have "card (place_set s) \<le> card {..<6::nat}" by (rule card_mono [rotated]) simp
  then have "card (place_set s) < 7" by simp
  from resolution_ends [OF s(2) this, of "\<lambda>x s. Some s" 3 3] s(1) show ?thesis by blast
qed

lemma sample_place_resolves:
  "map_option (\<lambda>(b, c, refs). (bt_placeholder b, bt_kind b, bt_placeholder c, refs))
     (do { s \<leftarrow> sample_place; t \<leftarrow> postProcessResolvedPlaceholder 7 3 3 s; b \<leftarrow> obj 4 s; c \<leftarrow> obj 4 t; r \<leftarrow> placeholderRefs s 3; Some (b, c, r) }) =
   Some (True, KPointer (Some 3), False, [4])"
  by code_simp

lemma sample_place_post:
  "\<exists>s t b. sample_place = Some s \<and> postProcessResolvedPlaceholder 7 3 3 s = Some t \<and> tm_heap s 4 = Some b \<and>
     bt_placeholder b \<and> bt_kind b = KPointer (Some 3) \<and> placeholderRefs s 3 = Some [4]"
  using sample_place_resolves by (auto simp: bind_Some_iff obj_def map_option_case split: option.split_asm)

lemma resolution_only_placeholders_witness:
  "\<exists>s t c. sample_place = Some s \<and> postProcessResolvedPlaceholder 7 3 3 s = Some t \<and> tm_heap t 4 = Some c \<and>
     bt_kind c = KPointer (Some 3)"
proof -
  obtain s t b where s: "sample_place = Some s" "postProcessResolvedPlaceholder 7 3 3 s = Some t" "tm_heap s 4 = Some b"
    "bt_kind b = KPointer (Some 3)" using sample_place_post by blast
  from resolution_only_placeholders [OF s(2,3)] s show ?thesis by auto
qed

lemma resolution_complete_witness:
  "\<exists>s t. sample_place = Some s \<and> is_place s 4 \<and> postProcessResolvedPlaceholder 7 3 3 s = Some t \<and> \<not> is_place t 4"
proof -
  obtain s t b where s: "sample_place = Some s" "postProcessResolvedPlaceholder 7 3 3 s = Some t" "tm_heap s 4 = Some b"
    "bt_placeholder b" "bt_kind b = KPointer (Some 3)" "placeholderRefs s 3 = Some [4]" using sample_place_post by blast
  have "\<not> is_place t 4" by (rule resolution_complete [OF s(2,6) _ s(3)]) (simp_all add: s(5))
  with s show ?thesis by (auto simp: is_place_def)
qed

lemma sample_commoned:
  "map_option (\<lambda>(p, b). (p, bt_placeholder b))
     (do { s \<leftarrow> sample_place; (p, t) \<leftarrow> pointerType 1 2 s; b \<leftarrow> obj 2 s; Some (p, b) }) = Some (6, False)"
  by code_simp

lemma pointerType_commoned_witness:
  "\<exists>s t. sample_place = Some s \<and> pointerType (Suc 0) 2 s = Some (6, t) \<and> pointerType (Suc 0) 2 t = Some (6, t)"
proof -
  obtain s t b where s: "sample_place = Some s" "pointerType (Suc 0) 2 s = Some (6, t)" "tm_heap s 2 = Some b" "\<not> bt_placeholder b"
    using sample_commoned by (auto simp: bind_Some_iff obj_def map_option_case split: option.split_asm)
  from pointerType_commoned [OF sample_place_live [OF s(1)] s(2-4)] s show ?thesis by blast
qed

text \<open>A pointer to the placeholder struct, then one to the string type, then one to the struct again.\<close>

lemma sample_not_commoned:
  "map_option (\<lambda>(p, qs, b). (p, length qs, bt_placeholder b, flavor (bt_kind b)))
     (do { s \<leftarrow> sample_place; (p, t) \<leftarrow> pointerType 1 5 s; (qs, u) \<leftarrow> map_st (pointerType 1) [2, 5] t; b \<leftarrow> obj 5 s; Some (p, qs, b) }) =
   Some (6, 2, True, StructT)"
  by code_simp

lemma pointerType_placeholder_not_commoned_witness:
  "\<exists>s t q q' u. sample_place = Some s \<and> pointerType 1 5 s = Some (6, t) \<and> map_st (pointerType 1) [2, 5] t = Some ([q, q'], u) \<and> q' \<noteq> 6"
proof -
  obtain s t qs u b where s: "sample_place = Some s" "pointerType 1 5 s = Some (6, t)" "map_st (pointerType 1) [2, 5] t = Some (qs, u)"
    "length qs = 2" "tm_heap s 5 = Some b" "bt_placeholder b" "flavor (bt_kind b) = StructT"
    using sample_not_commoned by (auto simp: bind_Some_iff obj_def map_option_case split: option.split_asm)
  have l: "tm_live s" "6 = tm_next s" "5 \<noteq> tm_errorType s" using sample_place_Some unfolding s(1) by auto
  from pointerType_placeholder_not_commoned [OF l(1) s(2) l(2,3) s(5,7,6,3), of 1] have "qs ! 1 \<noteq> 6" by simp
  moreover obtain q q' where "qs = [q, q']" using s(4) by (auto simp: length_Suc_conv numeral_2_eq_2)
  ultimately show ?thesis using s by auto
qed

end
