(* ===== verification/LlvmValues.thy ===== *)
theory LlvmValues
  imports LlvmTypes
begin

text \<open>
  LLVM values as the backend uses them. The library is not part of the repository: what is here is
  the documented behaviour the code relies on. The class of a value (\<open>isa<>\<close>) is fixed when it is
  created, so it is part of the reference. The memory \<open>irmem\<close> holds the operation, the operands, the
  type and the name of every instruction; \<open>clone_inst\<close> is \<open>Instruction::clone\<close> (the operation and the
  operands of the original, no name). An instruction is live while it has operands; deleting it
  takes them away. A name is the one asked for; that LLVM makes names unique is left out. Basic
  blocks are numbered (\<open>bbref\<close>).
\<close>

type_synonym bbref = nat

datatype vref =
    InstV nat
  | AllocaV nat
  | ConstantV nat
  | FunctionV nat
  | GlobalV nat
  | ArgumentV nat

fun isInstruction :: "vref \<Rightarrow> bool" where
  "isInstruction (InstV i) = True"
| "isInstruction (AllocaV i) = True"
| "isInstruction _ = False"

fun isAllocaInst :: "vref \<Rightarrow> bool" where
  "isAllocaInst (AllocaV i) = True"
| "isAllocaInst _ = False"

fun isConstant :: "vref \<Rightarrow> bool" where
  "isConstant (ConstantV i) = True"
| "isConstant (FunctionV i) = True"
| "isConstant (GlobalV i) = True"
| "isConstant _ = False"

fun isFunction :: "vref \<Rightarrow> bool" where
  "isFunction (FunctionV i) = True"
| "isFunction _ = False"

text \<open>
  Operations. The callee of a call and of an invoke is the first operand; the condition of a branch
  and the value of a switch are their operand; cases are constants with the block they lead to. A
  constant that is no address has the operation \<open>ConstOp\<close> with what it is made of; the elements of an
  aggregate are its operands.
\<close>

datatype cdesc =
    CNull
  | CUndef
  | CInt int
  | CFloat u64
  | CString string
  | CAggregate

datatype iop =
    AllocaOp llty
  | LoadOp
  | StoreOp
  | CastOp string
  | GepOp "u32 list"
  | BinaryOp string
  | CmpOp string
  | SelectOp
  | ExtractValueOp u32
  | CallOp
  | RetOp
  | BrOp bbref
  | CondBrOp bbref bbref
  | SwitchOp bbref "(vref \<times> bbref) list"
  | InvokeOp bbref bbref
  | LandingPadOp
  | UnreachableOp
  | ConstOp cdesc
  | NoOp

fun terminator_op :: "iop \<Rightarrow> bool" where
  "terminator_op RetOp = True"
| "terminator_op (BrOp b) = True"
| "terminator_op (CondBrOp b c) = True"
| "terminator_op (SwitchOp d cs) = True"
| "terminator_op (InvokeOp b c) = True"
| "terminator_op UnreachableOp = True"
| "terminator_op _ = False"

record irmem =
  ir_next :: nat
  ir_operands :: "vref \<rightharpoonup> vref list"
  ir_name :: "vref \<Rightarrow> string"
  ir_op :: "vref \<Rightarrow> iop"
  ir_type :: "vref \<Rightarrow> llty"

definition ir_live :: "vref \<Rightarrow> irmem \<Rightarrow> bool" where
  "ir_live v m \<longleftrightarrow> isInstruction v \<longrightarrow> ir_operands m v \<noteq> None"

definition new_inst :: "iop \<Rightarrow> vref list \<Rightarrow> llty \<Rightarrow> string \<Rightarrow> irmem \<Rightarrow> vref \<times> irmem" where
  "new_inst iop ops t nm m =
     (let v = (case iop of AllocaOp u \<Rightarrow> AllocaV (ir_next m) | _ \<Rightarrow> InstV (ir_next m))
      in (v, m\<lparr>ir_next := Suc (ir_next m), ir_operands := (ir_operands m)(v \<mapsto> ops),
               ir_name := (ir_name m)(v := nm), ir_op := (ir_op m)(v := iop), ir_type := (ir_type m)(v := t)\<rparr>))"

definition isTerminator :: "vref \<Rightarrow> irmem \<Rightarrow> bool" where
  "isTerminator v m \<longleftrightarrow> isInstruction v \<and> terminator_op (ir_op m v)"

definition fresh_ref :: "vref \<Rightarrow> nat \<Rightarrow> vref" where
  "fresh_ref v i = (case v of AllocaV j \<Rightarrow> AllocaV i | _ \<Rightarrow> InstV i)"

definition clone_inst :: "vref \<Rightarrow> irmem \<Rightarrow> (vref \<times> irmem) option" where
  "clone_inst v m =
     do { check (isInstruction v);
          ops \<leftarrow> ir_operands m v;
          let c = fresh_ref v (ir_next m);
          Some (c, m\<lparr>ir_next := Suc (ir_next m), ir_operands := (ir_operands m)(c \<mapsto> ops),
                     ir_name := (ir_name m)(c := ''''),
                     ir_op := (ir_op m)(c := ir_op m v), ir_type := (ir_type m)(c := ir_type m v)\<rparr>) }"

definition set_operand :: "vref \<Rightarrow> nat \<Rightarrow> vref \<Rightarrow> irmem \<Rightarrow> irmem option" where
  "set_operand v i w m =
     do { ops \<leftarrow> ir_operands m v; check (i < length ops);
          Some (m\<lparr>ir_operands := (ir_operands m)(v \<mapsto> ops[i := w])\<rparr>) }"

definition set_name :: "vref \<Rightarrow> string \<Rightarrow> irmem \<Rightarrow> irmem" where
  "set_name v nm m = m\<lparr>ir_name := (ir_name m)(v := nm)\<rparr>"

definition delete_inst :: "vref \<Rightarrow> irmem \<Rightarrow> irmem option" where
  "delete_inst v m = do { ops \<leftarrow> ir_operands m v; Some (m\<lparr>ir_operands := (ir_operands m)(v := None)\<rparr>) }"

lemma fresh_ref_class [simp]:
  "isInstruction (fresh_ref v i)" "isAllocaInst (fresh_ref v i) = isAllocaInst v"
  by (cases v; simp add: fresh_ref_def)+

end
