(* ===== verification/Bnodes.thy ===== *)
theory Bnodes
  imports Btypes LlvmValues
begin

text \<open>
  The intermediate representation between the Go frontend and LLVM: \<open>Bnode\<close> with its subclasses
  \<open>Bexpression\<close>, \<open>Bstatement\<close> and \<open>Bblock\<close>, variables and labels (\<^verbatim>\<open>go-llvm-bnode.h\<close>,
  \<^verbatim>\<open>go-llvm-bnode.cpp\<close>, \<^verbatim>\<open>go-llvm-bexpression.*\<close>, \<^verbatim>\<open>go-llvm-bstatement.*\<close>, \<^verbatim>\<open>go-llvm-bvariable.*\<close>), and
  the two tree walkers.

  Nodes are objects of a heap (\<open>nref\<close> is a pointer). The fields of \<open>Bnode\<close> are those of the record
  \<open>bnode\<close>; what a subclass adds is the datatype \<open>ndata\<close>; the union \<open>u\<close> is \<open>payload\<close>. A static cast to
  a class the object does not have is an abort. \<open>bstate\<close> is the state all components of this layer
  work on.
\<close>

type_synonym nref = nat
type_synonym fref = nat
type_synonym vbref = nat
type_synonym swref = nat
type_synonym LabelId = u32

section \<open>Flavors\<close>

datatype NodeFlavor =
    N_Error
  | N_Const | N_Var | N_FcnAddress | N_Conversion | N_Deref | N_Address | N_UnaryOp | N_StructField
  | N_BinaryOp | N_Compound | N_ArrayIndex | N_Composite | N_Call
  | N_EmptyStmt | N_LabelStmt | N_GotoStmt | N_ExprStmt | N_ReturnStmt | N_DeferStmt | N_IfStmt
  | N_ExcepStmt | N_BlockStmt | N_SwitchStmt

text \<open>The value of the enumerator.\<close>

fun nf_code :: "NodeFlavor \<Rightarrow> nat" where
  "nf_code N_Error = 0"
| "nf_code N_Const = 1" | "nf_code N_Var = 2" | "nf_code N_FcnAddress = 3" | "nf_code N_Conversion = 4"
| "nf_code N_Deref = 5" | "nf_code N_Address = 6" | "nf_code N_UnaryOp = 7" | "nf_code N_StructField = 8"
| "nf_code N_BinaryOp = 9" | "nf_code N_Compound = 10" | "nf_code N_ArrayIndex = 11" | "nf_code N_Composite = 12"
| "nf_code N_Call = 13"
| "nf_code N_EmptyStmt = 14" | "nf_code N_LabelStmt = 15" | "nf_code N_GotoStmt = 16" | "nf_code N_ExprStmt = 17"
| "nf_code N_ReturnStmt = 18" | "nf_code N_DeferStmt = 19" | "nf_code N_IfStmt = 20" | "nf_code N_ExcepStmt = 21"
| "nf_code N_BlockStmt = 22" | "nf_code N_SwitchStmt = 23"

definition N_FirstStmt :: nat where "N_FirstStmt = nf_code N_EmptyStmt"
definition N_LastStmt :: nat where "N_LastStmt = nf_code N_SwitchStmt"

datatype StmtDisp = IsStmt | IsExpr

text \<open>\<open>None\<close> is \<open>Variadic\<close>.\<close>

record BnodePropVals =
  bp_str :: string
  bp_numChildren :: "nat option"
  bp_stmt :: StmtDisp

definition props :: "string \<Rightarrow> nat option \<Rightarrow> StmtDisp \<Rightarrow> BnodePropVals" where
  "props s n d = \<lparr>bp_str = s, bp_numChildren = n, bp_stmt = d\<rparr>"

definition BnodeProperties :: "BnodePropVals list" where
  "BnodeProperties =
    [props ''error'' (Some 0) IsExpr,
     props ''const'' (Some 0) IsExpr,
     props ''var'' (Some 0) IsExpr,
     props ''fcn'' (Some 0) IsExpr,
     props ''conv'' (Some 1) IsExpr,
     props ''deref'' (Some 1) IsExpr,
     props ''addr'' (Some 1) IsExpr,
     props ''unary'' (Some 1) IsExpr,
     props ''field'' (Some 1) IsExpr,
     props ''binary'' (Some 2) IsExpr,
     props ''compound'' (Some 2) IsExpr,
     props ''arindex'' (Some 2) IsExpr,
     props ''composite'' None IsExpr,
     props ''call'' None IsExpr,
     props ''empty'' (Some 0) IsStmt,
     props ''label'' (Some 0) IsStmt,
     props ''goto'' (Some 0) IsStmt,
     props ''exprst'' (Some 1) IsStmt,
     props ''return'' (Some 1) IsStmt,
     props ''defer'' (Some 2) IsStmt,
     props ''ifstmt'' (Some 3) IsStmt,
     props ''excepstmt'' (Some 3) IsStmt,
     props ''block'' None IsStmt,
     props ''switch'' None IsStmt]"

definition isStmt_fl :: "NodeFlavor \<Rightarrow> bool" where
  "isStmt_fl fl \<longleftrightarrow> N_FirstStmt \<le> nf_code fl \<and> nf_code fl \<le> N_LastStmt"

text \<open>The assertion of the constructor.\<close>

definition arity_ok :: "NodeFlavor \<Rightarrow> nat \<Rightarrow> bool" where
  "arity_ok fl n \<longleftrightarrow> (case bp_numChildren (BnodeProperties ! nf_code fl) of None \<Rightarrow> True | Some m \<Rightarrow> n = m)"

section \<open>Operators\<close>

text \<open>The enumeration is the frontend's; the code names these, and treats every other as unexpected.\<close>

datatype Operator =
    OPERATOR_INVALID | OPERATOR_OROR | OPERATOR_ANDAND | OPERATOR_EQEQ | OPERATOR_NOTEQ | OPERATOR_LT
  | OPERATOR_LE | OPERATOR_GT | OPERATOR_GE | OPERATOR_PLUS | OPERATOR_MINUS | OPERATOR_OR | OPERATOR_XOR
  | OPERATOR_MULT | OPERATOR_DIV | OPERATOR_MOD | OPERATOR_LSHIFT | OPERATOR_RSHIFT | OPERATOR_AND
  | OPERATOR_NOT | OPERATOR_EQ | OPERATOR_BITCLEAR | OPERATOR_other nat

fun opToString :: "Operator \<Rightarrow> string option" where
  "opToString OPERATOR_INVALID = Some ''<invalid>''"
| "opToString OPERATOR_OROR = Some ''||''"
| "opToString OPERATOR_ANDAND = Some ''&&''"
| "opToString OPERATOR_EQEQ = Some ''==''"
| "opToString OPERATOR_NOTEQ = Some ''!=''"
| "opToString OPERATOR_LT = Some ''<''"
| "opToString OPERATOR_LE = Some ''<=''"
| "opToString OPERATOR_GT = Some ''>''"
| "opToString OPERATOR_GE = Some ''>=''"
| "opToString OPERATOR_PLUS = Some ''+''"
| "opToString OPERATOR_MINUS = Some ''-''"
| "opToString OPERATOR_OR = Some ''|''"
| "opToString OPERATOR_XOR = Some ''^''"
| "opToString OPERATOR_MULT = Some ''*''"
| "opToString OPERATOR_DIV = Some ''/''"
| "opToString OPERATOR_MOD = Some ''%''"
| "opToString OPERATOR_LSHIFT = Some ''<<''"
| "opToString OPERATOR_RSHIFT = Some ''>>''"
| "opToString OPERATOR_AND = Some ''&''"
| "opToString OPERATOR_NOT = Some ''!''"
| "opToString OPERATOR_EQ = Some ''=''"
| "opToString OPERATOR_BITCLEAR = Some ''&^''"
| "opToString (OPERATOR_other n) = None"

section \<open>Variables and labels\<close>

datatype WhichVar = ParamVar | GlobalVar | LocalVar | BlockVar | ErrorVar

record bvariable =
  bv_name :: string
  bv_value :: "vref option"
  bv_initializer :: "vref option"
  bv_type :: tref
  bv_location :: location
  bv_which :: WhichVar
  bv_addrtaken :: bool
  bv_temporary :: bool

definition mk_bvariable :: "tref \<Rightarrow> location \<Rightarrow> string \<Rightarrow> WhichVar \<Rightarrow> bool \<Rightarrow> vref option \<Rightarrow> bvariable" where
  "mk_bvariable t loc name which addrtaken val =
     \<lparr>bv_name = name, bv_value = val, bv_initializer = None, bv_type = t, bv_location = loc, bv_which = which,
      bv_addrtaken = addrtaken, bv_temporary = False\<rparr>"

definition markAsTemporary :: "bvariable \<Rightarrow> bvariable" where
  "markAsTemporary v = v\<lparr>bv_temporary := True\<rparr>"

definition setInitializer :: "vref \<Rightarrow> bvariable \<Rightarrow> bvariable option" where
  "setInitializer i v =
     do { check (bv_initializer v = None);
          check (bv_which v = GlobalVar \<or> isInstruction i);
          Some (v\<lparr>bv_initializer := Some i\<rparr>) }"

definition initializerInstruction :: "bvariable \<Rightarrow> vref option" where
  "initializerInstruction v = do { i \<leftarrow> bv_initializer v; check (isInstruction i); Some i }"

record blabel =
  lb_function :: "fref option"
  lb_label :: LabelId
  lb_location :: location

section \<open>Expression contexts\<close>

record varctx =
  vc_addrLevel :: u32
  vc_lvalue :: bool
  vc_pending :: bool

definition mk_varctx :: varctx where
  "mk_varctx = \<lparr>vc_addrLevel = 0, vc_lvalue = False, vc_pending = False\<rparr>"

definition incrementAddrLevel :: "varctx \<Rightarrow> varctx" where
  "incrementAddrLevel c = c\<lparr>vc_addrLevel := vc_addrLevel c + 1\<rparr>"

definition setPending :: "bool \<Rightarrow> u32 \<Rightarrow> varctx \<Rightarrow> varctx option" where
  "setPending lvalue addrLevel c =
     do { check (\<not> vc_pending c); Some \<lparr>vc_addrLevel = addrLevel, vc_lvalue = lvalue, vc_pending = True\<rparr> }"

definition reset_ctx :: "varctx \<Rightarrow> varctx option" where
  "reset_ctx c = do { check (vc_pending c); Some (c\<lparr>vc_pending := False\<rparr>) }"

text \<open>\<open>Binstructions\<close>: allocas belong to the prolog and are refused.\<close>

definition isValidInst :: "vref \<Rightarrow> bool" where
  "isValidInst i \<longleftrightarrow> \<not> isAllocaInst i"

definition append_instruction :: "vref \<Rightarrow> vref list \<Rightarrow> vref list option" where
  "append_instruction i insts = do { check (isValidInst i); Some (insts @ [i]) }"

definition append_instructions :: "vref list \<Rightarrow> vref list \<Rightarrow> vref list option" where
  "append_instructions ilist insts = fold_opt append_instruction ilist insts"

section \<open>Nodes\<close>

record exprdata =
  e_value :: "vref option"
  e_btype :: "tref option"
  e_tag :: string
  e_ctx :: varctx
  e_insts :: "vref list"

datatype ndata =
    ExprNode exprdata
  | StmtNode "fref option"
  | BlockNode "fref option" "vbref list"

datatype payload =
    NoU
  | UVar vbref
  | UFunc fref
  | USw swref
  | ULabel LabelId
  | UOp Operator
  | UField u32

record bnode =
  nd_kids :: "nref list"
  nd_u :: payload
  nd_loc :: location
  nd_flavor :: NodeFlavor
  nd_id :: u32
  nd_data :: ndata

definition mk_bnode :: "NodeFlavor \<Rightarrow> nref list \<Rightarrow> location \<Rightarrow> ndata \<Rightarrow> bnode option" where
  "mk_bnode fl kids loc d =
     do { check (arity_ok fl (length kids));
          Some \<lparr>nd_kids = kids, nd_u = NoU, nd_loc = loc, nd_flavor = fl, nd_id = 0xfeedface, nd_data = d\<rparr> }"

definition mk_bexpression :: "NodeFlavor \<Rightarrow> nref list \<Rightarrow> vref option \<Rightarrow> tref option \<Rightarrow> location \<Rightarrow> bnode option" where
  "mk_bexpression fl kids val typ loc =
     mk_bnode fl kids loc (ExprNode \<lparr>e_value = val, e_btype = typ, e_tag = '''', e_ctx = mk_varctx, e_insts = []\<rparr>)"

definition mk_bstatement :: "NodeFlavor \<Rightarrow> fref option \<Rightarrow> nref list \<Rightarrow> location \<Rightarrow> bnode option" where
  "mk_bstatement fl func kids loc = mk_bnode fl kids loc (StmtNode func)"

definition mk_bblock :: "fref option \<Rightarrow> vbref list \<Rightarrow> location \<Rightarrow> bnode option" where
  "mk_bblock func vars loc = mk_bnode N_BlockStmt [] loc (BlockNode func vars)"

text \<open>The copy constructors: the children, the instructions, the tag and the context are not copied.\<close>

definition copy_bnode :: "bnode \<Rightarrow> ndata \<Rightarrow> bnode option" where
  "copy_bnode src d =
     do { check (\<not> isStmt_fl (nd_flavor src));
          Some \<lparr>nd_kids = [], nd_u = nd_u src, nd_loc = nd_loc src, nd_flavor = nd_flavor src, nd_id = 0xfeedface,
                nd_data = d\<rparr> }"

definition copy_bexpression :: "bnode \<Rightarrow> bnode option" where
  "copy_bexpression src =
     (case nd_data src of
        ExprNode e \<Rightarrow> copy_bnode src (ExprNode \<lparr>e_value = e_value e, e_btype = e_btype e, e_tag = '''', e_ctx = mk_varctx, e_insts = []\<rparr>)
      | _ \<Rightarrow> None)"

section \<open>State\<close>

record SwitchCaseDesc =
  sc_st :: u32
  sc_len :: u32
  sc_stmt :: u32

type_synonym parslot = "nref \<times> u32"

datatype CkTreePtrDisp = DumpPointers | NoDumpPointers
datatype CkTreeVarDisp = CheckVarExprs | IgnoreVarExprs
datatype CkTreeRepairDisp = RepairSharing | DontRepairSharing

record TreeIntegCtl =
  ptrDisp :: CkTreePtrDisp
  varDisp :: CkTreeVarDisp
  repairDisp :: CkTreeRepairDisp

record integ =
  iparent :: "vref \<rightharpoonup> parslot"
  nparent :: "nref \<rightharpoonup> parslot"
  sharing :: "(nref \<times> parslot) list"
  ig_msg :: string
  ig_control :: TreeIntegCtl
  instShareCount :: u32
  stmtShareCount :: u32
  exprShareCount :: u32

record bstate =
  nd_heap :: "nref \<rightharpoonup> bnode"
  nd_next :: nref
  sw_heap :: "swref \<rightharpoonup> SwitchCaseDesc list"
  sw_next :: swref
  vb_heap :: "vbref \<rightharpoonup> bvariable"
  vb_next :: vbref
  nd_ir :: irmem
  errorStatement :: "nref option"
  earchive :: "nref option list"
  sarchive :: "nref list"
  swcases :: "swref list"
  nb_integ :: integ
  valueExprmap :: "vref option \<times> tref option \<rightharpoonup> nref"

definition node :: "nref \<Rightarrow> bstate \<Rightarrow> bnode option" where
  "node x s = nd_heap s x"

definition set_node :: "nref \<Rightarrow> bnode \<Rightarrow> bstate \<Rightarrow> bstate" where
  "set_node x b s = s\<lparr>nd_heap := (nd_heap s)(x \<mapsto> b)\<rparr>"

definition new_node :: "bnode \<Rightarrow> bstate \<Rightarrow> nref \<times> bstate" where
  "new_node b s = (nd_next s, s\<lparr>nd_heap := (nd_heap s)(nd_next s \<mapsto> b), nd_next := Suc (nd_next s)\<rparr>)"

definition del_node :: "nref \<Rightarrow> bstate \<Rightarrow> bstate option" where
  "del_node x s = do { b \<leftarrow> node x s; Some (s\<lparr>nd_heap := (nd_heap s)(x := None)\<rparr>) }"

section \<open>Casts and accessors\<close>

text \<open>\<open>None\<close> in the inner option is the null pointer.\<close>

definition castToBexpression :: "bnode \<Rightarrow> exprdata option option" where
  "castToBexpression b =
     (if isStmt_fl (nd_flavor b) then Some None
      else case nd_data b of ExprNode e \<Rightarrow> Some (Some e) | _ \<Rightarrow> None)"

definition castToBstatement :: "bnode \<Rightarrow> bool" where
  "castToBstatement b \<longleftrightarrow> isStmt_fl (nd_flavor b)"

definition castToBblock :: "bnode \<Rightarrow> vbref list option" where
  "castToBblock b = (if nd_flavor b \<noteq> N_BlockStmt then None else case nd_data b of BlockNode f vs \<Rightarrow> Some vs | _ \<Rightarrow> None)"

text \<open>A node used as an expression: its cast must not be null.\<close>

definition as_expr :: "nref \<Rightarrow> bstate \<Rightarrow> (bnode \<times> exprdata) option" where
  "as_expr x s = do { b \<leftarrow> node x s; e \<leftarrow> castToBexpression b; d \<leftarrow> e; Some (b, d) }"

definition as_stmt :: "nref \<Rightarrow> bstate \<Rightarrow> bnode option" where
  "as_stmt x s = do { b \<leftarrow> node x s; check (castToBstatement b); Some b }"

definition set_expr :: "nref \<Rightarrow> exprdata \<Rightarrow> bstate \<Rightarrow> bstate option" where
  "set_expr x d s = do { (b, e) \<leftarrow> as_expr x s; Some (set_node x (b\<lparr>nd_data := ExprNode d\<rparr>) s) }"

definition replaceChild :: "nref \<Rightarrow> nat \<Rightarrow> nref \<Rightarrow> bstate \<Rightarrow> bstate option" where
  "replaceChild x idx newchild s =
     do { b \<leftarrow> node x s; check (idx < length (nd_kids b));
          Some (set_node x (b\<lparr>nd_kids := (nd_kids b)[idx := newchild]\<rparr>) s) }"

definition removeAllChildren :: "nref \<Rightarrow> bstate \<Rightarrow> bstate option" where
  "removeAllChildren x s = do { b \<leftarrow> node x s; Some (set_node x (b\<lparr>nd_kids := []\<rparr>) s) }"

definition flavstr :: "bnode \<Rightarrow> string option" where
  "flavstr b =
     (if nd_flavor b = N_UnaryOp \<or> nd_flavor b = N_BinaryOp
      then (case nd_u b of UOp p \<Rightarrow> opToString p | _ \<Rightarrow> None)
      else Some (bp_str (BnodeProperties ! nf_code (nd_flavor b))))"

definition label_of :: "nref \<Rightarrow> bstate \<Rightarrow> LabelId option" where
  "label_of x s =
     do { b \<leftarrow> node x s; check (nd_flavor b = N_LabelStmt \<or> nd_flavor b = N_GotoStmt);
          case nd_u b of ULabel l \<Rightarrow> Some l | _ \<Rightarrow> None }"

definition getSwitchCases :: "nref \<Rightarrow> bstate \<Rightarrow> SwitchCaseDesc list option" where
  "getSwitchCases x s =
     do { b \<leftarrow> node x s; check (nd_flavor b = N_SwitchStmt);
          case nd_u b of USw d \<Rightarrow> sw_heap s d | _ \<Rightarrow> None }"

section \<open>Expressions\<close>

definition varExprPending :: "exprdata \<Rightarrow> bool" where
  "varExprPending e = vc_pending (e_ctx e)"

definition setVarExprPending :: "nref \<Rightarrow> bool \<Rightarrow> u32 \<Rightarrow> bstate \<Rightarrow> bstate option" where
  "setVarExprPending x lvalue addrLevel s =
     do { (b, e) \<leftarrow> as_expr x s; c \<leftarrow> setPending lvalue addrLevel (e_ctx e); set_expr x (e\<lparr>e_ctx := c\<rparr>) s }"

definition with_ctx :: "varctx \<Rightarrow> exprdata \<Rightarrow> exprdata option" where
  "with_ctx src e = do { check (vc_pending src); Some (e\<lparr>e_ctx := src\<rparr>) }"

definition setVarExprPending_ctx :: "nref \<Rightarrow> varctx \<Rightarrow> bstate \<Rightarrow> bstate option" where
  "setVarExprPending_ctx x src s = do { (b, e) \<leftarrow> as_expr x s; d \<leftarrow> with_ctx src e; set_expr x d s }"

definition resetVarExprContext :: "nref \<Rightarrow> bstate \<Rightarrow> bstate option" where
  "resetVarExprContext x s =
     do { (b, e) \<leftarrow> as_expr x s; c \<leftarrow> reset_ctx (e_ctx e); set_expr x (e\<lparr>e_ctx := c\<rparr>) s }"

definition compositeInitPending :: "nref \<Rightarrow> bstate \<Rightarrow> bool option" where
  "compositeInitPending x s =
     do { (b, e) \<leftarrow> as_expr x s; Some (nd_flavor b = N_Composite \<and> e_value e = None) }"

definition getChildExprs :: "nref \<Rightarrow> bstate \<Rightarrow> nref list option" where
  "getChildExprs x s =
     do { b \<leftarrow> node x s; map_opt (\<lambda>k. do { (kb, ke) \<leftarrow> as_expr k s; Some k }) (nd_kids b) }"

definition setValue :: "nref \<Rightarrow> vref \<Rightarrow> bstate \<Rightarrow> bstate option" where
  "setValue x v s = do { (b, e) \<leftarrow> as_expr x s; set_expr x (e\<lparr>e_value := Some v\<rparr>) s }"

definition setStoreValue :: "nref \<Rightarrow> vref \<Rightarrow> bstate \<Rightarrow> bstate option" where
  "setStoreValue x v s = do { (b, e) \<leftarrow> as_expr x s; check (e_value e = None); setValue x v s }"

definition setTag :: "nref \<Rightarrow> string \<Rightarrow> bstate \<Rightarrow> bstate option" where
  "setTag x t s = do { (b, e) \<leftarrow> as_expr x s; set_expr x (e\<lparr>e_tag := t\<rparr>) s }"

definition appendInstruction :: "nref \<Rightarrow> vref \<Rightarrow> bstate \<Rightarrow> bstate option" where
  "appendInstruction x i s =
     do { (b, e) \<leftarrow> as_expr x s; is \<leftarrow> append_instruction i (e_insts e); set_expr x (e\<lparr>e_insts := is\<rparr>) s }"

datatype Varexpr_context = VE_rvalue | VE_lvalue

definition varContextDisp :: "theap \<Rightarrow> exprdata \<Rightarrow> Varexpr_context option" where
  "varContextDisp th e =
     do { t \<leftarrow> e_btype e; b \<leftarrow> th t; lt \<leftarrow> bt_type b; Some (if isAggregateType lt then VE_lvalue else VE_rvalue) }"

section \<open>Statements\<close>

definition getNthChildAsExpr :: "NodeFlavor \<Rightarrow> nat \<Rightarrow> nref \<Rightarrow> bstate \<Rightarrow> nref option" where
  "getNthChildAsExpr fl cidx x s =
     do { b \<leftarrow> node x s; check (nd_flavor b = fl);
          k \<leftarrow> nth_opt (nd_kids b) cidx; (kb, ke) \<leftarrow> as_expr k s; Some k }"

definition getNthChildAsStmt :: "NodeFlavor \<Rightarrow> nat \<Rightarrow> nref \<Rightarrow> bstate \<Rightarrow> nref option" where
  "getNthChildAsStmt fl cidx x s =
     do { b \<leftarrow> node x s; check (nd_flavor b = fl);
          k \<leftarrow> nth_opt (nd_kids b) cidx; kb \<leftarrow> as_stmt k s; Some k }"

definition getExprStmtExpr :: "nref \<Rightarrow> bstate \<Rightarrow> nref option" where
  "getExprStmtExpr = getNthChildAsExpr N_ExprStmt 0"

definition getReturnStmtExpr :: "nref \<Rightarrow> bstate \<Rightarrow> nref option" where
  "getReturnStmtExpr = getNthChildAsExpr N_ReturnStmt 0"

definition getIfStmtCondition :: "nref \<Rightarrow> bstate \<Rightarrow> nref option" where
  "getIfStmtCondition = getNthChildAsExpr N_IfStmt 0"

definition getIfStmtTrueBlock :: "nref \<Rightarrow> bstate \<Rightarrow> nref option" where
  "getIfStmtTrueBlock = getNthChildAsStmt N_IfStmt 1"

definition getIfStmtFalseBlock :: "nref \<Rightarrow> bstate \<Rightarrow> nref option" where
  "getIfStmtFalseBlock = getNthChildAsStmt N_IfStmt 2"

definition getDeferStmtUndeferCall :: "nref \<Rightarrow> bstate \<Rightarrow> nref option" where
  "getDeferStmtUndeferCall = getNthChildAsExpr N_DeferStmt 0"

definition getDeferStmtDeferCall :: "nref \<Rightarrow> bstate \<Rightarrow> nref option" where
  "getDeferStmtDeferCall = getNthChildAsExpr N_DeferStmt 1"

definition getSwitchStmtValue :: "nref \<Rightarrow> bstate \<Rightarrow> nref option" where
  "getSwitchStmtValue = getNthChildAsExpr N_SwitchStmt 0"

definition getExcepStmtBody :: "nref \<Rightarrow> bstate \<Rightarrow> nref option" where
  "getExcepStmtBody = getNthChildAsStmt N_ExcepStmt 0"

definition getExcepStmtOnException :: "nref \<Rightarrow> bstate \<Rightarrow> nref option" where
  "getExcepStmtOnException = getNthChildAsStmt N_ExcepStmt 1"

definition getExcepStmtFinally :: "nref \<Rightarrow> bstate \<Rightarrow> nref option" where
  "getExcepStmtFinally = getNthChildAsStmt N_ExcepStmt 2"

definition getSwitchStmtNumCases :: "nref \<Rightarrow> bstate \<Rightarrow> nat option" where
  "getSwitchStmtNumCases x s = do { d \<leftarrow> getSwitchCases x s; Some (length d) }"

definition getSwitchStmtNthCase :: "nat \<Rightarrow> nref \<Rightarrow> bstate \<Rightarrow> nref list option" where
  "getSwitchStmtNthCase idx x s =
     do { d \<leftarrow> getSwitchCases x s; cdesc \<leftarrow> nth_opt d idx; b \<leftarrow> node x s;
          map_opt (\<lambda>ii. do { k \<leftarrow> nth_opt (nd_kids b) (unat (of_nat ii + sc_st cdesc)); (kb, ke) \<leftarrow> as_expr k s; Some k })
            [0..<unat (sc_len cdesc)] }"

definition getSwitchStmtNthStmt :: "nat \<Rightarrow> nref \<Rightarrow> bstate \<Rightarrow> nref option" where
  "getSwitchStmtNthStmt idx x s =
     do { d \<leftarrow> getSwitchCases x s; cdesc \<leftarrow> nth_opt d idx; b \<leftarrow> node x s;
          k \<leftarrow> nth_opt (nd_kids b) (unat (sc_stmt cdesc)); kb \<leftarrow> as_stmt k s; Some k }"

definition getGotoStmtTargetLabel :: "nref \<Rightarrow> bstate \<Rightarrow> LabelId option" where
  "getGotoStmtTargetLabel = label_of"

definition getLabelStmtDefinedLabel :: "nref \<Rightarrow> bstate \<Rightarrow> LabelId option" where
  "getLabelStmtDefinedLabel = label_of"

definition getChildStmts :: "nref \<Rightarrow> bstate \<Rightarrow> nref list option" where
  "getChildStmts x s =
     do { b \<leftarrow> node x s;
          ks \<leftarrow> map_opt (\<lambda>k. do { kb \<leftarrow> node k s; Some (k, castToBstatement kb) }) (nd_kids b);
          Some (map fst (filter snd ks)) }"

definition addTemporaryVariable :: "nref \<Rightarrow> vbref \<Rightarrow> bstate \<Rightarrow> bstate option" where
  "addTemporaryVariable x v s =
     do { b \<leftarrow> node x s;
          case nd_data b of BlockNode f vs \<Rightarrow> Some (set_node x (b\<lparr>nd_data := BlockNode f (vs @ [v])\<rparr>) s) | _ \<Rightarrow> None }"

definition clearStatements :: "nref \<Rightarrow> bstate \<Rightarrow> bstate option" where
  "clearStatements = removeAllChildren"

section \<open>Deleting a tree\<close>

datatype WhichDel = DelInstructions | DelWrappers | DelBoth

text \<open>
  The children are read before the recursion; a node reached twice is deleted twice, which aborts.
\<close>

definition delete_insts :: "vref list \<Rightarrow> bstate \<Rightarrow> bstate option" where
  "delete_insts is s = do { m \<leftarrow> fold_opt delete_inst is (nd_ir s); Some (s\<lparr>nd_ir := m\<rparr>) }"

fun destroy :: "nat \<Rightarrow> nref \<Rightarrow> WhichDel \<Rightarrow> bstate \<Rightarrow> bstate option" where
  "destroy 0 x which s = None"
| "destroy (Suc n) x which s =
     do { b \<leftarrow> node x s;
          s \<leftarrow> (if which \<noteq> DelWrappers
                then do { c \<leftarrow> castToBexpression b;
                          case c of None \<Rightarrow> Some s | Some e \<Rightarrow> delete_insts (e_insts e) s }
                else Some s);
          s \<leftarrow> fold_opt (\<lambda>kid s. destroy n kid which s) (nd_kids b) s;
          if which \<noteq> DelInstructions then del_node x s else Some s }"

end
