(* ===== verification/BnodeWalk.thy ===== *)
theory BnodeWalk
  imports Bnodes
begin

text \<open>
  Walking and printing trees of nodes: \<open>SimpleNodeWalker\<close> and \<open>UpdatingNodeWalker\<close>
  (\<^verbatim>\<open>go-llvm-bnode.h\<close>), \<open>Bnode::osdump\<close> with \<open>Bexpression::dumpInstructions\<close>, \<open>Bvariable::osdump\<close>, and
  the visitor that finds a variable's initializer (\<^verbatim>\<open>go-llvm-bvariable.cpp\<close>).

  A visitor's hooks work on the nodes and on a state \<open>'v\<close> of their own. The walkers take the depth
  of the tree and the number of children of a node as fuel: the simple walker reads the children
  again before every step, as the code does, so a visitor may change them under way.
\<close>

section \<open>The simple walker\<close>

record 'v simple_visitor =
  sv_pre :: "nref \<Rightarrow> bstate \<times> 'v \<Rightarrow> (bstate \<times> 'v) option"
  sv_post :: "nref \<Rightarrow> bstate \<times> 'v \<Rightarrow> (bstate \<times> 'v) option"

fun simple_walk :: "nat \<Rightarrow> 'v simple_visitor \<Rightarrow> nref \<Rightarrow> bstate \<times> 'v \<Rightarrow> (bstate \<times> 'v) option"
  and simple_walk_kids :: "nat \<Rightarrow> 'v simple_visitor \<Rightarrow> nref \<Rightarrow> nat \<Rightarrow> bstate \<times> 'v \<Rightarrow> (bstate \<times> 'v) option" where
  "simple_walk 0 vis x s = None"
| "simple_walk (Suc n) vis x s = do { s \<leftarrow> sv_pre vis x s; s \<leftarrow> simple_walk_kids n vis x 0 s; sv_post vis x s }"
| "simple_walk_kids 0 vis x idx s = None"
| "simple_walk_kids (Suc n) vis x idx s =
     do { b \<leftarrow> node x (fst s);
          if idx < length (nd_kids b)
          then do { s \<leftarrow> simple_walk n vis (nd_kids b ! idx) s; simple_walk_kids n vis x (Suc idx) s }
          else Some s }"

section \<open>The updating walker\<close>

datatype VisitDisp = ContinueWalk | StopWalk

record 'v updating_visitor =
  uv_nodePre :: "nref \<Rightarrow> bstate \<times> 'v \<Rightarrow> (VisitDisp \<times> nref \<times> bstate \<times> 'v) option"
  uv_childPre :: "nref \<Rightarrow> nref \<Rightarrow> bstate \<times> 'v \<Rightarrow> (VisitDisp \<times> nref \<times> bstate \<times> 'v) option"
  uv_childPost :: "nref \<Rightarrow> nref \<Rightarrow> bstate \<times> 'v \<Rightarrow> (VisitDisp \<times> nref \<times> bstate \<times> 'v) option"
  uv_nodePost :: "nref \<Rightarrow> bstate \<times> 'v \<Rightarrow> (VisitDisp \<times> nref \<times> bstate \<times> 'v) option"

definition replace_if :: "nref \<Rightarrow> nat \<Rightarrow> nref \<Rightarrow> nref \<Rightarrow> bstate \<times> 'v \<Rightarrow> (bstate \<times> 'v) option" where
  "replace_if x idx old new s =
     (if new \<noteq> old then do { t \<leftarrow> replaceChild x idx new (fst s); Some (t, snd s) } else Some s)"

fun update_walk :: "nat \<Rightarrow> 'v updating_visitor \<Rightarrow> nref \<Rightarrow> bstate \<times> 'v \<Rightarrow> (VisitDisp \<times> nref \<times> bstate \<times> 'v) option"
  and update_walk_kids :: "nat \<Rightarrow> 'v updating_visitor \<Rightarrow> nref \<Rightarrow> nat \<Rightarrow> nref list \<Rightarrow> bstate \<times> 'v \<Rightarrow>
    (VisitDisp \<times> bstate \<times> 'v) option" where
  "update_walk 0 vis x s = None"
| "update_walk (Suc n) vis x s =
     do { (d, x, s) \<leftarrow> uv_nodePre vis x s;
          if d = StopWalk then Some (StopWalk, x, s)
          else do {
            b \<leftarrow> node x (fst s);
            (d, s) \<leftarrow> update_walk_kids n vis x 0 (nd_kids b) s;
            if d = StopWalk then Some (StopWalk, x, s)
            else do {
              (d, x, s) \<leftarrow> uv_nodePost vis x s;
              Some (d, x, s) } } }"
| "update_walk_kids 0 vis x idx ks s = None"
| "update_walk_kids (Suc n) vis x idx [] s = Some (ContinueWalk, s)"
| "update_walk_kids (Suc n) vis x idx (child # ks) s =
     do { (d, c1, s) \<leftarrow> uv_childPre vis x child s;
          s \<leftarrow> replace_if x idx child c1 s;
          if d = StopWalk then Some (StopWalk, s)
          else do {
            (d, c2, s) \<leftarrow> update_walk n vis c1 s;
            s \<leftarrow> replace_if x idx c1 c2 s;
            if d = StopWalk then Some (StopWalk, s)
            else do {
              (d, c3, s) \<leftarrow> uv_childPost vis x c2 s;
              s \<leftarrow> replace_if x idx c2 c3 s;
              if d = StopWalk then Some (StopWalk, s)
              else update_walk_kids n vis x (Suc idx) ks s } } }"

definition update_walk_nodes :: "nat \<Rightarrow> 'v updating_visitor \<Rightarrow> nref \<Rightarrow> bstate \<times> 'v \<Rightarrow> (nref \<times> bstate \<times> 'v) option" where
  "update_walk_nodes n vis root s = do { (d, r, s) \<leftarrow> update_walk n vis root s; Some (r, s) }"

section \<open>A variable's initializer\<close>

text \<open>\<open>CollectLastInstVisitor\<close>: its state is \<open>inst_\<close>.\<close>

definition collect_last_post :: "nref \<Rightarrow> bstate \<times> vref option \<Rightarrow> (bstate \<times> vref option) option" where
  "collect_last_post x s =
     do { b \<leftarrow> node x (fst s);
          e \<leftarrow> castToBexpression b;
          case e of
            None \<Rightarrow> Some s
          | Some d \<Rightarrow> Some (if e_insts d = [] then s else (fst s, Some (last (e_insts d)))) }"

definition CollectLastInstVisitor :: "vref option simple_visitor" where
  "CollectLastInstVisitor = \<lparr>sv_pre = (\<lambda>x s. Some s), sv_post = collect_last_post\<rparr>"

definition setInitializerExpr :: "nat \<Rightarrow> vbref \<Rightarrow> nref \<Rightarrow> bstate \<Rightarrow> bstate option" where
  "setInitializerExpr n v x s =
     do { (s, inst) \<leftarrow> simple_walk n CollectLastInstVisitor x (s, None);
          i \<leftarrow> inst;
          bv \<leftarrow> vb_heap s v;
          bv' \<leftarrow> setInitializer i bv;
          Some (s\<lparr>vb_heap := (vb_heap s)(v \<mapsto> bv')\<rparr>) }"

section \<open>Printing\<close>

text \<open>
  The texts LLVM, the line map and the types have are parameters; \<open>pr_linemap\<close> says whether the
  backend has a line map.
\<close>

record printers =
  pr_value :: "vref \<Rightarrow> string"
  pr_fname :: "vref \<Rightarrow> string"
  pr_btype :: "tref \<Rightarrow> string"
  pr_loc :: "location \<Rightarrow> string"
  pr_ptr :: "nat \<Rightarrow> string"
  pr_iptr :: "vref \<Rightarrow> string"
  pr_linemap :: bool

definition nl :: string where
  "nl = [CHR 0x0A]"

definition indent :: "nat \<Rightarrow> string" where
  "indent ilevel = replicate ilevel (CHR '' '')"

definition dumpInstructions :: "printers \<Rightarrow> exprdata \<Rightarrow> nat \<Rightarrow> bool \<Rightarrow> string" where
  "dumpInstructions P e ilevel terse =
     concat (map (\<lambda>i. indent ilevel @ (if terse then '''' else if Some i = e_value e then ''*'' else '' '') @ pr_value P i @ nl)
       (e_insts e)) @
     (if \<not> terse \<and> (\<forall>i \<in> set (e_insts e). Some i \<noteq> e_value e)
      then indent ilevel @ (case e_value e of Some v \<Rightarrow> pr_value P v | None \<Rightarrow> ''<nil value>'') @ nl
      else '''')"

definition WhichVar_tag :: "WhichVar \<Rightarrow> string" where
  "WhichVar_tag w = (case w of ParamVar \<Rightarrow> ''param'' | GlobalVar \<Rightarrow> ''global'' | LocalVar \<Rightarrow> ''local''
     | BlockVar \<Rightarrow> ''block'' | ErrorVar \<Rightarrow> ''error'')"

definition bvariable_osdump :: "printers \<Rightarrow> nat \<Rightarrow> bool \<Rightarrow> bool \<Rightarrow> bvariable \<Rightarrow> string" where
  "bvariable_osdump P ilevel linemap terse v =
     (if \<not> terse \<and> linemap then indent ilevel @ pr_loc P (bv_location v) @ nl else '''') @
     indent ilevel @ WhichVar_tag (bv_which v) @ '' var '' @ [CHR 0x27] @ bv_name v @ [CHR 0x27] @ '' type: '' @
     pr_btype P (bv_type v) @ nl"

text \<open>
  What \<open>osdump\<close> prints for the flavor; the flag says that it returns there and then, without the
  context, the instructions and the children.
\<close>

definition block_vars_text :: "vbref list \<Rightarrow> bstate \<Rightarrow> string option" where
  "block_vars_text vars s =
     (if vars = [] then Some ''''
      else do {
        vs \<leftarrow> map_opt (vb_heap s) vars;
        let tmps = length (filter bv_temporary vs);
        Some ('' { '' @ concat (map (\<lambda>v. bv_name v @ '' '') (filter (\<lambda>v. \<not> bv_temporary v) vs)) @ ''} '' @
              (if tmps \<noteq> 0 then show_nat tmps @ '' tmps'' else '''')) })"

definition node_info :: "printers \<Rightarrow> bnode \<Rightarrow> exprdata option \<Rightarrow> bstate \<Rightarrow> (string \<times> bool) option" where
  "node_info P b e s =
     (case nd_flavor b of
        N_Error \<Rightarrow> Some (nl, True)
      | N_Const \<Rightarrow>
          do { d \<leftarrow> e; Some ((case e_value d of Some v \<Rightarrow> pr_value P v | None \<Rightarrow> ''<nil const>'') @ nl, True) }
      | N_Composite \<Rightarrow>
          do { d \<leftarrow> e;
               Some (case e_value d of Some v \<Rightarrow> if isConstant v then (pr_value P v @ nl, True) else ('''', False)
                 | None \<Rightarrow> ('''', False)) }
      | N_FcnAddress \<Rightarrow>
          do { d \<leftarrow> e; v \<leftarrow> e_value d; Some (if isFunction v then (pr_fname P v @ nl, True) else ('''', False)) }
      | N_Var \<Rightarrow>
          (case nd_u b of
             UVar v \<Rightarrow> do { bv \<leftarrow> vb_heap s v;
               Some ([CHR 0x27] @ bv_name bv @ [CHR 0x27] @ '' type: '' @ pr_btype P (bv_type bv), False) }
           | _ \<Rightarrow> None)
      | N_StructField \<Rightarrow> (case nd_u b of UField i \<Rightarrow> Some (''field '' @ show_nat (unat i), False) | _ \<Rightarrow> None)
      | N_BlockStmt \<Rightarrow> do { vars \<leftarrow> castToBblock b; t \<leftarrow> block_vars_text vars s; Some (t, False) }
      | N_LabelStmt \<Rightarrow> (case nd_u b of ULabel l \<Rightarrow> Some (''label '' @ show_nat (unat l), False) | _ \<Rightarrow> None)
      | N_GotoStmt \<Rightarrow> (case nd_u b of ULabel l \<Rightarrow> Some (''label '' @ show_nat (unat l), False) | _ \<Rightarrow> None)
      | _ \<Rightarrow> Some ('''', False))"

definition context_text :: "exprdata \<Rightarrow> string" where
  "context_text e =
     (if varExprPending e
      then '' [VP lvalue='' @ (if vc_lvalue (e_ctx e) then ''yes'' else ''no'') @
           '' addrLevel='' @ show_nat (unat (vc_addrLevel (e_ctx e))) @ '']''
      else '''')"

fun osdump :: "nat \<Rightarrow> printers \<Rightarrow> nref \<Rightarrow> nat \<Rightarrow> bool \<Rightarrow> bool \<Rightarrow> bstate \<Rightarrow> string option" where
  "osdump 0 P x ilevel linemap terse s = None"
| "osdump (Suc n) P x ilevel linemap terse s =
     do { b \<leftarrow> node x s;
          let locline = (if \<not> terse \<and> linemap then indent ilevel @ pr_loc P (nd_loc b) @ nl else '''');
          let linemap' = (if \<not> terse then False else linemap);
          fs \<leftarrow> flavstr b;
          e \<leftarrow> castToBexpression b;
          (info, done) \<leftarrow> node_info P b e s;
          let head = locline @ indent ilevel @ fs @ '': '' @ info;
          if done then Some head
          else do {
            kids \<leftarrow> map_opt (\<lambda>k. osdump n P k (ilevel + 2) linemap' terse s) (nd_kids b);
            Some (head @ (case e of Some d \<Rightarrow> if terse then '''' else context_text d | None \<Rightarrow> '''') @ nl @
                  (case e of Some d \<Rightarrow> dumpInstructions P d ilevel terse | None \<Rightarrow> '''') @ concat kids) } }"

end
