(* ===== verification/TreeIntegrity.thy ===== *)
theory TreeIntegrity
  imports BnodeWalk
begin

text \<open>
  Class \<open>IntegrityVisitor\<close> (\<^verbatim>\<open>go-llvm-tree-integrity.h\<close>, \<^verbatim>\<open>go-llvm-tree-integrity.cpp\<close>): it walks a tree
  of nodes, notes for every node and instruction the parent and the slot it hangs in, and reports
  what hangs in two places. Repairing needs the node builder and is in \<open>BnodeBuilder\<close>. The visitor's
  state is the record \<open>integ\<close>; the nodes are only read.
\<close>

definition mk_integ :: "TreeIntegCtl \<Rightarrow> integ" where
  "mk_integ ctl = \<lparr>iparent = Map.empty, nparent = Map.empty, sharing = [], ig_msg = '''', ig_control = ctl,
     instShareCount = 0, stmtShareCount = 0, exprShareCount = 0\<rparr>"

definition mk_TreeIntegCtl :: TreeIntegCtl where
  "mk_TreeIntegCtl = \<lparr>ptrDisp = DumpPointers, varDisp = CheckVarExprs, repairDisp = DontRepairSharing\<rparr>"

section \<open>Messages\<close>

definition dumpTag :: "integ \<Rightarrow> string \<Rightarrow> string \<Rightarrow> string" where
  "dumpTag ig tag ptr = tag @ '': '' @ (if ptrDisp (ig_control ig) = DumpPointers then ptr else '''') @ nl"

text \<open>Nodes are numbered below \<open>nd_next\<close>, so this bounds the depth of every tree; a cycle would be printed without end.\<close>

definition dump_node :: "printers \<Rightarrow> integ \<Rightarrow> nref \<Rightarrow> bstate \<Rightarrow> string option" where
  "dump_node P ig x s =
     do { b \<leftarrow> node x s;
          t \<leftarrow> osdump (Suc (nd_next s)) P x 0 (pr_linemap P) False s;
          Some (dumpTag ig (if isStmt_fl (nd_flavor b) then ''stmt'' else ''expr'') (pr_ptr P x) @ t) }"

definition dump_inst :: "printers \<Rightarrow> integ \<Rightarrow> vref \<Rightarrow> string" where
  "dump_inst P ig i = dumpTag ig ''inst'' (pr_iptr P i) @ pr_value P i @ nl"

definition share_message :: "printers \<Rightarrow> integ \<Rightarrow> nref \<Rightarrow> nref \<Rightarrow> nref \<Rightarrow> bstate \<Rightarrow> string option" where
  "share_message P ig child prev parent s =
     do { b \<leftarrow> node child s;
          let wh = (if isStmt_fl (nd_flavor b) then ''stmt'' else ''expr'');
          c \<leftarrow> dump_node P ig child s; p1 \<leftarrow> dump_node P ig prev s; p2 \<leftarrow> dump_node P ig parent s;
          Some (''error: '' @ wh @ '' has multiple parents'' @ nl @ ''child '' @ wh @ '':'' @ nl @ c @
                ''parent 1:'' @ nl @ p1 @ ''parent 2:'' @ nl @ p2) }"

definition inst_share_message :: "printers \<Rightarrow> integ \<Rightarrow> vref \<Rightarrow> nref \<Rightarrow> nref \<Rightarrow> bstate \<Rightarrow> string option" where
  "inst_share_message P ig i prev parent s =
     do { p1 \<leftarrow> dump_node P ig prev s; p2 \<leftarrow> dump_node P ig parent s;
          Some (''error: instruction has multiple parents'' @ nl @ dump_inst P ig i @
                ''parent 1:'' @ nl @ p1 @ ''parent 2:'' @ nl @ p2) }"

section \<open>Which nodes are tracked\<close>

definition moduleScopeValue :: "vref option \<Rightarrow> tref option \<Rightarrow> bstate \<Rightarrow> bool" where
  "moduleScopeValue v t s \<longleftrightarrow> valueExprmap s (v, t) \<noteq> None"

definition varExprOrConvVar :: "nref \<Rightarrow> bstate \<Rightarrow> bool option" where
  "varExprOrConvVar x s =
     do { b \<leftarrow> node x s;
          e \<leftarrow> castToBexpression b;
          if e = None then Some False
          else if nd_flavor b = N_Var then Some True
          else if nd_flavor b = N_Conversion then
            do { ks \<leftarrow> getChildExprs x s; k \<leftarrow> nth_opt ks 0; kb \<leftarrow> node k s; Some (nd_flavor kb = N_Var) }
          else Some False }"

definition shouldBeTracked :: "integ \<Rightarrow> nref \<Rightarrow> bstate \<Rightarrow> bool option" where
  "shouldBeTracked ig child s =
     do { b \<leftarrow> node child s;
          e \<leftarrow> castToBexpression b;
          if (case e of None \<Rightarrow> False | Some d \<Rightarrow> moduleScopeValue (e_value d) (e_btype d) s) then Some False
          else if varDisp (ig_control ig) = IgnoreVarExprs
          then do { v \<leftarrow> varExprOrConvVar child s; Some (\<not> v) }
          else Some True }"

section \<open>Parents\<close>

definition unsetParent :: "nref \<Rightarrow> nref \<Rightarrow> u32 \<Rightarrow> bstate \<Rightarrow> integ \<Rightarrow> integ option" where
  "unsetParent child parent slot s ig =
     do { t \<leftarrow> shouldBeTracked ig child s;
          if \<not> t then Some ig
          else do { pps \<leftarrow> nparent ig child; check (pps = (parent, slot));
                    Some (ig\<lparr>nparent := (nparent ig)(child := None)\<rparr>) } }"

definition count_share :: "bool \<Rightarrow> integ \<Rightarrow> integ" where
  "count_share stmt ig = (if stmt then ig\<lparr>stmtShareCount := stmtShareCount ig + 1\<rparr> else ig\<lparr>exprShareCount := exprShareCount ig + 1\<rparr>)"

definition setParent :: "printers \<Rightarrow> nref \<Rightarrow> nref \<Rightarrow> u32 \<Rightarrow> bstate \<Rightarrow> integ \<Rightarrow> integ option" where
  "setParent P child parent slot s ig =
     do { t \<leftarrow> shouldBeTracked ig child s;
          if \<not> t then Some ig
          else case nparent ig child of
            Some pps \<Rightarrow>
              if pps = (parent, slot) then Some ig
              else do {
                b \<leftarrow> node child s;
                m \<leftarrow> share_message P ig child (fst pps) parent s;
                let ig = count_share (isStmt_fl (nd_flavor b)) ig;
                Some (ig\<lparr>ig_msg := ig_msg ig @ m, sharing := sharing ig @ [(child, parent, slot)],
                         nparent := (nparent ig)(child \<mapsto> (parent, slot))\<rparr>) }
          | None \<Rightarrow> Some (ig\<lparr>nparent := (nparent ig)(child \<mapsto> (parent, slot))\<rparr>) }"

definition setParent_inst :: "printers \<Rightarrow> vref \<Rightarrow> nref \<Rightarrow> u32 \<Rightarrow> bstate \<Rightarrow> integ \<Rightarrow> integ option" where
  "setParent_inst P i parent slot s ig =
     (case iparent ig i of
        Some ps \<Rightarrow>
          if ps = (parent, slot) then Some ig
          else do { m \<leftarrow> inst_share_message P ig i (fst ps) parent s;
                    Some (ig\<lparr>instShareCount := instShareCount ig + 1, ig_msg := ig_msg ig @ m\<rparr>) }
      | None \<Rightarrow> Some (ig\<lparr>iparent := (iparent ig)(i \<mapsto> (parent, slot))\<rparr>))"

section \<open>The walk\<close>

fun visit :: "nat \<Rightarrow> printers \<Rightarrow> nref \<Rightarrow> bstate \<Rightarrow> integ \<Rightarrow> integ option" where
  "visit 0 P x s ig = None"
| "visit (Suc n) P x s ig =
     do { b \<leftarrow> node x s;
          ig \<leftarrow> fold_opt (\<lambda>(idx, child) ig. do { ig \<leftarrow> visit n P child s ig; setParent P child x (of_nat idx) s ig })
                 (enumerate 0 (nd_kids b)) ig;
          e \<leftarrow> castToBexpression b;
          case e of
            None \<Rightarrow> Some ig
          | Some d \<Rightarrow> fold_opt (\<lambda>(idx, i) ig. setParent_inst P i x (of_nat idx) s ig) (enumerate 0 (e_insts d)) ig }"

section \<open>Repairable trees\<close>

definition acceptable :: "NodeFlavor list" where
  "acceptable = [N_Const, N_Var, N_Conversion, N_Deref, N_StructField]"

fun push_new :: "nref list \<Rightarrow> nref list \<Rightarrow> nref list \<Rightarrow> nref list \<times> nref list" where
  "push_new [] visited wl = (visited, wl)"
| "push_new (c # cs) visited wl =
     (if c \<in> set visited then push_new cs visited wl else push_new cs (c # visited) (c # wl))"

text \<open>The head of the list is the back of the vector.\<close>

fun repairable_loop :: "nat \<Rightarrow> bstate \<Rightarrow> nref list \<Rightarrow> nref list \<Rightarrow> bool option" where
  "repairable_loop n s visited [] = Some True"
| "repairable_loop 0 s visited (e # wl) = None"
| "repairable_loop (Suc n) s visited (e # wl) =
     do { b \<leftarrow> node e s;
          if nd_flavor b \<notin> set acceptable then Some False
          else do {
            ks \<leftarrow> getChildExprs e s;
            let (visited, wl) = push_new ks visited wl;
            repairable_loop n s visited wl } }"

definition repairableSubTree :: "nat \<Rightarrow> nref \<Rightarrow> bstate \<Rightarrow> bool option" where
  "repairableSubTree n root s = repairable_loop n s [root] [root]"

end
