(* ===== verification/BnodeBuilder.thy ===== *)
theory BnodeBuilder
  imports TreeIntegrity
begin

text \<open>
  Class \<open>BnodeBuilder\<close> (\<^verbatim>\<open>go-llvm-bnode.h\<close>, \<^verbatim>\<open>go-llvm-bnode.cpp\<close>): every node is created, archived and freed
  here. The archives own the nodes: \<open>earchive\<close> the expressions, indexed by \<open>id\<close>, \<open>sarchive\<close> the
  statements. A null \<open>llvm::Value *\<close> is \<open>None\<close>. The last section is the part of \<open>IntegrityVisitor\<close> that
  repairs trees with the builder's clones.
\<close>

section \<open>The archives\<close>

definition init_bstate :: "irmem \<Rightarrow> bstate" where
  "init_bstate m =
     \<lparr>nd_heap = Map.empty, nd_next = 0, sw_heap = Map.empty, sw_next = 0, vb_heap = Map.empty, vb_next = 0, nd_ir = m,
      errorStatement = None, earchive = [], sarchive = [], swcases = [],
      nb_integ = mk_integ \<lparr>ptrDisp = DumpPointers, varDisp = IgnoreVarExprs, repairDisp = DontRepairSharing\<rparr>,
      valueExprmap = Map.empty\<rparr>"

definition checkTreeInteg :: "printers \<Rightarrow> nref \<Rightarrow> bstate \<Rightarrow> bstate option" where
  "checkTreeInteg P x s =
     do { b \<leftarrow> node x s;
          ig \<leftarrow> fold_opt (\<lambda>(idx, kid) ig. setParent P kid x (of_nat idx) s ig) (enumerate 0 (nd_kids b)) (nb_integ s);
          Some (s\<lparr>nb_integ := ig\<rparr>) }"

definition set_id :: "nref \<Rightarrow> u32 \<Rightarrow> bstate \<Rightarrow> bstate option" where
  "set_id x i s = do { b \<leftarrow> node x s; Some (set_node x (b\<lparr>nd_id := i\<rparr>) s) }"

definition set_u :: "nref \<Rightarrow> payload \<Rightarrow> bstate \<Rightarrow> bstate option" where
  "set_u x u s = do { b \<leftarrow> node x s; Some (set_node x (b\<lparr>nd_u := u\<rparr>) s) }"

definition archive_expr :: "printers \<Rightarrow> nref \<Rightarrow> bstate \<Rightarrow> bstate option" where
  "archive_expr P x s =
     do { s \<leftarrow> set_id x (of_nat (length (earchive s))) s;
          checkTreeInteg P x (s\<lparr>earchive := earchive s @ [Some x]\<rparr>) }"

definition archive_stmt :: "printers \<Rightarrow> nref \<Rightarrow> bstate \<Rightarrow> bstate option" where
  "archive_stmt P x s =
     do { s \<leftarrow> set_id x (of_nat (length (sarchive s))) s;
          checkTreeInteg P x (s\<lparr>sarchive := sarchive s @ [x]\<rparr>) }"

definition freeStmts :: "bstate \<Rightarrow> bstate option" where
  "freeStmts s =
     do { s \<leftarrow> fold_opt del_node (sarchive s) s;
          Some (s\<lparr>sarchive := [], sw_heap := fold (\<lambda>c h. h(c := None)) (swcases s) (sw_heap s), swcases := []\<rparr>) }"

definition freeExpr :: "nref \<Rightarrow> bstate \<Rightarrow> bstate option" where
  "freeExpr x s =
     do { b \<leftarrow> node x s;
          let i = unat (nd_id b);
          check (i < length (earchive s));
          let ar = (earchive s)[i := None];
          let ar = (if i = length ar - 1 then butlast ar else ar);
          del_node x (s\<lparr>earchive := ar\<rparr>) }"

definition destroy_builder :: "bstate \<Rightarrow> bstate option" where
  "destroy_builder s =
     do { s \<leftarrow> freeStmts s;
          fold_opt (\<lambda>e s. case e of None \<Rightarrow> Some s | Some x \<Rightarrow> del_node x s) (earchive s) s }"

section \<open>Expressions\<close>

definition new_bexpression :: "NodeFlavor \<Rightarrow> nref list \<Rightarrow> vref option \<Rightarrow> tref option \<Rightarrow> location \<Rightarrow> bstate \<Rightarrow>
    (nref \<times> bstate) option" where
  "new_bexpression fl kids val typ loc s = do { b \<leftarrow> mk_bexpression fl kids val typ loc; Some (new_node b s) }"

definition archived :: "printers \<Rightarrow> nref \<Rightarrow> bstate \<Rightarrow> (nref \<times> bstate) option" where
  "archived P x s = do { s \<leftarrow> archive_expr P x s; Some (x, s) }"

definition mkError :: "printers \<Rightarrow> tref \<Rightarrow> bstate \<Rightarrow> (nref \<times> bstate) option" where
  "mkError P errortype s =
     do { (x, s) \<leftarrow> new_bexpression N_Error [] None (Some errortype) 0 s; archived P x s }"

definition mkConst :: "printers \<Rightarrow> tref option \<Rightarrow> vref option \<Rightarrow> bstate \<Rightarrow> (nref \<times> bstate) option" where
  "mkConst P btype val s =
     do { check (btype \<noteq> None); check (val \<noteq> None);
          (x, s) \<leftarrow> new_bexpression N_Const [] val btype 0 s; archived P x s }"

definition mkVoidValue :: "printers \<Rightarrow> tref option \<Rightarrow> bstate \<Rightarrow> (nref \<times> bstate) option" where
  "mkVoidValue P btype s =
     do { check (btype \<noteq> None); (x, s) \<leftarrow> new_bexpression N_Const [] None btype 0 s; archived P x s }"

definition mkVar :: "printers \<Rightarrow> vbref \<Rightarrow> location \<Rightarrow> bstate \<Rightarrow> (nref \<times> bstate) option" where
  "mkVar P var loc s =
     do { v \<leftarrow> vb_heap s var;
          (x, s) \<leftarrow> new_bexpression N_Var [] (bv_value v) (Some (bv_type v)) loc s;
          s \<leftarrow> set_u x (UVar var) s;
          archived P x s }"

text \<open>The loop over the children: is \<open>v\<close> the value of one of them?\<close>

fun kid_has_value :: "vref \<Rightarrow> nref list \<Rightarrow> bstate \<Rightarrow> bool option" where
  "kid_has_value v [] s = Some False"
| "kid_has_value v (k # ks) s =
     do { b \<leftarrow> node k s; e \<leftarrow> castToBexpression b;
          if (case e of None \<Rightarrow> False | Some d \<Rightarrow> e_value d = Some v) then Some True else kid_has_value v ks s }"

definition appendInstIfNeeded :: "nref \<Rightarrow> vref option \<Rightarrow> bstate \<Rightarrow> bstate option" where
  "appendInstIfNeeded x val s =
     do { v \<leftarrow> val;
          if \<not> isInstruction v then Some s
          else do { b \<leftarrow> node x s; found \<leftarrow> kid_has_value v (nd_kids b) s;
                    if found then Some s else appendInstruction x v s } }"

text \<open>A pending variable context moves up from the operand to the new expression.\<close>

definition inherit_ctx :: "nref \<Rightarrow> nref \<Rightarrow> bstate \<Rightarrow> bstate option" where
  "inherit_ctx src x s =
     do { (b, e) \<leftarrow> as_expr src s;
          if varExprPending e then setVarExprPending_ctx x (e_ctx e) s else Some s }"

definition mkBinaryOp :: "printers \<Rightarrow> Operator \<Rightarrow> tref option \<Rightarrow> vref option \<Rightarrow> nref \<Rightarrow> nref \<Rightarrow> location \<Rightarrow> bstate \<Rightarrow>
    (nref \<times> bstate) option" where
  "mkBinaryOp P op typ val left right loc s =
     do { (x, s) \<leftarrow> new_bexpression N_BinaryOp [left, right] val typ loc s;
          s \<leftarrow> (if val \<noteq> None then appendInstIfNeeded x val s else Some s);
          s \<leftarrow> set_u x (UOp op) s;
          archived P x s }"

definition mkBinaryOp_insts :: "printers \<Rightarrow> Operator \<Rightarrow> tref option \<Rightarrow> vref option \<Rightarrow> nref \<Rightarrow> nref \<Rightarrow> vref list \<Rightarrow> location \<Rightarrow>
    bstate \<Rightarrow> (nref \<times> bstate) option" where
  "mkBinaryOp_insts P op typ val left right insts loc s =
     do { (x, s) \<leftarrow> new_bexpression N_BinaryOp [left, right] val typ loc s;
          s \<leftarrow> fold_opt (appendInstruction x) insts s;
          s \<leftarrow> set_u x (UOp op) s;
          archived P x s }"

definition mkUnaryOp :: "printers \<Rightarrow> Operator \<Rightarrow> tref option \<Rightarrow> vref option \<Rightarrow> nref \<Rightarrow> location \<Rightarrow> bstate \<Rightarrow>
    (nref \<times> bstate) option" where
  "mkUnaryOp P op typ val src loc s =
     do { (x, s) \<leftarrow> new_bexpression N_UnaryOp [src] val typ loc s;
          s \<leftarrow> set_u x (UOp op) s;
          s \<leftarrow> appendInstIfNeeded x val s;
          s \<leftarrow> inherit_ctx src x s;
          archived P x s }"

definition mkConversion :: "printers \<Rightarrow> tref option \<Rightarrow> vref option \<Rightarrow> nref \<Rightarrow> location \<Rightarrow> bstate \<Rightarrow> (nref \<times> bstate) option" where
  "mkConversion P typ val src loc s =
     do { (x, s) \<leftarrow> new_bexpression N_Conversion [src] val typ loc s;
          s \<leftarrow> appendInstIfNeeded x val s;
          s \<leftarrow> inherit_ctx src x s;
          archived P x s }"

definition mkAddress :: "printers \<Rightarrow> tref option \<Rightarrow> vref option \<Rightarrow> nref \<Rightarrow> location \<Rightarrow> bstate \<Rightarrow> (nref \<times> bstate) option" where
  "mkAddress P typ val src loc s =
     do { (x, s) \<leftarrow> new_bexpression N_Address [src] val typ loc s; archived P x s }"

definition mkFcnAddress :: "printers \<Rightarrow> tref option \<Rightarrow> vref option \<Rightarrow> fref \<Rightarrow> location \<Rightarrow> bstate \<Rightarrow> (nref \<times> bstate) option" where
  "mkFcnAddress P typ val func loc s =
     do { (x, s) \<leftarrow> new_bexpression N_FcnAddress [] val typ loc s;
          s \<leftarrow> set_u x (UFunc func) s;
          archived P x s }"

definition mkDeref :: "printers \<Rightarrow> tref option \<Rightarrow> vref option \<Rightarrow> nref \<Rightarrow> location \<Rightarrow> bstate \<Rightarrow> (nref \<times> bstate) option" where
  "mkDeref P typ val src loc s =
     do { (x, s) \<leftarrow> new_bexpression N_Deref [src] val typ loc s; archived P x s }"

definition mkComposite :: "printers \<Rightarrow> tref option \<Rightarrow> vref option \<Rightarrow> nref list \<Rightarrow> vref list \<Rightarrow> location \<Rightarrow> bstate \<Rightarrow>
    (nref \<times> bstate) option" where
  "mkComposite P btype val vals insts loc s =
     do { (x, s) \<leftarrow> new_bexpression N_Composite vals val btype loc s;
          s \<leftarrow> fold_opt (appendInstruction x) insts s;
          archived P x s }"

definition mkStructField :: "printers \<Rightarrow> tref option \<Rightarrow> vref option \<Rightarrow> nref \<Rightarrow> u32 \<Rightarrow> location \<Rightarrow> bstate \<Rightarrow> (nref \<times> bstate) option" where
  "mkStructField P typ val structval fieldIndex loc s =
     do { (x, s) \<leftarrow> new_bexpression N_StructField [structval] val typ loc s;
          s \<leftarrow> appendInstIfNeeded x val s;
          s \<leftarrow> set_u x (UField fieldIndex) s;
          s \<leftarrow> inherit_ctx structval x s;
          archived P x s }"

definition mkArrayIndex :: "printers \<Rightarrow> tref option \<Rightarrow> vref option \<Rightarrow> nref \<Rightarrow> nref \<Rightarrow> location \<Rightarrow> bstate \<Rightarrow> (nref \<times> bstate) option" where
  "mkArrayIndex P typ val arval index loc s =
     do { (x, s) \<leftarrow> new_bexpression N_ArrayIndex [arval, index] val typ loc s;
          s \<leftarrow> appendInstIfNeeded x val s;
          s \<leftarrow> inherit_ctx arval x s;
          archived P x s }"

definition mkCompound :: "printers \<Rightarrow> nref \<Rightarrow> nref \<Rightarrow> location \<Rightarrow> bstate \<Rightarrow> (nref \<times> bstate) option" where
  "mkCompound P st expr loc s =
     do { (b, e) \<leftarrow> as_expr expr s;
          (x, s) \<leftarrow> new_bexpression N_Compound [st, expr] (e_value e) (e_btype e) loc s;
          s \<leftarrow> inherit_ctx expr x s;
          s \<leftarrow> setTag x (e_tag e) s;
          archived P x s }"

definition mkCall :: "printers \<Rightarrow> tref option \<Rightarrow> vref option \<Rightarrow> nref list \<Rightarrow> vref list \<Rightarrow> location \<Rightarrow> bstate \<Rightarrow> (nref \<times> bstate) option" where
  "mkCall P btype val args insts loc s =
     do { v \<leftarrow> val;
          (x, s) \<leftarrow> new_bexpression N_Call args val btype loc s;
          s \<leftarrow> fold_opt (appendInstruction x) insts s;
          s \<leftarrow> (if v \<notin> set insts \<and> \<not> isAllocaInst v
                then do { check (isInstruction v); appendInstruction x v s } else Some s);
          archived P x s }"

section \<open>Statements\<close>

definition new_bstatement :: "NodeFlavor \<Rightarrow> fref option \<Rightarrow> nref list \<Rightarrow> location \<Rightarrow> bstate \<Rightarrow> (nref \<times> bstate) option" where
  "new_bstatement fl func kids loc s = do { b \<leftarrow> mk_bstatement fl func kids loc; Some (new_node b s) }"

definition archived_stmt :: "printers \<Rightarrow> nref \<Rightarrow> bstate \<Rightarrow> (nref \<times> bstate) option" where
  "archived_stmt P x s = do { s \<leftarrow> archive_stmt P x s; Some (x, s) }"

definition mkErrorStmt :: "bstate \<Rightarrow> (nref \<times> bstate) option" where
  "mkErrorStmt s =
     do { check (errorStatement s = None);
          (x, s) \<leftarrow> new_bstatement N_Error None [] 0 s;
          Some (x, s\<lparr>errorStatement := Some x\<rparr>) }"

definition mkExprStmt :: "printers \<Rightarrow> fref option \<Rightarrow> nref \<Rightarrow> location \<Rightarrow> bstate \<Rightarrow> (nref \<times> bstate) option" where
  "mkExprStmt P func expr loc s = do { (x, s) \<leftarrow> new_bstatement N_ExprStmt func [expr] loc s; archived_stmt P x s }"

definition mkReturn :: "printers \<Rightarrow> fref option \<Rightarrow> nref \<Rightarrow> location \<Rightarrow> bstate \<Rightarrow> (nref \<times> bstate) option" where
  "mkReturn P func returnVal loc s =
     do { (x, s) \<leftarrow> new_bstatement N_ReturnStmt func [returnVal] loc s; archived_stmt P x s }"

definition mkLabelDefStmt :: "printers \<Rightarrow> fref option \<Rightarrow> blabel \<Rightarrow> location \<Rightarrow> bstate \<Rightarrow> (nref \<times> bstate) option" where
  "mkLabelDefStmt P func label loc s =
     do { (x, s) \<leftarrow> new_bstatement N_LabelStmt func [] loc s;
          s \<leftarrow> set_u x (ULabel (lb_label label)) s;
          archived_stmt P x s }"

definition mkGotoStmt :: "printers \<Rightarrow> fref option \<Rightarrow> blabel \<Rightarrow> location \<Rightarrow> bstate \<Rightarrow> (nref \<times> bstate) option" where
  "mkGotoStmt P func label loc s =
     do { (x, s) \<leftarrow> new_bstatement N_GotoStmt func [] loc s;
          s \<leftarrow> set_u x (ULabel (lb_label label)) s;
          archived_stmt P x s }"

text \<open>A missing false block is replaced by an empty one, which no archive owns.\<close>

definition mkIfStmt :: "printers \<Rightarrow> fref option \<Rightarrow> nref \<Rightarrow> nref \<Rightarrow> nref option \<Rightarrow> location \<Rightarrow> bstate \<Rightarrow> (nref \<times> bstate) option" where
  "mkIfStmt P func cond trueBlock falseBlock loc s =
     do { (fb, s) \<leftarrow> (case falseBlock of Some fb \<Rightarrow> Some (fb, s)
            | None \<Rightarrow> do { b \<leftarrow> mk_bblock func [] loc; Some (new_node b s) });
          (x, s) \<leftarrow> new_bstatement N_IfStmt func [cond, trueBlock, fb] loc s;
          archived_stmt P x s }"

definition mkDeferStmt :: "printers \<Rightarrow> fref option \<Rightarrow> nref \<Rightarrow> nref \<Rightarrow> location \<Rightarrow> bstate \<Rightarrow> (nref \<times> bstate) option" where
  "mkDeferStmt P func undefer defer_call loc s =
     do { check (func \<noteq> None);
          (x, s) \<leftarrow> new_bstatement N_DeferStmt func [undefer, defer_call] loc s; archived_stmt P x s }"

definition mkExcepStmt :: "printers \<Rightarrow> fref option \<Rightarrow> nref option \<Rightarrow> nref option \<Rightarrow> nref option \<Rightarrow> location \<Rightarrow> bstate \<Rightarrow>
    (nref \<times> bstate) option" where
  "mkExcepStmt P func body onexception final loc s =
     do { b \<leftarrow> body; c \<leftarrow> onexception; f \<leftarrow> final;
          (x, s) \<leftarrow> new_bstatement N_ExcepStmt func [b, c, f] loc s; archived_stmt P x s }"

text \<open>\<open>SwitchDescriptor\<close>: indices of 32 bits into the children of the switch.\<close>

fun switch_cases :: "u32 \<Rightarrow> u32 \<Rightarrow> 'a list list \<Rightarrow> SwitchCaseDesc list" where
  "switch_cases idx stidx [] = []"
| "switch_cases idx stidx (v # vals) =
     \<lparr>sc_st = idx, sc_len = of_nat (length v), sc_stmt = stidx\<rparr> # switch_cases (idx + of_nat (length v)) (stidx + 1) vals"

definition mk_SwitchDescriptor :: "'a list list \<Rightarrow> SwitchCaseDesc list" where
  "mk_SwitchDescriptor vals = switch_cases 1 (1 + sum_list (map (\<lambda>v. of_nat (length v)) vals)) vals"

definition mkSwitchStmt :: "printers \<Rightarrow> fref option \<Rightarrow> nref \<Rightarrow> nref list list \<Rightarrow> nref list \<Rightarrow> location \<Rightarrow> bstate \<Rightarrow>
    (nref \<times> bstate) option" where
  "mkSwitchStmt P func swvalue vals stmts loc s =
     do { let kids = swvalue # concat vals @ stmts;
          let d = sw_next s;
          let s = s\<lparr>sw_heap := (sw_heap s)(d \<mapsto> mk_SwitchDescriptor vals), sw_next := Suc d, swcases := swcases s @ [d]\<rparr>;
          (x, s) \<leftarrow> new_bstatement N_SwitchStmt func kids loc s;
          s \<leftarrow> set_u x (USw d) s;
          archived_stmt P x s }"

definition mkBlock :: "printers \<Rightarrow> fref option \<Rightarrow> vbref list \<Rightarrow> location \<Rightarrow> bstate \<Rightarrow> (nref \<times> bstate) option" where
  "mkBlock P func vars loc s = do { b \<leftarrow> mk_bblock func vars loc; let (x, s) = new_node b s; archived_stmt P x s }"

definition addStatementToBlock :: "nref \<Rightarrow> nref \<Rightarrow> bstate \<Rightarrow> bstate option" where
  "addStatementToBlock block st s = do { b \<leftarrow> node block s; Some (set_node block (b\<lparr>nd_kids := nd_kids b @ [st]\<rparr>) s) }"

section \<open>Cloning\<close>

text \<open>
  One instruction of \<open>cloneSub\<close>: operands found in \<open>vm\<close> are replaced. No caller ever enters anything
  into the map, and the clone's value stays the instruction of the original.
\<close>

definition clone_one :: "(vref \<rightharpoonup> vref) \<Rightarrow> vref \<Rightarrow> irmem \<Rightarrow> (vref \<times> irmem) option" where
  "clone_one vm inst m =
     do { (icl, m) \<leftarrow> clone_inst inst m;
          ops \<leftarrow> ir_operands m inst;
          m \<leftarrow> fold_opt (\<lambda>(idx, v) m. case vm v of None \<Rightarrow> Some m | Some cv \<Rightarrow> set_operand icl idx cv m) (enumerate 0 ops) m;
          Some (icl, set_name icl (ir_name m inst) m) }"

fun clone_insts :: "(vref \<rightharpoonup> vref) \<Rightarrow> vref option \<Rightarrow> nref \<Rightarrow> vref list \<Rightarrow> vref option \<Rightarrow> bstate \<Rightarrow> (vref option \<times> bstate) option" where
  "clone_insts vm iv res [] newv s = Some (newv, s)"
| "clone_insts vm iv res (inst # insts) newv s =
     do { newv \<leftarrow> (if Some inst = iv then do { check (newv = None); Some (Some inst) } else Some newv);
          (icl, m) \<leftarrow> clone_one vm inst (nd_ir s);
          s \<leftarrow> appendInstruction res icl (s\<lparr>nd_ir := m\<rparr>);
          clone_insts vm iv res insts newv s }"

definition set_kids :: "nref \<Rightarrow> nref list \<Rightarrow> bstate \<Rightarrow> bstate option" where
  "set_kids x ks s = do { b \<leftarrow> node x s; Some (set_node x (b\<lparr>nd_kids := ks\<rparr>) s) }"

fun cloneSub :: "nat \<Rightarrow> printers \<Rightarrow> nref \<Rightarrow> (vref \<rightharpoonup> vref) \<Rightarrow> bstate \<Rightarrow> (nref \<times> bstate) option" where
  "cloneSub 0 P expr vm s = None"
| "cloneSub (Suc n) P expr vm s =
     do { b \<leftarrow> node expr s;
          (newChildren, s) \<leftarrow> map_st (\<lambda>c s. do { (cb, ce) \<leftarrow> as_expr c s; cloneSub n P c Map.empty s }) (nd_kids b) s;
          (b, e) \<leftarrow> as_expr expr s;
          rb \<leftarrow> copy_bexpression b;
          let (res, s) = new_node rb s;
          s \<leftarrow> archive_expr P res s;
          s \<leftarrow> set_kids res newChildren s;
          (newv, s) \<leftarrow> clone_insts vm (e_value e) res (e_insts e) None s;
          s \<leftarrow> (case newv of None \<Rightarrow> Some s | Some v \<Rightarrow> setValue res v s);
          Some (res, s) }"

definition cloneSubtree :: "nat \<Rightarrow> printers \<Rightarrow> nref \<Rightarrow> bstate \<Rightarrow> (nref \<times> bstate) option" where
  "cloneSubtree n P expr s = cloneSub n P expr Map.empty s"

definition extractChildenAndDestroy :: "nref \<Rightarrow> bstate \<Rightarrow> (nref list \<times> bstate) option" where
  "extractChildenAndDestroy expr s =
     do { (b, e) \<leftarrow> as_expr expr s;
          check (e_value e = None); check (e_insts e = []);
          (orphans, s) \<leftarrow> map_st (\<lambda>(idx, kid) s.
              do { ig \<leftarrow> unsetParent kid expr (of_nat idx) s (nb_integ s);
                   (kb, ke) \<leftarrow> as_expr kid s;
                   Some (kid, s\<lparr>nb_integ := ig\<rparr>) }) (enumerate 0 (nd_kids b)) s;
          s \<leftarrow> freeExpr expr s;
          Some (orphans, s) }"

section \<open>Repairing trees\<close>

text \<open>\<open>IntegrityVisitor::repair\<close>: every further use of a shared expression gets a clone of its own.\<close>

fun repair_loop :: "nat \<Rightarrow> printers \<Rightarrow> (nref \<times> parslot) list \<Rightarrow> nref list \<Rightarrow> bstate \<Rightarrow> (bool \<times> bstate) option" where
  "repair_loop n P [] visited s = Some (True, s)"
| "repair_loop n P ((child, parent, slot) # ps) visited s =
     do { (cb, ce) \<leftarrow> as_expr child s;
          ok \<leftarrow> (if child \<in> set visited then Some True else repairableSubTree n child s);
          if \<not> ok then Some (False, s)
          else do {
            (childClone, s) \<leftarrow> cloneSubtree n P child s;
            s \<leftarrow> replaceChild parent (unat slot) childClone s;
            repair_loop n P ps (child # visited) s } }"

definition repair :: "nat \<Rightarrow> printers \<Rightarrow> integ \<Rightarrow> bstate \<Rightarrow> (bool \<times> bstate) option" where
  "repair n P ig s = repair_loop n P (sharing ig) [] s"

definition examine :: "nat \<Rightarrow> printers \<Rightarrow> nref \<Rightarrow> integ \<Rightarrow> bstate \<Rightarrow> (bool \<times> integ \<times> bstate) option" where
  "examine n P x ig s =
     do { ig \<leftarrow> visit n P x s ig;
          if instShareCount ig \<noteq> 0 \<or> stmtShareCount ig \<noteq> 0 then Some (False, ig, s)
          else if exprShareCount ig = 0 then Some (True, ig, s)
          else if repairDisp (ig_control ig) \<noteq> RepairSharing then Some (False, ig, s)
          else do { (ok, s) \<leftarrow> repair n P ig s; Some (ok, ig, s) } }"

end
