(* ===== verification/BnodeFacts.thy ===== *)
theory BnodeFacts
  imports BnodeBuilder
begin

text \<open>
  Properties of the node layer. First what creating and archiving a node does to the heap; then the
  round trip of switch statements through their descriptor, the visitor that reports sharing
  against a reference definition, and cloning.
\<close>

section \<open>Effects of the building blocks\<close>

lemma fold_setParent_heap:
  "checkTreeInteg P x s = Some t \<Longrightarrow> \<exists>ig. t = s\<lparr>nb_integ := ig\<rparr>"
  by (auto simp: checkTreeInteg_def bind_Some_iff)

lemma archive_stmt_effect:
  assumes "archive_stmt P x s = Some t" "nd_heap s x = Some b"
  shows "\<exists>ig. t = s\<lparr>nd_heap := (nd_heap s)(x \<mapsto> b\<lparr>nd_id := of_nat (length (sarchive s))\<rparr>),
     sarchive := sarchive s @ [x], nb_integ := ig\<rparr>"
  using assms by (auto simp: archive_stmt_def set_id_def node_def set_node_def bind_Some_iff dest!: fold_setParent_heap)

lemma archive_expr_effect:
  assumes "archive_expr P x s = Some t" "nd_heap s x = Some b"
  shows "\<exists>ig. t = s\<lparr>nd_heap := (nd_heap s)(x \<mapsto> b\<lparr>nd_id := of_nat (length (earchive s))\<rparr>),
     earchive := earchive s @ [Some x], nb_integ := ig\<rparr>"
  using assms by (auto simp: archive_expr_def set_id_def node_def set_node_def bind_Some_iff dest!: fold_setParent_heap)

lemma as_expr_cong: "nd_heap t x = nd_heap s x \<Longrightarrow> as_expr x t = as_expr x s"
  by (simp add: as_expr_def node_def)

lemma as_stmt_cong: "nd_heap t x = nd_heap s x \<Longrightarrow> as_stmt x t = as_stmt x s"
  by (simp add: as_stmt_def node_def)

lemma u32_of_nat: "n < 2 ^ 32 \<Longrightarrow> unat (of_nat n :: u32) = n"
  by (simp add: unat_of_nat)

section \<open>Switch statements\<close>

lemma switch_cases_length [simp]: "length (switch_cases idx stidx vals) = length vals"
  by (induction vals arbitrary: idx stidx) auto

lemma switch_cases_nth:
  "i < length vals \<Longrightarrow> switch_cases (of_nat a) (of_nat c) vals ! i =
     \<lparr>sc_st = of_nat (a + sum_list (map length (take i vals))), sc_len = of_nat (length (vals ! i)), sc_stmt = of_nat (c + i)\<rparr>"
proof (induction vals arbitrary: a c i)
  case (Cons v vals)
  show ?case
  proof (cases i)
    case (Suc j)
    have "switch_cases (of_nat a) (of_nat c) (v # vals) ! i = switch_cases (of_nat (a + length v)) (of_nat (c + 1)) vals ! j"
      using Suc by (simp add: ac_simps)
    also have "\<dots> = \<lparr>sc_st = of_nat (a + length v + sum_list (map length (take j vals))), sc_len = of_nat (length (vals ! j)),
        sc_stmt = of_nat (c + 1 + j)\<rparr>"
      using Cons.IH [of j "a + length v" "c + 1"] Cons.prems Suc by simp
    finally show ?thesis using Suc by (simp add: ac_simps)
  qed simp
qed simp

lemma sum_list_of_nat: "sum_list (map (\<lambda>v. of_nat (length v) :: u32) vals) = of_nat (sum_list (map length vals))"
  by (induction vals) auto

lemma sum_list_take_le: "i < length vals \<Longrightarrow> sum_list (map length (take i vals)) + length (vals ! i) \<le> sum_list (map length vals)"
proof (induction vals arbitrary: i)
  case (Cons v vals)
  then show ?case by (cases i) auto
qed simp

lemma concat_nth_slice:
  "i < length vals \<Longrightarrow> j < length (vals ! i) \<Longrightarrow> concat vals ! (sum_list (map length (take i vals)) + j) = vals ! i ! j"
proof (induction vals arbitrary: i)
  case (Cons v vals)
  then show ?case by (cases i) (auto simp: nth_append)
qed simp

lemma length_concat_sum: "length (concat vals) = sum_list (map length vals)"
  by (induction vals) auto

lemma map_opt_upt:
  "(\<And>i. i < length xs \<Longrightarrow> f i = Some (xs ! i)) \<Longrightarrow> map_opt f [0..<length xs] = Some xs"
  using map_opt_total [of "[0..<length xs]" f "\<lambda>i. xs ! i"] by (simp add: map_nth)

text \<open>
  C23. A switch statement gives back what it was built from: the value it switches on, the number of
  cases, the values of the i-th case and the statement of the i-th case, provided the indices
  fit 32 bits and there is one statement per case.
\<close>

theorem switch_roundtrip:
  assumes "mkSwitchStmt P func v vals stmts loc s = Some (x, t)" "length stmts = length vals"
    and "nd_heap s (nd_next s) = None"
    and "\<forall>k \<in> set (v # concat vals). as_expr k s \<noteq> None" "\<forall>k \<in> set stmts. as_stmt k s \<noteq> None"
    and "1 + length (concat vals) + length stmts < 2 ^ 32"
  shows "getSwitchStmtValue x t = Some v \<and> getSwitchStmtNumCases x t = Some (length vals) \<and>
     (\<forall>i < length vals. getSwitchStmtNthCase i x t = Some (vals ! i) \<and> getSwitchStmtNthStmt i x t = Some (stmts ! i))"
proof -
  let ?kids = "v # concat vals @ stmts"
  define d where "d = sw_next s"
  from assms(1) obtain b u where u: "mk_bnode N_SwitchStmt ?kids loc (StmtNode func) = Some b"
    "u = s\<lparr>sw_heap := (sw_heap s)(d \<mapsto> mk_SwitchDescriptor vals), sw_next := Suc d, swcases := swcases s @ [d],
        nd_next := Suc (nd_next s), nd_heap := (nd_heap s)(nd_next s \<mapsto> b\<lparr>nd_u := USw d\<rparr>)\<rparr>"
    "x = nd_next s" "archive_stmt P x u = Some t"
    by (auto simp: mkSwitchStmt_def new_bstatement_def mk_bstatement_def new_node_def set_u_def node_def set_node_def
        archived_stmt_def d_def Let_def bind_Some_iff)
  have "nd_heap u x = Some (b\<lparr>nd_u := USw d\<rparr>)" by (simp add: u(2,3))
  from archive_stmt_effect [OF u(4) this] obtain c where
    t: "nd_heap t x = Some c" "nd_kids c = nd_kids b" "nd_u c = USw d" "nd_flavor c = nd_flavor b"
      "sw_heap t d = Some (mk_SwitchDescriptor vals)" "\<And>k. k \<noteq> x \<Longrightarrow> nd_heap t k = nd_heap s k"
    by (auto simp: u(2,3))
  have b: "nd_kids c = ?kids" "nd_flavor c = N_SwitchStmt" using u(1) t by (auto simp: mk_bnode_def split: if_split_asm)
  have e: "as_expr k t = as_expr k s" if "as_expr k s \<noteq> None" for k
    using that assms(3) u(3) t(6) [of k] by (cases "k = x") (auto simp: as_expr_def node_def intro: as_expr_cong)
  have st: "as_stmt k t = as_stmt k s" if "as_stmt k s \<noteq> None" for k
    using that assms(3) u(3) t(6) [of k] by (cases "k = x") (auto simp: as_stmt_def node_def intro: as_stmt_cong)
  have ex: "\<exists>kb ke. as_expr k t = Some (kb, ke)" if "k \<in> set (v # concat vals)" for k
    using assms(4) e that by fastforce
  have val: "getSwitchStmtValue x t = Some v"
    using ex [of v] t(1) b by (auto simp: getSwitchStmtValue_def getNthChildAsExpr_def node_def)
  have desc: "getSwitchCases x t = Some (mk_SwitchDescriptor vals)"
    using t b by (simp add: getSwitchCases_def node_def)
  define n where "n = length (concat vals)"
  have mk: "mk_SwitchDescriptor vals = switch_cases (of_nat 1) (of_nat (1 + n)) vals"
    by (simp add: mk_SwitchDescriptor_def sum_list_of_nat n_def length_concat_sum)
  have "getSwitchStmtNthCase i x t = Some (vals ! i) \<and> getSwitchStmtNthStmt i x t = Some (stmts ! i)" if i: "i < length vals" for i
  proof -
    define a where "a = sum_list (map length (take i vals))"
    have nth: "nth_opt (mk_SwitchDescriptor vals) i =
        Some \<lparr>sc_st = of_nat (1 + a), sc_len = of_nat (length (vals ! i)), sc_stmt = of_nat (1 + n + i)\<rparr>"
      using i switch_cases_nth [OF i, of 1 "1 + n"] by (simp add: mk a_def del: of_nat_add of_nat_Suc)
    have le: "a + length (vals ! i) \<le> n"
      using sum_list_take_le [OF i] by (simp add: a_def n_def length_concat_sum)
    have bound: "1 + n + i < 2 ^ 32" using assms(2,6) i by (simp add: n_def)
    have len: "unat (of_nat (length (vals ! i)) :: u32) = length (vals ! i)"
      using le bound by (intro u32_of_nat) simp
    have case_i: "map_opt (\<lambda>ii. do { k \<leftarrow> nth_opt (nd_kids c) (unat (of_nat ii + (of_nat (1 + a) :: u32)));
        (kb, ke) \<leftarrow> as_expr k t; Some k }) [0..<length (vals ! i)] = Some (vals ! i)"
    proof (rule map_opt_upt)
      fix j assume j: "j < length (vals ! i)"
      have "unat (of_nat j + (of_nat (1 + a) :: u32)) = unat (of_nat (1 + a + j) :: u32)" by (simp add: ac_simps)
      also have "\<dots> = 1 + a + j" using le bound j by (intro u32_of_nat) simp
      finally have un: "unat (of_nat j + (of_nat (1 + a) :: u32)) = 1 + a + j" .
      have "concat vals ! (a + j) = vals ! i ! j" using concat_nth_slice [OF i j] by (simp add: a_def)
      then have k: "nth_opt (nd_kids c) (1 + a + j) = Some (vals ! i ! j)"
        using le j by (simp add: b nth_opt_def nth_append n_def)
      have "vals ! i ! j \<in> set (v # concat vals)" using i j by (auto intro: nth_mem)
      with ex k un show "(do { k \<leftarrow> nth_opt (nd_kids c) (unat (of_nat j + (of_nat (1 + a) :: u32)));
        (kb, ke) \<leftarrow> as_expr k t; Some k }) = Some (vals ! i ! j)"
        by (metis (no_types, lifting) bind.bind_lunit case_prod_conv)
    qed
    have "unat (of_nat (1 + n + i) :: u32) = 1 + n + i" using bound by (intro u32_of_nat) simp
    moreover have "nth_opt (nd_kids c) (1 + n + i) = Some (stmts ! i)"
      using i assms(2) by (simp add: b nth_opt_def nth_append n_def)
    moreover have "as_stmt (stmts ! i) t \<noteq> None" using assms(2,5) st i by (metis nth_mem)
    ultimately show ?thesis
      using desc nth t(1) case_i len
      by (auto simp: getSwitchStmtNthCase_def getSwitchStmtNthStmt_def node_def bind_Some_iff simp del: of_nat_add of_nat_Suc)
  qed
  with val desc show ?thesis by (simp add: getSwitchStmtNumCases_def mk)
qed

section \<open>Sharing, against a reference\<close>

text \<open>
  The reference: all edges of a tree, listed in the order of the walk, a node with each of its
  parents and slots, an instruction likewise.
\<close>

datatype edge = NodeEdge nref parslot | InstEdge vref parslot

fun edges :: "nat \<Rightarrow> nref \<Rightarrow> bstate \<Rightarrow> edge list option" where
  "edges 0 x s = None"
| "edges (Suc n) x s =
     do { b \<leftarrow> node x s;
          sub \<leftarrow> map_opt (\<lambda>(idx, child). do { es \<leftarrow> edges n child s; Some (es @ [NodeEdge child (x, of_nat idx)]) })
            (enumerate 0 (nd_kids b));
          e \<leftarrow> castToBexpression b;
          Some (concat sub @ (case e of None \<Rightarrow> []
            | Some d \<Rightarrow> map (\<lambda>(idx, i). InstEdge i (x, of_nat idx)) (enumerate 0 (e_insts d)))) }"

fun apply_edge :: "printers \<Rightarrow> bstate \<Rightarrow> edge \<Rightarrow> integ \<Rightarrow> integ option" where
  "apply_edge P s (NodeEdge c ps) ig = setParent P c (fst ps) (snd ps) s ig"
| "apply_edge P s (InstEdge i ps) ig = setParent_inst P i (fst ps) (snd ps) s ig"

lemma apply_edge_eta:
  "apply_edge P s (NodeEdge c ps) = setParent P c (fst ps) (snd ps) s"
  "apply_edge P s (InstEdge i ps) = setParent_inst P i (fst ps) (snd ps) s"
  by (auto simp: fun_eq_iff)

lemma fold_opt_map: "fold_opt f (map g xs) s = fold_opt (\<lambda>x. f (g x)) xs s"
proof (induction xs arbitrary: s)
  case (Cons x xs)
  then show ?case by (cases "f (g x) s") simp_all
qed simp

lemma fold_opt_concat:
  assumes "\<And>x ig. F x ig = do { es \<leftarrow> E x; fold_opt f (es @ [G x]) ig }"
  shows "fold_opt F xs ig = do { ess \<leftarrow> map_opt (\<lambda>x. do { es \<leftarrow> E x; Some (es @ [G x]) }) xs; fold_opt f (concat ess) ig }"
proof (induction xs arbitrary: ig)
  case (Cons x xs)
  show ?case
  proof (cases "E x")
    case (Some es)
    show ?thesis
    proof (cases "fold_opt f (es @ [G x]) ig")
      case None
      then have "fold_opt f ((es @ [G x]) @ zs) ig = None" for zs by (simp only: fold_opt_append [of f "es @ [G x]"]) simp
      with None Some show ?thesis by (simp add: assms bind_eq_None_conv)
    next
      case (Some ig')
      then have "fold_opt f ((es @ [G x]) @ zs) ig = fold_opt f zs ig'" for zs by (simp only: fold_opt_append [of f "es @ [G x]"]) simp
      with Some \<open>E x = Some es\<close> Cons show ?thesis by (simp add: assms)
    qed
  qed (simp add: assms)
qed simp

lemma visit_edges: "visit n P x s ig = do { es \<leftarrow> edges n x s; fold_opt (apply_edge P s) es ig }"
proof (induction n arbitrary: x ig)
  case (Suc n)
  show ?case
  proof (cases "node x s")
    case (Some b)
    have kids: "fold_opt (\<lambda>(idx, child) ig. do { ig \<leftarrow> visit n P child s ig; setParent P child x (of_nat idx) s ig }) ks ig =
      do { ess \<leftarrow> map_opt (\<lambda>ic. do { es \<leftarrow> edges n (snd ic) s; Some (es @ [NodeEdge (snd ic) (x, of_nat (fst ic))]) }) ks;
           fold_opt (apply_edge P s) (concat ess) ig }" for ks ig
      by (rule fold_opt_concat) (auto simp: Suc fold_opt_append fold_opt.simps [abs_def] fun_eq_iff split: prod.split)
    show ?thesis
    proof (cases "map_opt (\<lambda>(idx, child). do { es \<leftarrow> edges n child s; Some (es @ [NodeEdge child (x, of_nat idx)]) })
        (enumerate 0 (nd_kids b))")
      case None
      with Some kids show ?thesis by (simp add: case_prod_unfold)
    next
      case (Some ess)
      with \<open>node x s = Some b\<close> kids show ?thesis
        by (cases "castToBexpression b")
           (auto simp: case_prod_unfold fold_opt_append fold_opt_map apply_edge_eta split: option.split)
    qed
  qed simp
qed simp

definition shared :: "('a \<times> 'b) list \<Rightarrow> bool" where
  "shared es \<longleftrightarrow> (\<exists>c p q. (c, p) \<in> set es \<and> (c, q) \<in> set es \<and> p \<noteq> q)"

fun node_edges :: "TreeIntegCtl \<Rightarrow> bstate \<Rightarrow> edge list \<Rightarrow> (nref \<times> parslot) list" where
  "node_edges ctl s [] = []"
| "node_edges ctl s (NodeEdge c ps # es) =
     (if shouldBeTracked (mk_integ ctl) c s = Some True then (c, ps) # node_edges ctl s es else node_edges ctl s es)"
| "node_edges ctl s (InstEdge i ps # es) = node_edges ctl s es"

fun inst_edges :: "edge list \<Rightarrow> (vref \<times> parslot) list" where
  "inst_edges [] = []"
| "inst_edges (NodeEdge c ps # es) = inst_edges es"
| "inst_edges (InstEdge i ps # es) = (i, ps) # inst_edges es"

lemma node_edges_append [simp]: "node_edges ctl s (es @ fs) = node_edges ctl s es @ node_edges ctl s fs"
  by (induction ctl s es rule: node_edges.induct) auto

lemma inst_edges_append [simp]: "inst_edges (es @ fs) = inst_edges es @ inst_edges fs"
  by (induction es rule: inst_edges.induct) auto

lemma shouldBeTracked_ctl: "shouldBeTracked ig c s = shouldBeTracked (mk_integ (ig_control ig)) c s"
  by (simp add: shouldBeTracked_def mk_integ_def)

text \<open>A table of parents that has an entry for every child seen, each one of those seen.\<close>

definition parents_of :: "('a \<rightharpoonup> 'b) \<Rightarrow> ('a \<times> 'b) list \<Rightarrow> bool" where
  "parents_of m es \<longleftrightarrow> (\<forall>c p. m c = Some p \<longrightarrow> (c, p) \<in> set es) \<and> fst ` set es \<subseteq> dom m"

lemma parents_new: "parents_of m es \<Longrightarrow> m c = None \<Longrightarrow> parents_of (m(c \<mapsto> p)) (es @ [(c, p)]) \<and> shared (es @ [(c, p)]) = shared es"
  unfolding parents_of_def shared_def by (auto simp: image_subset_iff dom_def)

lemma parents_same: "parents_of m es \<Longrightarrow> m c = Some p \<Longrightarrow> parents_of m (es @ [(c, p)]) \<and> shared (es @ [(c, p)]) = shared es"
  unfolding parents_of_def shared_def by (auto simp: image_subset_iff dom_def)

lemma parents_other:
  "parents_of m es \<Longrightarrow> m c = Some q \<Longrightarrow> p \<noteq> q \<Longrightarrow>
     parents_of (m(c \<mapsto> p)) (es @ [(c, p)]) \<and> parents_of m (es @ [(c, p)]) \<and> shared (es @ [(c, p)])"
  unfolding parents_of_def shared_def by (auto simp: image_subset_iff dom_def)

definition integ_inv :: "TreeIntegCtl \<Rightarrow> bstate \<Rightarrow> edge list \<Rightarrow> integ \<Rightarrow> bool" where
  "integ_inv ctl s es ig \<longleftrightarrow> ig_control ig = ctl \<and>
     parents_of (nparent ig) (node_edges ctl s es) \<and> parents_of (iparent ig) (inst_edges es) \<and>
     unat (stmtShareCount ig) + unat (exprShareCount ig) \<le> length es \<and> unat (instShareCount ig) \<le> length es \<and>
     (unat (stmtShareCount ig) + unat (exprShareCount ig) = 0 \<longleftrightarrow> \<not> shared (node_edges ctl s es)) \<and>
     (unat (instShareCount ig) = 0 \<longleftrightarrow> \<not> shared (inst_edges es))"

lemma unat_add1: "unat (w :: u32) < n \<Longrightarrow> n < 2 ^ 32 \<Longrightarrow> unat (w + 1) = Suc (unat w)"
  by (simp add: unat_word_ariths)

lemma setParent_inst_inv:
  assumes "integ_inv ctl s es ig" "setParent_inst P i (fst ps) (snd ps) s ig = Some ig'" "Suc (length es) < 2 ^ 32"
  shows "integ_inv ctl s (es @ [InstEdge i ps]) ig'"
proof -
  note inv = assms(1) [unfolded integ_inv_def]
  have pi: "parents_of (iparent ig) (inst_edges es)" using inv by blast
  show ?thesis
  proof (cases "iparent ig i")
    case None
    with assms(2) have "ig' = ig\<lparr>iparent := (iparent ig)(i \<mapsto> ps)\<rparr>" by (auto simp: setParent_inst_def)
    with inv parents_new [OF pi None] show ?thesis by (auto simp: integ_inv_def)
  next
    case (Some q)
    show ?thesis
    proof (cases "q = ps")
      case True
      with assms(2) Some have "ig' = ig" by (auto simp: setParent_inst_def)
      with inv parents_same [OF pi, of i ps] Some True show ?thesis by (auto simp: integ_inv_def)
    next
      case False
      with assms(2) Some obtain m where "ig' = ig\<lparr>instShareCount := instShareCount ig + 1, ig_msg := m\<rparr>"
        by (auto simp: setParent_inst_def bind_Some_iff)
      moreover have "unat (instShareCount ig + 1) = Suc (unat (instShareCount ig))"
        using inv assms(3) by (intro unat_add1 [of _ "Suc (length es)"]) auto
      ultimately show ?thesis using inv parents_other [OF pi Some, of ps] False by (auto simp: integ_inv_def)
    qed
  qed
qed

lemma count_share_nparent [simp]: "nparent (count_share b ig) = nparent ig"
  by (simp add: count_share_def)

lemma setParent_inv:
  assumes "integ_inv ctl s es ig" "setParent P c (fst ps) (snd ps) s ig = Some ig'" "Suc (length es) < 2 ^ 32"
  shows "integ_inv ctl s (es @ [NodeEdge c ps]) ig'"
proof -
  note inv = assms(1) [unfolded integ_inv_def]
  have pi: "parents_of (nparent ig) (node_edges ctl s es)" and ctl: "ig_control ig = ctl" using inv by blast+
  obtain t where t: "shouldBeTracked (mk_integ ctl) c s = Some t"
    using assms(2) by (auto simp: setParent_def bind_Some_iff shouldBeTracked_ctl [of ig] ctl)
  show ?thesis
  proof (cases t)
    case False
    with assms(2) t have "ig' = ig" by (auto simp: setParent_def bind_Some_iff shouldBeTracked_ctl [of ig] ctl)
    with inv t False show ?thesis by (auto simp: integ_inv_def)
  next
    case True
    show ?thesis
    proof (cases "nparent ig c")
      case None
      with assms(2) t True have "ig' = ig\<lparr>nparent := (nparent ig)(c \<mapsto> ps)\<rparr>"
        by (auto simp: setParent_def bind_Some_iff shouldBeTracked_ctl [of ig] ctl)
      with inv parents_new [OF pi None] t True show ?thesis by (auto simp: integ_inv_def)
    next
      case (Some q)
      show ?thesis
      proof (cases "q = ps")
        case True
        with assms(2) Some t \<open>t\<close> have "ig' = ig" by (auto simp: setParent_def bind_Some_iff shouldBeTracked_ctl [of ig] ctl)
        with inv parents_same [OF pi, of c ps] Some True t \<open>t\<close> show ?thesis by (auto simp: integ_inv_def)
      next
        case False
        with assms(2) Some t True obtain b m sh where ig': "ig' = (count_share b ig)\<lparr>ig_msg := m, sharing := sh, nparent := (nparent ig)(c \<mapsto> ps)\<rparr>"
          by (auto simp: setParent_def bind_Some_iff Let_def shouldBeTracked_ctl [of ig] ctl)
        have "unat (stmtShareCount ig + 1) = Suc (unat (stmtShareCount ig))" "unat (exprShareCount ig + 1) = Suc (unat (exprShareCount ig))"
          using inv assms(3) by (intro unat_add1 [of _ "Suc (length es)"]; auto)+
        with ig' inv parents_other [OF pi Some, of ps] False t True show ?thesis by (cases b) (auto simp: integ_inv_def count_share_def)
      qed
    qed
  qed
qed

lemma integ_run_inv:
  "fold_opt (apply_edge P s) es (mk_integ ctl) = Some ig \<Longrightarrow> length es < 2 ^ 32 \<Longrightarrow> integ_inv ctl s es ig"
proof (induction es arbitrary: ig rule: rev_induct)
  case Nil
  then show ?case by (auto simp: integ_inv_def parents_of_def shared_def mk_integ_def)
next
  case (snoc e es)
  then obtain ig1 where ig1: "fold_opt (apply_edge P s) es (mk_integ ctl) = Some ig1" "apply_edge P s e ig1 = Some ig"
    by (auto simp: fold_opt_append bind_Some_iff)
  have "integ_inv ctl s es ig1" using snoc ig1(1) by simp
  then show ?case using ig1(2) snoc.prems(2)
    by (cases e) (auto intro: setParent_inv setParent_inst_inv)
qed

text \<open>
  C22. The tree integrity check is right: without repair, it accepts a tree if and only if no
  tracked node hangs in two slots and no instruction belongs to two expressions or occurs twice
  in one.
\<close>

theorem examine_iff_unshared:
  assumes "examine n P x (mk_integ ctl) s = Some (ok, ig, t)" "repairDisp ctl = DontRepairSharing"
    and "edges n x s = Some es" "length es < 2 ^ 32"
  shows "ok \<longleftrightarrow> \<not> shared (node_edges ctl s es) \<and> \<not> shared (inst_edges es)"
proof -
  from assms(1) obtain ig1 where v: "visit n P x s (mk_integ ctl) = Some ig1" by (auto simp: examine_def bind_Some_iff)
  with assms(3) have "fold_opt (apply_edge P s) es (mk_integ ctl) = Some ig1" by (simp add: visit_edges)
  then have inv: "integ_inv ctl s es ig1" using assms(4) by (rule integ_run_inv)
  then have "repairDisp (ig_control ig1) \<noteq> RepairSharing" using assms(2) by (simp add: integ_inv_def)
  with assms(1) v have "ok \<longleftrightarrow> instShareCount ig1 = 0 \<and> stmtShareCount ig1 = 0 \<and> exprShareCount ig1 = 0"
    by (auto simp: examine_def split: if_split_asm)
  with inv show ?thesis by (auto simp: integ_inv_def unat_eq_0)
qed

section \<open>Cloning\<close>

fun vref_id :: "vref \<Rightarrow> nat" where
  "vref_id (InstV i) = i"
| "vref_id (AllocaV i) = i"
| "vref_id (ConstantV i) = i"
| "vref_id (FunctionV i) = i"
| "vref_id (GlobalV i) = i"
| "vref_id (ArgumentV i) = i"

definition ir_fresh :: "irmem \<Rightarrow> bool" where
  "ir_fresh m \<longleftrightarrow> (\<forall>v. ir_operands m v \<noteq> None \<longrightarrow> vref_id v < ir_next m)"

definition fresh_state :: "bstate \<Rightarrow> bool" where
  "fresh_state s \<longleftrightarrow> (\<forall>x. nd_heap s x \<noteq> None \<longrightarrow> x < nd_next s) \<and> ir_fresh (nd_ir s)"

text \<open>Nodes and instructions are only added.\<close>

definition extends :: "bstate \<Rightarrow> bstate \<Rightarrow> bool" where
  "extends s t \<longleftrightarrow> nd_heap s \<subseteq>\<^sub>m nd_heap t \<and> nd_next s \<le> nd_next t \<and>
     ir_operands (nd_ir s) \<subseteq>\<^sub>m ir_operands (nd_ir t) \<and> ir_next (nd_ir s) \<le> ir_next (nd_ir t)"

lemma extends_refl [simp]: "extends s s"
  by (simp add: extends_def)

lemma extends_trans: "extends s t \<Longrightarrow> extends t u \<Longrightarrow> extends s u"
  by (auto simp: extends_def intro: map_le_trans)

lemma extends_node: "extends s t \<Longrightarrow> nd_heap s x = Some b \<Longrightarrow> nd_heap t x = Some b"
  by (auto simp: extends_def map_le_def dom_def)

lemma vref_id_fresh_ref [simp]: "vref_id (fresh_ref v i) = i"
  by (cases v) (simp_all add: fresh_ref_def)

lemma fold_opt_skip: "(\<And>x s. x \<in> set xs \<Longrightarrow> f x s = Some s) \<Longrightarrow> fold_opt f xs s = Some s"
  by (induction xs) auto

lemma clone_one_empty:
  assumes "clone_one Map.empty inst m = Some (icl, m')" "ir_fresh m"
  shows "vref_id icl = ir_next m \<and> ir_next m' = Suc (ir_next m) \<and> ir_fresh m' \<and> ir_operands m \<subseteq>\<^sub>m ir_operands m' \<and>
     ir_operands m' icl = ir_operands m inst \<and> ir_operands m inst \<noteq> None"
proof -
  from assms(1) obtain m1 where m1: "clone_inst inst m = Some (icl, m1)" "m' = set_name icl (ir_name m1 inst) m1"
    by (auto simp: clone_one_def bind_Some_iff fold_opt_skip simp del: check_bind)
  from m1(1) obtain ops where ops: "ir_operands m inst = Some ops" "icl = fresh_ref inst (ir_next m)"
    and m2: "ir_operands m1 = (ir_operands m)(icl \<mapsto> ops)" "ir_next m1 = Suc (ir_next m)"
    by (auto simp: clone_inst_def bind_Some_iff Let_def simp del: check_bind)
  have "ir_operands m icl = None" using assms(2) ops(2) unfolding ir_fresh_def by (metis less_irrefl vref_id_fresh_ref)
  moreover have "ir_operands m' = (ir_operands m)(icl \<mapsto> ops)" "ir_next m' = Suc (ir_next m)"
    using m2 by (simp_all add: m1(2) set_name_def)
  ultimately show ?thesis using assms(2) ops(1,2) by (auto simp: ir_fresh_def map_le_def less_Suc_eq)
qed

text \<open>The instructions of the clone: new ones, with the operands of the originals.\<close>

lemma clone_insts_effect:
  assumes "clone_insts Map.empty iv res insts newv s = Some (nv, t)" "ir_fresh (nd_ir s)"
    and "nd_heap s res = Some c" "nd_data c = ExprNode d" "\<not> isStmt_fl (nd_flavor c)"
    and "\<forall>i \<in> set insts. ir_operands (nd_ir s) i \<noteq> None"
  shows "\<exists>is. nd_heap t = (nd_heap s)(res \<mapsto> c\<lparr>nd_data := ExprNode (d\<lparr>e_insts := e_insts d @ is\<rparr>)\<rparr>) \<and> nd_next t = nd_next s \<and>
     ir_fresh (nd_ir t) \<and> ir_next (nd_ir s) \<le> ir_next (nd_ir t) \<and> ir_operands (nd_ir s) \<subseteq>\<^sub>m ir_operands (nd_ir t) \<and>
     list_all2 (\<lambda>i j. ir_next (nd_ir s) \<le> vref_id j \<and> ir_operands (nd_ir t) j = ir_operands (nd_ir s) i) insts is \<and>
     (nv = newv \<or> nv = iv)"
  using assms
proof (induction insts arbitrary: newv s c d)
  case Nil
  moreover have "c\<lparr>nd_data := ExprNode d\<rparr> = c" using Nil.prems(4) by simp
  ultimately show ?case by (intro exI [of _ "[]"]) auto
next
  case (Cons inst insts)
  from Cons.prems(1) obtain n1 icl m u where r: "n1 = newv \<or> n1 = iv" "clone_one Map.empty inst (nd_ir s) = Some (icl, m)"
    "appendInstruction res icl (s\<lparr>nd_ir := m\<rparr>) = Some u" "clone_insts Map.empty iv res insts n1 u = Some (nv, t)"
    by (auto simp: bind_Some_iff split: if_split_asm)
  note one = clone_one_empty [OF r(2) Cons.prems(2)]
  let ?d = "d\<lparr>e_insts := e_insts d @ [icl]\<rparr>"
  let ?c = "c\<lparr>nd_data := ExprNode ?d\<rparr>"
  have u: "nd_heap u = (nd_heap s)(res \<mapsto> ?c)" "nd_next u = nd_next s" "nd_ir u = m"
    using r(3) Cons.prems(3-5)
    by (auto simp: appendInstruction_def as_expr_def node_def castToBexpression_def append_instruction_def set_expr_def
        set_node_def bind_Some_iff split: if_split_asm)
  have "ir_fresh (nd_ir u)" "nd_heap u res = Some ?c" "nd_data ?c = ExprNode ?d" "\<not> isStmt_fl (nd_flavor ?c)"
    using one u Cons.prems(5) by simp_all
  moreover have same: "ir_operands (nd_ir u) i = ir_operands (nd_ir s) i" if "i \<in> set (inst # insts)" for i
    using one u(3) Cons.prems(6) that by (auto simp: map_le_def dom_def)
  ultimately obtain js where js:
    "nd_heap t = (nd_heap u)(res \<mapsto> ?c\<lparr>nd_data := ExprNode (?d\<lparr>e_insts := e_insts ?d @ js\<rparr>)\<rparr>)" "nd_next t = nd_next u"
    "ir_fresh (nd_ir t)" "ir_next (nd_ir u) \<le> ir_next (nd_ir t)" "ir_operands (nd_ir u) \<subseteq>\<^sub>m ir_operands (nd_ir t)"
    "list_all2 (\<lambda>i j. ir_next (nd_ir u) \<le> vref_id j \<and> ir_operands (nd_ir t) j = ir_operands (nd_ir u) i) insts js"
    "nv = n1 \<or> nv = iv" using Cons.IH [OF r(4)] Cons.prems(6) by force
  have "ir_operands (nd_ir t) icl = ir_operands (nd_ir s) inst"
    using one js(5) u(3) by (auto simp: map_le_def dom_def)
  then have "list_all2 (\<lambda>i j. ir_next (nd_ir s) \<le> vref_id j \<and> ir_operands (nd_ir t) j = ir_operands (nd_ir s) i)
      (inst # insts) (icl # js)"
    using one u(3) js(6) same by (auto elim!: list.rel_mono_strong)
  moreover have "nd_heap t = (nd_heap s)(res \<mapsto> c\<lparr>nd_data := ExprNode (d\<lparr>e_insts := e_insts d @ icl # js\<rparr>)\<rparr>)"
    using js(1) u(1) by simp
  moreover have "ir_next (nd_ir s) \<le> ir_next (nd_ir t)" "ir_operands (nd_ir s) \<subseteq>\<^sub>m ir_operands (nd_ir t)"
    using one u(3) js(4,5) by (auto intro: map_le_trans)
  ultimately show ?case using js(2,3,7) r(1) u(2) by (intro exI [of _ "icl # js"]) auto
qed

text \<open>Children and instructions of live nodes are live.\<close>

definition closed_state :: "bstate \<Rightarrow> bool" where
  "closed_state s \<longleftrightarrow> (\<forall>x b. nd_heap s x = Some b \<longrightarrow>
     (\<forall>k \<in> set (nd_kids b). nd_heap s k \<noteq> None) \<and>
     (\<forall>e. nd_data b = ExprNode e \<longrightarrow> (\<forall>i \<in> set (e_insts e). ir_operands (nd_ir s) i \<noteq> None)))"

text \<open>
  \<open>y\<close> is, in \<open>t\<close>, a copy of the tree \<open>x\<close> of \<open>s\<close> made of nodes and instructions \<open>s\<close> does not have; the value
  of every copied expression is the one of the original.
\<close>

fun clone_of :: "nat \<Rightarrow> bstate \<Rightarrow> bstate \<Rightarrow> nref \<Rightarrow> nref \<Rightarrow> bool" where
  "clone_of 0 s t x y = False"
| "clone_of (Suc n) s t x y \<longleftrightarrow>
     (\<exists>b c e d. nd_heap s x = Some b \<and> nd_heap t y = Some c \<and> nd_data b = ExprNode e \<and> nd_data c = ExprNode d \<and>
        nd_flavor c = nd_flavor b \<and> nd_u c = nd_u b \<and> nd_loc c = nd_loc b \<and> e_btype d = e_btype e \<and> e_value d = e_value e \<and>
        nd_next s \<le> y \<and>
        list_all2 (\<lambda>i j. ir_next (nd_ir s) \<le> vref_id j \<and> ir_operands (nd_ir t) j = ir_operands (nd_ir s) i) (e_insts e) (e_insts d) \<and>
        list_all2 (\<lambda>k l. clone_of n s t k l) (nd_kids b) (nd_kids c))"

lemma ir_operands_le: "ir_operands m \<subseteq>\<^sub>m ir_operands m' \<Longrightarrow> ir_operands m i \<noteq> None \<Longrightarrow> ir_operands m' i = ir_operands m i"
  by (auto simp: map_le_def dom_def)

lemma clone_of_mono:
  "clone_of n s' t x y \<Longrightarrow> extends s s' \<Longrightarrow> extends t t' \<Longrightarrow> closed_state s \<Longrightarrow> nd_heap s x \<noteq> None \<Longrightarrow> clone_of n s t' x y"
proof (induction n arbitrary: x y)
  case (Suc n)
  from Suc.prems(5) obtain b where b: "nd_heap s x = Some b" by auto
  with Suc.prems(1) extends_node [OF Suc.prems(2) b] obtain c e d where
    c: "nd_heap t y = Some c" "nd_data b = ExprNode e" "nd_data c = ExprNode d"
      "nd_flavor c = nd_flavor b" "nd_u c = nd_u b" "nd_loc c = nd_loc b" "e_btype d = e_btype e" "e_value d = e_value e"
      "nd_next s' \<le> y"
    and insts: "list_all2 (\<lambda>i j. ir_next (nd_ir s') \<le> vref_id j \<and> ir_operands (nd_ir t) j = ir_operands (nd_ir s') i) (e_insts e) (e_insts d)"
    and ks: "list_all2 (\<lambda>k l. clone_of n s' t k l) (nd_kids b) (nd_kids c)" by auto
  have live: "ir_operands (nd_ir s) i \<noteq> None" if "i \<in> set (e_insts e)" for i
    using Suc.prems(4) b c(2) that unfolding closed_state_def by blast
  have kid: "nd_heap s k \<noteq> None" if "k \<in> set (nd_kids b)" for k
    using Suc.prems(4) b that unfolding closed_state_def by blast
  have le: "ir_operands (nd_ir s) \<subseteq>\<^sub>m ir_operands (nd_ir s')" "ir_operands (nd_ir t) \<subseteq>\<^sub>m ir_operands (nd_ir t')"
    "ir_next (nd_ir s) \<le> ir_next (nd_ir s')" "nd_next s \<le> nd_next s'"
    using Suc.prems(2,3) by (auto simp: extends_def)
  have "list_all2 (\<lambda>i j. ir_next (nd_ir s) \<le> vref_id j \<and> ir_operands (nd_ir t') j = ir_operands (nd_ir s) i) (e_insts e) (e_insts d)"
    using insts
  proof (rule list.rel_mono_strong)
    fix i j assume ij: "i \<in> set (e_insts e)" "ir_next (nd_ir s') \<le> vref_id j \<and> ir_operands (nd_ir t) j = ir_operands (nd_ir s') i"
    have "ir_operands (nd_ir s') i = ir_operands (nd_ir s) i" using ir_operands_le [OF le(1) live [OF ij(1)]] .
    with ij(2) live [OF ij(1)] ir_operands_le [OF le(2), of j] le(3)
    show "ir_next (nd_ir s) \<le> vref_id j \<and> ir_operands (nd_ir t') j = ir_operands (nd_ir s) i" by auto
  qed
  moreover have "list_all2 (\<lambda>k l. clone_of n s t' k l) (nd_kids b) (nd_kids c)"
    using ks by (rule list.rel_mono_strong) (use Suc.IH [OF _ Suc.prems(2-4)] kid in blast)
  moreover have "nd_next s \<le> y" using c(9) le(4) by simp
  ultimately show ?case using b c extends_node [OF Suc.prems(3) c(1)] by auto
qed simp

definition good_state :: "bstate \<Rightarrow> bool" where
  "good_state s \<longleftrightarrow> fresh_state s \<and> closed_state s"

lemma map_clone:
  assumes "\<And>c u v y. clone c u = Some (y, v) \<Longrightarrow> good_state u \<Longrightarrow> nd_heap u c \<noteq> None \<Longrightarrow>
      extends u v \<and> good_state v \<and> clone_of n u v c y"
  shows "map_st (\<lambda>c s. do { (cb, ce) \<leftarrow> as_expr c s; clone c s }) ks u = Some (ys, v) \<Longrightarrow> good_state u \<Longrightarrow>
      \<forall>k \<in> set ks. nd_heap u k \<noteq> None \<Longrightarrow> extends u v \<and> good_state v \<and> list_all2 (\<lambda>k l. clone_of n u v k l) ks ys"
proof (induction ks arbitrary: u ys)
  case (Cons k ks)
  then obtain y w zs where w: "clone k u = Some (y, w)" and rest: "map_st (\<lambda>c s. do { (cb, ce) \<leftarrow> as_expr c s; clone c s }) ks w = Some (zs, v)"
    and ys: "ys = y # zs" by (auto simp: bind_Some_iff case_prod_unfold)
  from assms [OF w Cons.prems(2)] Cons.prems(3) have uw: "extends u w" "good_state w" "clone_of n u w k y" by auto
  have "\<forall>k \<in> set ks. nd_heap w k \<noteq> None" using Cons.prems(3) extends_node [OF uw(1)] by fastforce
  from Cons.IH [OF rest uw(2) this] have wv: "extends w v" "good_state v" "list_all2 (\<lambda>k l. clone_of n w v k l) ks zs" by auto
  have closed: "closed_state u" using Cons.prems(2) by (simp add: good_state_def)
  have "clone_of n u v k y"
    using clone_of_mono [OF uw(3) extends_refl wv(1) closed] Cons.prems(3) by simp
  moreover have "list_all2 (\<lambda>k l. clone_of n u v k l) ks zs"
    using wv(3) by (rule list.rel_mono_strong) (use clone_of_mono [OF _ uw(1) extends_refl closed] Cons.prems(3) in auto)
  ultimately show ?case using ys uw wv by (auto intro: extends_trans)
qed simp

lemma list_all2_back: "list_all2 R xs ys \<Longrightarrow> y \<in> set ys \<Longrightarrow> \<exists>x \<in> set xs. R x y"
  by (induction rule: list_all2_induct) auto

lemma extends_new:
  "good_state s \<Longrightarrow> nd_heap t = (nd_heap s)(nd_next s \<mapsto> b) \<Longrightarrow> nd_next t = Suc (nd_next s) \<Longrightarrow>
     ir_operands (nd_ir s) \<subseteq>\<^sub>m ir_operands (nd_ir t) \<Longrightarrow> ir_next (nd_ir s) \<le> ir_next (nd_ir t) \<Longrightarrow> extends s t"
  by (auto simp: extends_def good_state_def fresh_state_def map_le_def dom_def)

lemma cloneSub_clone:
  "cloneSub n P x Map.empty s = Some (y, t) \<Longrightarrow> good_state s \<Longrightarrow> nd_heap s x \<noteq> None \<Longrightarrow>
     extends s t \<and> good_state t \<and> clone_of n s t x y"
proof (induction n arbitrary: x s y t)
  case (Suc n)
  let ?clone = "\<lambda>c s. cloneSub n P c Map.empty s"
  from Suc.prems(1) obtain b u ys where b: "nd_heap s x = Some b"
    and ys: "map_st (\<lambda>c s. do { (cb, ce) \<leftarrow> as_expr c s; ?clone c s }) (nd_kids b) s = Some (ys, u)"
    by (auto simp: bind_Some_iff node_def case_prod_unfold)
  have closed: "closed_state s" using Suc.prems(2) by (simp add: good_state_def)
  have kids: "\<forall>k \<in> set (nd_kids b). nd_heap s k \<noteq> None" using closed b unfolding closed_state_def by blast
  have su: "extends s u" "good_state u" and clones: "list_all2 (\<lambda>k l. clone_of n s u k l) (nd_kids b) ys"
    using map_clone [where clone = ?clone and n = n, OF Suc.IH ys Suc.prems(2) kids] by auto
  from extends_node [OF su(1) b] have bu: "nd_heap u x = Some b" .
  from Suc.prems(1) ys b bu obtain e rb v w nv z where e: "as_expr x u = Some (b, e)" "copy_bexpression b = Some rb"
    "archive_expr P (nd_next u) (snd (new_node rb u)) = Some v" "set_kids (nd_next u) ys v = Some w"
    "clone_insts Map.empty (e_value e) (nd_next u) (e_insts e) None w = Some (nv, z)"
    "(case nv of None \<Rightarrow> Some z | Some v \<Rightarrow> setValue (nd_next u) v z) = Some t" "y = nd_next u"
    by (auto simp: bind_Some_iff node_def case_prod_unfold as_expr_def new_node_def cong: option.case_cong)
  from e(1) have be: "nd_data b = ExprNode e" "\<not> isStmt_fl (nd_flavor b)"
    by (auto simp: as_expr_def bind_Some_iff castToBexpression_def node_def bu split: if_split_asm ndata.split_asm)
  define d0 where "d0 = \<lparr>e_value = e_value e, e_btype = e_btype e, e_tag = '''', e_ctx = mk_varctx, e_insts = []\<rparr>"
  have rb: "rb = \<lparr>nd_kids = [], nd_u = nd_u b, nd_loc = nd_loc b, nd_flavor = nd_flavor b, nd_id = 0xfeedface, nd_data = ExprNode d0\<rparr>"
    using e(2) be by (simp add: copy_bexpression_def copy_bnode_def d0_def)
  have "nd_heap (snd (new_node rb u)) (nd_next u) = Some rb" by (simp add: new_node_def)
  from archive_expr_effect [OF e(3) this] obtain i where
    v: "nd_heap v = (nd_heap u)(nd_next u \<mapsto> rb\<lparr>nd_id := i\<rparr>)" "nd_next v = Suc (nd_next u)" "nd_ir v = nd_ir u"
    by (auto simp: new_node_def)
  let ?c = "rb\<lparr>nd_id := i, nd_kids := ys\<rparr>"
  have w: "nd_heap w = (nd_heap u)(nd_next u \<mapsto> ?c)" "nd_next w = Suc (nd_next u)" "nd_ir w = nd_ir u"
    using e(4) v by (auto simp: set_kids_def node_def set_node_def)
  have fresh: "ir_fresh (nd_ir w)" using su(2) w(3) by (simp add: good_state_def fresh_state_def)
  have live: "\<forall>i \<in> set (e_insts e). ir_operands (nd_ir w) i \<noteq> None"
    using su(2) bu be(1) unfolding good_state_def closed_state_def w(3) by blast
  have wc: "nd_heap w (nd_next u) = Some ?c" "nd_data ?c = ExprNode d0" "\<not> isStmt_fl (nd_flavor ?c)"
    using w be by (simp_all add: rb)
  from clone_insts_effect [OF e(5) fresh wc live] obtain js where js:
    "nd_heap z = (nd_heap w)(nd_next u \<mapsto> ?c\<lparr>nd_data := ExprNode (d0\<lparr>e_insts := e_insts d0 @ js\<rparr>)\<rparr>)" "nd_next z = nd_next w"
    "ir_fresh (nd_ir z)" "ir_next (nd_ir w) \<le> ir_next (nd_ir z)" "ir_operands (nd_ir w) \<subseteq>\<^sub>m ir_operands (nd_ir z)"
    "list_all2 (\<lambda>i j. ir_next (nd_ir w) \<le> vref_id j \<and> ir_operands (nd_ir z) j = ir_operands (nd_ir w) i) (e_insts e) js"
    "nv = None \<or> nv = e_value e" by blast
  let ?d = "d0\<lparr>e_insts := js\<rparr>"
  have zc: "nd_heap z = (nd_heap u)(nd_next u \<mapsto> ?c\<lparr>nd_data := ExprNode ?d\<rparr>)" using js(1) w(1) by (simp add: d0_def)
  have t: "nd_heap t = nd_heap z" "nd_next t = nd_next z" "nd_ir t = nd_ir z"
  proof (atomize (full), cases nv)
    case (Some v0)
    with js(7) have "d0\<lparr>e_insts := js, e_value := Some v0\<rparr> = ?d" by (auto simp: d0_def)
    with Some e(6) zc be(2) show "nd_heap t = nd_heap z \<and> nd_next t = nd_next z \<and> nd_ir t = nd_ir z"
      by (auto simp: setValue_def set_expr_def as_expr_def node_def castToBexpression_def set_node_def bind_Some_iff rb)
  qed (use e(6) in simp)
  let ?r = "?c\<lparr>nd_data := ExprNode ?d\<rparr>"
  have th: "nd_heap t = (nd_heap u)(nd_next u \<mapsto> ?r)" "nd_next t = Suc (nd_next u)" using t zc js(2) w(2) by simp_all
  have ir: "ir_operands (nd_ir u) \<subseteq>\<^sub>m ir_operands (nd_ir t)" "ir_next (nd_ir u) \<le> ir_next (nd_ir t)" "ir_fresh (nd_ir t)"
    using js(3,4,5) w(3) t(3) by simp_all
  have ut: "extends u t" using extends_new [OF su(2) th ir(1,2)] .
  have "good_state t"
    unfolding good_state_def fresh_state_def
  proof (intro conjI)
    show "\<forall>z. nd_heap t z \<noteq> None \<longrightarrow> z < nd_next t"
      using su(2) th unfolding good_state_def fresh_state_def by (auto simp: less_Suc_eq)
    show "ir_fresh (nd_ir t)" by (rule ir(3))
    have yl: "nd_heap u l \<noteq> None" if "l \<in> set ys" for l
    proof -
      from list_all2_back [OF clones that] obtain k where "clone_of n s u k l" by blast
      then show ?thesis by (cases n) auto
    qed
    have jl: "ir_operands (nd_ir t) j \<noteq> None" if "j \<in> set js" for j
    proof -
      from list_all2_back [OF js(6) that] obtain i where "i \<in> set (e_insts e)" "ir_operands (nd_ir z) j = ir_operands (nd_ir w) i"
        by blast
      with live show ?thesis by (simp add: t(3))
    qed
    show "closed_state t"
      unfolding closed_state_def
    proof (intro allI impI)
      fix q r assume r: "nd_heap t q = Some r"
      show "(\<forall>k \<in> set (nd_kids r). nd_heap t k \<noteq> None) \<and>
          (\<forall>e. nd_data r = ExprNode e \<longrightarrow> (\<forall>i \<in> set (e_insts e). ir_operands (nd_ir t) i \<noteq> None))"
      proof (cases "q = nd_next u")
        case True
        with r have "r = ?r" by (simp add: th)
        with yl jl show ?thesis by (auto simp: th)
      next
        case False
        with r have "nd_heap u q = Some r" by (simp add: th)
        with su(2) have "\<forall>k \<in> set (nd_kids r). nd_heap u k \<noteq> None"
          "\<forall>e. nd_data r = ExprNode e \<longrightarrow> (\<forall>i \<in> set (e_insts e). ir_operands (nd_ir u) i \<noteq> None)"
          unfolding good_state_def closed_state_def by blast+
        then show ?thesis using ir_operands_le [OF ir(1)] by (auto simp: th)
      qed
    qed
  qed
  moreover have "extends s t" using su(1) ut by (rule extends_trans)
  moreover have "clone_of (Suc n) s t x y"
  proof -
    have le: "ir_next (nd_ir s) \<le> ir_next (nd_ir u)" "nd_next s \<le> nd_next u" "ir_operands (nd_ir s) \<subseteq>\<^sub>m ir_operands (nd_ir u)"
      using su(1) by (auto simp: extends_def)
    have "list_all2 (\<lambda>i j. ir_next (nd_ir s) \<le> vref_id j \<and> ir_operands (nd_ir t) j = ir_operands (nd_ir s) i) (e_insts e) js"
      using js(6)
    proof (rule list.rel_mono_strong)
      fix i j assume ij: "i \<in> set (e_insts e)" "ir_next (nd_ir w) \<le> vref_id j \<and> ir_operands (nd_ir z) j = ir_operands (nd_ir w) i"
      have "ir_operands (nd_ir s) i \<noteq> None" using closed b be(1) ij(1) unfolding closed_state_def by blast
      from ir_operands_le [OF le(3) this] ij(2) le(1) w(3) t(3)
      show "ir_next (nd_ir s) \<le> vref_id j \<and> ir_operands (nd_ir t) j = ir_operands (nd_ir s) i" by simp
    qed
    moreover have "list_all2 (\<lambda>k l. clone_of n s t k l) (nd_kids b) ys"
      using clones by (rule list.rel_mono_strong) (use clone_of_mono [OF _ extends_refl ut closed] kids in auto)
    ultimately show ?thesis
      unfolding clone_of.simps
      by (intro exI [of _ b] exI [of _ ?r] exI [of _ e] exI [of _ ?d])
         (use b be le(2) e(7) th in \<open>simp add: rb d0_def\<close>)
  qed
  ultimately show ?case by blast
qed simp

text \<open>
  C24. A clone is a copy of the expression tree made of new nodes and new instructions: flavor,
  payload, location and type of every node and the operands of every instruction are those of the
  original, and no node or instruction that existed before is changed.
\<close>

theorem cloneSubtree_clone:
  assumes "cloneSubtree n P x s = Some (y, t)" "good_state s" "nd_heap s x \<noteq> None"
  shows "clone_of n s t x y \<and> extends s t \<and> good_state t"
  using cloneSub_clone assms unfolding cloneSubtree_def by blast

text \<open>
  C25. The value of a clone is not one of the clone's instructions: if the value of an expression is
  computed by one of its own instructions, the clone still yields the original's instruction,
  although the clone has a copy of it.
\<close>

theorem cloneSubtree_stale_value:
  assumes "cloneSubtree n P x s = Some (y, t)" "good_state s"
    and "nd_heap s x = Some b" "nd_data b = ExprNode e" "e_value e = Some v" "v \<in> set (e_insts e)"
  shows "\<exists>c d. nd_heap t y = Some c \<and> nd_data c = ExprNode d \<and> e_value d = Some v \<and> v \<notin> set (e_insts d) \<and> e_insts d \<noteq> []"
proof -
  have "clone_of n s t x y" using cloneSubtree_clone [OF assms(1,2)] assms(3) by simp
  then obtain m where "clone_of (Suc m) s t x y" by (cases n) auto
  with assms(3,4) obtain c d where c: "nd_heap t y = Some c" "nd_data c = ExprNode d" "e_value d = e_value e"
    and insts: "list_all2 (\<lambda>i j. ir_next (nd_ir s) \<le> vref_id j \<and> ir_operands (nd_ir t) j = ir_operands (nd_ir s) i) (e_insts e) (e_insts d)"
    by auto
  have "ir_operands (nd_ir s) v \<noteq> None"
    using assms(2-4,6) unfolding good_state_def closed_state_def by blast
  then have "vref_id v < ir_next (nd_ir s)" using assms(2) by (simp add: good_state_def fresh_state_def ir_fresh_def)
  then have "v \<notin> set (e_insts d)" using list_all2_back [OF insts] by fastforce
  moreover have "e_insts d \<noteq> []" using insts assms(6) by auto
  ultimately show ?thesis using c assms(5) by simp
qed

end
