(* ===== verification/WalkFacts.thy ===== *)
theory WalkFacts
  imports BnodeWalk
begin

text \<open>
  Properties of the tree walkers: the initializer a variable gets is the last instruction of its
  expression in post-order, and the updating walker with hooks that replace and stop nothing is the
  simple walker.
\<close>

section \<open>More fuel changes nothing\<close>

lemma simple_walk_Suc:
  "(simple_walk n vis x s = Some t \<longrightarrow> simple_walk (Suc n) vis x s = Some t) \<and>
   (\<forall>idx. simple_walk_kids n vis x idx s = Some t \<longrightarrow> simple_walk_kids (Suc n) vis x idx s = Some t)"
proof (induction n arbitrary: x s t)
  case (Suc n)
  have walk: "simple_walk n vis x s = Some t \<Longrightarrow> simple_walk (Suc n) vis x s = Some t"
    and kids: "simple_walk_kids n vis x idx s = Some t \<Longrightarrow> simple_walk_kids (Suc n) vis x idx s = Some t" for x s t idx
    using Suc.IH by blast+
  have "simple_walk (Suc n) vis x s = Some t \<Longrightarrow> simple_walk (Suc (Suc n)) vis x s = Some t"
    using kids by (simp only: simple_walk.simps(2) bind_Some_iff) blast
  moreover have "simple_walk_kids (Suc n) vis x idx s = Some t \<Longrightarrow> simple_walk_kids (Suc (Suc n)) vis x idx s = Some t" for idx
  proof -
    assume r: "simple_walk_kids (Suc n) vis x idx s = Some t"
    then obtain b where b: "node x (fst s) = Some b" by (auto simp: bind_Some_iff)
    show ?thesis
    proof (cases "idx < length (nd_kids b)")
      case True
      with r b obtain u where "simple_walk n vis (nd_kids b ! idx) s = Some u" "simple_walk_kids n vis x (Suc idx) u = Some t"
        by (auto simp: bind_Some_iff)
      from walk [OF this(1)] kids [OF this(2)] b True show ?thesis by (simp only: simple_walk_kids.simps(2)) simp
    qed (use r b in simp)
  qed
  ultimately show ?case by blast
qed simp

lemma simple_walk_mono: "n \<le> m \<Longrightarrow> simple_walk n vis x s = Some t \<Longrightarrow> simple_walk m vis x s = Some t"
  by (induction m rule: dec_induct) (use simple_walk_Suc in blast)+

lemma simple_walk_kids_mono:
  "n \<le> m \<Longrightarrow> simple_walk_kids n vis x idx s = Some t \<Longrightarrow> simple_walk_kids m vis x idx s = Some t"
  by (induction m rule: dec_induct) (use simple_walk_Suc in blast)+

section \<open>The last instruction in post-order\<close>

text \<open>The instructions of a tree, those of the children first.\<close>

inductive postorder :: "bstate \<Rightarrow> nref \<Rightarrow> vref list \<Rightarrow> bool" for s where
  "node x s = Some b \<Longrightarrow> castToBexpression b = Some e \<Longrightarrow> list_all2 (postorder s) (nd_kids b) iss \<Longrightarrow>
     postorder s x (concat iss @ (case e of None \<Rightarrow> [] | Some d \<Rightarrow> e_insts d))"

definition last_or :: "vref option \<Rightarrow> vref list \<Rightarrow> vref option" where
  "last_or a is = (if is = [] then a else Some (last is))"

lemma last_or_append: "last_or a (is @ js) = last_or (last_or a is) js"
  by (simp add: last_or_def)

lemma collect_walk:
  "(simple_walk n CollectLastInstVisitor x (s, a) = Some (t, c) \<longrightarrow>
      t = s \<and> (\<exists>is. postorder s x is \<and> c = last_or a is)) \<and>
   (\<forall>idx b. simple_walk_kids n CollectLastInstVisitor x idx (s, a) = Some (t, c) \<longrightarrow> node x s = Some b \<longrightarrow>
      t = s \<and> (\<exists>iss. list_all2 (postorder s) (drop idx (nd_kids b)) iss \<and> c = last_or a (concat iss)))"
proof (induction n arbitrary: x a t c)
  case (Suc n)
  have walk: "simple_walk n CollectLastInstVisitor x (s, a) = Some (t, c) \<Longrightarrow> t = s \<and> (\<exists>is. postorder s x is \<and> c = last_or a is)"
    and kids: "simple_walk_kids n CollectLastInstVisitor x idx (s, a) = Some (t, c) \<Longrightarrow> node x s = Some b \<Longrightarrow>
      t = s \<and> (\<exists>iss. list_all2 (postorder s) (drop idx (nd_kids b)) iss \<and> c = last_or a (concat iss))" for x a t c idx b
    using Suc.IH by blast+
  have "t = s \<and> (\<exists>is. postorder s x is \<and> c = last_or a is)"
    if r: "simple_walk (Suc n) CollectLastInstVisitor x (s, a) = Some (t, c)"
  proof -
    from r obtain u d where k: "simple_walk_kids n CollectLastInstVisitor x 0 (s, a) = Some (u, d)"
      and p: "collect_last_post x (u, d) = Some (t, c)" by (auto simp: CollectLastInstVisitor_def bind_Some_iff)
    from p obtain b0 e where b0: "node x u = Some b0" "castToBexpression b0 = Some e"
      by (auto simp: collect_last_post_def bind_Some_iff)
    with p have b: "t = u" "c = last_or d (case e of None \<Rightarrow> [] | Some f \<Rightarrow> e_insts f)"
      by (cases e; auto simp: collect_last_post_def last_or_def split: if_split_asm)+
    note b = b0 b
    have us: "u = s"
    proof (cases "node x s")
      case None
      with k show ?thesis by (cases n) simp_all
    qed (use kids [OF k] in blast)
    with b kids [OF k] obtain iss where "list_all2 (postorder s) (nd_kids b0) iss" "d = last_or a (concat iss)" by auto
    with b us postorder.intros [of x s b0 e iss] show ?thesis by (auto simp: last_or_append)
  qed
  moreover have "t = s \<and> (\<exists>iss. list_all2 (postorder s) (drop idx (nd_kids b)) iss \<and> c = last_or a (concat iss))"
    if r: "simple_walk_kids (Suc n) CollectLastInstVisitor x idx (s, a) = Some (t, c)" "node x s = Some b" for idx b
  proof (cases "idx < length (nd_kids b)")
    case True
    with r obtain u d where w: "simple_walk n CollectLastInstVisitor (nd_kids b ! idx) (s, a) = Some (u, d)"
      "simple_walk_kids n CollectLastInstVisitor x (Suc idx) (u, d) = Some (t, c)" by (auto simp: bind_Some_iff)
    from walk [OF w(1)] obtain js where is1: "u = s" "postorder s (nd_kids b ! idx) js" "d = last_or a js" by auto
    with w(2) kids [of x "Suc idx" d t c b] r(2) obtain iss where
      "t = s" "list_all2 (postorder s) (drop (Suc idx) (nd_kids b)) iss" "c = last_or d (concat iss)" by auto
    with is1 True show ?thesis
      by (intro conjI exI [of _ "js # iss"]) (simp_all add: Cons_nth_drop_Suc [symmetric] last_or_append)
  qed (use r in \<open>auto simp: last_or_def intro: exI [of _ "[]"]\<close>)
  ultimately show ?case by blast
qed simp

text \<open>
  C26. The initializer of a variable set from an expression is the last instruction of the expression's
  tree in post-order: the instruction that computes its value, after those of its operands.
\<close>

theorem setInitializerExpr_last:
  assumes "setInitializerExpr n v x s = Some t"
  shows "\<exists>is bv. postorder s x is \<and> is \<noteq> [] \<and> vb_heap t v = Some bv \<and> bv_initializer bv = Some (last is) \<and> nd_heap t = nd_heap s"
proof -
  from assms obtain u c bv bv' i where w: "simple_walk n CollectLastInstVisitor x (s, None) = Some (u, c)" "c = Some i"
    "vb_heap u v = Some bv" "setInitializer i bv = Some bv'" "t = u\<lparr>vb_heap := (vb_heap u)(v \<mapsto> bv')\<rparr>"
    by (auto simp: setInitializerExpr_def bind_Some_iff)
  from collect_walk [of n x s None u c] w(1) obtain js where is1: "u = s" "postorder s x js" "c = last_or None js" by blast
  with w(2) have "js \<noteq> []" "i = last js" by (auto simp: last_or_def split: if_split_asm)
  with is1 w(3-5) show ?thesis by (auto simp: setInitializer_def split: if_split_asm)
qed

section \<open>The updating walker as a simple walker\<close>

text \<open>The visitor that runs a simple visitor's hooks and answers that nothing is to be done.\<close>

definition neutral :: "'v simple_visitor \<Rightarrow> 'v updating_visitor" where
  "neutral vis =
     \<lparr>uv_nodePre = (\<lambda>x s. do { t \<leftarrow> sv_pre vis x s; Some (ContinueWalk, x, t) }),
      uv_childPre = (\<lambda>x c s. Some (ContinueWalk, c, s)),
      uv_childPost = (\<lambda>x c s. Some (ContinueWalk, c, s)),
      uv_nodePost = (\<lambda>x s. do { t \<leftarrow> sv_post vis x s; Some (ContinueWalk, x, t) })\<rparr>"

text \<open>Hooks that leave the children of every node as they are.\<close>

definition keeps_kids :: "'v simple_visitor \<Rightarrow> bool" where
  "keeps_kids vis \<longleftrightarrow> (\<forall>x s t. sv_pre vis x s = Some t \<or> sv_post vis x s = Some t \<longrightarrow>
     (\<forall>y. map_option nd_kids (node y (fst t)) = map_option nd_kids (node y (fst s))))"

definition same_kids :: "bstate \<Rightarrow> bstate \<Rightarrow> bool" where
  "same_kids s t \<longleftrightarrow> (\<forall>y. map_option nd_kids (node y t) = map_option nd_kids (node y s))"

lemma same_kids_trans: "same_kids s t \<Longrightarrow> same_kids t u \<Longrightarrow> same_kids s u"
  by (simp add: same_kids_def)

lemma same_kids_node: "same_kids s t \<Longrightarrow> node x s = Some b \<Longrightarrow> \<exists>c. node x t = Some c \<and> nd_kids c = nd_kids b"
  unfolding same_kids_def by (metis map_option_eq_Some)

lemma update_neutral:
  assumes keeps: "keeps_kids vis"
  shows "(update_walk n (neutral vis) x s = Some (d, y, t) \<longrightarrow>
      d = ContinueWalk \<and> y = x \<and> (\<exists>m. simple_walk m vis x s = Some t) \<and> same_kids (fst s) (fst t)) \<and>
    (\<forall>idx b. update_walk_kids n (neutral vis) x idx (drop idx (nd_kids b)) s = Some (d, t) \<longrightarrow> node x (fst s) = Some b \<longrightarrow>
      d = ContinueWalk \<and> (\<exists>m. simple_walk_kids m vis x idx s = Some t) \<and> same_kids (fst s) (fst t))"
proof (induction n arbitrary: x s d y t)
  case (Suc n)
  have walk: "update_walk n (neutral vis) x s = Some (d, y, t) \<Longrightarrow>
      d = ContinueWalk \<and> y = x \<and> (\<exists>m. simple_walk m vis x s = Some t) \<and> same_kids (fst s) (fst t)"
    and kids: "update_walk_kids n (neutral vis) x idx (drop idx (nd_kids b)) s = Some (d, t) \<Longrightarrow> node x (fst s) = Some b \<Longrightarrow>
      d = ContinueWalk \<and> (\<exists>m. simple_walk_kids m vis x idx s = Some t) \<and> same_kids (fst s) (fst t)" for x s d y t idx b
    using Suc.IH by blast+
  have "d = ContinueWalk \<and> y = x \<and> (\<exists>m. simple_walk m vis x s = Some t) \<and> same_kids (fst s) (fst t)"
    if r: "update_walk (Suc n) (neutral vis) x s = Some (d, y, t)"
  proof -
    from r obtain u b d1 v where u: "sv_pre vis x s = Some u" "node x (fst u) = Some b"
      "update_walk_kids n (neutral vis) x 0 (nd_kids b) u = Some (d1, v)"
      by (auto simp: neutral_def bind_Some_iff)
    from kids [of x 0 b u d1 v] u obtain m where m: "d1 = ContinueWalk" "simple_walk_kids m vis x 0 u = Some v"
      "same_kids (fst u) (fst v)" by auto
    from r u m(1) have p: "sv_post vis x v = Some t" "d = ContinueWalk" "y = x"
      by (auto simp: neutral_def bind_Some_iff)
    have "same_kids (fst s) (fst u)" "same_kids (fst v) (fst t)"
      using keeps u(1) p(1) unfolding keeps_kids_def same_kids_def by blast+
    with m(3) have "same_kids (fst s) (fst t)" by (blast intro: same_kids_trans)
    moreover have "simple_walk (Suc m) vis x s = Some t" using u(1) m(2) p(1) by simp
    ultimately show ?thesis using p by blast
  qed
  moreover have "d = ContinueWalk \<and> (\<exists>m. simple_walk_kids m vis x idx s = Some t) \<and> same_kids (fst s) (fst t)"
    if r: "update_walk_kids (Suc n) (neutral vis) x idx (drop idx (nd_kids b)) s = Some (d, t)" and b: "node x (fst s) = Some b"
    for idx b
  proof (cases "idx < length (nd_kids b)")
    case True
    let ?k = "nd_kids b ! idx"
    have dr: "drop idx (nd_kids b) = ?k # drop (Suc idx) (nd_kids b)" using True by (simp add: Cons_nth_drop_Suc)
    from r obtain d1 c u where w: "update_walk n (neutral vis) ?k s = Some (d1, c, u)"
      unfolding dr by (auto simp: neutral_def replace_if_def bind_Some_iff)
    from walk [OF w] obtain m where m: "d1 = ContinueWalk" "c = ?k" "simple_walk m vis ?k s = Some u" "same_kids (fst s) (fst u)"
      by blast
    from same_kids_node [OF m(4) b] obtain b' where b': "node x (fst u) = Some b'" "nd_kids b' = nd_kids b" by blast
    from r w m(1,2) have k: "update_walk_kids n (neutral vis) x (Suc idx) (drop (Suc idx) (nd_kids b')) u = Some (d, t)"
      unfolding dr b' by (auto simp: neutral_def replace_if_def)
    from kids [OF k b'(1)] obtain m' where m': "d = ContinueWalk" "simple_walk_kids m' vis x (Suc idx) u = Some t"
      "same_kids (fst u) (fst t)" by blast
    have "simple_walk (max m m') vis ?k s = Some u" "simple_walk_kids (max m m') vis x (Suc idx) u = Some t"
      using m(3) m'(2) by (auto intro: simple_walk_mono [of m] simple_walk_kids_mono [of m'])
    then have "simple_walk_kids (Suc (max m m')) vis x idx s = Some t" using b True by simp
    with m' m(4) show ?thesis by (blast intro: same_kids_trans)
  next
    case False
    with r have "d = ContinueWalk" "t = s" by simp_all
    moreover have "simple_walk_kids (Suc 0) vis x idx s = Some s" using b False by simp
    ultimately show ?thesis by (intro conjI exI [of _ "Suc 0"]) (simp_all only: same_kids_def simp_thms)
  qed
  ultimately show ?case by blast
qed simp

text \<open>
  C27. The updating walker visits as the simple walker does: with hooks that replace no node and stop
  nowhere it calls the same hooks in the same order, changes no children and returns the root it was
  given.
\<close>

theorem update_walk_simple:
  assumes "keeps_kids vis" "update_walk_nodes n (neutral vis) x s = Some (y, t)"
  shows "y = x \<and> (\<exists>m. simple_walk m vis x s = Some t) \<and> same_kids (fst s) (fst t)"
  using update_neutral [OF assms(1)] assms(2) unfolding update_walk_nodes_def by (fastforce simp: bind_Some_iff)

end
