(* ===== verification/BnodeSamples.thy ===== *)
theory BnodeSamples
  imports BnodeFacts WalkFacts
begin

text \<open>
  A small tree of nodes, and the properties of the node layer applied to it: nodes 0 and 1 are
  constants, node 2 adds them with instruction \<open>InstV 0\<close>, nodes 3 and 4 are a label and a goto.
\<close>

definition sample_expr :: "vref \<Rightarrow> vref list \<Rightarrow> ndata" where
  "sample_expr v is = ExprNode \<lparr>e_value = Some v, e_btype = Some 0, e_tag = '''', e_ctx = mk_varctx, e_insts = is\<rparr>"

definition sample_node :: "NodeFlavor \<Rightarrow> nref list \<Rightarrow> payload \<Rightarrow> u32 \<Rightarrow> ndata \<Rightarrow> bnode" where
  "sample_node fl ks u i d = \<lparr>nd_kids = ks, nd_u = u, nd_loc = 0, nd_flavor = fl, nd_id = i, nd_data = d\<rparr>"

definition sample_ir :: irmem where
  "sample_ir = \<lparr>ir_next = 1, ir_operands = [InstV 0 \<mapsto> [ConstantV 0, ConstantV 1]], ir_name = (\<lambda>v. ''''),
     ir_op = (\<lambda>v. if v = InstV 0 then BinaryOp ''add'' else NoOp), ir_type = (\<lambda>v. IntTy 64)\<rparr>"

definition sample_bstate :: bstate where
  "sample_bstate = (init_bstate sample_ir)
     \<lparr>nd_heap := [0 \<mapsto> sample_node N_Const [] NoU 0 (sample_expr (ConstantV 0) []),
                 1 \<mapsto> sample_node N_Const [] NoU 1 (sample_expr (ConstantV 1) []),
                 2 \<mapsto> sample_node N_BinaryOp [0, 1] (UOp OPERATOR_PLUS) 2 (sample_expr (InstV 0) [InstV 0]),
                 3 \<mapsto> sample_node N_LabelStmt [] (ULabel 0) 0 (StmtNode None),
                 4 \<mapsto> sample_node N_GotoStmt [] (ULabel 0) 1 (StmtNode None)],
      nd_next := 5, vb_heap := [0 \<mapsto> mk_bvariable 0 0 ''v'' LocalVar False None],
      earchive := [Some 0, Some 1, Some 2], sarchive := [3, 4]\<rparr>"

definition sample_printers :: printers where
  "sample_printers = \<lparr>pr_value = (\<lambda>v. ''v''), pr_fname = (\<lambda>v. ''f''), pr_btype = (\<lambda>t. ''t''), pr_loc = (\<lambda>l. ''l''),
     pr_ptr = (\<lambda>p. ''p''), pr_iptr = (\<lambda>i. ''i''), pr_linemap = False\<rparr>"

lemma sample_good: "good_state sample_bstate"
  by (auto simp: good_state_def fresh_state_def closed_state_def ir_fresh_def sample_bstate_def init_bstate_def sample_ir_def
      sample_node_def sample_expr_def split: if_split_asm)

lemma sample_2: "nd_heap sample_bstate 2 = Some (sample_node N_BinaryOp [0, 1] (UOp OPERATOR_PLUS) 2 (sample_expr (InstV 0) [InstV 0]))"
  by (simp add: sample_bstate_def)

text \<open>A switch on node 2.\<close>

lemma sample_switch:
  "map_option fst (mkSwitchStmt sample_printers None 2 [[0], [1]] [3, 4] 0 sample_bstate) = Some 5"
  by code_simp

lemma sample_as:
  "map (\<lambda>k. map_option (\<lambda>x. ()) (as_expr k sample_bstate)) [2, 0, 1] = [Some (), Some (), Some ()]"
  "map (\<lambda>k. map_option (\<lambda>x. ()) (as_stmt k sample_bstate)) [3, 4] = [Some (), Some ()]"
  by code_simp+

lemma switch_roundtrip_witness:
  "\<exists>t. mkSwitchStmt sample_printers None 2 [[0], [1]] [3, 4] 0 sample_bstate = Some (5, t) \<and>
     getSwitchStmtNthCase 1 5 t = Some [1] \<and> getSwitchStmtNthStmt 1 5 t = Some 4"
proof -
  obtain t where t: "mkSwitchStmt sample_printers None 2 [[0], [1]] [3, 4] 0 sample_bstate = Some (5, t)"
    using sample_switch by (auto simp: map_option_case split: option.split_asm)
  have "getSwitchStmtValue 5 t = Some 2 \<and> getSwitchStmtNumCases 5 t = Some (length [[0::nref], [1]]) \<and>
     (\<forall>i < length [[0::nref], [1]]. getSwitchStmtNthCase i 5 t = Some ([[0], [1]] ! i) \<and> getSwitchStmtNthStmt i 5 t = Some ([3, 4] ! i))"
  proof (rule switch_roundtrip [OF t])
    show "nd_heap sample_bstate (nd_next sample_bstate) = None" by (simp add: sample_bstate_def)
    show "\<forall>k \<in> set (2 # concat [[0], [1]]). as_expr k sample_bstate \<noteq> None" using sample_as(1) by auto
    show "\<forall>k \<in> set [3, 4]. as_stmt k sample_bstate \<noteq> None" using sample_as(2) by auto
  qed simp_all
  with t show ?thesis by (auto dest: spec [of _ 1])
qed

lemma sample_examine:
  "map_option fst (examine 5 sample_printers 2 (mk_integ mk_TreeIntegCtl) sample_bstate) = Some True"
  "edges 5 2 sample_bstate = Some [NodeEdge 0 (2, 0), NodeEdge 1 (2, 1), InstEdge (InstV 0) (2, 0)]"
  by code_simp+

lemma examine_iff_unshared_witness:
  "\<exists>ok ig t. examine 5 sample_printers 2 (mk_integ mk_TreeIntegCtl) sample_bstate = Some (ok, ig, t) \<and>
     (ok \<longleftrightarrow> \<not> shared (node_edges mk_TreeIntegCtl sample_bstate [NodeEdge 0 (2, 0), NodeEdge 1 (2, 1), InstEdge (InstV 0) (2, 0)]) \<and>
       \<not> shared (inst_edges [NodeEdge 0 (2, 0), NodeEdge 1 (2, 1), InstEdge (InstV 0) (2, 0)]))"
proof -
  obtain ig t where e: "examine 5 sample_printers 2 (mk_integ mk_TreeIntegCtl) sample_bstate = Some (True, ig, t)"
    using sample_examine(1) by (auto simp: map_option_case split: option.split_asm)
  from examine_iff_unshared [OF e _ sample_examine(2)] e show ?thesis by (auto simp: mk_TreeIntegCtl_def)
qed

lemma sample_clone: "map_option fst (cloneSubtree 5 sample_printers 2 sample_bstate) = Some 7"
  by code_simp

lemma sample_clone_Some: "\<exists>t. cloneSubtree 5 sample_printers 2 sample_bstate = Some (7, t)"
  using sample_clone by (auto simp: map_option_case split: option.split_asm)

lemma cloneSubtree_clone_witness:
  "\<exists>t. cloneSubtree 5 sample_printers 2 sample_bstate = Some (7, t) \<and> clone_of 5 sample_bstate t 2 7"
proof -
  obtain t where t: "cloneSubtree 5 sample_printers 2 sample_bstate = Some (7, t)" using sample_clone_Some by blast
  from cloneSubtree_clone [OF t sample_good] t show ?thesis by (auto simp: sample_2)
qed

lemma cloneSubtree_stale_value_witness:
  "\<exists>t c d. cloneSubtree 5 sample_printers 2 sample_bstate = Some (7, t) \<and> nd_heap t 7 = Some c \<and> nd_data c = ExprNode d \<and>
     e_value d = Some (InstV 0) \<and> InstV 0 \<notin> set (e_insts d)"
proof -
  obtain t where t: "cloneSubtree 5 sample_printers 2 sample_bstate = Some (7, t)" using sample_clone_Some by blast
  let ?e = "\<lparr>e_value = Some (InstV 0), e_btype = Some (0::nat), e_tag = '''', e_ctx = mk_varctx, e_insts = [InstV 0]\<rparr>"
  have "\<exists>c d. nd_heap t 7 = Some c \<and> nd_data c = ExprNode d \<and> e_value d = Some (InstV 0) \<and> InstV 0 \<notin> set (e_insts d) \<and> e_insts d \<noteq> []"
    by (rule cloneSubtree_stale_value [OF t sample_good sample_2, of ?e]) (simp_all add: sample_node_def sample_expr_def)
  with t show ?thesis by blast
qed

lemma sample_initializer: "map_option (\<lambda>t. ()) (setInitializerExpr 9 0 2 sample_bstate) = Some ()"
  by code_simp

lemma setInitializerExpr_last_witness:
  "\<exists>t bv is. setInitializerExpr 9 0 2 sample_bstate = Some t \<and> vb_heap t 0 = Some bv \<and> postorder sample_bstate 2 is \<and>
     bv_initializer bv = Some (last is)"
proof -
  obtain t where t: "setInitializerExpr 9 0 2 sample_bstate = Some t"
    using sample_initializer by (auto simp: map_option_case split: option.split_asm)
  from setInitializerExpr_last [OF t] t show ?thesis by blast
qed

lemma sample_keeps: "keeps_kids CollectLastInstVisitor"
  by (auto simp: keeps_kids_def CollectLastInstVisitor_def collect_last_post_def bind_Some_iff split: option.split_asm if_split_asm)

lemma sample_update:
  "map_option (\<lambda>r. snd (snd r)) (update_walk_nodes 9 (neutral CollectLastInstVisitor) 2 (sample_bstate, None)) = Some (Some (InstV 0))"
  by code_simp

lemma update_walk_simple_witness:
  "\<exists>t m. update_walk_nodes 9 (neutral CollectLastInstVisitor) 2 (sample_bstate, None) = Some (2, t) \<and>
     simple_walk m CollectLastInstVisitor 2 (sample_bstate, None) = Some t"
proof -
  obtain y t where t: "update_walk_nodes 9 (neutral CollectLastInstVisitor) 2 (sample_bstate, None) = Some (y, t)"
    using sample_update by (auto simp: map_option_case split: option.split_asm)
  from update_walk_simple [OF sample_keeps t] t show ?thesis by blast
qed

end
