(* ===== verification/Builtins.thy ===== *)
theory Builtins
  imports ResolveFacts
begin

text \<open>
  The table of builtin functions: classes \<open>BuiltinEntry\<close> and \<open>BuiltinTable\<close> (\<^verbatim>\<open>go-llvm-builtins.h\<close>,
  \<^verbatim>\<open>go-llvm-builtins.cpp\<close>). LLVM's enumerators are represented by the ones the code names. A null
  \<open>libname\<close> is \<open>None\<close>. The variadic functions take their arguments as a list in which \<open>None\<close> is the
  terminating null pointer. The table asks the type manager for the types of the builtins, so the
  functions that fill it thread both states.
\<close>

section \<open>Entries\<close>

datatype IntrinsicID = Intrinsic_trap | Intrinsic_returnaddress | Intrinsic_frameaddress | Intrinsic_expect
  | Intrinsic_cttz | Intrinsic_bswap

datatype LibFunc = NotInTargetLib | LibFunc_memcmp | LibFunc_memcpy | LibFunc_memmove
  | LibFunc_acos | LibFunc_asin | LibFunc_atan | LibFunc_atan2 | LibFunc_ceil | LibFunc_cos | LibFunc_exp
  | LibFunc_expm1 | LibFunc_fabs | LibFunc_floor | LibFunc_fmod | LibFunc_log | LibFunc_log1p | LibFunc_log10
  | LibFunc_log2 | LibFunc_sin | LibFunc_sqrt | LibFunc_tan | LibFunc_trunc

datatype BuiltinFlavor = IntrinsicBuiltin | LibcallBuiltin

record BuiltinEntry =
  be_name :: string
  be_libname :: string
  be_flavor :: BuiltinFlavor
  be_intrinsicId :: "IntrinsicID option"
  be_libfunc :: LibFunc
  be_bfunction :: "nat option"
  be_types :: "tref list"

definition libname_str :: "string option \<Rightarrow> string" where
  "libname_str l = (case l of None \<Rightarrow> '''' | Some s \<Rightarrow> s)"

definition mk_intrinsic_entry :: "IntrinsicID \<Rightarrow> string \<Rightarrow> string \<Rightarrow> tref list \<Rightarrow> BuiltinEntry" where
  "mk_intrinsic_entry i name libname ovltypes =
     \<lparr>be_name = name, be_libname = libname, be_flavor = IntrinsicBuiltin, be_intrinsicId = Some i,
      be_libfunc = NotInTargetLib, be_bfunction = None, be_types = ovltypes\<rparr>"

definition mk_libcall_entry :: "LibFunc \<Rightarrow> string \<Rightarrow> string \<Rightarrow> tref list \<Rightarrow> BuiltinEntry" where
  "mk_libcall_entry lf name libname paramtypes =
     \<lparr>be_name = name, be_libname = libname, be_flavor = LibcallBuiltin, be_intrinsicId = None,
      be_libfunc = lf, be_bfunction = None, be_types = paramtypes\<rparr>"

definition setBfunction :: "nat \<Rightarrow> BuiltinEntry \<Rightarrow> BuiltinEntry option" where
  "setBfunction f e = do { check (be_bfunction e = None); Some (e\<lparr>be_bfunction := Some f\<rparr>) }"

section \<open>The table\<close>

record builtintable =
  bt_tab :: "string \<rightharpoonup> u32"
  bt_entries :: "BuiltinEntry list"
  addLongDouble :: bool

definition mk_builtintable :: "bool \<Rightarrow> builtintable" where
  "mk_builtintable ld = \<lparr>bt_tab = Map.empty, bt_entries = [], addLongDouble = ld\<rparr>"

text \<open>\<open>lookup\<close>: \<open>Some None\<close> is the null pointer; an entry is named by its index.\<close>

definition builtin_lookup :: "string \<Rightarrow> builtintable \<Rightarrow> nat option option" where
  "builtin_lookup name T =
     (case bt_tab T name of
        None \<Rightarrow> Some None
      | Some idx \<Rightarrow> do { check (unat idx < length (bt_entries T)); Some (Some (unat idx)) })"

definition register_builtin :: "string \<Rightarrow> string option \<Rightarrow> BuiltinEntry \<Rightarrow> builtintable \<Rightarrow> builtintable option" where
  "register_builtin name libname e T =
     do { r \<leftarrow> builtin_lookup name T; check (r = None);
          (case libname of None \<Rightarrow> Some () | Some l \<Rightarrow> do { r \<leftarrow> builtin_lookup l T; check (r = None) });
          let idx = of_nat (length (bt_entries T));
          let tab = (bt_tab T)(name \<mapsto> idx);
          Some (T\<lparr>bt_entries := bt_entries T @ [e],
                  bt_tab := (case libname of None \<Rightarrow> tab | Some l \<Rightarrow> tab(l \<mapsto> idx))\<rparr>) }"

definition registerIntrinsicBuiltin :: "string \<Rightarrow> string option \<Rightarrow> IntrinsicID \<Rightarrow> tref list \<Rightarrow> builtintable \<Rightarrow>
    builtintable option" where
  "registerIntrinsicBuiltin name libname i ovltypes T =
     register_builtin name libname (mk_intrinsic_entry i name (libname_str libname) ovltypes) T"

definition registerLibCallBuiltin :: "string \<Rightarrow> string option \<Rightarrow> LibFunc \<Rightarrow> tref list \<Rightarrow> builtintable \<Rightarrow>
    builtintable option" where
  "registerLibCallBuiltin name libname lf paramtypes T =
     register_builtin name libname (mk_libcall_entry lf name (libname_str libname) paramtypes) T"

text \<open>Reading the variable arguments up to the null pointer; reading past the last one aborts.\<close>

fun va_types :: "tref option list \<Rightarrow> tref list option" where
  "va_types [] = None"
| "va_types (None # xs) = Some []"
| "va_types (Some t # xs) = do { ts \<leftarrow> va_types xs; Some (t # ts) }"

definition defineIntrinsicBuiltin :: "string \<Rightarrow> string option \<Rightarrow> IntrinsicID \<Rightarrow> tref option list \<Rightarrow> builtintable \<Rightarrow>
    builtintable option" where
  "defineIntrinsicBuiltin name libname i va T = do { ts \<leftarrow> va_types va; registerIntrinsicBuiltin name libname i ts T }"

definition defineLibcallBuiltin :: "string \<Rightarrow> string option \<Rightarrow> LibFunc \<Rightarrow> tref \<Rightarrow> tref option list \<Rightarrow> builtintable \<Rightarrow>
    builtintable option" where
  "defineLibcallBuiltin name libname lf resultType va T =
     do { ts \<leftarrow> va_types va; registerLibCallBuiltin name libname lf (resultType # ts) T }"

definition defineLibcallBuiltin_vec :: "string \<Rightarrow> string option \<Rightarrow> tref list \<Rightarrow> LibFunc \<Rightarrow> builtintable \<Rightarrow>
    builtintable option" where
  "defineLibcallBuiltin_vec name libname types lf T = registerLibCallBuiltin name libname lf types T"

section \<open>All builtins\<close>

definition defineSyncFetchAndAdd :: "nat \<Rightarrow> u32 \<Rightarrow> builtintable \<times> typemanager \<Rightarrow> (builtintable \<times> typemanager) option" where
  "defineSyncFetchAndAdd k sz = (\<lambda>(T, s).
     do { (it, s) \<leftarrow> integerType k True (push_bit 3 sz) s;
          (pit, s) \<leftarrow> pointerType k it s;
          let (v, s) = voidType s;
          T \<leftarrow> defineLibcallBuiltin (''__sync_fetch_and_add_'' @ show_nat (unat sz)) None NotInTargetLib v
                 [Some pit, Some it, None] T;
          Some (T, s) })"

definition defineSyncFetchAndAddBuiltins :: "nat \<Rightarrow> builtintable \<times> typemanager \<Rightarrow> (builtintable \<times> typemanager) option" where
  "defineSyncFetchAndAddBuiltins k = fold_opt (defineSyncFetchAndAdd k) [1, 2, 4, 8]"

text \<open>The two types the code calls 64-bit are requested with 32 bits.\<close>

definition defineIntrinsicBuiltins :: "nat \<Rightarrow> builtintable \<times> typemanager \<Rightarrow> (builtintable \<times> typemanager) option" where
  "defineIntrinsicBuiltins k = (\<lambda>(T, s).
     do { (bt, s) \<leftarrow> boolType k s;
          (ptrType, s) \<leftarrow> pointerType k bt s;
          (oneBitIntegerType, s) \<leftarrow> integerType k True 1 s;
          (uint32Type, s) \<leftarrow> integerType k True 32 s;
          D \<leftarrow> tm_datalayout s;
          (uintPtrType, s) \<leftarrow> integerType k True (getPointerSizeInBits D) s;
          (uint64Type, s) \<leftarrow> integerType k True 32 s;
          (int64Type, s) \<leftarrow> integerType k False 32 s;
          T \<leftarrow> defineIntrinsicBuiltin ''__builtin_trap'' None Intrinsic_trap [None] T;
          T \<leftarrow> defineIntrinsicBuiltin ''__builtin_return_address'' None Intrinsic_returnaddress
                 [Some ptrType, Some uint32Type, None] T;
          T \<leftarrow> defineIntrinsicBuiltin ''__builtin_frame_address'' None Intrinsic_frameaddress
                 [Some ptrType, Some uint32Type, None] T;
          T \<leftarrow> defineIntrinsicBuiltin ''__builtin_expect'' None Intrinsic_expect
                 [Some int64Type, Some int64Type, None] T;
          T \<leftarrow> defineLibcallBuiltin ''__builtin_memcmp'' (Some ''memcmp'') LibFunc_memcmp uint32Type
                 [Some ptrType, Some ptrType, Some uintPtrType, None] T;
          T \<leftarrow> defineLibcallBuiltin ''__builtin_memcpy'' (Some ''memcpy'') LibFunc_memcpy ptrType
                 [Some ptrType, Some ptrType, Some uintPtrType, Some uint32Type, Some oneBitIntegerType, None] T;
          T \<leftarrow> defineLibcallBuiltin ''__builtin_memmove'' (Some ''memmove'') LibFunc_memmove ptrType
                 [Some ptrType, Some ptrType, Some uintPtrType, None] T;
          T \<leftarrow> defineIntrinsicBuiltin ''__builtin_ctz'' (Some ''ctz'') Intrinsic_cttz [Some uint32Type, None] T;
          T \<leftarrow> defineIntrinsicBuiltin ''__builtin_ctzll'' (Some ''ctzll'') Intrinsic_cttz [Some uint64Type, None] T;
          T \<leftarrow> defineIntrinsicBuiltin ''__builtin_bswap32'' (Some ''bswap32'') Intrinsic_bswap [Some uint32Type, None] T;
          T \<leftarrow> defineIntrinsicBuiltin ''__builtin_bswap64'' (Some ''bswap64'') Intrinsic_bswap [Some uint64Type, None] T;
          Some (T, s) })"

datatype mflav = OneArg | TwoArgs | TwoMixed

type_synonym mathfuncdesc = "string \<times> mflav \<times> LibFunc"

definition math_funcs :: "mathfuncdesc list" where
  "math_funcs =
    [(''acos'', OneArg, LibFunc_acos), (''asin'', OneArg, LibFunc_asin), (''atan'', OneArg, LibFunc_atan),
     (''atan2'', TwoArgs, LibFunc_atan2), (''ceil'', OneArg, LibFunc_ceil), (''cos'', OneArg, LibFunc_cos),
     (''exp'', OneArg, LibFunc_exp), (''expm1'', OneArg, LibFunc_expm1), (''fabs'', OneArg, LibFunc_fabs),
     (''floor'', OneArg, LibFunc_floor), (''fmod'', TwoArgs, LibFunc_fmod), (''log'', OneArg, LibFunc_log),
     (''log1p'', OneArg, LibFunc_log1p), (''log10'', OneArg, LibFunc_log10), (''log2'', OneArg, LibFunc_log2),
     (''sin'', OneArg, LibFunc_sin), (''sqrt'', OneArg, LibFunc_sqrt), (''tan'', OneArg, LibFunc_tan),
     (''trunc'', OneArg, LibFunc_trunc), (''ldexp'', TwoMixed, LibFunc_trunc)]"

definition math_sig :: "tref \<Rightarrow> tref \<Rightarrow> mflav \<Rightarrow> tref list" where
  "math_sig ft int32Type fl =
     (case fl of OneArg \<Rightarrow> [ft, ft] | TwoArgs \<Rightarrow> [ft, ft, ft] | TwoMixed \<Rightarrow> [ft, ft, int32Type])"

definition defineMath :: "tref \<Rightarrow> tref \<Rightarrow> tref \<Rightarrow> mathfuncdesc \<Rightarrow> builtintable \<Rightarrow> builtintable option" where
  "defineMath doubleType longDoubleType int32Type = (\<lambda>(name, nargs, lf) T.
     do { T \<leftarrow> defineLibcallBuiltin_vec (''__builtin_'' @ name) (Some name) (math_sig doubleType int32Type nargs) lf T;
          if addLongDouble T
          then defineLibcallBuiltin_vec (''__builtin_'' @ name @ ''l'') (Some (name @ ''l''))
                 (math_sig longDoubleType int32Type nargs) lf T
          else Some T })"

definition defineTrigBuiltins :: "nat \<Rightarrow> builtintable \<times> typemanager \<Rightarrow> (builtintable \<times> typemanager) option" where
  "defineTrigBuiltins k = (\<lambda>(T, s).
     do { (doubleType, s) \<leftarrow> floatType k 64 s;
          (longDoubleType, s) \<leftarrow> floatType k 128 s;
          (int32Type, s) \<leftarrow> integerType k False 32 s;
          T \<leftarrow> fold_opt (defineMath doubleType longDoubleType int32Type) math_funcs T;
          Some (T, s) })"

definition defineAllBuiltins :: "nat \<Rightarrow> builtintable \<times> typemanager \<Rightarrow> (builtintable \<times> typemanager) option" where
  "defineAllBuiltins k Ts =
     do { Ts \<leftarrow> defineSyncFetchAndAddBuiltins k Ts; Ts \<leftarrow> defineIntrinsicBuiltins k Ts; defineTrigBuiltins k Ts }"

section \<open>Registered builtins stay registered\<close>

datatype builtin_op =
    RegIntrinsic string "string option" IntrinsicID "tref list"
  | RegLibCall string "string option" LibFunc "tref list"
  | SetBfunction string nat

text \<open>What a history records: each name under which an entry was registered, with the entry.\<close>

definition reg_event :: "string \<Rightarrow> string option \<Rightarrow> BuiltinEntry \<Rightarrow> (string \<times> BuiltinEntry) list" where
  "reg_event name libname e = (name, e) # (case libname of None \<Rightarrow> [] | Some l \<Rightarrow> [(l, e)])"

definition set_bfunction_of :: "string \<Rightarrow> nat \<Rightarrow> builtintable \<Rightarrow> builtintable option" where
  "set_bfunction_of name f T =
     do { r \<leftarrow> builtin_lookup name T; i \<leftarrow> r; e \<leftarrow> setBfunction f (bt_entries T ! i);
          Some (T\<lparr>bt_entries := (bt_entries T)[i := e]\<rparr>) }"

fun builtin_step :: "builtin_op \<Rightarrow> builtintable \<Rightarrow> ((string \<times> BuiltinEntry) list \<times> builtintable) option" where
  "builtin_step (RegIntrinsic name l i ts) T =
     do { T' \<leftarrow> registerIntrinsicBuiltin name l i ts T;
          Some (reg_event name l (mk_intrinsic_entry i name (libname_str l) ts), T') }"
| "builtin_step (RegLibCall name l lf ts) T =
     do { T' \<leftarrow> registerLibCallBuiltin name l lf ts T;
          Some (reg_event name l (mk_libcall_entry lf name (libname_str l) ts), T') }"
| "builtin_step (SetBfunction name f) T = do { T' \<leftarrow> set_bfunction_of name f T; Some ([], T') }"

text \<open>The entry a name finds, as it was registered: without the function made for it later.\<close>

definition find_builtin :: "builtintable \<Rightarrow> string \<Rightarrow> BuiltinEntry option" where
  "find_builtin T name =
     (case builtin_lookup name T of
        Some (Some i) \<Rightarrow> Some ((bt_entries T ! i)\<lparr>be_bfunction := None\<rparr>) | _ \<Rightarrow> None)"

definition tab_ok :: "builtintable \<Rightarrow> bool" where
  "tab_ok T \<longleftrightarrow> (\<forall>n idx. bt_tab T n = Some idx \<longrightarrow> unat idx < length (bt_entries T))"

definition builtins_inv :: "(string \<times> BuiltinEntry) list \<Rightarrow> builtintable \<Rightarrow> bool" where
  "builtins_inv log T \<longleftrightarrow> tab_ok T \<and> (\<forall>(n, e) \<in> set log. find_builtin T n = Some e)"

definition builtins_bounded :: "builtintable \<Rightarrow> bool" where
  "builtins_bounded T \<longleftrightarrow> length (bt_entries T) < 2 ^ 32"

lemma builtin_lookup_ok: "tab_ok T \<Longrightarrow> builtin_lookup n T = Some (map_option unat (bt_tab T n))"
  by (auto simp: builtin_lookup_def tab_ok_def split: option.split)

lemma register_builtin_Some:
  assumes "register_builtin name l e T = Some T'" "tab_ok T" "builtins_bounded T'" "be_bfunction e = None"
  shows "tab_ok T' \<and> length (bt_entries T') = Suc (length (bt_entries T)) \<and>
     (\<forall>n. find_builtin T n \<noteq> None \<longrightarrow> find_builtin T' n = find_builtin T n) \<and> (\<forall>(n, f) \<in> set (reg_event name l e). find_builtin T' n = Some f)"
proof -
  define idx where "idx = (of_nat (length (bt_entries T)) :: u32)"
  have "bt_tab T name = None \<and> (\<forall>m. l = Some m \<longrightarrow> bt_tab T m = None) \<and> bt_entries T' = bt_entries T @ [e] \<and>
      bt_tab T' = (case l of None \<Rightarrow> (bt_tab T)(name \<mapsto> idx) | Some m \<Rightarrow> (bt_tab T)(name \<mapsto> idx, m \<mapsto> idx))"
    using assms(1,2) by (auto simp: register_builtin_def bind_Some_iff builtin_lookup_ok idx_def Let_def split: option.split_asm if_split_asm)
  then have fresh: "bt_tab T name = None" "\<And>m. l = Some m \<Longrightarrow> bt_tab T m = None"
    and T': "bt_entries T' = bt_entries T @ [e]" "bt_tab T' = (case l of None \<Rightarrow> (bt_tab T)(name \<mapsto> idx) | Some m \<Rightarrow> (bt_tab T)(name \<mapsto> idx, m \<mapsto> idx))"
    by simp_all
  have "length (bt_entries T) < 2 ^ 32" using assms(3) T'(1) by (simp add: builtins_bounded_def)
  then have idx: "unat idx = length (bt_entries T)" by (simp add: idx_def unat_of_nat)
  have ok: "tab_ok T'" using assms(2) T' idx unfolding tab_ok_def by (auto intro: less_SucI split: option.split_asm if_split_asm)
  have fnd: "find_builtin T' n = (case bt_tab T' n of None \<Rightarrow> None | Some i \<Rightarrow> Some ((bt_entries T' ! unat i)\<lparr>be_bfunction := None\<rparr>))" for n
    using ok by (auto simp: find_builtin_def builtin_lookup_ok split: option.split)
  have "find_builtin T' n = find_builtin T n" if "find_builtin T n \<noteq> None" for n
  proof -
    from that assms(2) obtain i where i: "bt_tab T n = Some i" by (auto simp: find_builtin_def builtin_lookup_ok split: option.split_asm)
    with assms(2) have "unat i < length (bt_entries T)" by (auto simp: tab_ok_def)
    moreover have "bt_tab T' n = Some i" using i fresh T'(2) by (auto split: option.split)
    moreover have "find_builtin T n = Some ((bt_entries T ! unat i)\<lparr>be_bfunction := None\<rparr>)"
      using assms(2) i by (simp add: find_builtin_def builtin_lookup_ok)
    ultimately show ?thesis by (simp add: fnd T'(1) nth_append)
  qed
  moreover have "\<forall>(n, f) \<in> set (reg_event name l e). find_builtin T' n = Some f"
    using T' idx assms(4) by (auto simp: reg_event_def fnd split: option.split)
  ultimately show ?thesis using ok T'(1) by simp
qed

lemma set_bfunction_Some:
  assumes "set_bfunction_of name f T = Some T'" "tab_ok T"
  shows "tab_ok T' \<and> length (bt_entries T') = length (bt_entries T) \<and> (\<forall>n. find_builtin T' n = find_builtin T n)"
proof -
  from assms obtain i e where e: "i < length (bt_entries T)" "setBfunction f (bt_entries T ! i) = Some e"
    "T' = T\<lparr>bt_entries := (bt_entries T)[i := e]\<rparr>"
    by (auto simp: set_bfunction_of_def bind_Some_iff builtin_lookup_ok tab_ok_def)
  have "e\<lparr>be_bfunction := None\<rparr> = (bt_entries T ! i)\<lparr>be_bfunction := None\<rparr>" using e(2) by (auto simp: setBfunction_def split: if_split_asm)
  with e assms(2) have ok: "tab_ok T'" "\<And>j. (bt_entries T' ! j)\<lparr>be_bfunction := None\<rparr> = (bt_entries T ! j)\<lparr>be_bfunction := None\<rparr>"
    by (auto simp: tab_ok_def nth_list_update)
  then show ?thesis using e assms(2) by (simp add: find_builtin_def builtin_lookup_ok split: option.split)
qed

lemma builtin_step_inv:
  assumes "builtins_inv log T" "builtin_step op T = Some (ev, T')" "builtins_bounded T'"
  shows "builtins_inv (log @ ev) T' \<and> builtins_bounded T"
proof -
  have ok: "tab_ok T" "\<And>n e. (n, e) \<in> set log \<Longrightarrow> find_builtin T n = Some e" using assms(1) by (auto simp: builtins_inv_def)
  have "tab_ok T' \<and> length (bt_entries T) \<le> length (bt_entries T') \<and>
      (\<forall>n. find_builtin T n \<noteq> None \<longrightarrow> find_builtin T' n = find_builtin T n) \<and> (\<forall>(n, f) \<in> set ev. find_builtin T' n = Some f)"
  proof (cases op)
    case (RegIntrinsic name l i ts)
    with assms(2,3) register_builtin_Some [of name l "mk_intrinsic_entry i name (libname_str l) ts" T T'] ok(1) show ?thesis
      by (auto simp: registerIntrinsicBuiltin_def bind_Some_iff mk_intrinsic_entry_def)
  next
    case (RegLibCall name l lf ts)
    with assms(2,3) register_builtin_Some [of name l "mk_libcall_entry lf name (libname_str l) ts" T T'] ok(1) show ?thesis
      by (auto simp: registerLibCallBuiltin_def bind_Some_iff mk_libcall_entry_def)
  next
    case (SetBfunction name f)
    with assms(2) set_bfunction_Some [OF _ ok(1)] show ?thesis by (auto simp: bind_Some_iff)
  qed
  with ok(2) assms(3) show ?thesis by (fastforce simp: builtins_inv_def builtins_bounded_def)
qed

lemma builtin_step_bounded: "builtin_step op T = Some (ev, T') \<Longrightarrow> builtins_bounded T' \<Longrightarrow> builtins_bounded T"
  by (cases op) (auto simp: builtins_bounded_def registerIntrinsicBuiltin_def registerLibCallBuiltin_def register_builtin_def
      set_bfunction_of_def bind_Some_iff Let_def split: if_split_asm)

interpretation builtins: stable_reads builtin_step find_builtin builtins_inv builtins_bounded
proof
  show "builtins_inv log s \<Longrightarrow> builtin_step op s = Some (ev, s') \<Longrightarrow> builtins_bounded s' \<Longrightarrow> builtins_inv (log @ ev) s'"
    for log s op ev s' by (simp add: builtin_step_inv)
qed (auto simp: builtins_inv_def intro: builtin_step_bounded)

lemma mk_builtintable_inv: "builtins_inv [] (mk_builtintable ld)"
  by (simp add: builtins_inv_def tab_ok_def mk_builtintable_def)

text \<open>
  C30. Once a builtin is registered, its name and its library name find the entry with the flavor,
  the identifier and the types it was registered with, whatever is registered later and whichever
  entries get a function.
\<close>

theorem builtin_history:
  assumes "run_ops builtin_step ops (mk_builtintable ld) = Some (evs, T)" "length (bt_entries T) < 2 ^ 32"
    and "(name, e) \<in> set evs"
  shows "find_builtin T name = Some e"
  by (rule builtins.run_reads [OF mk_builtintable_inv assms(1)]) (use assms(2,3) in \<open>simp_all add: builtins_bounded_def\<close>)

lemma builtin_history_witness:
  "\<exists>T. run_ops builtin_step [RegIntrinsic ''__builtin_ctz'' (Some ''ctz'') Intrinsic_cttz [4], SetBfunction ''ctz'' 9]
       (mk_builtintable False) = Some ([(''__builtin_ctz'', mk_intrinsic_entry Intrinsic_cttz ''__builtin_ctz'' ''ctz'' [4]),
         (''ctz'', mk_intrinsic_entry Intrinsic_cttz ''__builtin_ctz'' ''ctz'' [4])], T) \<and>
     find_builtin T ''ctz'' = Some (mk_intrinsic_entry Intrinsic_cttz ''__builtin_ctz'' ''ctz'' [4])"
proof -
  let ?ops = "[RegIntrinsic ''__builtin_ctz'' (Some ''ctz'') Intrinsic_cttz [4], SetBfunction ''ctz'' 9]"
  let ?e = "mk_intrinsic_entry Intrinsic_cttz ''__builtin_ctz'' ''ctz'' [4]"
  have "map_option (\<lambda>(evs, T). (evs, length (bt_entries T))) (run_ops builtin_step ?ops (mk_builtintable False)) =
      Some ([(''__builtin_ctz'', ?e), (''ctz'', ?e)], 1)"
    by code_simp
  then obtain T where T: "run_ops builtin_step ?ops (mk_builtintable False) = Some ([(''__builtin_ctz'', ?e), (''ctz'', ?e)], T)"
    "length (bt_entries T) = 1" by (auto simp: map_option_case split: option.split_asm)
  have "find_builtin T ''ctz'' = Some ?e" by (rule builtin_history [OF T(1)]) (simp_all add: T(2))
  with T(1) show ?thesis by blast
qed

section \<open>The builtins of 64 bits\<close>

definition tab_ext :: "builtintable \<Rightarrow> builtintable \<Rightarrow> bool" where
  "tab_ext T T' \<longleftrightarrow> (builtins_bounded T' \<longrightarrow> builtins_bounded T) \<and>
     (tab_ok T \<longrightarrow> builtins_bounded T' \<longrightarrow> tab_ok T' \<and> (\<forall>n. find_builtin T n \<noteq> None \<longrightarrow> find_builtin T' n = find_builtin T n))"

lemma tab_ext_trans: "tab_ext T T' \<Longrightarrow> tab_ext T' T'' \<Longrightarrow> tab_ext T T''"
  unfolding tab_ext_def by metis

lemma register_ext:
  assumes "register_builtin name l e T = Some T'" "be_bfunction e = None"
  shows "tab_ext T T' \<and> (tab_ok T \<longrightarrow> builtins_bounded T' \<longrightarrow> find_builtin T' name = Some e)"
proof -
  have "builtins_bounded T' \<longrightarrow> builtins_bounded T"
    using assms(1) by (auto simp: register_builtin_def builtins_bounded_def bind_Some_iff Let_def split: if_split_asm)
  with register_builtin_Some [OF assms(1) _ _ assms(2)] show ?thesis by (auto simp: tab_ext_def reg_event_def)
qed

lemma defineIntrinsicBuiltin_ext:
  "defineIntrinsicBuiltin name l i va T = Some T' \<Longrightarrow> tab_ext T T' \<and>
     (\<exists>ts. va_types va = Some ts \<and>
        (tab_ok T \<longrightarrow> builtins_bounded T' \<longrightarrow> map_option be_types (find_builtin T' name) = Some ts))"
  by (fastforce simp: defineIntrinsicBuiltin_def registerIntrinsicBuiltin_def bind_Some_iff mk_intrinsic_entry_def
      dest: register_ext)

lemma defineLibcallBuiltin_ext: "defineLibcallBuiltin name l lf r va T = Some T' \<Longrightarrow> tab_ext T T'"
  by (auto simp: defineLibcallBuiltin_def registerLibCallBuiltin_def bind_Some_iff mk_libcall_entry_def
      dest: register_ext)

lemma integerType_again:
  assumes "tm_live s" "integerType k u bits s = Some (x, s1)" "integerType k v bits' s1 = Some (z, s2)"
    and "integerType k u bits s2 = Some (y, s3)"
  shows "y = x"
proof -
  let ?key = "(Some u, bits) :: scalar_key"
  have sc: "scalarType k ?key s = Some (x, s1)" "scalarType k ?key s2 = Some (y, s3)"
    using assms(2,4) by (simp_all add: scalarType_def)
  have mv: "moves s s1" "moves s1 s2" "moves s2 s3" using assms(2-4) by (blast intro: integerType_moves)+
  have live: "tm_live s1" "tm_live s2" using assms(1) mv by (simp_all add: moves_def)
  have "scalar_of s3 ?key = Some x"
    using scalarType_reads [OF sc(1) assms(1)] mv assms(1) live by (auto simp: moves_def intro: scalar_of_grows)
  then show ?thesis using scalarType_reads [OF sc(2) live(2)] by simp
qed

text \<open>
  C31. The builtins for 64-bit values are declared with the 32-bit type: after the intrinsic
  builtins are defined, \<open>__builtin_bswap64\<close> has the argument type of \<open>__builtin_bswap32\<close> and
  \<open>__builtin_ctzll\<close> that of \<open>__builtin_ctz\<close>.
\<close>

theorem builtins_64_are_32:
  assumes "tm_live s" "tab_ok T" "defineIntrinsicBuiltins k (T, s) = Some (T', s')" "length (bt_entries T') < 2 ^ 32"
  shows "\<exists>t. map_option be_types (find_builtin T' ''__builtin_bswap32'') = Some [t] \<and>
     map_option be_types (find_builtin T' ''__builtin_bswap64'') = Some [t] \<and>
     map_option be_types (find_builtin T' ''__builtin_ctz'') = Some [t] \<and>
     map_option be_types (find_builtin T' ''__builtin_ctzll'') = Some [t]"
proof -
  obtain bt s1 p s2 o1 s3 x s4 and D :: layout and y s5 z s6 i64 T1 T2 T3 T4 T5 T6 T7 T8 T9 T10 where
    types: "boolType k s = Some (bt, s1)" "pointerType k bt s1 = Some (p, s2)" "integerType k True 1 s2 = Some (o1, s3)"
      "integerType k True 32 s3 = Some (x, s4)" "integerType k True (getPointerSizeInBits D) s4 = Some (y, s5)"
      "integerType k True 32 s5 = Some (z, s6)" "integerType k False 32 s6 = Some (i64, s')"
    and start: "defineIntrinsicBuiltin ''__builtin_trap'' None Intrinsic_trap [None] T = Some T1"
      "defineIntrinsicBuiltin ''__builtin_return_address'' None Intrinsic_returnaddress [Some p, Some x, None] T1 = Some T2"
      "defineIntrinsicBuiltin ''__builtin_frame_address'' None Intrinsic_frameaddress [Some p, Some x, None] T2 = Some T3"
      "defineIntrinsicBuiltin ''__builtin_expect'' None Intrinsic_expect [Some i64, Some i64, None] T3 = Some T4"
    and libs: "defineLibcallBuiltin ''__builtin_memcmp'' (Some ''memcmp'') LibFunc_memcmp x [Some p, Some p, Some y, None] T4 = Some T5"
      "defineLibcallBuiltin ''__builtin_memcpy'' (Some ''memcpy'') LibFunc_memcpy p [Some p, Some p, Some y, Some x, Some o1, None] T5 = Some T6"
      "defineLibcallBuiltin ''__builtin_memmove'' (Some ''memmove'') LibFunc_memmove p [Some p, Some p, Some y, None] T6 = Some T7"
    and last4: "defineIntrinsicBuiltin ''__builtin_ctz'' (Some ''ctz'') Intrinsic_cttz [Some x, None] T7 = Some T8"
      "defineIntrinsicBuiltin ''__builtin_ctzll'' (Some ''ctzll'') Intrinsic_cttz [Some z, None] T8 = Some T9"
      "defineIntrinsicBuiltin ''__builtin_bswap32'' (Some ''bswap32'') Intrinsic_bswap [Some x, None] T9 = Some T10"
      "defineIntrinsicBuiltin ''__builtin_bswap64'' (Some ''bswap64'') Intrinsic_bswap [Some z, None] T10 = Some T'"
    using assms(3) by (simp add: defineIntrinsicBuiltins_def bind_Some_iff case_prod_unfold) (elim exE conjE, hypsubst, rule that, assumption+)
  have "moves s s3"
    using types(1-3) by (metis boolType_def integerType_moves moves_trans pointerType_moves)
  then have z: "z = x" using assms(1) types(4-6) by (auto simp: moves_def intro: integerType_again)
  note ext = start [THEN defineIntrinsicBuiltin_ext, THEN conjunct1] libs [THEN defineLibcallBuiltin_ext]
  have pre: "tab_ext T T7" using ext by (blast intro: tab_ext_trans)
  note e4 = last4 [THEN defineIntrinsicBuiltin_ext, simplified]
  have bd: "builtins_bounded T'" using assms(4) by (simp add: builtins_bounded_def)
  then have b: "builtins_bounded T10" "builtins_bounded T9" "builtins_bounded T8" "builtins_bounded T7"
    using e4 unfolding tab_ext_def by blast+
  have ok: "tab_ok T7" "tab_ok T8" "tab_ok T9" "tab_ok T10"
    using assms(2) pre e4 b unfolding tab_ext_def by blast+
  have keep: "\<And>n. find_builtin T8 n \<noteq> None \<Longrightarrow> find_builtin T' n = find_builtin T8 n"
    "\<And>n. find_builtin T9 n \<noteq> None \<Longrightarrow> find_builtin T' n = find_builtin T9 n"
    "\<And>n. find_builtin T10 n \<noteq> None \<Longrightarrow> find_builtin T' n = find_builtin T10 n"
    using e4 ok b bd unfolding tab_ext_def by metis+
  have found: "map_option be_types (find_builtin T8 ''__builtin_ctz'') = Some [x]"
    "map_option be_types (find_builtin T9 ''__builtin_ctzll'') = Some [x]"
    "map_option be_types (find_builtin T10 ''__builtin_bswap32'') = Some [x]"
    "map_option be_types (find_builtin T' ''__builtin_bswap64'') = Some [x]"
    using e4 ok b bd z by simp_all
  have "find_builtin T' ''__builtin_ctz'' = find_builtin T8 ''__builtin_ctz''"
    "find_builtin T' ''__builtin_ctzll'' = find_builtin T9 ''__builtin_ctzll''"
    "find_builtin T' ''__builtin_bswap32'' = find_builtin T10 ''__builtin_bswap32''"
    using found by (auto intro!: keep)
  with found show ?thesis by (intro exI [of _ x]) simp
qed

lemma builtins_64_are_32_witness:
  "\<exists>s T' s' t. start_tm = Some s \<and> defineIntrinsicBuiltins 1 (mk_builtintable False, initializeTypeManager 0 x86_layout Map.empty s) = Some (T', s') \<and>
     map_option be_types (find_builtin T' ''__builtin_bswap32'') = Some [t] \<and>
     map_option be_types (find_builtin T' ''__builtin_bswap64'') = Some [t]"
proof -
  have "map_option (\<lambda>(T, s). length (bt_entries T)) (do { s \<leftarrow> start_tm; defineIntrinsicBuiltins 1 (mk_builtintable False, initializeTypeManager 0 x86_layout Map.empty s) }) = Some 11"
    by code_simp
  then obtain s T' s' where r: "start_tm = Some s" "defineIntrinsicBuiltins 1 (mk_builtintable False, initializeTypeManager 0 x86_layout Map.empty s) = Some (T', s')"
    "length (bt_entries T') = 11"
    by (auto simp: bind_Some_iff map_option_case split: option.split_asm)
  have "tm_live s" using r(1) unfolding start_tm_def by (rule new_typemanager_live)
  then have "tm_live (initializeTypeManager 0 x86_layout Map.empty s)" by (rule initialize_live)
  moreover have "tab_ok (mk_builtintable False)" using mk_builtintable_inv [of False] by (simp add: builtins_inv_def)
  moreover have "length (bt_entries T') < 2 ^ 32" by (simp add: r(3))
  ultimately obtain t where "map_option be_types (find_builtin T' ''__builtin_bswap32'') = Some [t]"
      "map_option be_types (find_builtin T' ''__builtin_bswap64'') = Some [t]"
    using builtins_64_are_32 [OF _ _ r(2)] by blast
  with r(1,2) show ?thesis by blast
qed

end
