(* ===== verification/Diagnostics.thy ===== *)
theory Diagnostics
  imports Linemap
begin

text \<open>
  Diagnostics: \<^verbatim>\<open>go-llvm-diagnostics.cpp\<close>. The state is the static counter of errors and the text
  written to \<open>llvm::errs()\<close>. The line map is read through its own operations; a location it cannot
  decode aborts (\<open>None\<close>). A fatal error writes its message and then calls \<open>abort\<close>: the result
  \<open>Aborted\<close> keeps what was written.
\<close>

section \<open>The operations\<close>

record diagnostics =
  error_count :: u32
  errs :: string

definition init_diagnostics :: diagnostics where
  "init_diagnostics = \<lparr>error_count = 0, errs = []\<rparr>"

definition newline :: string where
  "newline = [CHR 0x0A]"

definition err_out :: "string \<Rightarrow> diagnostics \<Rightarrow> diagnostics" where
  "err_out txt d = d\<lparr>errs := errs d @ txt\<rparr>"

definition go_be_saw_errors :: "diagnostics \<Rightarrow> bool" where
  "go_be_saw_errors d \<longleftrightarrow> error_count d > 0"

definition go_be_error :: "string \<Rightarrow> diagnostics \<Rightarrow> diagnostics" where
  "go_be_error errmsg d = err_out (errmsg @ newline) (d\<lparr>error_count := error_count d + 1\<rparr>)"

text \<open>\<open>go_be_sorry\<close> of the source; its name is shortened here.\<close>

definition go_be_unimplemented :: "string \<Rightarrow> diagnostics \<Rightarrow> diagnostics" where
  "go_be_unimplemented errmsg d = err_out (errmsg @ newline) (d\<lparr>error_count := error_count d + 1\<rparr>)"

definition show_int :: "int \<Rightarrow> string" where
  "show_int i = (if i < 0 then ''-'' @ show_nat (nat (- i)) else show_nat (nat i))"

definition emitLoc :: "leb128 \<Rightarrow> linemap \<Rightarrow> u32 \<Rightarrow> diagnostics \<Rightarrow> diagnostics option" where
  "emitLoc L lm loc d =
     (if loc = get_predeclared_location lm then Some (err_out ''<predeclared>'' d)
      else if loc = get_unknown_location lm then Some (err_out ''<unknown>'' d)
      else do { f \<leftarrow> location_file L lm loc; l \<leftarrow> location_line L lm loc; c \<leftarrow> location_column L lm loc;
                Some (err_out (f @ '':'' @ show_int l @ '':'' @ show_nat (unat c)) d) })"

definition go_be_error_at :: "leb128 \<Rightarrow> linemap \<Rightarrow> u32 \<Rightarrow> string \<Rightarrow> diagnostics \<Rightarrow> diagnostics option" where
  "go_be_error_at L lm location errmsg d =
     do { d \<leftarrow> emitLoc L lm location (d\<lparr>error_count := error_count d + 1\<rparr>);
          Some (err_out ('': '' @ errmsg @ newline) d) }"

definition go_be_warning_at :: "leb128 \<Rightarrow> linemap \<Rightarrow> u32 \<Rightarrow> int \<Rightarrow> string \<Rightarrow> diagnostics \<Rightarrow> diagnostics option" where
  "go_be_warning_at L lm location opt warningmsg d =
     do { d \<leftarrow> emitLoc L lm location d; Some (err_out ('': '' @ warningmsg @ newline) d) }"

datatype fatal = Aborted diagnostics

definition go_be_fatal_error :: "leb128 \<Rightarrow> linemap \<Rightarrow> u32 \<Rightarrow> string \<Rightarrow> diagnostics \<Rightarrow> fatal option" where
  "go_be_fatal_error L lm location fatalmsg d =
     do { d \<leftarrow> emitLoc L lm location d; Some (Aborted (err_out ('': '' @ fatalmsg @ newline) d)) }"

definition go_be_inform :: "leb128 \<Rightarrow> linemap \<Rightarrow> u32 \<Rightarrow> string \<Rightarrow> diagnostics \<Rightarrow> diagnostics option" where
  "go_be_inform L lm location infomsg d =
     do { d \<leftarrow> emitLoc L lm location d; Some (err_out ('': '' @ infomsg @ newline) d) }"

definition go_be_get_quotechars :: "string \<times> string" where
  "go_be_get_quotechars = ([CHR 0x27], [CHR 0x27])"

section \<open>Counting errors\<close>

datatype report = Error string | Unimplemented string | ErrorAt u32 string | WarningAt u32 int string | Inform u32 string

fun is_error :: "report \<Rightarrow> bool" where
  "is_error (Error m) \<longleftrightarrow> True"
| "is_error (Unimplemented m) \<longleftrightarrow> True"
| "is_error (ErrorAt l m) \<longleftrightarrow> True"
| "is_error _ \<longleftrightarrow> False"

fun report_step :: "leb128 \<Rightarrow> linemap \<Rightarrow> report \<Rightarrow> diagnostics \<Rightarrow> diagnostics option" where
  "report_step L lm (Error m) d = Some (go_be_error m d)"
| "report_step L lm (Unimplemented m) d = Some (go_be_unimplemented m d)"
| "report_step L lm (ErrorAt l m) d = go_be_error_at L lm l m d"
| "report_step L lm (WarningAt l opt m) d = go_be_warning_at L lm l opt m d"
| "report_step L lm (Inform l m) d = go_be_inform L lm l m d"

lemma emitLoc_count: "emitLoc L lm loc d = Some d' \<Longrightarrow> error_count d' = error_count d"
  by (auto simp: emitLoc_def err_out_def bind_Some_iff split: if_split_asm)

lemma report_step_count:
  "report_step L lm r d = Some d' \<Longrightarrow> error_count d' = error_count d + (if is_error r then 1 else 0)"
  by (cases r) (auto simp: go_be_error_def go_be_unimplemented_def go_be_error_at_def go_be_warning_at_def go_be_inform_def
      err_out_def bind_Some_iff dest: emitLoc_count)

lemma reports_count:
  "fold_opt (report_step L lm) rs d = Some d' \<Longrightarrow> error_count d' = error_count d + of_nat (length (filter is_error rs))"
proof (induction rs arbitrary: d)
  case Nil
  then show ?case by simp
next
  case (Cons r rs)
  then obtain d1 where "report_step L lm r d = Some d1" "fold_opt (report_step L lm) rs d1 = Some d'"
    by (auto simp: bind_Some_iff)
  with Cons.IH [OF this(2)] report_step_count [OF this(1)] show ?case by simp
qed

text \<open>
  C28. Exactly how far \<open>go_be_saw_errors\<close> can be trusted: after any sequence of reports it answers
  whether the number of errors reported is not a multiple of 2^32. So it answers whether an error
  was reported, as long as there are fewer than 2^32 of them; the counter wraps to "no errors" at
  2^32. Warnings and notes do not count.
\<close>

theorem saw_errors_bound:
  assumes "fold_opt (report_step L lm) rs init_diagnostics = Some d"
  shows "(go_be_saw_errors d \<longleftrightarrow> length (filter is_error rs) mod 2 ^ 32 \<noteq> 0) \<and>
     (length rs < 2 ^ 32 \<longrightarrow> (go_be_saw_errors d \<longleftrightarrow> (\<exists>r \<in> set rs. is_error r)))"
proof -
  let ?n = "length (filter is_error rs)"
  have c: "error_count d = of_nat ?n" using reports_count [OF assms] by (simp add: init_diagnostics_def)
  then have saw: "go_be_saw_errors d \<longleftrightarrow> ?n mod 2 ^ 32 \<noteq> 0"
    by (simp add: go_be_saw_errors_def word_gt_0 word_of_nat_eq_0_iff dvd_eq_mod_eq_0 c)
  have "?n mod 2 ^ 32 \<noteq> 0 \<longleftrightarrow> (\<exists>r \<in> set rs. is_error r)" if "length rs < 2 ^ 32"
  proof -
    have "?n < 2 ^ 32" using that length_filter_le [of is_error rs] by linarith
    then show ?thesis by (simp add: filter_empty_conv)
  qed
  with saw show ?thesis by blast
qed

lemma saw_errors_bound_witness:
  "\<exists>lm d. init_linemap uleb = Some lm \<and>
     fold_opt (report_step uleb lm) [Unimplemented ''x'', Error ''y''] init_diagnostics = Some d \<and> go_be_saw_errors d"
proof -
  obtain lm where lm: "init_linemap uleb = Some lm" using init_linemap_Some [OF leb_ok_uleb] by blast
  obtain d where d: "fold_opt (report_step uleb lm) [Unimplemented ''x'', Error ''y''] init_diagnostics = Some d" by simp
  have "go_be_saw_errors d" using saw_errors_bound [OF d] by simp
  with d lm show ?thesis by blast
qed

text \<open>
  C29. The text of an error at a location the line map handed out: file, line and column as they were
  when the location was requested, then the message, appended to what was written before; and errors
  have been seen then, unless the counter stood at its last value.
\<close>

theorem error_at_text:
  assumes "leb_ok L" "init_linemap L = Some s" "run_ops (lm_step L) ops s = Some (evs, t)" "lm_bounded t"
    and "(loc, file, line, col) \<in> set evs"
    and "loc \<noteq> get_predeclared_location t" "loc \<noteq> get_unknown_location t"
  shows "\<exists>d'. go_be_error_at L t loc msg d = Some d' \<and> go_be_saw_errors d' = (error_count d \<noteq> - 1) \<and>
     errs d' = errs d @ file @ '':'' @ show_int (sint line) @ '':'' @ show_nat (unat col) @ '': '' @ msg @ newline"
proof -
  from init_linemap_Some [OF assms(1)] assms(2) obtain log where "lm_inv L log s" by auto
  from lm.run_reads [OF this assms(3,4), of loc "(file, line, col)"] assms(5)
  have "read_location L t loc = Some (file, line, col)" by simp
  then show ?thesis using assms(6,7)
    by (auto simp: read_location_def go_be_error_at_def emitLoc_def location_line_def location_column_def
        err_out_def go_be_saw_errors_def bind_Some_iff word_gt_0 eq_neg_iff_add_eq_0)
qed

lemma error_at_text_witness:
  "\<exists>s t d'. init_linemap uleb = Some s \<and>
     run_ops (lm_step uleb) [StartFile ''a.go'' 7, GetLocation 3] s = Some ([(4, ''a.go'', 7, 3)], t) \<and>
     go_be_error_at uleb t 4 ''bad'' init_diagnostics = Some d' \<and> errs d' = ''a.go:7:3: bad'' @ newline"
proof -
  obtain s where s: "init_linemap uleb = Some s" using init_linemap_Some [OF leb_ok_uleb] by blast
  have "(case init_linemap uleb of None \<Rightarrow> False | Some s \<Rightarrow>
      (case run_ops (lm_step uleb) [StartFile ''a.go'' 7, GetLocation 3] s of None \<Rightarrow> False
       | Some (evs, t) \<Rightarrow> evs = [(4, ''a.go'', 7, 3)] \<and> length (encoded_locations t) = 6 \<and> length (files t) = 3 \<and>
           get_predeclared_location t \<noteq> 4 \<and> get_unknown_location t \<noteq> 4))"
    by code_simp
  with s obtain t where t: "run_ops (lm_step uleb) [StartFile ''a.go'' 7, GetLocation 3] s = Some ([(4, ''a.go'', 7, 3)], t)"
    "lm_bounded t" "4 \<noteq> get_predeclared_location t" "4 \<noteq> get_unknown_location t"
    by (auto simp: lm_bounded_def split: option.splits)
  have "''a.go'' @ '':'' @ show_int (sint (7 :: u32)) @ '':'' @ show_nat (unat (3 :: u32)) @ '': '' @ ''bad'' @ newline
      = ''a.go:7:3: bad'' @ newline"
    by code_simp
  with error_at_text [OF leb_ok_uleb s t(1,2) _ t(3,4), of "''a.go''" 7 3 "''bad''" init_diagnostics] s t(1)
  show ?thesis by (auto simp: init_diagnostics_def)
qed

end
