(* ===== verification/IrBuilders.thy ===== *)
theory IrBuilders
  imports Bnodes NameGen
begin

text \<open>
  Making instructions and basic blocks. The builders of \<^verbatim>\<open>go-llvm-irbuilders.h\<close> put every
  instruction LLVM's \<open>IRBuilder\<close> makes into a list of the backend instead of a block: the inserter of
  \<open>BinstructionsLIRBuilder\<close> is \<open>create_inst\<close>. The \<open>Create*\<close> functions are LLVM's documented
  behaviour: a bitcast to the type a value has is the value; an operation on a constant is folded to
  a constant and not inserted; loads and stores go through pointers to the type of the value.

  \<open>cfg\<close> is the body of an LLVM function: its basic blocks in order, each a list of instructions.
\<close>

section \<open>Instructions\<close>

type_synonym binsts = "irmem \<times> vref list"

definition create_inst :: "iop \<Rightarrow> vref list \<Rightarrow> llty \<Rightarrow> string \<Rightarrow> binsts \<Rightarrow> (vref \<times> binsts) option" where
  "create_inst iop ops t nm = (\<lambda>(m, insts).
     do { let (v, m) = new_inst iop ops t nm m;
          insts \<leftarrow> append_instruction v insts;
          Some (v, m, insts) })"

definition folded_constant :: "iop \<Rightarrow> vref list \<Rightarrow> llty \<Rightarrow> irmem \<Rightarrow> vref \<times> irmem" where
  "folded_constant iop ops t m =
     (let v = ConstantV (ir_next m)
      in (v, m\<lparr>ir_next := Suc (ir_next m), ir_operands := (ir_operands m)(v \<mapsto> ops),
               ir_op := (ir_op m)(v := iop), ir_type := (ir_type m)(v := t)\<rparr>))"

definition create_or_fold :: "iop \<Rightarrow> vref list \<Rightarrow> llty \<Rightarrow> string \<Rightarrow> binsts \<Rightarrow> (vref \<times> binsts) option" where
  "create_or_fold iop ops t nm = (\<lambda>(m, insts).
     if list_all isConstant ops
     then (let (v, m) = folded_constant iop ops t m in Some (v, m, insts))
     else create_inst iop ops t nm (m, insts))"

definition CreateBitCast :: "vref \<Rightarrow> llty \<Rightarrow> string \<Rightarrow> binsts \<Rightarrow> (vref \<times> binsts) option" where
  "CreateBitCast v t nm = (\<lambda>(m, insts).
     if ir_type m v = t then Some (v, m, insts)
     else create_or_fold (CastOp ''bitcast'') [v] t nm (m, insts))"

definition CreateLoad :: "vref \<Rightarrow> string \<Rightarrow> binsts \<Rightarrow> (vref \<times> binsts) option" where
  "CreateLoad p nm = (\<lambda>(m, insts).
     do { check (isPointerTy (ir_type m p)); t \<leftarrow> getElementType (ir_type m p);
          create_inst LoadOp [p] t nm (m, insts) })"

definition CreateStore :: "vref \<Rightarrow> vref \<Rightarrow> binsts \<Rightarrow> (vref \<times> binsts) option" where
  "CreateStore v p = (\<lambda>(m, insts).
     do { check (ir_type m p = PointerTy (ir_type m v));
          create_inst StoreOp [v, p] VoidTy '''' (m, insts) })"

text \<open>The address of a field of a struct of two elements.\<close>

definition CreateConstInBoundsGEP2_32 :: "llty \<Rightarrow> vref \<Rightarrow> u32 \<Rightarrow> u32 \<Rightarrow> string \<Rightarrow> binsts \<Rightarrow> (vref \<times> binsts) option" where
  "CreateConstInBoundsGEP2_32 st p i j nm = (\<lambda>(m, insts).
     do { check (ir_type m p = PointerTy st);
          t \<leftarrow> (case st of StructTy ts \<Rightarrow> nth_opt ts (unat j) | _ \<Rightarrow> None);
          create_or_fold (GepOp [i, j]) [p] (PointerTy t) nm (m, insts) })"

text \<open>
  \<open>BlockLIRBuilder::instructions\<close>: the instructions made in the dummy block; casts without a name
  get one from the caller's generator.
\<close>

fun isCast :: "iop \<Rightarrow> bool" where
  "isCast (CastOp s) = True"
| "isCast _ = False"

fun block_instructions :: "vref list \<Rightarrow> irmem \<Rightarrow> nametags \<Rightarrow> irmem \<times> nametags" where
  "block_instructions [] m nt = (m, nt)"
| "block_instructions (i # is) m nt =
     (if isInstruction i \<and> isCast (ir_op m i) \<and> ir_name m i = ''''
      then (let (nm, nt) = namegen ''cast'' ChooseVer nt in block_instructions is (set_name i nm m) nt)
      else block_instructions is m nt)"

section \<open>Basic blocks\<close>

record cfg =
  cf_order :: "bbref list"
  cf_insts :: "bbref \<rightharpoonup> vref list"
  cf_names :: "bbref \<Rightarrow> string"
  cf_next :: bbref
  cf_personality :: "vref option"

definition empty_cfg :: cfg where
  "empty_cfg = \<lparr>cf_order = [], cf_insts = Map.empty, cf_names = (\<lambda>b. ''''), cf_next = 0, cf_personality = None\<rparr>"

text \<open>\<open>BasicBlock::Create\<close> at the end of the function, or before a given block.\<close>

definition place_block :: "bbref \<Rightarrow> bbref option \<Rightarrow> bbref list \<Rightarrow> bbref list" where
  "place_block b pos bs =
     (case pos of None \<Rightarrow> bs @ [b]
      | Some c \<Rightarrow> takeWhile (\<lambda>x. x \<noteq> c) bs @ b # dropWhile (\<lambda>x. x \<noteq> c) bs)"

definition create_block :: "string \<Rightarrow> bbref option \<Rightarrow> cfg \<Rightarrow> bbref \<times> cfg" where
  "create_block nm pos c =
     (let b = cf_next c
      in (b, c\<lparr>cf_order := place_block b pos (cf_order c), cf_insts := (cf_insts c)(b \<mapsto> []),
               cf_names := (cf_names c)(b := nm), cf_next := Suc b\<rparr>))"

definition push_inst :: "bbref \<Rightarrow> vref \<Rightarrow> cfg \<Rightarrow> cfg option" where
  "push_inst b i c = do { is \<leftarrow> cf_insts c b; Some (c\<lparr>cf_insts := (cf_insts c)(b \<mapsto> is @ [i])\<rparr>) }"

text \<open>\<open>getTerminator\<close>: the last instruction, if it is one.\<close>

definition getTerminator :: "irmem \<Rightarrow> cfg \<Rightarrow> bbref \<Rightarrow> vref option option" where
  "getTerminator m c b =
     do { is \<leftarrow> cf_insts c b;
          Some (if is \<noteq> [] \<and> isTerminator (last is) m then Some (last is) else None) }"

lemma create_inst_Some:
  "create_inst iop ops t nm (m, is) = Some (v, m', is') \<longleftrightarrow>
     new_inst iop ops t nm m = (v, m') \<and> isValidInst v \<and> is' = is @ [v]"
  by (auto simp: create_inst_def append_instruction_def case_prod_unfold Let_def bind_Some_iff)

end
