(* ===== verification/Bfunctions.thy ===== *)
theory Bfunctions
  imports IrBuilders TypeResolve
begin

text \<open>
  Class \<open>Bfunction\<close> (\<^verbatim>\<open>go-llvm-bfunction.h\<close>, \<^verbatim>\<open>go-llvm-bfunction.cpp\<close>): a function under construction, its
  parameters as the ABI delivers them, its local variables and labels, and the code that spills
  arguments on entry and delivers the result.

  The object is the record \<open>bfunction\<close>; variables and instructions live in \<open>bstate\<close>, names come from the
  type manager. The arguments of the LLVM function are given to the constructor; the attributes the
  code puts on them are kept in \<open>bf_attrs\<close>.
\<close>

section \<open>State\<close>

datatype arg_attr = StructRet | Nest | ByVal | SExt | ZExt

datatype SplitStackDisposition = YesSplit | NoSplit

record bfunction =
  bf_fcnType :: tref
  bf_function :: vref
  bf_oracle :: CABIOracle
  bf_allocas :: "vref list"
  bf_localVariables :: "vbref list"
  bf_blocks :: "nref list"
  bf_valueVarMap :: "vref \<rightharpoonup> vbref"
  bf_rtnValueMem :: "vref option"
  bf_chainVal :: "vref option"
  bf_paramValues :: "vref list"
  bf_arguments :: "vref list"
  bf_paramsRegistered :: u32
  bf_labelmap :: "nref option list"
  bf_labels :: "blabel list"
  bf_name :: string
  bf_asmName :: string
  bf_location :: location
  bf_splitStack :: SplitStackDisposition
  bf_prologGenerated :: bool
  bf_attrs :: "(vref \<times> arg_attr) list"

type_synonym fcnstate = "bfunction \<times> bstate \<times> typemanager"

text \<open>The function type: parameters, result, and whether it follows the C ABI.\<close>

definition fcn_parts :: "tref \<Rightarrow> typemanager \<Rightarrow> (tref list \<times> tref \<times> bool) option" where
  "fcn_parts ft tm =
     do { b \<leftarrow> obj ft tm;
          case bt_kind b of KFunction r ps rs rt c \<Rightarrow> Some (ps, rt, c) | _ \<Rightarrow> None }"

definition setSplitStack :: "SplitStackDisposition \<Rightarrow> bfunction \<Rightarrow> bfunction" where
  "setSplitStack d f = f\<lparr>bf_splitStack := d\<rparr>"

definition addBlock :: "nref \<Rightarrow> bfunction \<Rightarrow> bfunction" where
  "addBlock b f = f\<lparr>bf_blocks := bf_blocks f @ [b]\<rparr>"

definition set_value_name :: "vref \<Rightarrow> string \<Rightarrow> bstate \<Rightarrow> bstate" where
  "set_value_name v nm s = s\<lparr>nd_ir := set_name v nm (nd_ir s)\<rparr>"

definition addAttr :: "vref \<Rightarrow> arg_attr \<Rightarrow> bfunction \<Rightarrow> bfunction" where
  "addAttr v a f = f\<lparr>bf_attrs := bf_attrs f @ [(v, a)]\<rparr>"

definition new_bvariable :: "bvariable \<Rightarrow> bstate \<Rightarrow> vbref \<times> bstate" where
  "new_bvariable v s = (vb_next s, s\<lparr>vb_heap := (vb_heap s)(vb_next s \<mapsto> v), vb_next := Suc (vb_next s)\<rparr>)"

section \<open>Allocas and the ABI setup\<close>

definition addAlloca :: "llty \<Rightarrow> string \<Rightarrow> bfunction \<times> bstate \<Rightarrow> vref \<times> bfunction \<times> bstate" where
  "addAlloca typ name = (\<lambda>(f, s).
     let (inst, m) = new_inst (AllocaOp typ) [] (PointerTy typ) '''' (nd_ir s);
         m = (if name \<noteq> '''' then set_name inst name m else m)
     in (inst, f\<lparr>bf_allocas := bf_allocas f @ [inst]\<rparr>, s\<lparr>nd_ir := m\<rparr>))"

definition arg_attr_of :: "CABIParamAttr \<Rightarrow> vref \<Rightarrow> bfunction \<Rightarrow> bfunction option" where
  "arg_attr_of attr a f =
     (if attr = AttrSext then Some (addAttr a SExt f)
      else if attr = AttrZext then Some (addAttr a ZExt f)
      else do { check (attr = AttrNone); Some f })"

definition add_paramValue :: "vref \<Rightarrow> bfunction \<Rightarrow> bfunction" where
  "add_paramValue v f = f\<lparr>bf_paramValues := bf_paramValues f @ [v]\<rparr>"

definition abi_param :: "typemanager \<Rightarrow> tref \<Rightarrow> CABIParamInfo \<Rightarrow> nat \<times> bfunction \<times> bstate \<Rightarrow>
    (nat \<times> bfunction \<times> bstate) option" where
  "abi_param tm ptype pinfo = (\<lambda>(argIdx, f, s).
     case pi_disp pinfo of
       ParmIgnore \<Rightarrow>
         do { llpt \<leftarrow> ll_of ptype tm;
              let (inst, f, s) = addAlloca llpt '''' (f, s);
              Some (argIdx, add_paramValue inst f, s) }
     | ParmIndirect \<Rightarrow>
         do { a \<leftarrow> nth_opt (bf_arguments f) argIdx;
              check (numArgSlots pinfo = 1);
              Some (argIdx + 1, addAttr a ByVal (add_paramValue a f), s) }
     | ParmDirect \<Rightarrow>
         do { llpt \<leftarrow> ll_of ptype tm;
              let (inst, f, s) = addAlloca llpt '''' (f, s);
              let f = add_paramValue inst f;
              f \<leftarrow> (if pi_attr pinfo = AttrNone then Some f
                   else do { a \<leftarrow> nth_opt (bf_arguments f) argIdx; arg_attr_of (pi_attr pinfo) a f });
              Some (argIdx + numArgSlots pinfo, f, s) })"

fun abi_params :: "typemanager \<Rightarrow> u32 \<Rightarrow> tref list \<Rightarrow> nat \<times> bfunction \<times> bstate \<Rightarrow> (nat \<times> bfunction \<times> bstate) option" where
  "abi_params tm idx [] st = Some st"
| "abi_params tm idx (p # ps) st =
     do { i \<leftarrow> paramInfo tm (bf_oracle (fst (snd st))) idx;
          st \<leftarrow> abi_param tm p i st;
          abi_params tm (idx + 1) ps st }"

definition name_argument :: "string \<Rightarrow> nat \<Rightarrow> arg_attr \<Rightarrow> fcnstate \<Rightarrow> (vref \<times> fcnstate) option" where
  "name_argument tag argIdx attr = (\<lambda>(f, s, tm).
     do { (nm, tm) \<leftarrow> tnamegen tag tm;
          a \<leftarrow> nth_opt (bf_arguments f) argIdx;
          Some (a, addAttr a attr f, set_value_name a nm s, tm) })"

definition sret_argument :: "fcnstate \<Rightarrow> (nat \<times> fcnstate) option" where
  "sret_argument = (\<lambda>(f, s, tm).
     do { rinfo \<leftarrow> returnInfo tm (bf_oracle f);
          if pi_disp rinfo = ParmIndirect
          then do { (a, f, s, tm) \<leftarrow> name_argument ''sret.formal'' 0 StructRet (f, s, tm);
                    Some (1, f\<lparr>bf_rtnValueMem := Some a\<rparr>, s, tm) }
          else Some (0, f, s, tm) })"

definition chain_argument :: "nat \<Rightarrow> fcnstate \<Rightarrow> fcnstate option" where
  "chain_argument argIdx = (\<lambda>(f, s, tm).
     do { cinfo \<leftarrow> chainInfo tm (bf_oracle f);
          check (pi_disp cinfo = ParmDirect);
          (a, f, s, tm) \<leftarrow> name_argument ''nest'' argIdx Nest (f, s, tm);
          Some (f\<lparr>bf_chainVal := Some a\<rparr>, s, tm) })"

definition abiSetup :: "vref list \<Rightarrow> fcnstate \<Rightarrow> fcnstate option" where
  "abiSetup fargs = (\<lambda>(f, s, tm).
     do { let f = (if bf_arguments f = [] then f\<lparr>bf_arguments := fargs\<rparr> else f);
          (argIdx, f, s, tm) \<leftarrow> sret_argument (f, s, tm);
          (f, s, tm) \<leftarrow> chain_argument argIdx (f, s, tm);
          (ps, rt, c) \<leftarrow> fcn_parts (bf_fcnType f) tm;
          (argIdx, f, s) \<leftarrow> abi_params tm 0 ps (argIdx + 1, f, s);
          Some (f, s, tm) })"

definition mk_bfunction :: "nat \<Rightarrow> vref \<Rightarrow> vref list \<Rightarrow> tref \<Rightarrow> string \<Rightarrow> string \<Rightarrow> location \<Rightarrow> bstate \<times> typemanager \<Rightarrow>
    fcnstate option" where
  "mk_bfunction n fv fargs fcnType name asmName loc = (\<lambda>(s, tm).
     do { b \<leftarrow> obj fcnType tm;
          oracle \<leftarrow> cabiOracle_of_type n tm b;
          (ps, rt, c) \<leftarrow> fcn_parts fcnType tm;
          let f = \<lparr>bf_fcnType = fcnType, bf_function = fv, bf_oracle = oracle, bf_allocas = [], bf_localVariables = [],
             bf_blocks = [], bf_valueVarMap = Map.empty, bf_rtnValueMem = None, bf_chainVal = None, bf_paramValues = [],
             bf_arguments = [], bf_paramsRegistered = 0, bf_labelmap = [], bf_labels = [], bf_name = name,
             bf_asmName = asmName, bf_location = loc, bf_splitStack = YesSplit, bf_prologGenerated = False, bf_attrs = []\<rparr>;
          if c then abiSetup fargs (f, s, tm) else Some (f, s, tm) })"

section \<open>Variables\<close>

definition install_var :: "vref \<Rightarrow> bvariable \<Rightarrow> bfunction \<times> bstate \<Rightarrow> (vbref \<times> bfunction \<times> bstate) option" where
  "install_var v bv = (\<lambda>(f, s).
     do { check (bf_valueVarMap f v = None);
          let (x, s) = new_bvariable bv s;
          Some (x, f\<lparr>bf_valueVarMap := (bf_valueVarMap f)(v \<mapsto> x)\<rparr>, s) })"

definition name_param :: "string \<Rightarrow> CABIParamInfo \<Rightarrow> vref \<Rightarrow> bfunction \<Rightarrow> bstate \<Rightarrow> bstate option" where
  "name_param name pinfo pv f s =
     (case pi_disp pinfo of
        ParmIgnore \<Rightarrow> Some (set_value_name pv name s)
      | ParmIndirect \<Rightarrow>
          do { a \<leftarrow> nth_opt (bf_arguments f) (unat (pi_sigOffset pinfo)); Some (set_value_name a name s) }
      | ParmDirect \<Rightarrow>
          do { let soff = pi_sigOffset pinfo;
               a \<leftarrow> nth_opt (bf_arguments f) (unat soff);
               s \<leftarrow> (if length (pi_abiTypes pinfo) = 1 then Some (set_value_name a name s)
                    else do { check (length (pi_abiTypes pinfo) = 2);
                              b \<leftarrow> nth_opt (bf_arguments f) (unat (soff + 1));
                              Some (set_value_name b (name @ ''.chunk1'') (set_value_name a (name @ ''.chunk0'') s)) });
               Some (set_value_name pv (name @ ''.addr'') s) })"

definition parameterVariable :: "string \<Rightarrow> tref \<Rightarrow> bool \<Rightarrow> location \<Rightarrow> typemanager \<Rightarrow> bfunction \<times> bstate \<Rightarrow>
    (vbref \<times> bfunction \<times> bstate) option" where
  "parameterVariable name btype is_address_taken loc tm = (\<lambda>(f, s).
     do { let argIdx = bf_paramsRegistered f;
          let f = f\<lparr>bf_paramsRegistered := argIdx + 1\<rparr>;
          argVal \<leftarrow> nth_opt (bf_paramValues f) (unat argIdx);
          (bv, f, s) \<leftarrow> install_var argVal (mk_bvariable btype loc name ParamVar is_address_taken (Some argVal)) (f, s);
          pinfo \<leftarrow> paramInfo tm (bf_oracle f) argIdx;
          s \<leftarrow> name_param name pinfo argVal f s;
          Some (bv, f, s) })"

fun isArgument :: "vref \<Rightarrow> bool" where
  "isArgument (ArgumentV i) = True"
| "isArgument _ = False"

definition staticChainVariable :: "string \<Rightarrow> tref \<Rightarrow> location \<Rightarrow> typemanager \<Rightarrow> bfunction \<times> bstate \<Rightarrow>
    (vbref \<times> bfunction \<times> bstate) option" where
  "staticChainVariable name btype loc tm = (\<lambda>(f, s).
     do { cinfo \<leftarrow> chainInfo tm (bf_oracle f);
          check (pi_disp cinfo = ParmDirect);
          a \<leftarrow> nth_opt (bf_arguments f) (unat (pi_sigOffset cinfo));
          let s = set_value_name a name s;
          t \<leftarrow> ll_of btype tm;
          let (inst, f, s) = addAlloca t (name @ ''.addr'') (f, s);
          cv \<leftarrow> bf_chainVal f;
          check (isArgument cv);
          let f = f\<lparr>bf_chainVal := Some inst\<rparr>;
          install_var inst (mk_bvariable btype loc name ParamVar False (Some inst)) (f, s) })"

definition localVariable :: "string \<Rightarrow> tref \<Rightarrow> bool \<Rightarrow> location \<Rightarrow> typemanager \<Rightarrow> bfunction \<times> bstate \<Rightarrow>
    (vbref \<times> bfunction \<times> bstate) option" where
  "localVariable name btype is_address_taken loc tm = (\<lambda>(f, s).
     do { t \<leftarrow> ll_of btype tm;
          let (inst, f, s) = addAlloca t name (f, s);
          (bv, f, s) \<leftarrow> install_var inst (mk_bvariable btype loc name LocalVar is_address_taken (Some inst)) (f, s);
          Some (bv, f\<lparr>bf_localVariables := bf_localVariables f @ [bv]\<rparr>, s) })"

definition createTemporary :: "llty \<Rightarrow> string \<Rightarrow> bfunction \<times> bstate \<Rightarrow> vref \<times> bfunction \<times> bstate" where
  "createTemporary typ tag fs = addAlloca typ tag fs"

definition createTemporary_btype :: "tref \<Rightarrow> string \<Rightarrow> typemanager \<Rightarrow> bfunction \<times> bstate \<Rightarrow>
    (vref \<times> bfunction \<times> bstate) option" where
  "createTemporary_btype btype tag tm fs = do { t \<leftarrow> ll_of btype tm; Some (createTemporary t tag fs) }"

definition getBvarForValue :: "vref \<Rightarrow> bfunction \<Rightarrow> vbref option" where
  "getBvarForValue v f = bf_valueVarMap f v"

definition getParameterVars :: "bfunction \<Rightarrow> vbref list option" where
  "getParameterVars f = map_opt (bf_valueVarMap f) (bf_paramValues f)"

definition getFunctionLocalVars :: "bfunction \<Rightarrow> vbref list" where
  "getFunctionLocalVars f = bf_localVariables f"

definition getNthParamVar :: "nat \<Rightarrow> bfunction \<Rightarrow> vbref option" where
  "getNthParamVar argIdx f = do { pval \<leftarrow> nth_opt (bf_paramValues f) argIdx; getBvarForValue pval f }"

section \<open>Labels\<close>

definition newLabel :: "fref option \<Rightarrow> location \<Rightarrow> bfunction \<Rightarrow> blabel \<times> bfunction" where
  "newLabel this loc f =
     (let lb = \<lparr>lb_function = this, lb_label = of_nat (length (bf_labels f)), lb_location = loc\<rparr>
      in (lb, f\<lparr>bf_labelmap := bf_labelmap f @ [None], bf_labels := bf_labels f @ [lb]\<rparr>))"

definition registerLabelDefStatement :: "nref \<Rightarrow> blabel \<Rightarrow> bfunction \<times> bstate \<Rightarrow> bfunction option" where
  "registerLabelDefStatement st label = (\<lambda>(f, s).
     do { b \<leftarrow> node st s;
          check (nd_flavor b = N_LabelStmt);
          d \<leftarrow> nth_opt (bf_labelmap f) (unat (lb_label label));
          check (d = None);
          Some (f\<lparr>bf_labelmap := (bf_labelmap f)[unat (lb_label label) := Some st]\<rparr>) })"

section \<open>Prolog\<close>

definition var_setInitializer :: "vbref \<Rightarrow> vref \<Rightarrow> bstate \<Rightarrow> bstate option" where
  "var_setInitializer x i s =
     do { v \<leftarrow> vb_heap s x; v \<leftarrow> setInitializer i v; Some (s\<lparr>vb_heap := (vb_heap s)(x \<mapsto> v)\<rparr>) }"

text \<open>Spilling an argument that arrives in one slot, and one that arrives in two.\<close>

definition spill_one :: "vref \<Rightarrow> llty \<Rightarrow> vref \<Rightarrow> binsts \<times> typemanager \<Rightarrow> (vref \<times> binsts \<times> typemanager) option" where
  "spill_one arg abity sploc = (\<lambda>((m, insts), tm).
     do { check (isPointerTy (ir_type m sploc));
          et \<leftarrow> getElementType (ir_type m sploc);
          (sploc, (m, insts), tm) \<leftarrow>
            (if isVectorTy abity \<or> ir_type m arg \<noteq> et
             then do { (tag, tm) \<leftarrow> tnamegen ''cast'' tm;
                       (bitcast, b) \<leftarrow> CreateBitCast sploc (makeLLVMPointerType abity) tag (m, insts);
                       Some (bitcast, b, tm) }
             else Some (sploc, (m, insts), tm));
          (si, b) \<leftarrow> CreateStore arg sploc (m, insts);
          Some (si, b, tm) })"

definition spill_two :: "vref \<Rightarrow> vref \<Rightarrow> llty \<Rightarrow> vref \<Rightarrow> binsts \<times> typemanager \<Rightarrow> (vref \<times> binsts \<times> typemanager) option" where
  "spill_two argChunk0 argChunk1 llst sploc = (\<lambda>(b, tm).
     do { (tag, tm) \<leftarrow> tnamegen ''cast'' tm;
          (bitcast, b) \<leftarrow> CreateBitCast sploc (makeLLVMPointerType llst) tag b;
          (tag0, tm) \<leftarrow> tnamegen ''field0'' tm;
          (field0gep, b) \<leftarrow> CreateConstInBoundsGEP2_32 llst bitcast 0 0 tag0 b;
          (si0, b) \<leftarrow> CreateStore argChunk0 field0gep b;
          (tag1, tm) \<leftarrow> tnamegen ''field1'' tm;
          (field1gep, b) \<leftarrow> CreateConstInBoundsGEP2_32 llst bitcast 0 1 tag0 b;
          (stinst, b) \<leftarrow> CreateStore argChunk1 field1gep b;
          Some (stinst, b, tm) })"

definition genArgSpill :: "bfunction \<Rightarrow> vbref \<Rightarrow> CABIParamInfo \<Rightarrow> vref \<Rightarrow> vref list \<times> bstate \<times> typemanager \<Rightarrow>
    (nat \<times> vref list \<times> bstate \<times> typemanager) option" where
  "genArgSpill f paramVar pinfo sploc = (\<lambda>(insts, s, tm).
     do { check (pi_disp pinfo = ParmDirect);
          arg \<leftarrow> nth_opt (bf_arguments f) (unat (pi_sigOffset pinfo));
          if length (pi_abiTypes pinfo) = 1
          then do { abity \<leftarrow> abiType pinfo;
                    (si, (m, insts), tm) \<leftarrow> spill_one arg abity sploc ((nd_ir s, insts), tm);
                    s \<leftarrow> var_setInitializer paramVar si (s\<lparr>nd_ir := m\<rparr>);
                    Some (1, insts, s, tm) }
          else do { check (length (pi_abiTypes pinfo) = 2);
                    llst \<leftarrow> computeABIStructType pinfo;
                    argChunk1 \<leftarrow> nth_opt (bf_arguments f) (unat (pi_sigOffset pinfo + 1));
                    (si, (m, insts), tm) \<leftarrow> spill_two arg argChunk1 llst sploc ((nd_ir s, insts), tm);
                    s \<leftarrow> var_setInitializer paramVar si (s\<lparr>nd_ir := m\<rparr>);
                    Some (2, insts, s, tm) } })"

definition spill_chain :: "bfunction \<Rightarrow> vref list \<times> bstate \<times> typemanager \<Rightarrow> (vref list \<times> bstate \<times> typemanager) option" where
  "spill_chain f = (\<lambda>(spills, s, tm).
     do { cinfo \<leftarrow> chainInfo tm (bf_oracle f);
          check (pi_disp cinfo = ParmDirect);
          a \<leftarrow> nth_opt (bf_arguments f) (unat (pi_sigOffset cinfo));
          if bf_chainVal f \<noteq> Some a
          then do { cv \<leftarrow> bf_chainVal f;
                    chainVar \<leftarrow> bf_valueVarMap f cv;
                    (k, spills, s, tm) \<leftarrow> genArgSpill f chainVar cinfo cv (spills, s, tm);
                    Some (spills, s, tm) }
          else Some (spills, s, tm) })"

definition spill_param :: "bfunction \<Rightarrow> nat \<Rightarrow> vref list \<times> bstate \<times> typemanager \<Rightarrow> (vref list \<times> bstate \<times> typemanager) option" where
  "spill_param f pidx = (\<lambda>(spills, s, tm).
     do { pinfo \<leftarrow> paramInfo tm (bf_oracle f) (of_nat pidx);
          if pi_disp pinfo \<noteq> ParmDirect then Some (spills, s, tm)
          else do { v \<leftarrow> getNthParamVar pidx f;
                    sploc \<leftarrow> nth_opt (bf_paramValues f) pidx;
                    check (isInstruction sploc);
                    (k, spills, s, tm) \<leftarrow> genArgSpill f v pinfo sploc (spills, s, tm);
                    Some (spills, s, tm) } })"

text \<open>Parameters without an initializer get the first instruction of the entry block.\<close>

definition default_initializer :: "bfunction \<Rightarrow> vref option \<Rightarrow> nat \<Rightarrow> bstate \<Rightarrow> bstate option" where
  "default_initializer f front pidx s =
     do { x \<leftarrow> getNthParamVar pidx f;
          v \<leftarrow> vb_heap s x;
          if bv_initializer v = None then do { i \<leftarrow> front; var_setInitializer x i s } else Some s }"

definition push_insts :: "bbref \<Rightarrow> vref list \<Rightarrow> cfg \<Rightarrow> cfg option" where
  "push_insts b is c = fold_opt (push_inst b) is c"

definition genProlog :: "bbref \<Rightarrow> fcnstate \<times> cfg \<Rightarrow> (fcnstate \<times> cfg) option" where
  "genProlog entry = (\<lambda>((f, s, tm), c).
     do { rinfo \<leftarrow> returnInfo tm (bf_oracle f);
          (spills, s, tm) \<leftarrow> spill_chain f ([], s, tm);
          (ps, rt, cabi) \<leftarrow> fcn_parts (bf_fcnType f) tm;
          (spills, s, tm) \<leftarrow> fold_opt (spill_param f) [0..<length ps] (spills, s, tm);
          c \<leftarrow> push_insts entry (bf_allocas f) c;
          c \<leftarrow> push_insts entry spills c;
          is \<leftarrow> cf_insts c entry;
          s \<leftarrow> (if is \<noteq> [] then fold_opt (default_initializer f (Some (hd is))) [0..<length ps] s else Some s);
          Some ((f\<lparr>bf_prologGenerated := True\<rparr>, s, tm), c) })"

definition fixupProlog :: "bbref \<Rightarrow> cfg \<Rightarrow> fcnstate \<Rightarrow> fcnstate option" where
  "fixupProlog entry c = (\<lambda>(f, s, tm).
     do { (ps, rt, cabi) \<leftarrow> fcn_parts (bf_fcnType f) tm;
          is \<leftarrow> cf_insts c entry;
          s \<leftarrow> fold_opt (default_initializer f (if is = [] then None else Some (hd is))) [0..<length ps] s;
          Some (f, s, tm) })"

section \<open>Returning a value\<close>

text \<open>
  \<open>CreateMemCpy\<close> is LLVM's: what it makes for a destination, a source, a size and an alignment is a
  parameter, the instructions in order.
\<close>

type_synonym memcpy_builder = "vref \<Rightarrow> vref \<Rightarrow> u64 \<Rightarrow> u64 \<Rightarrow> irmem \<Rightarrow> vref list \<times> irmem"

definition genReturnSequence :: "memcpy_builder \<Rightarrow> nat \<Rightarrow> nref \<Rightarrow> vref list \<Rightarrow> nametags \<Rightarrow> fcnstate \<Rightarrow>
    (vref option \<times> vref list \<times> nametags \<times> fcnstate) option" where
  "genReturnSequence CreateMemCpy n toRet retInstrs inamegen = (\<lambda>(f, s, tm).
     do { rinfo \<leftarrow> returnInfo tm (bf_oracle f);
          (ps, rt, cabi) \<leftarrow> fcn_parts (bf_fcnType f) tm;
          rty \<leftarrow> ll_of rt tm;
          (b, e) \<leftarrow> as_expr toRet s;
          if pi_disp rinfo = ParmIgnore \<or> rty = llvmVoidType then Some (None, retInstrs, inamegen, f, s, tm)
          else if pi_disp rinfo = ParmIndirect then
            do { sz \<leftarrow> typeSize n rt tm; algn \<leftarrow> typeAlignment rt tm;
                 dst \<leftarrow> bf_rtnValueMem f; src \<leftarrow> e_value e;
                 let (is, m) = CreateMemCpy dst src sz algn (nd_ir s);
                 let (m, inamegen) = block_instructions is m inamegen;
                 retInstrs \<leftarrow> append_instructions is retInstrs;
                 Some (None, retInstrs, inamegen, f, s\<lparr>nd_ir := m\<rparr>, tm) }
          else do {
            abity \<leftarrow> abiType rinfo;
            direct \<leftarrow> (if isAggregateType abity then Some False
                       else do { et \<leftarrow> e_btype e; ety \<leftarrow> ll_of et tm; Some (\<not> isAggregateType ety) });
            if direct then Some (e_value e, retInstrs, inamegen, f, s, tm)
            else do {
              val \<leftarrow> e_value e;
              llrt \<leftarrow> (if isAggregateType abity then computeABIStructType rinfo else Some abity);
              (castname, tm) \<leftarrow> tnamegen ''cast'' tm;
              (bitcast, b) \<leftarrow> CreateBitCast val (makeLLVMPointerType llrt) castname (nd_ir s, retInstrs);
              (loadname, tm) \<leftarrow> tnamegen ''ld'' tm;
              (ldinst, m, retInstrs) \<leftarrow> CreateLoad bitcast loadname b;
              Some (Some ldinst, retInstrs, inamegen, f, s\<lparr>nd_ir := m\<rparr>, tm) } } })"

end
