(* ===== verification/BfunctionFacts.thy ===== *)
theory BfunctionFacts
  imports Bfunctions BnodeFacts CabiFacts
begin

text \<open>
  What \<open>Bfunction\<close> guarantees: the values of the parameters, the spills of the prolog, the variables of
  the parameters.
\<close>

section \<open>Instructions already made stay as they are\<close>

definition ir_le :: "irmem \<Rightarrow> irmem \<Rightarrow> bool" where
  "ir_le m m' \<longleftrightarrow> ir_fresh m' \<and> (\<forall>v. ir_operands m v \<noteq> None \<longrightarrow>
     ir_operands m' v = ir_operands m v \<and> ir_op m' v = ir_op m v \<and> ir_type m' v = ir_type m v)"

lemma ir_le_refl [simp]: "ir_fresh m \<Longrightarrow> ir_le m m"
  by (simp add: ir_le_def)

lemma ir_le_trans: "ir_le m m' \<Longrightarrow> ir_le m' m'' \<Longrightarrow> ir_le m m''"
  unfolding ir_le_def by metis

lemma ir_le_fresh: "ir_le m m' \<Longrightarrow> ir_fresh m'"
  by (simp add: ir_le_def)

lemma new_inst_Some:
  assumes "new_inst iop ops t nm m = (v, m')" "ir_fresh m"
  shows "ir_le m m' \<and> isInstruction v \<and> ir_operands m v = None \<and> ir_operands m' v = Some ops \<and> ir_op m' v = iop \<and>
     ir_type m' v = t \<and> isAllocaInst v = (\<exists>u. iop = AllocaOp u)"
proof -
  have m': "m' = m\<lparr>ir_next := Suc (ir_next m), ir_operands := (ir_operands m)(v \<mapsto> ops),
               ir_name := (ir_name m)(v := nm), ir_op := (ir_op m)(v := iop), ir_type := (ir_type m)(v := t)\<rparr>"
    and v: "isInstruction v" "vref_id v = ir_next m" "isAllocaInst v = (\<exists>u. iop = AllocaOp u)"
    using assms(1) by (cases iop; auto simp: new_inst_def Let_def)+
  have "ir_operands m v = None" using assms(2) v(2) unfolding ir_fresh_def by (metis less_irrefl)
  with v assms(2) show ?thesis by (auto simp: m' ir_le_def ir_fresh_def less_Suc_eq)
qed

lemma set_name_le: "ir_fresh m \<Longrightarrow> ir_le m (set_name v nm m)"
  by (simp add: set_name_def ir_le_def ir_fresh_def)

lemma folded_constant_Some:
  assumes "folded_constant iop ops t m = (v, m')" "ir_fresh m"
  shows "ir_le m m' \<and> ir_operands m' v = Some ops \<and> ir_op m' v = iop \<and> ir_type m' v = t"
proof -
  have "ir_operands m (ConstantV (ir_next m)) = None" using assms(2) unfolding ir_fresh_def by (metis less_irrefl vref_id.simps(3))
  with assms show ?thesis by (auto simp: folded_constant_def Let_def ir_le_def ir_fresh_def less_Suc_eq split: if_split_asm)
qed

section \<open>Where a store goes\<close>

text \<open>An address is rooted in a slot if it is the slot, or a cast or a field address of one that is.\<close>

inductive rooted :: "irmem \<Rightarrow> vref \<Rightarrow> vref \<Rightarrow> bool" for m slot where
  root: "rooted m slot slot"
| via: "ir_operands m p = Some [q] \<Longrightarrow> isCast (ir_op m p) \<or> (\<exists>is. ir_op m p = GepOp is) \<Longrightarrow> rooted m slot q \<Longrightarrow> rooted m slot p"

definition spilled :: "irmem \<Rightarrow> vref \<Rightarrow> vref \<times> vref \<Rightarrow> bool" where
  "spilled m i = (\<lambda>(a, slot). ir_op m i = StoreOp \<and> (\<exists>p. ir_operands m i = Some [a, p] \<and> rooted m slot p))"

lemma rooted_le: "rooted m slot p \<Longrightarrow> ir_le m m' \<Longrightarrow> rooted m' slot p"
  by (induction rule: rooted.induct) (auto simp: ir_le_def intro: rooted.intros)

lemma spilled_le: "spilled m i x \<Longrightarrow> ir_le m m' \<Longrightarrow> spilled m' i x"
  using rooted_le [of m _ _ m'] by (fastforce simp: spilled_def ir_le_def)

text \<open>Instructions made one after the other, and the stores among them.\<close>

definition made :: "irmem \<Rightarrow> vref list \<Rightarrow> irmem \<Rightarrow> vref list \<Rightarrow> (vref \<times> vref) list \<Rightarrow> bool" where
  "made m is m' js stores \<longleftrightarrow> (\<exists>new. js = is @ new \<and> ir_le m m' \<and>
     (\<forall>i \<in> set new. isInstruction i \<and> \<not> isAllocaInst i \<and> ir_operands m' i \<noteq> None) \<and>
     list_all2 (spilled m') (filter (\<lambda>i. ir_op m' i = StoreOp) new) stores)"

lemma made_refl: "ir_fresh m \<Longrightarrow> made m is m is []"
  by (simp add: made_def)

lemma made_trans:
  assumes "made m is m' js xs" "made m' js m'' ks ys"
  shows "made m is m'' ks (xs @ ys)"
proof -
  from assms obtain new new' where n: "js = is @ new" "ir_le m m'" "\<forall>i \<in> set new. isInstruction i \<and> \<not> isAllocaInst i \<and> ir_operands m' i \<noteq> None"
    "list_all2 (spilled m') (filter (\<lambda>i. ir_op m' i = StoreOp) new) xs"
    and n': "ks = js @ new'" "ir_le m' m''" "\<forall>i \<in> set new'. isInstruction i \<and> \<not> isAllocaInst i \<and> ir_operands m'' i \<noteq> None"
    "list_all2 (spilled m'') (filter (\<lambda>i. ir_op m'' i = StoreOp) new') ys"
    unfolding made_def by blast
  have same: "ir_operands m'' i \<noteq> None \<and> ir_op m'' i = ir_op m' i" if "i \<in> set new" for i
    using n(3) n'(2) that unfolding ir_le_def by auto
  then have "filter (\<lambda>i. ir_op m'' i = StoreOp) new = filter (\<lambda>i. ir_op m' i = StoreOp) new"
    by (intro filter_cong) auto
  with n(4) n'(2) have "list_all2 (spilled m'') (filter (\<lambda>i. ir_op m'' i = StoreOp) new) xs"
    by (auto elim!: list_all2_mono intro: spilled_le)
  with n'(4) have "list_all2 (spilled m'') (filter (\<lambda>i. ir_op m'' i = StoreOp) (new @ new')) (xs @ ys)"
    by (auto intro: list_all2_appendI)
  moreover have "\<forall>i \<in> set (new @ new'). isInstruction i \<and> \<not> isAllocaInst i \<and> ir_operands m'' i \<noteq> None"
    using n(3) n'(3) same by auto
  ultimately show ?thesis using n(1,2) n'(1,2) unfolding made_def by (intro exI [of _ "new @ new'"]) (auto intro: ir_le_trans)
qed

lemma made_le: "made m is m' js xs \<Longrightarrow> ir_le m m'"
  by (auto simp: made_def)

lemma create_inst_made:
  assumes "create_inst iop ops t nm (m, is) = Some (v, m', js)" "ir_fresh m"
  shows "isInstruction v \<and> ir_operands m' v = Some ops \<and> ir_op m' v = iop \<and> ir_type m' v = t \<and>
     (iop \<noteq> StoreOp \<longrightarrow> made m is m' js [])"
proof -
  from assms(1) have n: "new_inst iop ops t nm m = (v, m')" "isValidInst v" "js = is @ [v]"
    by (auto simp: create_inst_Some)
  from new_inst_Some [OF n(1) assms(2)] n(2,3) show ?thesis by (auto simp: made_def isValidInst_def)
qed

lemma CreateStore_made:
  assumes "CreateStore a p (m, is) = Some (v, m', js)" "ir_fresh m" "rooted m slot p"
  shows "isInstruction v \<and> made m is m' js [(a, slot)]"
proof -
  from assms(1) have c: "create_inst StoreOp [a, p] VoidTy '''' (m, is) = Some (v, m', js)"
    by (auto simp: CreateStore_def bind_Some_iff split: if_split_asm)
  then have n: "new_inst StoreOp [a, p] VoidTy '''' m = (v, m')" "isValidInst v" "js = is @ [v]" by (auto simp: create_inst_Some)
  from new_inst_Some [OF n(1) assms(2)] n rooted_le [OF assms(3)] show ?thesis
    by (auto simp: made_def spilled_def isValidInst_def)
qed

lemma create_or_fold_made:
  assumes "create_or_fold iop [p] t nm (m, is) = Some (v, m', js)" "ir_fresh m" "rooted m slot p"
    and "isCast iop \<or> (\<exists>is. iop = GepOp is)"
  shows "made m is m' js [] \<and> rooted m' slot v"
proof -
  have "ir_operands m' v = Some [p] \<and> ir_op m' v = iop \<and> made m is m' js []"
  proof (cases "isConstant p")
    case True
    with assms(1) have "folded_constant iop [p] t m = (v, m')" "js = is" by (auto simp: create_or_fold_def Let_def split: prod.splits)
    with folded_constant_Some [OF this(1) assms(2)] show ?thesis by (auto simp: made_def)
  next
    case False
    with assms(1) have "create_inst iop [p] t nm (m, is) = Some (v, m', js)" by (simp add: create_or_fold_def)
    from create_inst_made [OF this assms(2)] assms(4) show ?thesis by auto
  qed
  with assms(3,4) show ?thesis by (metis made_le rooted.via rooted_le)
qed

lemma CreateBitCast_made:
  assumes "CreateBitCast p t nm (m, is) = Some (v, m', js)" "ir_fresh m" "rooted m slot p"
  shows "made m is m' js [] \<and> rooted m' slot v"
  using assms create_or_fold_made [of "CastOp ''bitcast''" p t nm m "is" v m' js slot]
  by (auto simp: CreateBitCast_def made_refl split: if_split_asm)

lemma CreateGEP_made:
  assumes "CreateConstInBoundsGEP2_32 st p i j nm (m, is) = Some (v, m', js)" "ir_fresh m" "rooted m slot p"
  shows "made m is m' js [] \<and> rooted m' slot v"
  using assms create_or_fold_made [of "GepOp [i, j]" p _ nm m "is" v m' js slot]
  by (auto simp: CreateConstInBoundsGEP2_32_def bind_Some_iff split: if_split_asm)

section \<open>Spilling an argument\<close>

lemma made_fresh: "made m is m' js xs \<Longrightarrow> ir_fresh m'"
  by (auto simp: made_def ir_le_def)

lemma spill_one_made:
  assumes "spill_one a t slot ((m, is), tm) = Some (si, (m', js), tm')" "ir_fresh m"
  shows "isInstruction si \<and> made m is m' js [(a, slot)]"
proof -
  obtain p m1 is1 where p: "made m is m1 is1 [] \<and> rooted m1 slot p" "CreateStore a p (m1, is1) = Some (si, m', js)"
    using assms CreateBitCast_made [OF _ assms(2) rooted.root] rooted.root made_refl
    by (auto simp: spill_one_def bind_Some_iff split: if_split_asm; blast)
  then have "isInstruction si" "made m1 is1 m' js [(a, slot)]" using CreateStore_made [OF p(2)] made_fresh by blast+
  with made_trans [of m "is" m1 is1 "[]" m' js] p(1) show ?thesis by auto
qed

lemma spill_two_made:
  assumes "spill_two a b st slot ((m, is), tm) = Some (si, (m', js), tm')" "ir_fresh m"
  shows "isInstruction si \<and> made m is m' js [(a, slot), (b, slot)]"
proof -
  from assms(1) obtain nm nm0 p m1 is1 q m2 is2 s0 m3 is3 r m4 is4 where
    st: "CreateBitCast slot (makeLLVMPointerType st) nm (m, is) = Some (p, m1, is1)"
      "CreateConstInBoundsGEP2_32 st p 0 0 nm0 (m1, is1) = Some (q, m2, is2)"
      "CreateStore a q (m2, is2) = Some (s0, m3, is3)"
      "CreateConstInBoundsGEP2_32 st p 0 1 nm0 (m3, is3) = Some (r, m4, is4)"
      "CreateStore b r (m4, is4) = Some (si, m', js)"
    by (auto simp: spill_two_def bind_Some_iff)
  note c1 = CreateBitCast_made [OF st(1) assms(2) rooted.root]
  note c2 = CreateGEP_made [OF st(2) made_fresh [OF conjunct1 [OF c1]] conjunct2 [OF c1]]
  note c3 = CreateStore_made [OF st(3) made_fresh [OF conjunct1 [OF c2]] conjunct2 [OF c2]]
  have "rooted m3 slot p" using c1 c2 c3 by (meson made_le rooted_le)
  note c4 = CreateGEP_made [OF st(4) made_fresh [OF conjunct2 [OF c3]] this]
  note c5 = CreateStore_made [OF st(5) made_fresh [OF conjunct1 [OF c4]] conjunct2 [OF c4]]
  have "made m is m3 is3 [(a, slot)]" using c1 c2 c3 by (metis made_trans append_Nil)
  moreover have "made m3 is3 m' js [(b, slot)]" using c4 c5 by (metis made_trans append_Nil)
  ultimately show ?thesis using c5 made_trans by fastforce
qed

section \<open>The prolog\<close>

definition param_args :: "vref list \<Rightarrow> CABIParamInfo \<Rightarrow> vref list" where
  "param_args args p =
     (if pi_disp p = ParmIgnore then []
      else map (\<lambda>j. args ! unat (pi_sigOffset p + of_nat j)) [0..<numArgSlots p])"

definition nth_info :: "bfunction \<Rightarrow> nat \<Rightarrow> CABIParamInfo" where
  "nth_info f k = or_infov (bf_oracle f) ! (k + 2)"

definition direct_spills :: "bfunction \<Rightarrow> nat \<Rightarrow> (vref \<times> vref) list" where
  "direct_spills f k =
     (if pi_disp (nth_info f k) = ParmDirect
      then map (\<lambda>a. (a, bf_paramValues f ! k)) (param_args (bf_arguments f) (nth_info f k)) else [])"

definition chain_spills :: "bfunction \<Rightarrow> (vref \<times> vref) list" where
  "chain_spills f =
     (let args = param_args (bf_arguments f) (or_infov (bf_oracle f) ! 1)
      in if bf_chainVal f = Some (hd args) then [] else map (\<lambda>a. (a, the (bf_chainVal f))) args)"

lemma nth_opt_read: "nth_opt xs i = Some x \<longleftrightarrow> i < length xs \<and> x = xs ! i"
  by (auto simp: nth_opt_def)

lemma paramInfo_Some: "paramInfo tm orc i = Some p \<longleftrightarrow> supported tm \<and> unat (i + 2) < length (or_infov orc) \<and> p = or_infov orc ! unat (i + 2)"
  by (auto simp: paramInfo_def bind_Some_iff nth_opt_read split: if_split_asm)

lemma chainInfo_Some: "chainInfo tm orc = Some p \<longleftrightarrow> supported tm \<and> 1 < length (or_infov orc) \<and> p = or_infov orc ! 1"
  by (auto simp: chainInfo_def bind_Some_iff nth_opt_read split: if_split_asm)

lemma returnInfo_Some: "returnInfo tm orc = Some p \<longleftrightarrow> supported tm \<and> 0 < length (or_infov orc) \<and> p = or_infov orc ! 0"
  by (auto simp: returnInfo_def bind_Some_iff nth_opt_read split: if_split_asm)

lemma unat_index: "k + 2 < 2 ^ 32 \<Longrightarrow> unat (of_nat k + 2 :: u32) = k + 2"
proof -
  assume "k + 2 < 2 ^ 32"
  then have "unat (of_nat (k + 2) :: u32) = k + 2" by (subst unat_of_nat) simp
  then show ?thesis by (simp add: add.commute)
qed

lemma tnamegen_same: "tnamegen tag tm = Some (nm, tm') \<Longrightarrow> supported tm' = supported tm \<and> tm_heap tm' = tm_heap tm"
  by (auto simp: tnamegen_def bind_Some_iff case_prod_beta Let_def supported_def)

lemma spill_one_tm: "spill_one a t slot (b, tm) = Some (si, b', tm') \<Longrightarrow> supported tm' = supported tm \<and> tm_heap tm' = tm_heap tm"
  by (cases b) (auto simp: spill_one_def bind_Some_iff dest: tnamegen_same split: if_split_asm)

lemma spill_two_tm: "spill_two a b st slot (c, tm) = Some (si, c', tm') \<Longrightarrow> supported tm' = supported tm \<and> tm_heap tm' = tm_heap tm"
  by (auto simp: spill_two_def bind_Some_iff dest!: tnamegen_same)

lemma var_setInitializer_ir: "var_setInitializer x i s = Some t \<Longrightarrow> nd_ir t = nd_ir s"
  by (auto simp: var_setInitializer_def bind_Some_iff)

lemma genArgSpill_made:
  assumes "genArgSpill f x p slot (is, s, tm) = Some (k, js, s', tm')" "ir_fresh (nd_ir s)"
  shows "made (nd_ir s) is (nd_ir s') js (map (\<lambda>a. (a, slot)) (param_args (bf_arguments f) p)) \<and>
     k = numArgSlots p \<and> supported tm' = supported tm \<and> tm_heap tm' = tm_heap tm"
proof (cases "length (pi_abiTypes p) = 1")
  case True
  from assms(1) True obtain t si m where *: "pi_disp p = ParmDirect" "unat (pi_sigOffset p) < length (bf_arguments f)"
    "spill_one (bf_arguments f ! unat (pi_sigOffset p)) t slot ((nd_ir s, is), tm) = Some (si, (m, js), tm')"
    "var_setInitializer x si (s\<lparr>nd_ir := m\<rparr>) = Some s'" "k = 1"
    by (auto simp: genArgSpill_def bind_Some_iff nth_opt_read split: if_split_asm)
  with spill_one_made [OF *(3) assms(2)] spill_one_tm [OF *(3)] var_setInitializer_ir [OF *(4)] True show ?thesis
    by (simp add: param_args_def numArgSlots_def)
next
  case False
  with assms(1) obtain st si m where *: "pi_disp p = ParmDirect" "length (pi_abiTypes p) = 2"
    "spill_two (bf_arguments f ! unat (pi_sigOffset p)) (bf_arguments f ! unat (pi_sigOffset p + 1)) st slot ((nd_ir s, is), tm) =
       Some (si, (m, js), tm')"
    "var_setInitializer x si (s\<lparr>nd_ir := m\<rparr>) = Some s'" "k = 2"
    by (auto simp: genArgSpill_def bind_Some_iff nth_opt_read split: if_split_asm)
  with spill_two_made [OF *(3) assms(2)] spill_two_tm [OF *(3)] var_setInitializer_ir [OF *(4)] show ?thesis
    by (simp add: param_args_def numArgSlots_def numeral_2_eq_2)
qed

lemma spill_chain_made:
  assumes "spill_chain f (is, s, tm) = Some (js, s', tm')" "ir_fresh (nd_ir s)" "numArgSlots (or_infov (bf_oracle f) ! 1) = 1"
  shows "made (nd_ir s) is (nd_ir s') js (chain_spills f) \<and> supported tm' = supported tm \<and> tm_heap tm' = tm_heap tm"
proof -
  let ?p = "or_infov (bf_oracle f) ! 1"
  from assms(1) have p: "chainInfo tm (bf_oracle f) = Some ?p" "pi_disp ?p = ParmDirect"
    by (auto simp: spill_chain_def bind_Some_iff chainInfo_Some split: if_split_asm)
  then have args: "param_args (bf_arguments f) ?p = [bf_arguments f ! unat (pi_sigOffset ?p)]"
    using assms(3) by (simp add: param_args_def)
  show ?thesis
  proof (cases "bf_chainVal f = Some (bf_arguments f ! unat (pi_sigOffset ?p))")
    case True
    with assms(1) p have "js = is" "s' = s" "tm' = tm" by (auto simp: spill_chain_def bind_Some_iff nth_opt_read split: if_split_asm)
    with True assms(2) args show ?thesis by (simp add: chain_spills_def made_refl)
  next
    case False
    with assms(1) p obtain cv cx k where "bf_chainVal f = Some cv" "genArgSpill f cx ?p cv (is, s, tm) = Some (k, js, s', tm')"
      by (auto simp: spill_chain_def bind_Some_iff nth_opt_read split: if_split_asm)
    with genArgSpill_made [OF this(2) assms(2)] False args show ?thesis by (simp add: chain_spills_def)
  qed
qed

lemma spill_param_made:
  assumes "spill_param f k (is, s, tm) = Some (js, s', tm')" "ir_fresh (nd_ir s)" "k + 2 < 2 ^ 32"
  shows "made (nd_ir s) is (nd_ir s') js (direct_spills f k) \<and> supported tm' = supported tm \<and> tm_heap tm' = tm_heap tm"
proof -
  have p: "paramInfo tm (bf_oracle f) (of_nat k) = Some (nth_info f k)"
    using assms(1) unat_index [OF assms(3)] by (auto simp: spill_param_def bind_Some_iff paramInfo_Some nth_info_def)
  show ?thesis
  proof (cases "pi_disp (nth_info f k) = ParmDirect")
    case True
    with assms(1) p obtain v n where "genArgSpill f v (nth_info f k) (bf_paramValues f ! k) (is, s, tm) = Some (n, js, s', tm')"
      by (auto simp: spill_param_def bind_Some_iff nth_opt_read split: if_split_asm)
    from genArgSpill_made [OF this assms(2)] True show ?thesis by (simp add: direct_spills_def)
  next
    case False
    with assms(1,2) p show ?thesis by (auto simp: spill_param_def direct_spills_def made_refl)
  qed
qed

lemma spill_params_made:
  assumes "fold_opt (spill_param f) ks (is, s, tm) = Some (js, s', tm')" "ir_fresh (nd_ir s)" "\<forall>k \<in> set ks. k + 2 < 2 ^ 32"
  shows "made (nd_ir s) is (nd_ir s') js (concat (map (direct_spills f) ks)) \<and> supported tm' = supported tm \<and> tm_heap tm' = tm_heap tm"
  using assms
proof (induction ks arbitrary: "is" s tm)
  case Nil
  then show ?case by (simp add: made_refl)
next
  case (Cons k ks)
  then obtain is1 s1 tm1 where *: "spill_param f k (is, s, tm) = Some (is1, s1, tm1)"
    "fold_opt (spill_param f) ks (is1, s1, tm1) = Some (js, s', tm')"
    by (auto simp: bind_Some_iff)
  with spill_param_made [OF *(1)] Cons.prems(2,3) Cons.IH [OF *(2)] made_fresh made_trans show ?case by fastforce
qed

lemma default_initializers_ir:
  "fold_opt (default_initializer f front) ks s = Some t \<Longrightarrow> nd_ir t = nd_ir s"
  by (induction ks arbitrary: s)
     (fastforce simp: bind_Some_iff default_initializer_def dest: var_setInitializer_ir split: if_split_asm)+

lemma push_insts_Some: "push_insts b is c = Some d \<Longrightarrow> cf_insts c b = Some old \<Longrightarrow> cf_insts d b = Some (old @ is)"
  unfolding push_insts_def by (induction "is" arbitrary: c old) (auto simp: bind_Some_iff push_inst_def)

section \<open>The arguments and the values of the parameters\<close>

lemma slots_from_le: "slots_from elems k ps \<Longrightarrow> k \<le> length elems"
  by (induction ps arbitrary: k) (auto split: if_split_asm dest: add_leD1)

lemma param_args_slots:
  assumes "pi_sigOffset p = of_nat k" "k + numArgSlots p \<le> length args" "length args < 2 ^ 32" "pi_disp p \<noteq> ParmIgnore"
  shows "param_args args p = take (numArgSlots p) (drop k args)"
proof (rule nth_equalityI)
  show "length (param_args args p) = length (take (numArgSlots p) (drop k args))" using assms(2,4) by (simp add: param_args_def)
  fix j assume "j < length (param_args args p)"
  then have j: "j < numArgSlots p" using assms(4) by (simp add: param_args_def)
  have "unat (of_nat (k + j) :: u32) = k + j" using j assms(2,3) by (subst unat_of_nat) simp
  then have "unat (pi_sigOffset p + of_nat j) = k + j" by (simp add: assms(1))
  with j assms(2,4) show "param_args args p ! j = take (numArgSlots p) (drop k args) ! j" by (simp add: param_args_def)
qed

lemma slots_from_head:
  assumes "slots_from elems k (p # ps)" "pi_disp p \<noteq> ParmIgnore" "length args = length elems" "length elems < 2 ^ 32"
  shows "param_args args p = take (numArgSlots p) (drop k args) \<and> k + numArgSlots p \<le> length elems"
proof -
  have "k + numArgSlots p \<le> length elems" using assms(1,2) slots_from_le [of elems "k + numArgSlots p" ps] by simp
  moreover have "pi_sigOffset p = of_nat k" using assms(1,2) by simp
  ultimately show ?thesis using param_args_slots [of p k args] assms(2-4) by simp
qed

lemma param_args_partition:
  "slots_from elems k ps \<Longrightarrow> length args = length elems \<Longrightarrow> length elems < 2 ^ 32 \<Longrightarrow>
   concat (map (param_args args) ps) = drop k args"
proof (induction ps arbitrary: k)
  case (Cons p ps)
  show ?case
  proof (cases "pi_disp p = ParmIgnore")
    case True
    with Cons show ?thesis by (simp add: param_args_def)
  next
    case False
    note h = slots_from_head [OF Cons.prems(1) False Cons.prems(2,3)]
    have "concat (map (param_args args) ps) = drop (k + numArgSlots p) args" using Cons False by simp
    also have "\<dots> = drop (numArgSlots p) (drop k args)" by (simp add: add.commute)
    finally show ?thesis using h by (simp del: drop_drop)
  qed
qed simp

definition value_ok :: "bfunction \<Rightarrow> irmem \<Rightarrow> llty option \<Rightarrow> CABIParamInfo \<Rightarrow> vref \<Rightarrow> bool" where
  "value_ok f m t p v \<longleftrightarrow>
     (if pi_disp p = ParmIndirect then param_args (bf_arguments f) p = [v]
      else v \<in> set (bf_allocas f) \<and> ir_operands m v \<noteq> None \<and> (\<exists>u. t = Some u \<and> ir_op m v = AllocaOp u))"

definition abi_frame :: "bfunction \<Rightarrow> bstate \<Rightarrow> bfunction \<Rightarrow> bstate \<Rightarrow> bool" where
  "abi_frame f s f' s' \<longleftrightarrow> bf_arguments f' = bf_arguments f \<and> bf_oracle f' = bf_oracle f \<and> bf_rtnValueMem f' = bf_rtnValueMem f \<and>
     bf_chainVal f' = bf_chainVal f \<and> bf_valueVarMap f' = bf_valueVarMap f \<and> bf_fcnType f' = bf_fcnType f \<and>
     bf_paramsRegistered f' = bf_paramsRegistered f \<and>
     set (bf_allocas f) \<subseteq> set (bf_allocas f') \<and> ir_le (nd_ir s) (nd_ir s')"

lemma abi_frame_trans: "abi_frame f s g t \<Longrightarrow> abi_frame g t h u \<Longrightarrow> abi_frame f s h u"
  unfolding abi_frame_def by (auto intro: ir_le_trans)

lemma value_ok_frame: "value_ok f (nd_ir s) t p v \<Longrightarrow> abi_frame f s f' s' \<Longrightarrow> value_ok f' (nd_ir s') t p v"
  by (auto simp: value_ok_def abi_frame_def ir_le_def split: if_split_asm)

lemma addAlloca_frame:
  assumes "addAlloca t nm (f, s) = (v, f', s')" "ir_fresh (nd_ir s)"
  shows "abi_frame f s f' s' \<and> bf_paramValues f' = bf_paramValues f \<and> bf_allocas f' = bf_allocas f @ [v] \<and> isAllocaInst v \<and>
     ir_operands (nd_ir s) v = None \<and> ir_operands (nd_ir s') v = Some [] \<and> ir_op (nd_ir s') v = AllocaOp t"
proof -
  obtain w m where w: "new_inst (AllocaOp t) [] (PointerTy t) '''' (nd_ir s) = (w, m)" by fastforce
  note n = new_inst_Some [OF w assms(2)]
  have "ir_le m (if nm \<noteq> '''' then set_name w nm m else m)" using n ir_le_fresh set_name_le by auto
  with n w assms(1) show ?thesis
    by (auto simp: addAlloca_def Let_def abi_frame_def set_name_def intro: ir_le_trans)
qed

definition attr_only :: "bfunction \<Rightarrow> bfunction \<Rightarrow> bool" where
  "attr_only f f' \<longleftrightarrow> bf_arguments f' = bf_arguments f \<and> bf_oracle f' = bf_oracle f \<and> bf_rtnValueMem f' = bf_rtnValueMem f \<and>
     bf_chainVal f' = bf_chainVal f \<and> bf_valueVarMap f' = bf_valueVarMap f \<and> bf_fcnType f' = bf_fcnType f \<and>
     bf_paramsRegistered f' = bf_paramsRegistered f \<and> bf_allocas f' = bf_allocas f \<and> bf_paramValues f' = bf_paramValues f"

lemma arg_attr_of_only: "arg_attr_of at a f = Some f' \<Longrightarrow> attr_only f f'"
  by (auto simp: arg_attr_of_def addAttr_def attr_only_def split: if_split_asm)

lemma abi_param_value:
  assumes "abi_param tm pt p (a, f, s) = Some (a', f', s')" "ir_fresh (nd_ir s)" "slots_from elems a (p # ps)"
    and "length (bf_arguments f) = length elems" "length elems < 2 ^ 32"
  shows "\<exists>v. bf_paramValues f' = bf_paramValues f @ [v] \<and> value_ok f' (nd_ir s') (ll_of pt tm) p v \<and> abi_frame f s f' s' \<and>
     slots_from elems a' ps"
proof (cases "pi_disp p")
  case ParmIgnore
  with assms(1) obtain t where t: "ll_of pt tm = Some t" by (auto simp: abi_param_def bind_Some_iff)
  obtain v g u where "addAlloca t '''' (f, s) = (v, g, u)" by (rule prod_cases3)
  moreover from this have "f' = add_paramValue v g" "s' = u" "a' = a"
    using assms(1) t ParmIgnore by (auto simp: abi_param_def)
  ultimately show ?thesis
    using addAlloca_frame [OF _ assms(2)] t ParmIgnore assms(3) by (fastforce simp: value_ok_def add_paramValue_def abi_frame_def)
next
  case ParmIndirect
  with assms(1) have v: "a < length (bf_arguments f)" "numArgSlots p = 1" "s' = s" "a' = a + 1"
    "f' = addAttr (bf_arguments f ! a) ByVal (add_paramValue (bf_arguments f ! a) f)"
    by (auto simp: abi_param_def bind_Some_iff nth_opt_read split: if_split_asm)
  moreover have "param_args (bf_arguments f) p = [bf_arguments f ! a]"
    using slots_from_head [OF assms(3) _ assms(4,5)] ParmIndirect v(1,2) by (simp add: take_Suc_conv_app_nth [of 0, simplified] hd_drop_conv_nth take_Suc)
  ultimately show ?thesis using ParmIndirect assms(2,3) by (simp add: value_ok_def addAttr_def add_paramValue_def abi_frame_def)
next
  case ParmDirect
  with assms(1) obtain t where t: "ll_of pt tm = Some t" by (auto simp: abi_param_def bind_Some_iff)
  obtain v g u where g: "addAlloca t '''' (f, s) = (v, g, u)" by (rule prod_cases3)
  have f': "s' = u \<and> a' = a + numArgSlots p \<and> attr_only (add_paramValue v g) f'"
  proof (cases "pi_attr p = AttrNone")
    case True
    with assms(1) t g ParmDirect show ?thesis by (simp add: abi_param_def attr_only_def)
  next
    case False
    with assms(1) t g ParmDirect obtain x where "arg_attr_of (pi_attr p) x (add_paramValue v g) = Some f'" "s' = u" "a' = a + numArgSlots p"
      by (auto simp: abi_param_def bind_Some_iff Let_def)
    with arg_attr_of_only [OF this(1)] show ?thesis by simp
  qed
  with addAlloca_frame [OF g assms(2)] t ParmDirect assms(3) show ?thesis
    by (auto simp: value_ok_def add_paramValue_def abi_frame_def attr_only_def)
qed

lemma abi_params_values:
  assumes "abi_params tm idx ps (a, f, s) = Some (a', f', s')" "ir_fresh (nd_ir s)" "slots_from elems a infos"
    and "length (bf_arguments f) = length elems" "length elems < 2 ^ 32" "length infos = length ps"
    and "\<And>i. i < length ps \<Longrightarrow> paramInfo tm (bf_oracle f) (idx + of_nat i) = Some (infos ! i)"
  shows "\<exists>vals. bf_paramValues f' = bf_paramValues f @ vals \<and> length vals = length ps \<and>
     (\<forall>i < length ps. value_ok f' (nd_ir s') (ll_of (ps ! i) tm) (infos ! i) (vals ! i)) \<and> abi_frame f s f' s'"
  using assms
proof (induction ps arbitrary: idx a f s infos)
  case Nil
  then show ?case by (simp add: abi_frame_def)
next
  case (Cons pt ps)
  from Cons.prems(6) obtain p ys where infos: "infos = p # ys" "length ys = length ps" by (cases infos) auto
  have p: "paramInfo tm (bf_oracle f) idx = Some p" using Cons.prems(7) [of 0] infos by simp
  with Cons.prems(1) obtain a1 f1 s1 where 1: "abi_param tm pt p (a, f, s) = Some (a1, f1, s1)"
    "abi_params tm (idx + 1) ps (a1, f1, s1) = Some (a', f', s')"
    by (auto simp: bind_Some_iff)
  from abi_param_value [OF 1(1) Cons.prems(2) _ Cons.prems(4,5)] Cons.prems(3) infos obtain v where
    v: "bf_paramValues f1 = bf_paramValues f @ [v]" "value_ok f1 (nd_ir s1) (ll_of pt tm) p v" "abi_frame f s f1 s1"
      "slots_from elems a1 ys" by blast
  have "paramInfo tm (bf_oracle f1) (idx + 1 + of_nat i) = Some (ys ! i)" if "i < length ps" for i
    using Cons.prems(7) [of "Suc i"] that infos v(3) by (simp add: abi_frame_def add.assoc)
  with Cons.IH [OF 1(2) _ v(4)] v(3) Cons.prems(4,5) infos(2) obtain vals where
    "bf_paramValues f' = bf_paramValues f1 @ vals" "length vals = length ps"
    "\<forall>i < length ps. value_ok f' (nd_ir s') (ll_of (ps ! i) tm) (ys ! i) (vals ! i)" "abi_frame f1 s1 f' s'"
    by (auto simp: abi_frame_def ir_le_def)
  then show ?case using v infos abi_frame_trans value_ok_frame
    by (intro exI [of _ "v # vals"]) (auto simp: less_Suc_eq_0_disj)
qed

lemma abi_params_oracle: "abi_params tm idx ps (a, f, s) = Some (a', f', s') \<Longrightarrow> bf_oracle f' = bf_oracle f"
proof (induction ps arbitrary: idx a f s)
  case (Cons p ps)
  then obtain i a1 f1 s1 where 1: "abi_param tm p i (a, f, s) = Some (a1, f1, s1)"
    "abi_params tm (idx + 1) ps (a1, f1, s1) = Some (a', f', s')" by (auto simp: bind_Some_iff)
  then have "bf_oracle f1 = bf_oracle f"
    by (auto simp: abi_param_def bind_Some_iff Let_def addAlloca_def arg_attr_of_def add_paramValue_def addAttr_def
        split: CABIParamDisp.split_asm prod.split_asm if_split_asm)
  with Cons.IH [OF 1(2)] show ?case by simp
qed simp

lemma name_argument_Some:
  assumes "name_argument tag i at (f, s, tm) = Some (a, f', s', tm')" "ir_fresh (nd_ir s)"
  shows "i < length (bf_arguments f) \<and> a = bf_arguments f ! i \<and> attr_only f f' \<and> ir_le (nd_ir s) (nd_ir s') \<and>
     supported tm' = supported tm \<and> tm_heap tm' = tm_heap tm"
  using assms set_name_le [OF assms(2)]
  by (auto simp: name_argument_def bind_Some_iff nth_opt_read addAttr_def attr_only_def set_value_name_def dest: tnamegen_same)

lemma sret_argument_Some:
  assumes "sret_argument (f, s, tm) = Some (n, f', s', tm')" "ir_fresh (nd_ir s)" "or_infov (bf_oracle f) = rinfo # cinfo # infos"
  shows "n = (if pi_disp rinfo = ParmIndirect then 1 else 0) \<and> ir_fresh (nd_ir s') \<and>
     attr_only (if n = 0 then f else f\<lparr>bf_rtnValueMem := Some (bf_arguments f ! 0)\<rparr>) f' \<and>
     supported tm' = supported tm \<and> tm_heap tm' = tm_heap tm"
proof (cases "pi_disp rinfo = ParmIndirect")
  case True
  with assms(1,3) obtain a g where "name_argument ''sret.formal'' 0 StructRet (f, s, tm) = Some (a, g, s', tm')"
    "n = 1" "f' = g\<lparr>bf_rtnValueMem := Some a\<rparr>"
    by (auto simp: sret_argument_def bind_Some_iff returnInfo_Some)
  with name_argument_Some [OF this(1) assms(2)] True show ?thesis by (auto simp: attr_only_def ir_le_def)
next
  case False
  with assms show ?thesis by (auto simp: sret_argument_def bind_Some_iff returnInfo_Some attr_only_def)
qed

lemma chain_argument_Some:
  assumes "chain_argument n (f, s, tm) = Some (f', s', tm')" "ir_fresh (nd_ir s)"
  shows "n < length (bf_arguments f) \<and> attr_only (f\<lparr>bf_chainVal := Some (bf_arguments f ! n)\<rparr>) f' \<and> ir_fresh (nd_ir s') \<and>
     supported tm' \<and> tm_heap tm' = tm_heap tm"
proof -
  from assms(1) obtain a g where "name_argument ''nest'' n Nest (f, s, tm) = Some (a, g, s', tm')"
    "f' = g\<lparr>bf_chainVal := Some a\<rparr>" "supported tm"
    by (auto simp: chain_argument_def bind_Some_iff chainInfo_Some split: if_split_asm)
  with name_argument_Some [OF this(1) assms(2)] show ?thesis by (auto simp: attr_only_def ir_le_def)
qed

lemma abiSetup_stages:
  assumes "abiSetup fargs (f, s, tm) = Some (f', s', tm')" "bf_arguments f = []" "ir_fresh (nd_ir s)" "bf_rtnValueMem f = None"
    and "or_infov (bf_oracle f) = rinfo # cinfo # infos" "fcn_parts (bf_fcnType f) tm = Some (ps, rt, cabi)"
  obtains g t n n' where "abi_params tm' 0 ps (n + 1, g, t) = Some (n', f', s')" "ir_fresh (nd_ir t)" "bf_arguments g = fargs"
    "bf_oracle g = bf_oracle f" "bf_chainVal g = Some (fargs ! n)" "n < length fargs"
    "bf_rtnValueMem g = (if n = 0 then None else Some (fargs ! 0))" "n = (if pi_disp rinfo = ParmIndirect then 1 else 0)"
    "bf_paramValues g = bf_paramValues f" "supported tm'" "tm_heap tm' = tm_heap tm"
proof -
  define f0 where "f0 = f\<lparr>bf_arguments := fargs\<rparr>"
  obtain n f1 s1 tm1 g t ps' n' where 1: "sret_argument (f0, s, tm) = Some (n, f1, s1, tm1)"
    "chain_argument n (f1, s1, tm1) = Some (g, t, tm')" "map_option fst (fcn_parts (bf_fcnType g) tm') = Some ps'"
    "abi_params tm' 0 ps' (n + 1, g, t) = Some (n', f', s')"
    using assms(1,2) by (auto simp: abiSetup_def bind_Some_iff Let_def f0_def)
  note s = sret_argument_Some [OF 1(1) assms(3), unfolded f0_def, simplified, OF assms(5)]
  note c = chain_argument_Some [OF 1(2) conjunct1 [OF conjunct2 [OF s]]]
  have "fcn_parts (bf_fcnType g) tm' = fcn_parts (bf_fcnType f) tm"
    using s c by (simp add: fcn_parts_def obj_def attr_only_def split: if_split_asm)
  then have ps: "ps' = ps" using 1(3) assms(6) by simp
  show thesis
    by (rule that [of n g t n']) (use 1(4) ps s c assms(4) in \<open>auto simp: attr_only_def split: if_split_asm\<close>)
qed

text \<open>
  C32. What the constructor makes of the arguments of a function that follows the C ABI. Every
  argument of the LLVM function is accounted for exactly once, in order: the address of the result
  if it is returned in memory, the static chain, then the slots of each parameter. A parameter
  passed in memory has its argument as its value; every other one has an alloca of its own type.
\<close>

theorem param_values:
  assumes "mk_bfunction n fv fargs ft nm anm loc (s, tm) = Some (f, s', tm')" "fcn_parts ft tm = Some (ps, rt, True)"
    and "or_fcnTypeForABI (bf_oracle f) = Some (FunctionTy lrt elems False)" "length fargs = length elems"
    and "length elems < 2 ^ 32" "length ps + 2 < 2 ^ 32" "ir_fresh (nd_ir s)"
  shows "\<exists>rinfo cinfo infos c. or_infov (bf_oracle f) = rinfo # cinfo # infos \<and> length infos = length ps \<and>
     bf_chainVal f = Some c \<and> (bf_rtnValueMem f \<noteq> None) = (pi_disp rinfo = ParmIndirect) \<and>
     fargs = (case bf_rtnValueMem f of None \<Rightarrow> [] | Some r \<Rightarrow> [r]) @ [c] @ concat (map (param_args fargs) infos) \<and>
     length (bf_paramValues f) = length ps \<and>
     (\<forall>k < length ps. if pi_disp (infos ! k) = ParmIndirect then param_args fargs (infos ! k) = [bf_paramValues f ! k]
        else bf_paramValues f ! k \<in> set (bf_allocas f) \<and>
          (\<exists>t. ll_of (ps ! k) tm = Some t \<and> ir_op (nd_ir s') (bf_paramValues f ! k) = AllocaOp t))"
proof -
  from assms(2) obtain b where b: "obj ft tm = Some b" by (auto simp: fcn_parts_def bind_Some_iff)
  with assms(2) obtain r rs where k: "bt_kind b = KFunction r ps rs rt True"
    by (cases "bt_kind b") (simp_all add: fcn_parts_def)
  with b obtain orc f0 where f0: "cabiOracle n tm ps rt True = Some orc" "abiSetup fargs (f0, s, tm) = Some (f, s', tm')"
    "bf_oracle f0 = orc" "bf_arguments f0 = []" "bf_paramValues f0 = []" "bf_rtnValueMem f0 = None" "bf_fcnType f0 = ft"
    using assms(1,2) by (fastforce simp: mk_bfunction_def bind_Some_iff cabiOracle_of_type_def Let_def)
  from cabiOracle_slots [OF f0(1)] obtain rinfo cinfo infos lrt' elems' where
    o: "or_infov orc = rinfo # cinfo # infos" "length infos = length ps" "numArgSlots rinfo = 1" "pi_disp cinfo = ParmDirect"
      "or_fcnTypeForABI orc = Some (FunctionTy lrt' elems' False)" "pi_abiTypes cinfo = [llvmPtrType]"
      "slots_from elems' (length (sret_elems rinfo)) (cinfo # infos)" by blast
  obtain g t m c n' where g: "abi_params tm' 0 ps (m + 1, g, t) = Some (n', f, s')" "ir_fresh (nd_ir t)" "bf_arguments g = fargs"
    "bf_oracle g = orc" "bf_chainVal g = Some (fargs ! m)" "m < length fargs"
    "bf_rtnValueMem g = (if m = 0 then None else Some (fargs ! 0))" "m = (if pi_disp rinfo = ParmIndirect then 1 else 0)"
    "bf_paramValues g = []" "supported tm'" "tm_heap tm' = tm_heap tm"
    by (rule abiSetup_stages [OF f0(2,4) assms(7) f0(6), unfolded f0(3), OF o(1), unfolded f0(7), OF assms(2)]) (use f0(5) in auto)
  have slots: "slots_from elems' (m + 1) infos" using o(3,4,6,7) g(8) by (simp add: sret_elems_def numArgSlots_def split: if_split_asm)
  have info: "paramInfo tm' (bf_oracle g) (0 + of_nat i) = Some (infos ! i)" if "i < length ps" for i
    using unat_index [of i] that assms(6) g(4,10) o(1,2) by (simp add: paramInfo_Some)
  have "bf_oracle f = orc" using g(1,4) abi_params_oracle by fastforce
  then have elems: "elems' = elems" using o(5) assms(3) by simp
  have "\<exists>vals. bf_paramValues f = bf_paramValues g @ vals \<and> length vals = length ps \<and>
      (\<forall>i < length ps. value_ok f (nd_ir s') (ll_of (ps ! i) tm') (infos ! i) (vals ! i)) \<and> abi_frame g t f s'"
    by (rule abi_params_values [OF g(1,2) slots _ _ o(2) info]) (use g(3) elems assms(4,5) in simp_all)
  then have v: "length (bf_paramValues f) = length ps" "abi_frame g t f s'"
      "\<forall>i < length ps. value_ok f (nd_ir s') (ll_of (ps ! i) tm') (infos ! i) (bf_paramValues f ! i)"
    using g(9) by auto
  have "concat (map (param_args fargs) infos) = drop (m + 1) fargs"
    using param_args_partition [OF slots, of fargs] assms(4,5) elems by simp
  moreover have "fargs = take m fargs @ [fargs ! m] @ drop (m + 1) fargs" using g(6) by (simp add: id_take_nth_drop)
  moreover have "take m fargs = (case bf_rtnValueMem f of None \<Rightarrow> [] | Some r \<Rightarrow> [r])"
    using v(2) g(6,7,8) by (cases fargs) (auto simp: abi_frame_def)
  moreover have "bf_chainVal f = Some (fargs ! m)" "bf_oracle f = orc" "bf_rtnValueMem f = bf_rtnValueMem g"
    using v(2) g(4,5) by (simp_all add: abi_frame_def)
  moreover have "ll_of x tm' = ll_of x tm" for x by (simp add: ll_of_def obj_def g(11))
  moreover have args: "bf_arguments f = fargs" using v(2) g(3) by (simp add: abi_frame_def)
  ultimately show ?thesis
    using o(1,2) v(1,3) g(3,7,8) args
    by - (rule exI [of _ rinfo], rule exI [of _ cinfo], rule exI [of _ infos], rule exI [of _ "fargs ! m"],
      auto simp: value_ok_def)
qed

text \<open>
  C33. What the prolog does with the arguments. The entry block gets the allocas of the function and
  then the spills; the stores among them are, in order: the static chain into its slot, if a
  variable was made for it, and for every parameter passed in registers, in order, each of its
  arguments, once, at an address in the parameter's own slot. Nothing else is stored.
\<close>

theorem prolog_spills:
  assumes "genProlog entry ((f, s, tm), c) = Some ((f', s', tm'), c')" "ir_fresh (nd_ir s)" "cf_insts c entry = Some []"
    and "fcn_parts (bf_fcnType f) tm = Some (ps, rt, cabi)" "length ps + 2 < 2 ^ 32"
    and "numArgSlots (or_infov (bf_oracle f) ! 1) = 1"
  shows "\<exists>spills. cf_insts c' entry = Some (bf_allocas f @ spills) \<and>
     list_all2 (spilled (nd_ir s')) (filter (\<lambda>i. ir_op (nd_ir s') i = StoreOp) spills)
       (chain_spills f @ concat (map (direct_spills f) [0..<length ps]))"
proof -
  obtain sp1 s1 tm1 where 1: "spill_chain f ([], s, tm) = Some (sp1, s1, tm1)"
    using assms(1) by (auto simp: genProlog_def bind_Some_iff)
  note m1 = spill_chain_made [OF 1 assms(2,6)]
  then have parts: "fcn_parts (bf_fcnType f) tm1 = Some (ps, rt, cabi)" using assms(4) by (simp add: fcn_parts_def obj_def)
  with assms(1) 1 obtain spills s2 c1 where
    2: "fold_opt (spill_param f) [0..<length ps] (sp1, s1, tm1) = Some (spills, s2, tm')"
    and 3: "push_insts entry (bf_allocas f) c = Some c1" "push_insts entry spills c1 = Some c'"
    and 4: "(if bf_allocas f @ spills \<noteq> [] then fold_opt (default_initializer f (Some (hd (bf_allocas f @ spills)))) [0..<length ps] s2
        else Some s2) = Some s'"
    using push_insts_Some [OF _ assms(3)] push_insts_Some by (fastforce simp: genProlog_def bind_Some_iff)
  note m2 = spill_params_made [OF 2 made_fresh [OF conjunct1 [OF m1]]]
  have "made (nd_ir s) [] (nd_ir s2) spills (chain_spills f @ concat (map (direct_spills f) [0..<length ps]))"
    using m1 m2 assms(5) by (intro made_trans) auto
  moreover have "nd_ir s' = nd_ir s2" using 4 default_initializers_ir by (auto split: if_split_asm)
  moreover have "cf_insts c' entry = Some (bf_allocas f @ spills)"
    using push_insts_Some [OF 3(2)] push_insts_Some [OF 3(1) assms(3)] by simp
  ultimately show ?thesis by (auto simp: made_def)
qed

section \<open>Making a function touches no variable and no instruction\<close>

definition quiet :: "bstate \<Rightarrow> bstate \<Rightarrow> bool" where
  "quiet s s' \<longleftrightarrow> (ir_fresh (nd_ir s) \<longrightarrow> ir_fresh (nd_ir s')) \<and> vb_heap s' = vb_heap s \<and> vb_next s' = vb_next s"

lemma quiet_refl [simp]: "quiet s s"
  by (simp add: quiet_def)

lemma quiet_trans: "quiet s t \<Longrightarrow> quiet t u \<Longrightarrow> quiet s u"
  by (auto simp: quiet_def)

lemma addAlloca_quiet: "addAlloca t nm (f, s) = (v, f', s') \<Longrightarrow> quiet s s'"
  using addAlloca_frame [of t nm f s v f' s']
  by (auto simp: quiet_def abi_frame_def ir_le_def addAlloca_def Let_def split: prod.split_asm)

lemma set_value_name_quiet: "quiet s (set_value_name v nm s)"
  using set_name_le [of "nd_ir s" v nm] by (simp add: quiet_def set_value_name_def ir_le_def)

lemma abi_param_quiet:
  assumes "abi_param tm pt p (a, f, s) = Some (a', f', s')"
  shows "quiet s s'"
proof (cases "pi_disp p = ParmIndirect")
  case True
  with assms show ?thesis by (auto simp: abi_param_def bind_Some_iff split: if_split_asm)
next
  case False
  with assms obtain t where t: "ll_of pt tm = Some t" by (cases "pi_disp p") (auto simp: abi_param_def bind_Some_iff)
  obtain v g u where g: "addAlloca t '''' (f, s) = (v, g, u)" by (rule prod_cases3)
  with assms t False have "s' = u" by (cases "pi_disp p") (auto simp: abi_param_def bind_Some_iff Let_def split: if_split_asm)
  with addAlloca_quiet [OF g] show ?thesis by simp
qed

lemma abi_params_quiet: "abi_params tm idx ps (a, f, s) = Some (a', f', s') \<Longrightarrow> quiet s s'"
  by (induction ps arbitrary: idx a f s) (auto simp: bind_Some_iff intro: quiet_trans dest!: abi_param_quiet)

lemma name_argument_quiet: "name_argument tag i at (f, s, tm) = Some (a, f', s', tm') \<Longrightarrow> quiet s s'"
  by (auto simp: name_argument_def bind_Some_iff intro: set_value_name_quiet)

lemma sret_argument_quiet: "sret_argument (f, s, tm) = Some (n, f', s', tm') \<Longrightarrow> quiet s s'"
  by (auto simp: sret_argument_def bind_Some_iff dest: name_argument_quiet split: if_split_asm)

lemma chain_argument_quiet: "chain_argument n (f, s, tm) = Some (f', s', tm') \<Longrightarrow> quiet s s'"
  by (auto simp: chain_argument_def bind_Some_iff dest: name_argument_quiet split: if_split_asm)

lemma mk_bfunction_quiet:
  assumes "mk_bfunction n fv fargs ft nm anm loc (s, tm) = Some (f, s', tm')"
  shows "quiet s s'"
proof -
  from assms obtain f0 where "(f0, s, tm) = (f, s', tm') \<or> abiSetup fargs (f0, s, tm) = Some (f, s', tm')"
    by (auto simp: mk_bfunction_def bind_Some_iff Let_def split: if_split_asm)
  then show ?thesis
    by (auto simp: abiSetup_def bind_Some_iff Let_def
        intro: quiet_trans dest!: sret_argument_quiet chain_argument_quiet abi_params_quiet)
qed

section \<open>Variables of the parameters\<close>

datatype var_op = ParamVarOp string tref bool location | LocalVarOp string tref bool location | ChainVarOp string tref location
  | TempOp llty string | LabelOp location

text \<open>The event of a parameter is its number, with the variable made for it.\<close>

fun var_step :: "typemanager \<Rightarrow> var_op \<Rightarrow> bfunction \<times> bstate \<Rightarrow> ((nat \<times> vbref \<times> string \<times> tref) list \<times> bfunction \<times> bstate) option" where
  "var_step tm (ParamVarOp nm t at loc) (f, s) =
     do { (x, fs) \<leftarrow> parameterVariable nm t at loc tm (f, s); Some ([(unat (bf_paramsRegistered f), x, nm, t)], fs) }"
| "var_step tm (LocalVarOp nm t at loc) (f, s) = do { (x, fs) \<leftarrow> localVariable nm t at loc tm (f, s); Some ([], fs) }"
| "var_step tm (ChainVarOp nm t loc) (f, s) = do { (x, fs) \<leftarrow> staticChainVariable nm t loc tm (f, s); Some ([], fs) }"
| "var_step tm (TempOp t tag) (f, s) = (let (v, fs) = createTemporary t tag (f, s) in Some ([], fs))"
| "var_step tm (LabelOp loc) (f, s) = (let (lb, f) = newLabel None loc f in Some ([], f, s))"

definition param_var :: "bfunction \<times> bstate \<Rightarrow> nat \<Rightarrow> (vbref \<times> string \<times> tref) option" where
  "param_var = (\<lambda>(f, s) k. do { x \<leftarrow> getNthParamVar k f; v \<leftarrow> vb_heap s x; Some (x, bv_name v, bv_type v) })"

definition vars_ok :: "bfunction \<times> bstate \<Rightarrow> bool" where
  "vars_ok = (\<lambda>(f, s). \<forall>x. vb_heap s x \<noteq> None \<longrightarrow> x < vb_next s)"

definition vars_inv :: "(nat \<times> vbref \<times> string \<times> tref) list \<Rightarrow> bfunction \<times> bstate \<Rightarrow> bool" where
  "vars_inv log fs \<longleftrightarrow> vars_ok fs \<and> (\<forall>(k, r) \<in> set log. param_var fs k = Some r)"

text \<open>A step keeps every variable it finds.\<close>

definition keeps_vars :: "bfunction \<times> bstate \<Rightarrow> bfunction \<times> bstate \<Rightarrow> bool" where
  "keeps_vars = (\<lambda>(f, s) (g, t). bf_valueVarMap f \<subseteq>\<^sub>m bf_valueVarMap g \<and> bf_paramValues g = bf_paramValues f \<and>
     (vars_ok (f, s) \<longrightarrow> vars_ok (g, t) \<and> vb_heap s \<subseteq>\<^sub>m vb_heap t))"

lemma param_var_keeps: "keeps_vars fs gt \<Longrightarrow> vars_ok fs \<Longrightarrow> param_var fs k = Some r \<Longrightarrow> param_var gt k = Some r"
  by (auto simp: keeps_vars_def param_var_def getNthParamVar_def getBvarForValue_def bind_Some_iff map_le_def dom_def
      split: prod.splits)

lemma install_var_keeps:
  assumes "install_var v bv (f, s) = Some (x, f', s')"
  shows "keeps_vars (f, s) (f', s') \<and> bf_valueVarMap f' v = Some x \<and> vb_heap s' x = Some bv \<and>
     f' = f\<lparr>bf_valueVarMap := (bf_valueVarMap f)(v \<mapsto> x)\<rparr>"
proof -
  from assms have "bf_valueVarMap f v = None" "x = vb_next s" "f' = f\<lparr>bf_valueVarMap := (bf_valueVarMap f)(v \<mapsto> x)\<rparr>"
    "s' = s\<lparr>vb_heap := (vb_heap s)(x \<mapsto> bv), vb_next := Suc x\<rparr>"
    by (auto simp: install_var_def new_bvariable_def Let_def bind_Some_iff split: if_split_asm)
  then show ?thesis by (fastforce simp: keeps_vars_def vars_ok_def map_le_def less_Suc_eq)
qed

lemma keeps_vars_trans [trans]: "keeps_vars a b \<Longrightarrow> keeps_vars b c \<Longrightarrow> keeps_vars a c"
  by (auto simp: keeps_vars_def intro: map_le_trans split: prod.splits)

lemma keeps_vars_same:
  "bf_valueVarMap g = bf_valueVarMap f \<Longrightarrow> bf_paramValues g = bf_paramValues f \<Longrightarrow> vb_heap t = vb_heap s \<Longrightarrow> vb_next t = vb_next s \<Longrightarrow>
   keeps_vars (f, s) (g, t)"
  by (simp add: keeps_vars_def vars_ok_def)

lemma addAlloca_keeps: "addAlloca t nm fs = (v, gt) \<Longrightarrow> keeps_vars fs gt"
  by (cases fs; cases gt) (auto simp: addAlloca_def Let_def keeps_vars_same split: prod.split_asm)

lemma name_param_keeps: "name_param nm p v f s = Some t \<Longrightarrow> vb_heap t = vb_heap s \<and> vb_next t = vb_next s"
  by (auto simp: name_param_def set_value_name_def bind_Some_iff Let_def split: CABIParamDisp.split_asm if_split_asm)

lemma parameterVariable_reads:
  assumes "parameterVariable nm t at loc tm (f, s) = Some (x, g, u)"
  shows "keeps_vars (f, s) (g, u) \<and> param_var (g, u) (unat (bf_paramsRegistered f)) = Some (x, nm, t)"
proof -
  let ?k = "unat (bf_paramsRegistered f)"
  let ?v = "bf_paramValues f ! ?k"
  let ?bv = "mk_bvariable t loc nm ParamVar at (Some ?v)"
  from assms obtain s1 p where k: "?k < length (bf_paramValues f)"
    and 1: "install_var ?v ?bv (f\<lparr>bf_paramsRegistered := bf_paramsRegistered f + 1\<rparr>, s) = Some (x, g, s1)"
    and 2: "name_param nm p ?v g s1 = Some u"
    by (auto simp: parameterVariable_def bind_Some_iff Let_def nth_opt_read)
  note i = install_var_keeps [OF 1]
  have "keeps_vars (f, s) (f\<lparr>bf_paramsRegistered := bf_paramsRegistered f + 1\<rparr>, s)" by (simp add: keeps_vars_same)
  also have "keeps_vars \<dots> (g, s1)" using i by blast
  also have "keeps_vars \<dots> (g, u)" using name_param_keeps [OF 2] by (simp add: keeps_vars_same)
  finally have "keeps_vars (f, s) (g, u)" .
  with i k name_param_keeps [OF 2] show ?thesis
    by (auto simp: param_var_def getNthParamVar_def getBvarForValue_def nth_opt_def mk_bvariable_def)
qed

lemma localVariable_keeps:
  assumes "localVariable nm t at loc tm fs = Some (x, gt)"
  shows "keeps_vars fs gt"
proof -
  obtain f s where fs: "fs = (f, s)" by fastforce
  from assms obtain ty where ty: "ll_of t tm = Some ty" by (auto simp: fs localVariable_def bind_Some_iff)
  obtain v f1 s1 where 1: "addAlloca ty nm (f, s) = (v, f1, s1)" by (rule prod_cases3)
  with assms ty obtain bv f2 s2 where 2: "install_var v bv (f1, s1) = Some (x, f2, s2)"
    "gt = (f2\<lparr>bf_localVariables := bf_localVariables f2 @ [x]\<rparr>, s2)"
    by (auto simp: fs localVariable_def bind_Some_iff)
  have "keeps_vars (f, s) (f1, s1)" by (rule addAlloca_keeps [OF 1])
  also have "keeps_vars \<dots> (f2, s2)" using install_var_keeps [OF 2(1)] by blast
  also have "keeps_vars \<dots> gt" by (simp add: 2(2) keeps_vars_same)
  finally show ?thesis by (simp add: fs)
qed

lemma staticChainVariable_keeps:
  assumes "staticChainVariable nm t loc tm fs = Some (x, gt)"
  shows "keeps_vars fs gt"
proof -
  obtain f s where fs: "fs = (f, s)" by fastforce
  from assms obtain a ty where ty: "ll_of t tm = Some ty" "\<exists>p. nth_opt (bf_arguments f) (unat (pi_sigOffset p)) = Some a \<and> chainInfo tm (bf_oracle f) = Some p"
    by (auto simp: fs staticChainVariable_def bind_Some_iff split: if_split_asm)
  obtain v f1 s1 where 1: "addAlloca ty (nm @ ''.addr'') (f, set_value_name a nm s) = (v, f1, s1)" by (rule prod_cases3)
  with assms ty obtain bv where 2: "install_var v bv (f1\<lparr>bf_chainVal := Some v\<rparr>, s1) = Some (x, gt)"
    by (auto simp: fs staticChainVariable_def bind_Some_iff Let_def split: if_split_asm)
  have "keeps_vars (f, s) (f, set_value_name a nm s)" by (simp add: set_value_name_def keeps_vars_same)
  also have "keeps_vars \<dots> (f1, s1)" by (rule addAlloca_keeps [OF 1])
  also have "keeps_vars (f1, s1) (f1\<lparr>bf_chainVal := Some v\<rparr>, s1)" by (simp add: keeps_vars_same)
  also have "keeps_vars \<dots> gt" using install_var_keeps [of v bv] 2 by (cases gt) blast
  finally show ?thesis by (simp add: fs)
qed

lemma var_step_reads:
  assumes "var_step tm op fs = Some (ev, gt)"
  shows "keeps_vars fs gt \<and> (\<forall>(k, r) \<in> set ev. param_var gt k = Some r)"
proof -
  obtain f s where fs: "fs = (f, s)" by fastforce
  show ?thesis
  proof (cases op)
    case (ParamVarOp nm t at loc)
    with assms obtain x g u where "parameterVariable nm t at loc tm (f, s) = Some (x, g, u)"
      "ev = [(unat (bf_paramsRegistered f), x, nm, t)]" "gt = (g, u)" by (auto simp: fs bind_Some_iff)
    with parameterVariable_reads [OF this(1)] show ?thesis by (simp add: fs)
  next
    case (LabelOp loc)
    with assms show ?thesis by (auto simp: fs newLabel_def Let_def intro: keeps_vars_same)
  qed (use assms in \<open>auto simp: fs bind_Some_iff createTemporary_def intro: localVariable_keeps staticChainVariable_keeps
        addAlloca_keeps split: prod.split_asm\<close>)
qed

lemma keeps_vars_ok: "keeps_vars fs gt \<Longrightarrow> vars_ok fs \<Longrightarrow> vars_ok gt"
  by (auto simp: keeps_vars_def split: prod.splits)

interpretation params: stable_reads "var_step tm" param_var vars_inv "\<lambda>fs. True" for tm
proof
  fix log fs op ev gt
  assume inv: "vars_inv log fs" and step: "var_step tm op fs = Some (ev, gt)"
  have "vars_ok gt" "\<And>k r. param_var fs k = Some r \<Longrightarrow> param_var gt k = Some r"
    using var_step_reads [OF step] inv keeps_vars_ok param_var_keeps unfolding vars_inv_def by blast+
  with var_step_reads [OF step] inv show "vars_inv (log @ ev) gt" by (auto simp: vars_inv_def)
qed (auto simp: vars_inv_def)

lemma install_var_ir: "install_var v bv (f, s) = Some (x, f', s') \<Longrightarrow> nd_ir s' = nd_ir s"
  by (auto simp: install_var_def new_bvariable_def Let_def bind_Some_iff split: if_split_asm)

lemma quiet_named: "quiet s t \<Longrightarrow> quiet s (set_value_name v nm t)"
  by (rule quiet_trans [OF _ set_value_name_quiet])

lemma name_param_quiet: "name_param nm p v f s = Some t \<Longrightarrow> quiet s t"
  by (auto simp: name_param_def bind_Some_iff Let_def intro!: quiet_named split: CABIParamDisp.split_asm if_split_asm)

lemma parameterVariable_fresh:
  assumes "parameterVariable nm t at loc tm (f, s) = Some (x, g, u)" "ir_fresh (nd_ir s)"
  shows "ir_fresh (nd_ir u)"
proof -
  from assms(1) obtain v bv s1 p f0 where 1: "install_var v bv (f0, s) = Some (x, g, s1)" and 2: "name_param nm p v g s1 = Some u"
    by (auto simp: parameterVariable_def bind_Some_iff Let_def)
  from name_param_quiet [OF 2] install_var_ir [OF 1] assms(2) show ?thesis by (simp add: quiet_def)
qed

lemma localVariable_fresh:
  assumes "localVariable nm t at loc tm (f, s) = Some (x, g, u)" "ir_fresh (nd_ir s)"
  shows "ir_fresh (nd_ir u)"
proof -
  from assms(1) obtain ty where ty: "ll_of t tm = Some ty" by (auto simp: localVariable_def bind_Some_iff)
  obtain v f1 s1 where 1: "addAlloca ty nm (f, s) = (v, f1, s1)" by (rule prod_cases3)
  with assms(1) ty obtain bv f2 where 2: "install_var v bv (f1, s1) = Some (x, f2, u)"
    by (auto simp: localVariable_def bind_Some_iff)
  from addAlloca_quiet [OF 1] install_var_ir [OF 2] assms(2) show ?thesis by (simp add: quiet_def)
qed

lemma staticChainVariable_fresh:
  assumes "staticChainVariable nm t loc tm (f, s) = Some (x, g, u)" "ir_fresh (nd_ir s)"
  shows "ir_fresh (nd_ir u)"
proof -
  from assms(1) obtain a ty p where ty: "ll_of t tm = Some ty" "nth_opt (bf_arguments f) (unat (pi_sigOffset p)) = Some a"
    "chainInfo tm (bf_oracle f) = Some p"
    by (auto simp: staticChainVariable_def bind_Some_iff split: if_split_asm)
  obtain v f1 s1 where 1: "addAlloca ty (nm @ ''.addr'') (f, set_value_name a nm s) = (v, f1, s1)" by (rule prod_cases3)
  with assms(1) ty obtain bv where 2: "install_var v bv (f1\<lparr>bf_chainVal := Some v\<rparr>, s1) = Some (x, g, u)"
    by (auto simp: staticChainVariable_def bind_Some_iff Let_def split: if_split_asm)
  from quiet_trans [OF set_value_name_quiet addAlloca_quiet [OF 1]] install_var_ir [OF 2] assms(2) show ?thesis by (simp add: quiet_def)
qed

lemma var_step_fresh: "var_step tm op (f, s) = Some (ev, g, t) \<Longrightarrow> ir_fresh (nd_ir s) \<Longrightarrow> ir_fresh (nd_ir t)"
  by (cases op)
     (auto simp: bind_Some_iff newLabel_def Let_def createTemporary_def quiet_def
       dest: parameterVariable_fresh localVariable_fresh staticChainVariable_fresh addAlloca_quiet split: prod.split_asm)

lemma var_ops_fresh: "run_ops (var_step tm) ops (f, s) = Some (evs, g, t) \<Longrightarrow> ir_fresh (nd_ir s) \<Longrightarrow> ir_fresh (nd_ir t)"
  by (induction ops arbitrary: f s evs) (auto simp: run_ops_Cons_Some dest: var_step_fresh)

text \<open>
  C38. The k-th parameter variable is the one registered as the k-th: whatever variables, temporaries
  and labels are made in between or afterwards, \<open>getNthParamVar\<close> gives the variable that
  \<open>parameterVariable\<close> returned for that parameter, with its name and its type.
\<close>

theorem nth_param_var:
  assumes "run_ops (var_step tm) ops (f, s) = Some (evs, g, t)" "\<forall>x. vb_heap s x \<noteq> None \<longrightarrow> x < vb_next s"
    and "(k, x, nm, ty) \<in> set evs"
  shows "getNthParamVar k g = Some x \<and> (\<exists>v. vb_heap t x = Some v \<and> bv_name v = nm \<and> bv_type v = ty)"
proof -
  have "vars_inv [] (f, s)" using assms(2) by (simp add: vars_inv_def vars_ok_def)
  from params.run_reads [OF this assms(1), of k "(x, nm, ty)"] assms(3) have "param_var (g, t) k = Some (x, nm, ty)" by simp
  then show ?thesis by (auto simp: param_var_def bind_Some_iff)
qed

end
