(* ===== verification/BfunctionSamples.thy ===== *)
theory BfunctionSamples
  imports BfunctionFacts ResolveFacts BnodeBuilder
begin

text \<open>
  A concrete function: \<open>func(a struct{float64; int16}, b int16, c struct{int64; int64; int64})\<close> with a
  result of the type of \<open>c\<close>. The result is returned in memory, \<open>a\<close> takes two arguments, \<open>b\<close> one and \<open>c\<close>
  is passed in memory.
\<close>

definition field :: "string \<Rightarrow> tref \<Rightarrow> tident" where
  "field nm t = \<lparr>ti_name = nm, ti_btype = t, ti_location = 0\<rparr>"

text \<open>The type manager, with the function type and the types of the three parameters.\<close>

definition fn_types :: "(tref \<times> tref \<times> tref \<times> tref \<times> typemanager) option" where
  "fn_types = do { s \<leftarrow> start_tm;
     let s = initializeTypeManager 0 x86_layout Map.empty s;
     (i16, s) \<leftarrow> integerType 3 False 16 s;
     (f64, s) \<leftarrow> floatType 3 64 s;
     (a, s) \<leftarrow> structType 3 [field ''f'' f64, field ''g'' i16] s;
     (i64, s) \<leftarrow> integerType 3 False 64 s;
     (c, s) \<leftarrow> structType 3 [field ''x'' i64, field ''y'' i64, field ''z'' i64] s;
     (ft, s) \<leftarrow> functionType 4 None [field ''a'' a, field ''b'' i16, field ''c'' c] [field ''r'' c] None True 0 s;
     Some (ft, a, i16, c, s) }"

text \<open>The arguments LLVM gives the function, with their types.\<close>

definition fn_args :: "vref list" where
  "fn_args = map ArgumentV [0..<6]"

definition fn_ir :: "llty list \<Rightarrow> irmem" where
  "fn_ir ts = \<lparr>ir_next = 6, ir_operands = Map.empty, ir_name = (\<lambda>v. ''''), ir_op = (\<lambda>v. NoOp),
     ir_type = (\<lambda>v. case v of ArgumentV i \<Rightarrow> if i < length ts then ts ! i else VoidTy | _ \<Rightarrow> VoidTy)\<rparr>"

definition fn_elems :: "tref \<Rightarrow> typemanager \<Rightarrow> llty list option" where
  "fn_elems ft s = do { t \<leftarrow> ll_of ft s; case t of FunctionTy r ts va \<Rightarrow> Some ts | _ \<Rightarrow> None }"

text \<open>A smaller one, for the prolog: \<open>func(a struct{float64; int64})\<close>, whose parameter takes two arguments.\<close>

definition pair_start :: "(tref \<times> fcnstate) option" where
  "pair_start = do { s \<leftarrow> start_tm;
     let s = initializeTypeManager 0 x86_layout Map.empty s;
     (i64, s) \<leftarrow> integerType 3 False 64 s;
     (f64, s) \<leftarrow> floatType 3 64 s;
     (a, s) \<leftarrow> structType 3 [field ''f'' f64, field ''g'' i64] s;
     (ft, s) \<leftarrow> functionType 4 None [field ''a'' a] [] None True 0 s;
     ts \<leftarrow> fn_elems ft s;
     (f, s, tm) \<leftarrow> mk_bfunction 4 (FunctionV 0) (map ArgumentV [0..<3]) ft ''f'' ''f'' 0 (init_bstate (fn_ir ts), s);
     Some (a, f, s, tm) }"

text \<open>The variable of the parameter, and the entry block.\<close>

definition pair_entry :: "((nat \<times> vbref \<times> string \<times> tref) list \<times> bbref \<times> fcnstate \<times> cfg) option" where
  "pair_entry = do { (a, f, s, tm) \<leftarrow> pair_start;
     (evs, f, s) \<leftarrow> run_ops (var_step tm) [ParamVarOp ''a'' a False 1] (f, s);
     let (e, cf) = create_block ''entry'' None empty_cfg;
     Some (evs, e, (f, s, tm), cf) }"

lemma fn_ir_fresh: "ir_fresh (fn_ir ts)"
  by (simp add: fn_ir_def ir_fresh_def)

lemma param_values_witness:
  "\<exists>ft a b c tm ts f s' tm' infos. fn_types = Some (ft, a, b, c, tm) \<and>
     mk_bfunction 4 (FunctionV 0) fn_args ft ''f'' ''f'' 0 (init_bstate (fn_ir ts), tm) = Some (f, s', tm') \<and>
     drop 2 (or_infov (bf_oracle f)) = infos \<and> bf_rtnValueMem f = Some (ArgumentV 0) \<and>
     concat (map (param_args fn_args) infos) = map ArgumentV [2..<6]"
proof -
  have "do { (ft, a, b, c, tm) \<leftarrow> fn_types; ts \<leftarrow> fn_elems ft tm;
     (f, s', tm') \<leftarrow> mk_bfunction 4 (FunctionV 0) fn_args ft ''f'' ''f'' 0 (init_bstate (fn_ir ts), tm);
     Some (fcn_parts ft tm = Some ([a, b, c], c, True), length ts, bf_rtnValueMem f,
       or_fcnTypeForABI (bf_oracle f) = Some (FunctionTy VoidTy ts False)) } = Some (True, 6, Some (ArgumentV 0), True)"
    by code_simp
  then obtain ft a b c tm ts f s' tm' where r: "fn_types = Some (ft, a, b, c, tm)" "fcn_parts ft tm = Some ([a, b, c], c, True)"
    "length ts = 6" "mk_bfunction 4 (FunctionV 0) fn_args ft ''f'' ''f'' 0 (init_bstate (fn_ir ts), tm) = Some (f, s', tm')"
    "bf_rtnValueMem f = Some (ArgumentV 0)" "or_fcnTypeForABI (bf_oracle f) = Some (FunctionTy VoidTy ts False)"
    by (auto simp: bind_Some_iff)
  have "\<exists>rinfo cinfo infos ch. or_infov (bf_oracle f) = rinfo # cinfo # infos \<and>
     fn_args = [ArgumentV 0] @ [ch] @ concat (map (param_args fn_args) infos)"
    using param_values [OF r(4,2,6)] r(3,5) fn_ir_fresh by (fastforce simp: fn_args_def init_bstate_def)
  then obtain rinfo cinfo infos ch where i: "or_infov (bf_oracle f) = rinfo # cinfo # infos"
    "fn_args = [ArgumentV 0] @ [ch] @ concat (map (param_args fn_args) infos)" by blast
  from i(2) have "concat (map (param_args fn_args) infos) = drop 2 fn_args" by (metis append_Cons append_Nil drop_Suc_Cons drop0 numeral_2_eq_2)
  then have "concat (map (param_args fn_args) infos) = map ArgumentV [2..<6]" by (simp add: fn_args_def drop_map upt_rec)
  with r i(1) show ?thesis by (metis drop_Suc_Cons drop0 numeral_2_eq_2)
qed

lemma pair_start_ok:
  assumes "pair_start = Some (a, f, s, tm)"
  shows "vb_heap s = Map.empty \<and> ir_fresh (nd_ir s)"
proof -
  from assms obtain ft tm0 ts where
    "mk_bfunction 4 (FunctionV 0) (map ArgumentV [0..<3]) ft ''f'' ''f'' 0 (init_bstate (fn_ir ts), tm0) = Some (f, s, tm)"
    unfolding pair_start_def by (simp only: bind_Some_iff case_prod_unfold Let_def) (metis option.inject prod.collapse prod.inject)
  from mk_bfunction_quiet [OF this] fn_ir_fresh show ?thesis by (simp add: quiet_def init_bstate_def)
qed

lemma pair_entry_steps:
  assumes "pair_entry = Some (evs, e, (f, s, tm), cf)"
  obtains a f0 s0 where "pair_start = Some (a, f0, s0, tm)"
    "run_ops (var_step tm) [ParamVarOp ''a'' a False 1] (f0, s0) = Some (evs, f, s)"
proof -
  from assms obtain a f0 s0 where "pair_start = Some (a, f0, s0, tm)"
    "run_ops (var_step tm) [ParamVarOp ''a'' a False 1] (f0, s0) = Some (evs, f, s)"
    unfolding pair_entry_def by (simp only: bind_Some_iff case_prod_unfold Let_def) auto
  then show thesis by (rule that)
qed

lemma nth_param_var_witness:
  "\<exists>evs e g t tm cf v. pair_entry = Some (evs, e, (g, t, tm), cf) \<and> (0, 0, ''a'', 5) \<in> set evs \<and> getNthParamVar 0 g = Some 0 \<and>
     vb_heap t 0 = Some v \<and> bv_name v = ''a'' \<and> bv_type v = 5"
proof -
  have "map_option fst pair_entry = Some [(0, 0, ''a'', 5)]" by code_simp
  then obtain e g t tm cf where en: "pair_entry = Some ([(0, 0, ''a'', 5)], e, (g, t, tm), cf)"
    by (auto simp: map_option_case split: option.split_asm)
  then obtain a f s where r: "pair_start = Some (a, f, s, tm)"
    "run_ops (var_step tm) [ParamVarOp ''a'' a False 1] (f, s) = Some ([(0, 0, ''a'', 5)], g, t)"
    by (rule pair_entry_steps)
  have "\<forall>x. vb_heap s x \<noteq> None \<longrightarrow> x < vb_next s" using pair_start_ok [OF r(1)] by simp
  from nth_param_var [OF r(2) this, of 0 0 "''a''" 5] obtain v where "getNthParamVar 0 g = Some 0" "vb_heap t 0 = Some v"
    "bv_name v = ''a''" "bv_type v = 5" by auto
  moreover have "(0, 0, ''a'', 5) \<in> set [(0 :: nat, 0 :: vbref, ''a'', 5 :: tref)]" by simp
  ultimately show ?thesis using en by blast
qed

lemma prolog_spills_witness:
  "\<exists>evs e f s tm cf f' s' tm' cf' spills. pair_entry = Some (evs, e, (f, s, tm), cf) \<and>
     genProlog e ((f, s, tm), cf) = Some ((f', s', tm'), cf') \<and> cf_insts cf' e = Some (bf_allocas f @ spills) \<and>
     list_all2 (spilled (nd_ir s')) (filter (\<lambda>i. ir_op (nd_ir s') i = StoreOp) spills)
       [(ArgumentV 1, AllocaV 6), (ArgumentV 2, AllocaV 6)]"
proof -
  have "do { (evs, e, (f, s, tm), cf) \<leftarrow> pair_entry; ((f', s', tm'), cf') \<leftarrow> genProlog e ((f, s, tm), cf);
     Some (map_option (\<lambda>(ps, rt, c). length ps) (fcn_parts (bf_fcnType f) tm), cf_insts cf e, numArgSlots (or_infov (bf_oracle f) ! 1),
       chain_spills f @ concat (map (direct_spills f) [0..<1])) } =
     Some (Some 1, Some [], 1, [(ArgumentV 1, AllocaV 6), (ArgumentV 2, AllocaV 6)])"
    by code_simp
  then obtain evs e f s tm cf f' s' tm' cf' ps rt c where r: "pair_entry = Some (evs, e, (f, s, tm), cf)"
    "genProlog e ((f, s, tm), cf) = Some ((f', s', tm'), cf')" "fcn_parts (bf_fcnType f) tm = Some (ps, rt, c)" "length ps = 1"
    "cf_insts cf e = Some []" "numArgSlots (or_infov (bf_oracle f) ! 1) = 1"
    "chain_spills f @ concat (map (direct_spills f) [0..<1]) = [(ArgumentV 1, AllocaV 6), (ArgumentV 2, AllocaV 6)]"
    by (auto simp: bind_Some_iff simp del: upt_0 upt_rec_numeral)
  obtain a f0 s0 where "pair_start = Some (a, f0, s0, tm)" "run_ops (var_step tm) [ParamVarOp ''a'' a False 1] (f0, s0) = Some (evs, f, s)"
    by (rule pair_entry_steps [OF r(1)])
  then have "ir_fresh (nd_ir s)" using pair_start_ok var_ops_fresh by blast
  from prolog_spills [OF r(2) this r(5,3) _ r(6), unfolded r(4,7)] r(1,2) show ?thesis by simp blast
qed

end
