(* ===== verification/DebugScopes.thy ===== *)
theory DebugScopes
  imports Bfunctions Linemap
begin

text \<open>
  Debug information of a function: class \<open>DIBuildHelper\<close> (\<^verbatim>\<open>go-llvm-dibuildhelper.h\<close>,
  \<^verbatim>\<open>go-llvm-dibuildhelper.cpp\<close>) and the functions of the type manager that describe types
  (\<open>buildDIType\<close> of \<^verbatim>\<open>go-llvm-typemanager.cpp\<close>).

  The helper keeps the stack of scopes, the cache of described types, the variables already declared
  and the number of instructions with a known location. LLVM's metadata is a heap of nodes, one
  constructor per \<open>DIBuilder::create\<close> function, holding the arguments the code passes;
  \<open>replaceTemporary\<close> redirects every reference to the temporary. That equal nodes are shared is left
  out. The path functions of LLVM, the text of LLVM types and the function \<open>llvm.dbg.declare\<close> are the
  fields of \<open>dbgenv\<close>.
\<close>

section \<open>Metadata\<close>

type_synonym mdref = nat

record dimember =
  dm_name :: string
  dm_file :: mdref
  dm_line :: u32
  dm_size :: u64
  dm_align :: u32
  dm_offset :: u64
  dm_type :: mdref

datatype mdnode =
    MDCompileUnit
  | MDFile string string
  | MDBasicType string u64 u32
  | MDPointerType mdref u64
  | MDMember mdref dimember
  | MDStruct mdref string mdref u32 u64 u32 "mdref list"
  | MDReplaceable string mdref mdref u32
  | MDArrayType u64 u64 mdref u64
  | MDSubroutineType "mdref list"
  | MDSubprogram mdref string string mdref u32 mdref bool bool u32
  | MDLexicalBlock mdref mdref u32 u32
  | MDAutoVariable mdref string mdref u32 mdref
  | MDParameterVariable mdref string u32 mdref u32 mdref
  | MDLocation u32 u32 mdref

record metadata =
  md_heap :: "mdref \<rightharpoonup> mdnode"
  md_next :: mdref
  md_debugLoc :: "vref \<rightharpoonup> mdref"
  md_subprogram :: "vref \<rightharpoonup> mdref"

definition md_new :: "mdnode \<Rightarrow> metadata \<Rightarrow> mdref \<times> metadata" where
  "md_new d m = (md_next m, m\<lparr>md_heap := (md_heap m)(md_next m \<mapsto> d), md_next := Suc (md_next m)\<rparr>)"

definition redirect :: "mdref \<Rightarrow> mdref \<Rightarrow> mdref \<Rightarrow> mdref" where
  "redirect tmp new x = (if x = tmp then new else x)"

fun redirect_node :: "mdref \<Rightarrow> mdref \<Rightarrow> mdnode \<Rightarrow> mdnode" where
  "redirect_node t r (MDPointerType x b) = MDPointerType (redirect t r x) b"
| "redirect_node t r (MDMember s d) = MDMember (redirect t r s) (d\<lparr>dm_file := redirect t r (dm_file d), dm_type := redirect t r (dm_type d)\<rparr>)"
| "redirect_node t r (MDStruct s n f l sz al ms) = MDStruct (redirect t r s) n (redirect t r f) l sz al (map (redirect t r) ms)"
| "redirect_node t r (MDReplaceable n s f l) = MDReplaceable n (redirect t r s) (redirect t r f) l"
| "redirect_node t r (MDArrayType n a e c) = MDArrayType n a (redirect t r e) c"
| "redirect_node t r (MDSubroutineType ts) = MDSubroutineType (map (redirect t r) ts)"
| "redirect_node t r (MDSubprogram s n a f l ty b1 b2 sl) = MDSubprogram (redirect t r s) n a (redirect t r f) l (redirect t r ty) b1 b2 sl"
| "redirect_node t r (MDLexicalBlock s f l c) = MDLexicalBlock (redirect t r s) (redirect t r f) l c"
| "redirect_node t r (MDAutoVariable s n f l ty) = MDAutoVariable (redirect t r s) n (redirect t r f) l (redirect t r ty)"
| "redirect_node t r (MDParameterVariable s n i f l ty) = MDParameterVariable (redirect t r s) n i (redirect t r f) l (redirect t r ty)"
| "redirect_node t r (MDLocation l c s) = MDLocation l c (redirect t r s)"
| "redirect_node t r d = d"

definition replaceTemporary :: "mdref \<Rightarrow> mdref \<Rightarrow> metadata \<Rightarrow> metadata" where
  "replaceTemporary tmp new m =
     m\<lparr>md_heap := (\<lambda>x. if x = tmp then None else map_option (redirect_node tmp new) (md_heap m x))\<rparr>"

section \<open>The helper\<close>

record dbgenv =
  de_L :: leb128
  de_lm :: linemap
  de_fuel :: nat
  de_print :: "llty \<Rightarrow> string"
  de_parent_path :: "string \<Rightarrow> string"
  de_filename :: "string \<Rightarrow> string"
  de_declare :: vref

record dihelper =
  dh_moduleScope :: mdref
  dh_topblock :: "nref option"
  dh_diScopeStack :: "mdref list"
  dh_typeCache :: "tref \<rightharpoonup> mdref"
  dh_declared :: "vbref list"
  dh_entryBlock :: bbref
  dh_known_locations :: u32

type_synonym distate = "dihelper \<times> metadata"

definition currentDIScope :: "dihelper \<Rightarrow> mdref option" where
  "currentDIScope h = do { check (dh_diScopeStack h \<noteq> []); Some (last (dh_diScopeStack h)) }"

definition popDIScope :: "dihelper \<Rightarrow> (mdref \<times> dihelper) option" where
  "popDIScope h = do { check (dh_diScopeStack h \<noteq> []);
     Some (last (dh_diScopeStack h), h\<lparr>dh_diScopeStack := butlast (dh_diScopeStack h)\<rparr>) }"

definition pushDIScope :: "mdref \<Rightarrow> dihelper \<Rightarrow> dihelper" where
  "pushDIScope scope h = h\<lparr>dh_diScopeStack := dh_diScopeStack h @ [scope]\<rparr>"

definition mk_dihelper :: "nref \<Rightarrow> bstate \<Rightarrow> mdref \<Rightarrow> bbref \<Rightarrow> dihelper option" where
  "mk_dihelper topnode s moduleScope entryBlock =
     do { b \<leftarrow> node topnode s;
          Some (pushDIScope moduleScope
            \<lparr>dh_moduleScope = moduleScope, dh_topblock = (if nd_flavor b = N_BlockStmt then Some topnode else None),
             dh_diScopeStack = [], dh_typeCache = Map.empty, dh_declared = [], dh_entryBlock = entryBlock,
             dh_known_locations = 0\<rparr>) }"

text \<open>Lines are signed in the line map and unsigned in the metadata.\<close>

definition di_line :: "dbgenv \<Rightarrow> location \<Rightarrow> u32 option" where
  "di_line E loc = do { l \<leftarrow> location_line (de_L E) (de_lm E) loc; Some (of_int l) }"

definition diFileFromLocation :: "dbgenv \<Rightarrow> location \<Rightarrow> metadata \<Rightarrow> (mdref \<times> metadata) option" where
  "diFileFromLocation E loc m =
     do { locfile \<leftarrow> location_file (de_L E) (de_lm E) loc;
          let locdir = (if is_predeclared (de_lm E) loc then '''' else de_parent_path E locfile);
          Some (md_new (MDFile (de_filename E locfile) locdir) m) }"

definition debugLocFromLocation :: "dbgenv \<Rightarrow> location \<Rightarrow> distate \<Rightarrow> (mdref \<times> distate) option" where
  "debugLocFromLocation E loc = (\<lambda>(h, m).
     do { l \<leftarrow> di_line E loc; c \<leftarrow> location_column (de_L E) (de_lm E) loc; sc \<leftarrow> currentDIScope h;
          let (x, m) = md_new (MDLocation l c sc) m;
          Some (x, h, m) })"

section \<open>Describing types\<close>

definition cache_type :: "tref \<Rightarrow> mdref \<Rightarrow> distate \<Rightarrow> distate" where
  "cache_type t x = (\<lambda>(h, m). (h\<lparr>dh_typeCache := (dh_typeCache h)(t \<mapsto> x)\<rparr>, m))"

definition di_new :: "mdnode \<Rightarrow> distate \<Rightarrow> mdref \<times> distate" where
  "di_new d = (\<lambda>(h, m). let (x, m) = md_new d m in (x, h, m))"

definition di_file :: "dbgenv \<Rightarrow> location \<Rightarrow> distate \<Rightarrow> (mdref \<times> distate) option" where
  "di_file E loc = (\<lambda>(h, m). do { (x, m) \<leftarrow> diFileFromLocation E loc m; Some (x, h, m) })"

text \<open>The placeholder a recursive description refers to, and the end of such a description.\<close>

definition di_placeholder :: "dbgenv \<Rightarrow> tref \<Rightarrow> typemanager \<Rightarrow> distate \<Rightarrow> (mdref \<times> mdref \<times> u32 \<times> distate) option" where
  "di_placeholder E typ tm d =
     do { b \<leftarrow> obj typ tm;
          (file, d) \<leftarrow> di_file E (bt_location b) d;
          line \<leftarrow> di_line E (bt_location b);
          str \<leftarrow> typToString (de_fuel E) (de_print E) tm typ;
          let (tmp, d) = di_new (MDReplaceable str (dh_moduleScope (fst d)) file line) d;
          Some (tmp, file, line, cache_type typ tmp d) }"

definition di_finish :: "tref \<Rightarrow> mdref \<Rightarrow> mdref \<Rightarrow> distate \<Rightarrow> mdref \<times> distate" where
  "di_finish typ tmp result = (\<lambda>(h, m). (result, cache_type typ result (h, replaceTemporary tmp result m)))"

definition member_of :: "dbgenv \<Rightarrow> (tref \<Rightarrow> distate \<Rightarrow> (mdref \<times> distate) option) \<Rightarrow> tref \<Rightarrow> mdref \<Rightarrow> typemanager \<Rightarrow>
    nat \<times> tident \<Rightarrow> distate \<Rightarrow> (mdref \<times> distate) option" where
  "member_of E build bst file tm = (\<lambda>(fidx, field) d.
     do { (ft, d) \<leftarrow> build (ti_btype field) d;
          memberBits \<leftarrow> typeSize (de_fuel E) (ti_btype field) tm;
          memberAlign \<leftarrow> typeFieldAlignment (ti_btype field) tm;
          memberOffset \<leftarrow> typeFieldOffset tm bst fidx;
          line \<leftarrow> di_line E (ti_location field);
          Some (di_new (MDMember (dh_moduleScope (fst d))
            \<lparr>dm_name = ti_name field, dm_file = file, dm_line = line, dm_size = memberBits, dm_align = ucast memberAlign,
             dm_offset = memberOffset, dm_type = ft\<rparr>) d) })"

definition buildStructDIType :: "dbgenv \<Rightarrow> (tref \<Rightarrow> distate \<Rightarrow> (mdref \<times> distate) option) \<Rightarrow> tref \<Rightarrow> typemanager \<Rightarrow>
    distate \<Rightarrow> (mdref \<times> distate) option" where
  "buildStructDIType E build bst tm d =
     do { let bst = (case revNames tm bst of Some nt \<Rightarrow> nt | None \<Rightarrow> bst);
          b \<leftarrow> obj bst tm;
          fields \<leftarrow> (case bt_kind b of KStruct fs \<Rightarrow> Some fs | _ \<Rightarrow> None);
          (tmp, file, line, d) \<leftarrow> di_placeholder E bst tm d;
          (members, d) \<leftarrow> map_st (member_of E build bst file tm) (zip [0..<length fields] fields) d;
          D \<leftarrow> tm_datalayout tm; t \<leftarrow> bt_type b;
          sizeInBits \<leftarrow> bits_of tm t;
          str \<leftarrow> typToString (de_fuel E) (de_print E) tm bst;
          let (dist, d) = di_new (MDStruct (dh_moduleScope (fst d)) str file line sizeInBits
                (of_nat (getPrefTypeAlignment D (tm_context tm) t)) members) d;
          Some (di_finish bst tmp dist d) }"

definition buildCircularPointerDIType :: "dbgenv \<Rightarrow> (tref \<Rightarrow> distate \<Rightarrow> (mdref \<times> distate) option) \<Rightarrow> tref \<Rightarrow> typemanager \<Rightarrow>
    distate \<Rightarrow> (mdref \<times> distate) option" where
  "buildCircularPointerDIType E build typ tm d =
     do { let typ = (case revNames tm typ of Some nt \<Rightarrow> nt | None \<Rightarrow> typ);
          (tmp, file, line, d) \<leftarrow> di_placeholder E typ tm d;
          toType \<leftarrow> circularTypeLoadConversion typ tm;
          (toDI, d) \<leftarrow> build toType d;
          D \<leftarrow> tm_datalayout tm;
          let (result, d) = di_new (MDPointerType toDI (ucast (getPointerSizeInBits D))) d;
          Some (di_finish typ tmp result d) }"

fun buildDIType :: "nat \<Rightarrow> dbgenv \<Rightarrow> typemanager \<Rightarrow> tref \<Rightarrow> distate \<Rightarrow> (mdref \<times> distate) option" where
  "buildDIType 0 E tm typ d = None"
| "buildDIType (Suc n) E tm typ d =
     (case dh_typeCache (fst d) typ of
        Some x \<Rightarrow> Some (x, d)
      | None \<Rightarrow>
        do { b \<leftarrow> obj typ tm;
             (case bt_kind b of
                KAux \<Rightarrow>
                  (if bt_type b = Some llvmVoidType then Some (di_new (MDBasicType ''void'' 0 0) d)
                   else case revNames tm typ of
                     Some nt \<Rightarrow> buildDIType n E tm nt d
                   | None \<Rightarrow>
                       do { t \<leftarrow> bt_type b;
                            check (t \<in> set (circularPointerTypes tm));
                            buildCircularPointerDIType E (buildDIType n E tm) typ tm d })
              | KFloat width \<Rightarrow>
                  do { bits \<leftarrow> width; tstr \<leftarrow> typToString (de_fuel E) (de_print E) tm typ;
                       Some (di_new (MDBasicType tstr (ucast bits) 4) d) }
              | KInteger u bits \<Rightarrow>
                  do { tstr \<leftarrow> typToString (de_fuel E) (de_print E) tm typ;
                       Some (di_new (MDBasicType tstr (ucast bits) (if u then 7 else 5)) d) }
              | KPointer to \<Rightarrow>
                  do { t \<leftarrow> to; (toDI, d) \<leftarrow> buildDIType n E tm t d;
                       D \<leftarrow> tm_datalayout tm;
                       Some (di_new (MDPointerType toDI (ucast (getPointerSizeInBits D))) d) }
              | KArray el ne \<Rightarrow>
                  do { e \<leftarrow> el; (elemDI, d) \<leftarrow> buildDIType n E tm e d;
                       arSize \<leftarrow> nelSize ne;
                       D \<leftarrow> tm_datalayout tm; et \<leftarrow> ll_of e tm;
                       Some (di_new (MDArrayType arSize (of_nat (getPrefTypeAlignment D (tm_context tm) et)) elemDI arSize) d) }
              | KStruct fs \<Rightarrow> buildStructDIType E (buildDIType n E tm) typ tm d
              | KFunction rc ps rs rt c \<Rightarrow>
                  do { (rd, d) \<leftarrow> buildDIType n E tm rt d;
                       (rcd, d) \<leftarrow> (case rc of None \<Rightarrow> Some ([], d)
                           | Some r \<Rightarrow> do { (x, d) \<leftarrow> buildDIType n E tm r d; Some ([x], d) });
                       (psd, d) \<leftarrow> map_st (buildDIType n E tm) ps d;
                       Some (di_new (MDSubroutineType (rd # rcd @ psd)) d) }) })"

section \<open>Scopes and variables\<close>

definition beginFunction :: "dbgenv \<Rightarrow> mdref \<Rightarrow> bfunction \<Rightarrow> typemanager \<Rightarrow> distate \<Rightarrow> distate option" where
  "beginFunction E scope f tm = (\<lambda>(h, m).
     do { (dst, h, m) \<leftarrow> buildDIType (de_fuel E) E tm (bf_fcnType f) (h\<lparr>dh_known_locations := 0\<rparr>, m);
          check (case md_heap m dst of Some (MDSubroutineType ts) \<Rightarrow> True | _ \<Rightarrow> False);
          fcnLine \<leftarrow> di_line E (bf_location f);
          (difile, m) \<leftarrow> diFileFromLocation E (bf_location f) m;
          let (difunc, m) = md_new (MDSubprogram scope (bf_name f) (bf_asmName f) difile fcnLine dst False True fcnLine) m;
          Some (pushDIScope difunc h, m) })"

text \<open>The block an instruction is in, and insertion behind an instruction.\<close>

definition inst_parent :: "vref \<Rightarrow> cfg \<Rightarrow> bbref option" where
  "inst_parent i c = List.find (\<lambda>b. case cf_insts c b of Some is \<Rightarrow> i \<in> set is | None \<Rightarrow> False) (cf_order c)"

definition insert_after :: "vref \<Rightarrow> vref \<Rightarrow> vref list \<Rightarrow> vref list" where
  "insert_after p i is = takeWhile (\<lambda>x. x \<noteq> p) is @ p # i # tl (dropWhile (\<lambda>x. x \<noteq> p) is)"

definition is_branch :: "iop \<Rightarrow> bool" where
  "is_branch p = (case p of BrOp b \<Rightarrow> True | CondBrOp b c \<Rightarrow> True | _ \<Rightarrow> False)"

definition insertVarDecl :: "dbgenv \<Rightarrow> vbref \<Rightarrow> mdref \<Rightarrow> typemanager \<Rightarrow> distate \<times> bstate \<times> cfg \<Rightarrow>
    (distate \<times> bstate \<times> cfg) option" where
  "insertVarDecl E var dilv tm = (\<lambda>(d, s, c).
     do { v \<leftarrow> vb_heap s var;
          (vloc, h, m) \<leftarrow> debugLocFromLocation E (bv_location v) d;
          val \<leftarrow> bv_value v;
          let (decl, ir) = new_inst CallOp [de_declare E, val] VoidTy '''' (nd_ir s);
          let m = m\<lparr>md_debugLoc := (md_debugLoc m)(decl \<mapsto> vloc)\<rparr>;
          ip \<leftarrow> (case bv_initializer v of
                  Some i \<Rightarrow> do { i \<leftarrow> initializerInstruction v; check (ir_live i ir); Some i }
                | None \<Rightarrow> do { sz \<leftarrow> typeSize (de_fuel E) (bv_type v) tm; check (sz = 0);
                               check (isInstruction val); Some val });
          parent \<leftarrow> inst_parent ip c;
          check (\<not> is_branch (ir_op ir ip));
          t \<leftarrow> getTerminator ir c parent;
          check (t \<noteq> Some ip);
          is \<leftarrow> cf_insts c parent;
          Some ((h, m), s\<lparr>nd_ir := ir\<rparr>, c\<lparr>cf_insts := (cf_insts c)(parent \<mapsto> insert_after ip decl is)\<rparr>) })"

definition describe_var :: "dbgenv \<Rightarrow> bvariable \<Rightarrow> typemanager \<Rightarrow> distate \<Rightarrow> (mdref \<times> mdref \<times> u32 \<times> distate) option" where
  "describe_var E v tm d =
     do { (vfile, d) \<leftarrow> di_file E (bv_location v) d;
          (vdit, d) \<leftarrow> buildDIType (de_fuel E) E tm (bv_type v) d;
          vline \<leftarrow> di_line E (bv_location v);
          Some (vfile, vdit, vline, d) }"

definition process_var :: "dbgenv \<Rightarrow> mdref \<Rightarrow> typemanager \<Rightarrow> vbref \<Rightarrow> distate \<times> bstate \<times> cfg \<Rightarrow>
    (distate \<times> bstate \<times> cfg) option" where
  "process_var E scope tm x = (\<lambda>((h, m), s, c).
     do { v \<leftarrow> vb_heap s x;
          if bv_temporary v \<or> x \<in> set (dh_declared h) then Some ((h, m), s, c)
          else do { (vfile, vdit, vline, d) \<leftarrow> describe_var E v tm (h\<lparr>dh_declared := dh_declared h @ [x]\<rparr>, m);
                    let (dilv, d) = di_new (MDAutoVariable scope (bv_name v) vfile vline vdit) d;
                    insertVarDecl E x dilv tm (d, s, c) } })"

definition processVarsInBLock :: "dbgenv \<Rightarrow> vbref list \<Rightarrow> mdref \<Rightarrow> typemanager \<Rightarrow> distate \<times> bstate \<times> cfg \<Rightarrow>
    (distate \<times> bstate \<times> cfg) option" where
  "processVarsInBLock E vars scope tm = fold_opt (process_var E scope tm) vars"

definition declare_param :: "dbgenv \<Rightarrow> mdref \<Rightarrow> typemanager \<Rightarrow> nat \<times> vbref \<Rightarrow> distate \<times> bstate \<times> cfg \<Rightarrow>
    (distate \<times> bstate \<times> cfg) option" where
  "declare_param E fscope tm = (\<lambda>(argIdx, x) (d, s, c).
     do { v \<leftarrow> vb_heap s x;
          (vfile, vdit, vline, d) \<leftarrow> describe_var E v tm d;
          let (dilv, d) = di_new (MDParameterVariable fscope (bv_name v) (of_nat (Suc argIdx)) vfile vline vdit) d;
          insertVarDecl E x dilv tm (d, s, c) })"

definition endFunction :: "dbgenv \<Rightarrow> bfunction \<Rightarrow> typemanager \<Rightarrow> distate \<times> bstate \<times> cfg \<Rightarrow>
    (distate \<times> bstate \<times> cfg) option" where
  "endFunction E f tm = (\<lambda>((h, m), s, c).
     do { fscope \<leftarrow> currentDIScope h;
          check (case md_heap m fscope of Some (MDSubprogram sc nm an fl l ty b1 b2 sl) \<Rightarrow> True | _ \<Rightarrow> False);
          params \<leftarrow> getParameterVars f;
          (d, s, c) \<leftarrow> fold_opt (declare_param E fscope tm) (zip [0..<length params] params) ((h, m), s, c);
          ((h, m), s, c) \<leftarrow> processVarsInBLock E (getFunctionLocalVars f) fscope tm (d, s, c);
          let m = (if dh_known_locations h \<noteq> 0 then m\<lparr>md_subprogram := (md_subprogram m)(bf_function f \<mapsto> fscope)\<rparr> else m);
          (sc, h) \<leftarrow> popDIScope h;
          Some ((h, m), s, c) })"

definition interestingBlock :: "vbref list \<Rightarrow> bstate \<Rightarrow> bool option" where
  "interestingBlock vars s = do { vs \<leftarrow> map_opt (vb_heap s) vars; Some (\<exists>v \<in> set vs. \<not> bv_temporary v) }"

definition beginLexicalBlock :: "dbgenv \<Rightarrow> nref \<Rightarrow> bstate \<Rightarrow> distate \<Rightarrow> distate option" where
  "beginLexicalBlock E block s = (\<lambda>(h, m).
     do { b \<leftarrow> node block s; vars \<leftarrow> castToBblock b; intr \<leftarrow> interestingBlock vars s;
          if \<not> intr \<or> dh_topblock h = Some block then Some (h, m)
          else do { (file, m) \<leftarrow> diFileFromLocation E (nd_loc b) m;
                    scope \<leftarrow> currentDIScope h;
                    l \<leftarrow> di_line E (nd_loc b); c \<leftarrow> location_column (de_L E) (de_lm E) (nd_loc b);
                    let (dilb, m) = md_new (MDLexicalBlock scope file l c) m;
                    Some (pushDIScope dilb h, m) } })"

definition endLexicalBlock :: "dbgenv \<Rightarrow> nref \<Rightarrow> typemanager \<Rightarrow> distate \<times> bstate \<times> cfg \<Rightarrow>
    (distate \<times> bstate \<times> cfg) option" where
  "endLexicalBlock E block tm = (\<lambda>((h, m), s, c).
     do { b \<leftarrow> node block s; vars \<leftarrow> castToBblock b; intr \<leftarrow> interestingBlock vars s;
          if \<not> intr then Some ((h, m), s, c)
          else do { (scope, h) \<leftarrow> (if dh_topblock h = Some block then do { sc \<leftarrow> currentDIScope h; Some (sc, h) } else popDIScope h);
                    processVarsInBLock E vars scope tm ((h, m), s, c) } })"

definition processExprInst :: "dbgenv \<Rightarrow> location \<Rightarrow> vref \<Rightarrow> distate \<Rightarrow> distate option" where
  "processExprInst E eloc inst = (\<lambda>(h, m).
     if is_unknown (de_lm E) eloc then Some (h, m)
     else do { (dl, h, m) \<leftarrow> debugLocFromLocation E eloc (h\<lparr>dh_known_locations := dh_known_locations h + 1\<rparr>, m);
               Some (h, m\<lparr>md_debugLoc := (md_debugLoc m)(inst \<mapsto> dl)\<rparr>) })"

end
