(* ===== verification/GenBlocks.thy ===== *)
theory GenBlocks
  imports DebugScopes BnodeBuilder
begin

text \<open>
  Class \<open>GenBlocks\<close> of \<^verbatim>\<open>go-llvm.cpp\<close>: the walk over the statement tree of a function that puts the
  instructions of its expressions into basic blocks and makes the control transfers, and
  \<open>Llvm_backend::function_set_body\<close>, which runs it.

  The object is the record \<open>genblocks\<close>; it holds the function, the tree (\<open>gb_s\<close>), the blocks
  (\<open>gb_cfg\<close>) and the name generator of the backend as well, since the walk changes them. The block
  the walk is at is an argument and a result; \<open>None\<close> is the null pointer, the state after a
  return or a goto. A \<open>Create\<close> at the end of a null block, a branch on a deleted instruction and a failing
  assertion abort. The tree may be cyclic on the heap, so the walk has fuel; each level of the tree
  takes one unit.

  The third child of an if and of an exception statement is always there (the accessors assert it),
  so the tests of the code for null are always true.
\<close>

section \<open>State\<close>

record genblocks =
  gb_function :: bfunction
  gb_s :: bstate
  gb_tm :: typemanager
  gb_names :: nametags
  gb_personalityFunction :: "vref option"
  gb_cfg :: cfg
  gb_md :: metadata
  gb_dibuildhelper :: "dihelper option"
  gb_labelmap :: "LabelId \<rightharpoonup> bbref"
  gb_padBlockStack :: "bbref list"
  gb_finallyBlock :: "bbref option"
  gb_cachedReturn :: "nref option"
  gb_emitOrphanedCode :: bool

type_synonym 'a gbm = "genblocks \<Rightarrow> ('a \<times> genblocks) option"
type_synonym walker = "nref \<Rightarrow> bbref option \<Rightarrow> bbref option gbm"

definition gb_ir :: "genblocks \<Rightarrow> irmem" where
  "gb_ir g = nd_ir (gb_s g)"

definition set_ir :: "irmem \<Rightarrow> genblocks \<Rightarrow> genblocks" where
  "set_ir m g = g\<lparr>gb_s := (gb_s g)\<lparr>nd_ir := m\<rparr>\<rparr>"

definition gb_namegen :: "string \<Rightarrow> u32 \<Rightarrow> genblocks \<Rightarrow> string \<times> genblocks" where
  "gb_namegen tag expl g = (let (nm, nt) = namegen tag expl (gb_names g) in (nm, g\<lparr>gb_names := nt\<rparr>))"

text \<open>\<open>BasicBlock::Create\<close> with a generated name, at the end of the function.\<close>

definition mkLLVMBlock :: "string \<Rightarrow> u32 \<Rightarrow> genblocks \<Rightarrow> bbref \<times> genblocks" where
  "mkLLVMBlock name expl g =
     (let (tname, g) = gb_namegen name expl g; (b, c) = create_block tname None (gb_cfg g)
      in (b, g\<lparr>gb_cfg := c\<rparr>))"

definition getBlockForLabel :: "LabelId \<Rightarrow> genblocks \<Rightarrow> bbref \<times> genblocks" where
  "getBlockForLabel lab g =
     (case gb_labelmap g lab of
        Some b \<Rightarrow> (b, g)
      | None \<Rightarrow> (let (b, g) = mkLLVMBlock ''label'' lab g in (b, g\<lparr>gb_labelmap := (gb_labelmap g)(lab \<mapsto> b)\<rparr>)))"

definition push_back :: "bbref \<Rightarrow> vref \<Rightarrow> genblocks \<Rightarrow> genblocks option" where
  "push_back b i g = do { c \<leftarrow> push_inst b i (gb_cfg g); Some (g\<lparr>gb_cfg := c\<rparr>) }"

text \<open>A new instruction at the end of a block.\<close>

definition append_new :: "iop \<Rightarrow> vref list \<Rightarrow> llty \<Rightarrow> string \<Rightarrow> bbref option \<Rightarrow> vref gbm" where
  "append_new iop ops t nm cur g =
     do { b \<leftarrow> cur;
          check (list_all (\<lambda>v. ir_live v (gb_ir g)) ops);
          let (v, m) = new_inst iop ops t nm (gb_ir g);
          g \<leftarrow> push_back b v (set_ir m g);
          Some (v, g) }"

definition CreateBr :: "bbref \<Rightarrow> bbref option \<Rightarrow> genblocks \<Rightarrow> genblocks option" where
  "CreateBr dest cur g = do { (v, g) \<leftarrow> append_new (BrOp dest) [] VoidTy '''' cur g; Some g }"

definition CreateCondBr :: "bbref \<Rightarrow> bbref \<Rightarrow> vref \<Rightarrow> bbref option \<Rightarrow> genblocks \<Rightarrow> genblocks option" where
  "CreateCondBr t f cval cur g =
     do { check (ir_type (gb_ir g) cval = IntTy 1);
          (v, g) \<leftarrow> append_new (CondBrOp t f) [cval] VoidTy '''' cur g; Some g }"

text \<open>A branch to a block unless there is nothing to leave or it has been left already.\<close>

definition branch_unless_left :: "bbref \<Rightarrow> bbref option \<Rightarrow> genblocks \<Rightarrow> genblocks option" where
  "branch_unless_left dest cur g =
     (case cur of
        None \<Rightarrow> Some g
      | Some b \<Rightarrow> do { t \<leftarrow> getTerminator (gb_ir g) (gb_cfg g) b;
                       if t = None then CreateBr dest cur g else Some g })"

section \<open>Instructions\<close>

definition replaceAllUsesWith :: "vref \<Rightarrow> vref \<Rightarrow> irmem \<Rightarrow> irmem" where
  "replaceAllUsesWith old new m =
     m\<lparr>ir_operands := (\<lambda>v. map_option (map (\<lambda>x. if x = old then new else x)) (ir_operands m v))\<rparr>"

definition rewriteToMayThrowCall :: "vref \<Rightarrow> bbref \<Rightarrow> (vref \<times> bbref) gbm" where
  "rewriteToMayThrowCall call curblock g =
     do { check (gb_padBlockStack g \<noteq> []);
          let padbb = last (gb_padBlockStack g);
          let (contbb, g) = mkLLVMBlock ''cont'' ChooseVer g;
          args \<leftarrow> ir_operands (gb_ir g) call;
          let (invcall, m) = new_inst (InvokeOp contbb padbb) args (ir_type (gb_ir g) call) (ir_name (gb_ir g) call) (gb_ir g);
          m \<leftarrow> delete_inst call (replaceAllUsesWith call invcall m);
          Some ((invcall, contbb), set_ir m g) }"

definition isIntrinsic :: "vref \<Rightarrow> irmem \<Rightarrow> bool" where
  "isIntrinsic f m \<longleftrightarrow> take 5 (ir_name m f) = ''llvm.''"

definition may_throw :: "vref \<Rightarrow> irmem \<Rightarrow> bool" where
  "may_throw i m \<longleftrightarrow> ir_op m i = CallOp \<and>
     (case ir_operands m i of Some (f # args) \<Rightarrow> \<not> isFunction f \<or> \<not> isIntrinsic f m | _ \<Rightarrow> True)"

definition postProcessInst :: "vref \<Rightarrow> bbref \<Rightarrow> (vref \<times> bbref) gbm" where
  "postProcessInst inst curblock g =
     (if gb_padBlockStack g \<noteq> [] \<and> may_throw inst (gb_ir g) then rewriteToMayThrowCall inst curblock g
      else Some ((inst, curblock), g))"

definition debug_inst :: "dbgenv \<Rightarrow> location \<Rightarrow> vref \<Rightarrow> genblocks \<Rightarrow> genblocks option" where
  "debug_inst E loc inst g =
     (case gb_dibuildhelper g of
        None \<Rightarrow> Some g
      | Some h \<Rightarrow> do { (h, md) \<leftarrow> processExprInst E loc inst (h, gb_md g);
                      Some (g\<lparr>gb_dibuildhelper := Some h, gb_md := md\<rparr>) })"

fun place_insts :: "dbgenv \<Rightarrow> location \<Rightarrow> vref list \<Rightarrow> bbref option \<Rightarrow> bbref option gbm" where
  "place_insts E loc [] cur g = Some (cur, g)"
| "place_insts E loc (i # is) None g = do { m \<leftarrow> delete_inst i (gb_ir g); place_insts E loc is None (set_ir m g) }"
| "place_insts E loc (i # is) (Some b) g =
     do { ((inst, nb), g) \<leftarrow> postProcessInst i b g;
          g \<leftarrow> debug_inst E loc inst g;
          g \<leftarrow> push_back b inst g;
          place_insts E loc is (Some nb) g }"

fun walk_list :: "walker \<Rightarrow> nref list \<Rightarrow> bbref option \<Rightarrow> bbref option gbm" where
  "walk_list rec [] cur g = Some (cur, g)"
| "walk_list rec (x # xs) cur g = do { (cur, g) \<leftarrow> rec x cur g; walk_list rec xs cur g }"

definition walkExpr :: "dbgenv \<Rightarrow> walker \<Rightarrow> bbref option \<Rightarrow> nref \<Rightarrow> bbref option gbm" where
  "walkExpr E rec cur x g =
     do { (b, e) \<leftarrow> as_expr x (gb_s g);
          (cur, g) \<leftarrow> walk_list rec (nd_kids b) cur g;
          place_insts E (nd_loc b) (e_insts e) cur g }"

definition value_of :: "nref \<Rightarrow> genblocks \<Rightarrow> vref option" where
  "value_of x g = do { (b, e) \<leftarrow> as_expr x (gb_s g); e_value e }"

section \<open>Statements\<close>

definition genIf :: "dbgenv \<Rightarrow> walker \<Rightarrow> nref \<Rightarrow> bbref option \<Rightarrow> bbref option gbm" where
  "genIf E rec ifst cur g =
     do { cnd \<leftarrow> getIfStmtCondition ifst (gb_s g);
          trueStmt \<leftarrow> getIfStmtTrueBlock ifst (gb_s g);
          falseStmt \<leftarrow> getIfStmtFalseBlock ifst (gb_s g);
          (cur, g) \<leftarrow> walkExpr E rec cur cnd g;
          let (tblock, g) = mkLLVMBlock ''then'' ChooseVer g;
          let (ft, g) = mkLLVMBlock ''fallthrough'' ChooseVer g;
          let (fblock, g) = mkLLVMBlock ''else'' ChooseVer g;
          cval \<leftarrow> value_of cnd g;
          g \<leftarrow> CreateCondBr tblock fblock cval cur g;
          (tsucc, g) \<leftarrow> rec trueStmt (Some tblock) g;
          g \<leftarrow> branch_unless_left ft tsucc g;
          (fsucc, g) \<leftarrow> rec falseStmt (Some fblock) g;
          g \<leftarrow> branch_unless_left ft fsucc g;
          Some (Some ft, g) }"

fun case_blocks :: "'a list list \<Rightarrow> bbref option \<Rightarrow> genblocks \<Rightarrow> (bbref list \<times> bbref option \<times> genblocks) option" where
  "case_blocks [] defBB g = Some ([], defBB, g)"
| "case_blocks (thiscase # cs) defBB g =
     do { let isDefault = (thiscase = []);
          let (b, g) = mkLLVMBlock (if isDefault then ''default'' else ''case'') ChooseVer g;
          check (isDefault \<longrightarrow> defBB = None);
          (bs, defBB, g) \<leftarrow> case_blocks cs (if isDefault then Some b else defBB) g;
          Some (b # bs, defBB, g) }"

definition walk_case :: "walker \<Rightarrow> bbref \<Rightarrow> nref \<times> bbref \<Rightarrow> genblocks \<Rightarrow> genblocks option" where
  "walk_case rec epilogBB = (\<lambda>(st, b) g.
     do { (r, g) \<leftarrow> rec st (Some b) g;
          branch_unless_left epilogBB (Some b) g })"

definition addCase :: "vref \<Rightarrow> bbref \<Rightarrow> nref \<times> bbref \<Rightarrow> genblocks \<Rightarrow> genblocks option" where
  "addCase swinst defBB = (\<lambda>(exp, b) g.
     do { ci \<leftarrow> value_of exp g;
          check (case ci of ConstantV k \<Rightarrow> True | _ \<Rightarrow> False);
          cs \<leftarrow> (case ir_op (gb_ir g) swinst of SwitchOp d cs \<Rightarrow> Some cs | _ \<Rightarrow> None);
          Some (set_ir ((gb_ir g)\<lparr>ir_op := (ir_op (gb_ir g))(swinst := SwitchOp defBB (cs @ [(ci, b)]))\<rparr>) g) })"

definition genSwitch :: "dbgenv \<Rightarrow> walker \<Rightarrow> nref \<Rightarrow> bbref option \<Rightarrow> bbref option gbm" where
  "genSwitch E rec swst cur g =
     do { swval \<leftarrow> getSwitchStmtValue swst (gb_s g);
          (cur, g) \<leftarrow> walkExpr E rec cur swval g;
          ncases \<leftarrow> getSwitchStmtNumCases swst (gb_s g);
          cases \<leftarrow> map_opt (\<lambda>i. getSwitchStmtNthCase i swst (gb_s g)) [0..<ncases];
          stmts \<leftarrow> map_opt (\<lambda>i. getSwitchStmtNthStmt i swst (gb_s g)) [0..<ncases];
          (blocks, defBB, g) \<leftarrow> case_blocks cases None g;
          let (epilogBB, g) = mkLLVMBlock ''epilog'' ChooseVer g;
          let defBB = (case defBB of Some b \<Rightarrow> b | None \<Rightarrow> epilogBB);
          g \<leftarrow> fold_opt (walk_case rec epilogBB) (zip stmts blocks) g;
          v \<leftarrow> value_of swval g;
          (swinst, g) \<leftarrow> append_new (SwitchOp defBB []) [v] VoidTy '''' cur g;
          g \<leftarrow> fold_opt (addCase swinst defBB) (concat (map (\<lambda>(es, b). map (\<lambda>e. (e, b)) es) (zip cases blocks))) g;
          Some (Some epilogBB, g) }"

definition genReturn :: "nat \<Rightarrow> dbgenv \<Rightarrow> walker \<Rightarrow> nref \<Rightarrow> bbref option \<Rightarrow> bbref option gbm" where
  "genReturn n E rec rst cur g =
     do { re \<leftarrow> getReturnStmtExpr rst (gb_s g);
          case gb_finallyBlock g of
            Some fb \<Rightarrow>
              do { g \<leftarrow> (case gb_cachedReturn g of
                          None \<Rightarrow> Some (g\<lparr>gb_cachedReturn := Some rst\<rparr>)
                        | Some r \<Rightarrow> do { s \<leftarrow> destroy n re DelInstructions (gb_s g); Some (g\<lparr>gb_s := s\<rparr>) });
                   g \<leftarrow> CreateBr fb cur g;
                   Some (None, g) }
          | None \<Rightarrow>
              do { (bb, g) \<leftarrow> walkExpr E rec cur re g; check (cur = bb); Some (None, g) } }"

definition personalityFunction :: "genblocks \<Rightarrow> vref \<times> genblocks" where
  "personalityFunction g =
     (case gb_personalityFunction g of
        Some f \<Rightarrow> (f, g)
      | None \<Rightarrow>
          (let m = gb_ir g; f = FunctionV (ir_next m);
               m = m\<lparr>ir_next := Suc (ir_next m), ir_name := (ir_name m)(f := ''__gccgo_personality_v0''),
                    ir_type := (ir_type m)(f := PointerTy personalityFunctionType)\<rparr>
           in (f, (set_ir m g)\<lparr>gb_personalityFunction := Some f\<rparr>)))"

definition insure_personality :: "genblocks \<Rightarrow> genblocks" where
  "insure_personality g =
     (if cf_personality (gb_cfg g) \<noteq> None then g
      else (let (f, g) = personalityFunction g in g\<lparr>gb_cfg := (gb_cfg g)\<lparr>cf_personality := Some f\<rparr>\<rparr>))"

definition push_pad :: "bbref \<Rightarrow> genblocks \<Rightarrow> genblocks" where
  "push_pad b g = g\<lparr>gb_padBlockStack := gb_padBlockStack g @ [b]\<rparr>"

definition pop_pad :: "genblocks \<Rightarrow> genblocks option" where
  "pop_pad g = do { check (gb_padBlockStack g \<noteq> []); Some (g\<lparr>gb_padBlockStack := butlast (gb_padBlockStack g)\<rparr>) }"

text \<open>The landing pad at the end of a pad block, its null clause as operand, and the branch behind it.\<close>

definition emit_landing_pad :: "string \<Rightarrow> bbref \<Rightarrow> genblocks \<Rightarrow> genblocks option" where
  "emit_landing_pad tag padbb g =
     do { let (nm, g) = gb_namegen tag ChooseVer g;
          let (clause, m) = folded_constant NoOp [] llvmPtrType (gb_ir g);
          (v, g) \<leftarrow> append_new LandingPadOp [clause] landingPadExceptionType nm (Some padbb) (set_ir m g);
          Some g }"

definition genDefer :: "dbgenv \<Rightarrow> walker \<Rightarrow> nref \<Rightarrow> bbref option \<Rightarrow> bbref option gbm" where
  "genDefer E rec defst cur g =
     do { let g = insure_personality g;
          defcallex \<leftarrow> getDeferStmtDeferCall defst (gb_s g);
          undcallex \<leftarrow> getDeferStmtUndeferCall defst (gb_s g);
          let (finbb, g) = mkLLVMBlock ''finish'' ChooseVer g;
          let (padbb, g) = mkLLVMBlock ''pad'' ChooseVer g;
          let (catchbb, g) = mkLLVMBlock ''catch'' ChooseVer g;
          g \<leftarrow> (if cur \<noteq> None then CreateBr finbb cur g else Some g);
          (contbb, g) \<leftarrow> walkExpr E rec (Some finbb) undcallex (push_pad padbb g);
          g \<leftarrow> pop_pad g;
          g \<leftarrow> emit_landing_pad ''ex'' padbb g;
          g \<leftarrow> CreateBr catchbb (Some padbb) g;
          (bb, g) \<leftarrow> walkExpr E rec (Some catchbb) defcallex g;
          check (bb = Some catchbb);
          g \<leftarrow> CreateBr finbb (Some catchbb) g;
          Some (contbb, g) }"

definition relocate_return :: "dbgenv \<Rightarrow> walker \<Rightarrow> bbref option \<Rightarrow> genblocks \<Rightarrow> genblocks option" where
  "relocate_return E rec cur g =
     (case gb_cachedReturn g of
        None \<Rightarrow> Some g
      | Some r \<Rightarrow> do { re \<leftarrow> getReturnStmtExpr r (gb_s g);
                      (bb, g) \<leftarrow> walkExpr E rec cur re g;
                      check (cur = bb);
                      Some (g\<lparr>gb_cachedReturn := None\<rparr>) })"

definition genExcep :: "dbgenv \<Rightarrow> walker \<Rightarrow> nref \<Rightarrow> bbref option \<Rightarrow> bbref option gbm" where
  "genExcep E rec excepst cur g =
     do { let g = insure_personality g;
          body \<leftarrow> getExcepStmtBody excepst (gb_s g);
          ifexception \<leftarrow> getExcepStmtOnException excepst (gb_s g);
          finst \<leftarrow> getExcepStmtFinally excepst (gb_s g);
          let (padbb, g) = mkLLVMBlock ''pad'' ChooseVer g;
          let (contbb, g) = mkLLVMBlock ''finally'' ChooseVer g;
          check (gb_padBlockStack g = []);
          let g = g\<lparr>gb_finallyBlock := Some contbb\<rparr>;
          check (gb_cachedReturn g = None);
          (cur, g) \<leftarrow> rec body cur (push_pad padbb g);
          g \<leftarrow> pop_pad g;
          g \<leftarrow> (if cur \<noteq> None then CreateBr contbb cur g else Some g);
          g \<leftarrow> emit_landing_pad ''ex'' padbb g;
          let (catchbb, g) = mkLLVMBlock ''catch'' ChooseVer g;
          g \<leftarrow> CreateBr catchbb (Some padbb) g;
          let (catchpadbb, g) = mkLLVMBlock ''catchpad'' ChooseVer g;
          (bb, g) \<leftarrow> rec ifexception (Some catchbb) (push_pad catchpadbb g);
          g \<leftarrow> (if bb \<noteq> None then CreateBr contbb bb g else Some g);
          g \<leftarrow> pop_pad g;
          let g = g\<lparr>gb_finallyBlock := None\<rparr>;
          g \<leftarrow> emit_landing_pad ''ex2'' catchpadbb g;
          g \<leftarrow> CreateBr contbb (Some catchpadbb) g;
          (cur, g) \<leftarrow> rec finst (Some contbb) g;
          g \<leftarrow> relocate_return E rec cur g;
          Some (cur, g) }"

definition genGoto :: "LabelId \<Rightarrow> bbref option \<Rightarrow> bbref option gbm" where
  "genGoto lab cur g =
     do { let (lbb, g) = getBlockForLabel lab g;
          g \<leftarrow> branch_unless_left lbb cur g;
          if gb_emitOrphanedCode g
          then do { let (nm, g) = gb_namegen ''orphan'' ChooseVer g;
                    let (orphan, c) = create_block nm (Some lbb) (gb_cfg g);
                    Some (Some orphan, g\<lparr>gb_cfg := c\<rparr>) }
          else Some (None, g) }"

definition genLabel :: "LabelId \<Rightarrow> bbref option \<Rightarrow> bbref option gbm" where
  "genLabel lab cur g =
     do { let (lbb, g) = getBlockForLabel lab g;
          g \<leftarrow> (if cur \<noteq> None then CreateBr lbb cur g else Some g);
          Some (Some lbb, g) }"

definition debug_begin_block :: "dbgenv \<Rightarrow> nref \<Rightarrow> genblocks \<Rightarrow> genblocks option" where
  "debug_begin_block E x g =
     (case gb_dibuildhelper g of
        None \<Rightarrow> Some g
      | Some h \<Rightarrow> do { (h, md) \<leftarrow> beginLexicalBlock E x (gb_s g) (h, gb_md g);
                      Some (g\<lparr>gb_dibuildhelper := Some h, gb_md := md\<rparr>) })"

definition debug_end_block :: "dbgenv \<Rightarrow> nref \<Rightarrow> genblocks \<Rightarrow> genblocks option" where
  "debug_end_block E x g =
     (case gb_dibuildhelper g of
        None \<Rightarrow> Some g
      | Some h \<Rightarrow> do { ((h, md), s, c) \<leftarrow> endLexicalBlock E x (gb_tm g) ((h, gb_md g), gb_s g, gb_cfg g);
                      Some (g\<lparr>gb_dibuildhelper := Some h, gb_md := md, gb_s := s, gb_cfg := c\<rparr>) })"

definition genBlock :: "dbgenv \<Rightarrow> walker \<Rightarrow> nref \<Rightarrow> bbref option \<Rightarrow> bbref option gbm" where
  "genBlock E rec x cur g =
     do { g \<leftarrow> debug_begin_block E x g;
          sts \<leftarrow> getChildStmts x (gb_s g);
          (cur, g) \<leftarrow> walk_list rec sts cur g;
          g \<leftarrow> debug_end_block E x g;
          Some (cur, g) }"

fun gwalk :: "nat \<Rightarrow> dbgenv \<Rightarrow> walker" where
  "gwalk 0 E x cur g = None"
| "gwalk (Suc n) E x cur g =
     do { b \<leftarrow> node x (gb_s g);
          e \<leftarrow> castToBexpression b;
          (case e of
             Some d \<Rightarrow> walkExpr E (gwalk n E) cur x g
           | None \<Rightarrow>
               (case nd_flavor b of
                  N_ExprStmt \<Rightarrow> do { ex \<leftarrow> getExprStmtExpr x (gb_s g); walkExpr E (gwalk n E) cur ex g }
                | N_BlockStmt \<Rightarrow> genBlock E (gwalk n E) x cur g
                | N_IfStmt \<Rightarrow> genIf E (gwalk n E) x cur g
                | N_SwitchStmt \<Rightarrow> genSwitch E (gwalk n E) x cur g
                | N_ReturnStmt \<Rightarrow> genReturn n E (gwalk n E) x cur g
                | N_DeferStmt \<Rightarrow> genDefer E (gwalk n E) x cur g
                | N_ExcepStmt \<Rightarrow> genExcep E (gwalk n E) x cur g
                | N_GotoStmt \<Rightarrow> do { l \<leftarrow> getGotoStmtTargetLabel x (gb_s g); genGoto l cur g }
                | N_LabelStmt \<Rightarrow> do { l \<leftarrow> getLabelStmtDefinedLabel x (gb_s g); genLabel l cur g }
                | _ \<Rightarrow> None)) }"

section \<open>The body of a function\<close>

definition mk_genblocks :: "dbgenv \<Rightarrow> fcnstate \<Rightarrow> nametags \<Rightarrow> vref option \<Rightarrow> cfg \<Rightarrow> metadata \<Rightarrow> nref \<Rightarrow> mdref \<Rightarrow>
    bool \<Rightarrow> bbref \<Rightarrow> genblocks option" where
  "mk_genblocks E fcn names pers c md topNode scope createDebugMetadata entryBlock =
     (case fcn of (f, s, tm) \<Rightarrow>
        do { let g = \<lparr>gb_function = f, gb_s = s, gb_tm = tm, gb_names = names, gb_personalityFunction = pers, gb_cfg = c,
               gb_md = md, gb_dibuildhelper = None, gb_labelmap = Map.empty, gb_padBlockStack = [], gb_finallyBlock = None,
               gb_cachedReturn = None, gb_emitOrphanedCode = False\<rparr>;
             if createDebugMetadata
             then do { h \<leftarrow> mk_dihelper topNode s scope entryBlock;
                       (h, md) \<leftarrow> beginFunction E scope f tm (h, md);
                       Some (g\<lparr>gb_dibuildhelper := Some h, gb_md := md\<rparr>) }
             else Some g })"

definition finishFunction :: "dbgenv \<Rightarrow> bbref \<Rightarrow> genblocks \<Rightarrow> genblocks option" where
  "finishFunction E entry g =
     do { (f, s, tm) \<leftarrow> fixupProlog entry (gb_cfg g) (gb_function g, gb_s g, gb_tm g);
          let g = g\<lparr>gb_function := f, gb_s := s, gb_tm := tm\<rparr>;
          case gb_dibuildhelper g of
            None \<Rightarrow> Some g
          | Some h \<Rightarrow> do { ((h, md), s, c) \<leftarrow> endFunction E (gb_function g) (gb_tm g) ((h, gb_md g), gb_s g, gb_cfg g);
                          Some (g\<lparr>gb_dibuildhelper := Some h, gb_md := md, gb_s := s, gb_cfg := c\<rparr>) } }"

definition genEntryBlock :: "fcnstate \<Rightarrow> cfg \<Rightarrow> (bbref \<times> fcnstate \<times> cfg) option" where
  "genEntryBlock fcn c =
     do { let (entry, c) = create_block ''entry'' None c;
          (fcn, c) \<leftarrow> genProlog entry (fcn, c);
          Some (entry, fcn, c) }"

definition fixupEpilogBlock :: "bbref \<Rightarrow> genblocks \<Rightarrow> genblocks option" where
  "fixupEpilogBlock epilog g =
     do { t \<leftarrow> getTerminator (gb_ir g) (gb_cfg g) epilog;
          if t \<noteq> None then Some g
          else do { rtyp \<leftarrow> (case ir_type (gb_ir g) (bf_function (gb_function g)) of
                               PointerTy (FunctionTy r ps va) \<Rightarrow> Some r | _ \<Rightarrow> None);
                    if rtyp = VoidTy
                    then do { (ri, g) \<leftarrow> append_new RetOp [] VoidTy '''' (Some epilog) g; Some g }
                    else do { let (zv, m) = folded_constant NoOp [] rtyp (gb_ir g);
                              (ri, g) \<leftarrow> append_new RetOp [zv] VoidTy '''' (Some epilog) (set_ir m g); Some g } } }"

text \<open>The part of the backend's state \<open>function_set_body\<close> reads.\<close>

record fcnbodyctl =
  fc_errorFunction :: "vref option"
  fc_curFcn :: "vref option"
  fc_checkIntegrity :: bool
  fc_createDebugMetaData :: bool
  fc_errorCount :: u32
  fc_printers :: printers

definition enforceTreeIntegrity :: "nat \<Rightarrow> fcnbodyctl \<Rightarrow> nref \<Rightarrow> bstate \<Rightarrow> bstate option" where
  "enforceTreeIntegrity n ctl x s =
     do { (res, ig, s) \<leftarrow> examine n (fc_printers ctl) x
            (mk_integ \<lparr>ptrDisp = DumpPointers, varDisp = IgnoreVarExprs, repairDisp = RepairSharing\<rparr>) s;
          check (res \<or> \<not> fc_checkIntegrity ctl);
          Some s }"

definition function_set_body :: "nat \<Rightarrow> dbgenv \<Rightarrow> fcnbodyctl \<Rightarrow> mdref \<Rightarrow> nametags \<Rightarrow> vref option \<Rightarrow> metadata \<Rightarrow> nref \<Rightarrow>
    fcnstate \<times> cfg \<Rightarrow> (fcnbodyctl \<times> genblocks option) option" where
  "function_set_body n E ctl scope names pers md code_stmt = (\<lambda>((f, s, tm), c).
     if Some (bf_function f) = fc_errorFunction ctl then Some (ctl, None)
     else do { check (fc_curFcn ctl = None \<or> fc_curFcn ctl = Some (bf_function f));
               let ctl = ctl\<lparr>fc_curFcn := None\<rparr>;
               s \<leftarrow> (if fc_checkIntegrity ctl then enforceTreeIntegrity n ctl code_stmt s else Some s);
               (entryBlock, fcn, c) \<leftarrow> genEntryBlock (f, s, tm) c;
               let dodebug = (fc_createDebugMetaData ctl \<and> fc_errorCount ctl = 0);
               g \<leftarrow> mk_genblocks E fcn names pers c md code_stmt scope dodebug entryBlock;
               (block, g) \<leftarrow> gwalk n E code_stmt (Some entryBlock) g;
               g \<leftarrow> finishFunction E entryBlock g;
               g \<leftarrow> (case block of None \<Rightarrow> Some g | Some b \<Rightarrow> fixupEpilogBlock b g);
               Some (ctl, Some g) })"

end
