(* ===== verification/GenTrees.thy ===== *)
theory GenTrees
  imports GenBlocks
begin

text \<open>
  The statement trees without defer and exception statements, read off the heap (\<open>stm_of\<close>), and the
  generation of blocks as a recursion over such a tree (\<open>gen\<close>). Outside a try block, without debug
  information, the walk of the code is this recursion (\<open>gwalk_gen\<close>): the heap and the fuel are gone,
  and what follows is proved by induction on trees.
\<close>

section \<open>Trees\<close>

datatype stm =
    TExpr "stm list" "vref list"
  | TBlock "stm list"
  | TIf stm vref stm stm
  | TSwitch stm vref "(vref list \<times> stm) list"
  | TReturn stm
  | TGoto LabelId
  | TLabel LabelId

definition expr_of :: "(nref \<Rightarrow> stm option) \<Rightarrow> nref \<Rightarrow> bstate \<Rightarrow> stm option" where
  "expr_of rd x s = do { (b, e) \<leftarrow> as_expr x s; ks \<leftarrow> map_opt rd (nd_kids b); Some (TExpr ks (e_insts e)) }"

definition node_value :: "nref \<Rightarrow> bstate \<Rightarrow> vref option" where
  "node_value x s = do { (b, e) \<leftarrow> as_expr x s; e_value e }"

definition case_value :: "nref \<Rightarrow> bstate \<Rightarrow> vref option" where
  "case_value x s = do { v \<leftarrow> node_value x s; check (case v of ConstantV k \<Rightarrow> True | _ \<Rightarrow> False); Some v }"

definition if_of :: "(nref \<Rightarrow> stm option) \<Rightarrow> nref \<Rightarrow> bstate \<Rightarrow> stm option" where
  "if_of rd x s =
     do { cnd \<leftarrow> getIfStmtCondition x s; tx \<leftarrow> getIfStmtTrueBlock x s; fx \<leftarrow> getIfStmtFalseBlock x s;
          c \<leftarrow> expr_of rd cnd s; v \<leftarrow> node_value cnd s; t \<leftarrow> rd tx; f \<leftarrow> rd fx;
          Some (TIf c v t f) }"

definition switch_of :: "(nref \<Rightarrow> stm option) \<Rightarrow> nref \<Rightarrow> bstate \<Rightarrow> stm option" where
  "switch_of rd x s =
     do { sv \<leftarrow> getSwitchStmtValue x s; c \<leftarrow> expr_of rd sv s; v \<leftarrow> node_value sv s;
          n \<leftarrow> getSwitchStmtNumCases x s;
          css \<leftarrow> map_opt (\<lambda>i. getSwitchStmtNthCase i x s) [0..<n];
          sts \<leftarrow> map_opt (\<lambda>i. getSwitchStmtNthStmt i x s) [0..<n];
          vss \<leftarrow> map_opt (map_opt (\<lambda>e. case_value e s)) css;
          ts \<leftarrow> map_opt rd sts;
          Some (TSwitch c v (zip vss ts)) }"

fun stm_of :: "nat \<Rightarrow> bstate \<Rightarrow> nref \<Rightarrow> stm option" where
  "stm_of 0 s x = None"
| "stm_of (Suc n) s x =
     do { b \<leftarrow> node x s;
          e \<leftarrow> castToBexpression b;
          (case e of
             Some d \<Rightarrow> expr_of (stm_of n s) x s
           | None \<Rightarrow>
               (case nd_flavor b of
                  N_ExprStmt \<Rightarrow> do { ex \<leftarrow> getExprStmtExpr x s; expr_of (stm_of n s) ex s }
                | N_BlockStmt \<Rightarrow> do { sts \<leftarrow> getChildStmts x s; ts \<leftarrow> map_opt (stm_of n s) sts; Some (TBlock ts) }
                | N_IfStmt \<Rightarrow> if_of (stm_of n s) x s
                | N_SwitchStmt \<Rightarrow> switch_of (stm_of n s) x s
                | N_ReturnStmt \<Rightarrow> do { re \<leftarrow> getReturnStmtExpr x s; t \<leftarrow> expr_of (stm_of n s) re s; Some (TReturn t) }
                | N_GotoStmt \<Rightarrow> do { l \<leftarrow> getGotoStmtTargetLabel x s; Some (TGoto l) }
                | N_LabelStmt \<Rightarrow> do { l \<leftarrow> getLabelStmtDefinedLabel x s; Some (TLabel l) }
                | _ \<Rightarrow> None)) }"

section \<open>Generation over a tree\<close>

fun place :: "vref list \<Rightarrow> bbref option \<Rightarrow> bbref option gbm" where
  "place [] cur g = Some (cur, g)"
| "place (i # is) None g = do { m \<leftarrow> delete_inst i (gb_ir g); place is None (set_ir m g) }"
| "place (i # is) (Some b) g = do { g \<leftarrow> push_back b i g; place is (Some b) g }"

definition add_const :: "vref \<Rightarrow> bbref \<Rightarrow> vref \<times> bbref \<Rightarrow> genblocks \<Rightarrow> genblocks option" where
  "add_const swinst defBB = (\<lambda>(ci, b) g.
     do { cs \<leftarrow> (case ir_op (gb_ir g) swinst of SwitchOp d cs \<Rightarrow> Some cs | _ \<Rightarrow> None);
          Some (set_ir ((gb_ir g)\<lparr>ir_op := (ir_op (gb_ir g))(swinst := SwitchOp defBB (cs @ [(ci, b)]))\<rparr>) g) })"

definition case_table :: "vref list list \<Rightarrow> bbref list \<Rightarrow> (vref \<times> bbref) list" where
  "case_table vss bs = concat (map (\<lambda>(vs, b). map (\<lambda>v. (v, b)) vs) (zip vss bs))"

fun gen :: "stm \<Rightarrow> bbref option \<Rightarrow> bbref option gbm"
  and gens :: "stm list \<Rightarrow> bbref option \<Rightarrow> bbref option gbm"
  and gen_cases :: "(vref list \<times> stm) list \<Rightarrow> bbref list \<Rightarrow> bbref \<Rightarrow> genblocks \<Rightarrow> genblocks option" where
  "gen (TExpr ks is) cur g = do { (cur, g) \<leftarrow> gens ks cur g; place is cur g }"
| "gen (TBlock ts) cur g = gens ts cur g"
| "gen (TIf c v t f) cur g =
     do { (cur, g) \<leftarrow> gen c cur g;
          let (tblock, g) = mkLLVMBlock ''then'' ChooseVer g;
          let (ft, g) = mkLLVMBlock ''fallthrough'' ChooseVer g;
          let (fblock, g) = mkLLVMBlock ''else'' ChooseVer g;
          g \<leftarrow> CreateCondBr tblock fblock v cur g;
          (tsucc, g) \<leftarrow> gen t (Some tblock) g;
          g \<leftarrow> branch_unless_left ft tsucc g;
          (fsucc, g) \<leftarrow> gen f (Some fblock) g;
          g \<leftarrow> branch_unless_left ft fsucc g;
          Some (Some ft, g) }"
| "gen (TSwitch c v cs) cur g =
     do { (cur, g) \<leftarrow> gen c cur g;
          (blocks, defBB, g) \<leftarrow> case_blocks (map fst cs) None g;
          let (epilogBB, g) = mkLLVMBlock ''epilog'' ChooseVer g;
          let defBB = (case defBB of Some b \<Rightarrow> b | None \<Rightarrow> epilogBB);
          g \<leftarrow> gen_cases cs blocks epilogBB g;
          (swinst, g) \<leftarrow> append_new (SwitchOp defBB []) [v] VoidTy '''' cur g;
          g \<leftarrow> fold_opt (add_const swinst defBB) (case_table (map fst cs) blocks) g;
          Some (Some epilogBB, g) }"
| "gen (TReturn t) cur g = do { (bb, g) \<leftarrow> gen t cur g; check (cur = bb); Some (None, g) }"
| "gen (TGoto l) cur g = genGoto l cur g"
| "gen (TLabel l) cur g = genLabel l cur g"
| "gens [] cur g = Some (cur, g)"
| "gens (t # ts) cur g = do { (cur, g) \<leftarrow> gen t cur g; gens ts cur g }"
| "gen_cases (p # cs) (b # bs) epi g =
     do { (r, g) \<leftarrow> gen (snd p) (Some b) g; g \<leftarrow> branch_unless_left epi (Some b) g; gen_cases cs bs epi g }"
| "gen_cases [] bs epi g = Some g"
| "gen_cases (p # cs) [] epi g = Some g"

section \<open>What generation leaves alone\<close>

definition static :: "genblocks \<Rightarrow> bbref list \<times> dihelper option \<times> bbref option \<times> bool \<times> nref option \<times>
    (nref \<rightharpoonup> bnode) \<times> (swref \<rightharpoonup> SwitchCaseDesc list) \<times> bfunction \<times> typemanager" where
  "static g = (gb_padBlockStack g, gb_dibuildhelper g, gb_finallyBlock g, gb_emitOrphanedCode g, gb_cachedReturn g,
     nd_heap (gb_s g), sw_heap (gb_s g), gb_function g, gb_tm g)"

named_theorems static_simps \<open>operations that keep the static part of the state\<close>

lemma static_set_ir [simp]: "static (set_ir m g) = static g"
  by (simp add: static_def set_ir_def)

lemma static_mkLLVMBlock [simp]: "static (snd (mkLLVMBlock nm v g)) = static g"
  by (simp add: mkLLVMBlock_def gb_namegen_def static_def case_prod_unfold Let_def)

lemma static_label [simp]: "static (snd (getBlockForLabel l g)) = static g"
  using static_mkLLVMBlock [of "''label''" l g]
  by (auto simp: getBlockForLabel_def case_prod_unfold Let_def static_def split: option.split simp del: static_mkLLVMBlock)

lemma static_push_back: "push_back b i g = Some g' \<Longrightarrow> static g' = static g"
  by (auto simp: push_back_def bind_Some_iff static_def)

lemma static_append_new: "append_new iop ops t nm cur g = Some (v, g') \<Longrightarrow> static g' = static g"
  by (auto simp: append_new_def bind_Some_iff Let_def case_prod_unfold dest!: static_push_back split: if_split_asm)

lemma static_CreateBr: "CreateBr d cur g = Some g' \<Longrightarrow> static g' = static g"
  by (auto simp: CreateBr_def bind_Some_iff dest: static_append_new)

lemma static_CreateCondBr: "CreateCondBr t f v cur g = Some g' \<Longrightarrow> static g' = static g"
  by (auto simp: CreateCondBr_def bind_Some_iff dest: static_append_new split: if_split_asm)

lemma static_branch: "branch_unless_left d cur g = Some g' \<Longrightarrow> static g' = static g"
  by (auto simp: branch_unless_left_def bind_Some_iff dest: static_CreateBr split: option.split_asm if_split_asm)

lemma static_place: "place is cur g = Some (r, g') \<Longrightarrow> static g' = static g"
  by (induction "is" cur g rule: place.induct) (force simp: bind_Some_iff dest: static_push_back)+

lemma static_case_blocks: "case_blocks cs d g = Some (bs, d', g') \<Longrightarrow> static g' = static g"
proof (induction cs arbitrary: d g bs d' g')
  case (Cons c cs)
  then show ?case by (fastforce simp: bind_Some_iff Let_def case_prod_unfold split: if_split_asm)
qed simp

lemma static_add_const: "add_const sw d p g = Some g' \<Longrightarrow> static g' = static g"
  by (auto simp: add_const_def bind_Some_iff case_prod_unfold)

lemma static_add_consts: "fold_opt (add_const sw d) ps g = Some g' \<Longrightarrow> static g' = static g"
  by (rule fold_opt_inv [of ps "\<lambda>h. static h = static g" "add_const sw d" g g']) (auto dest: static_add_const)

lemma static_goto: "genGoto l cur g = Some (r, g') \<Longrightarrow> \<not> gb_emitOrphanedCode g \<Longrightarrow> static g' = static g"
proof -
  assume a: "genGoto l cur g = Some (r, g')" "\<not> gb_emitOrphanedCode g"
  obtain lbb h where h: "getBlockForLabel l g = (lbb, h)" by (cases "getBlockForLabel l g")
  with static_label [of l g] have s: "static h = static g" by simp
  from a h obtain k where k: "branch_unless_left lbb cur h = Some k"
    "(if gb_emitOrphanedCode k then do { let (nm, g) = gb_namegen ''orphan'' ChooseVer k;
        let (orphan, c) = create_block nm (Some lbb) (gb_cfg g); Some (Some orphan, g\<lparr>gb_cfg := c\<rparr>) } else Some (None, k)) = Some (r, g')"
    by (auto simp: genGoto_def bind_Some_iff)
  from static_branch [OF k(1)] s have "static k = static g" by simp
  with k(2) a(2) show ?thesis by (auto simp: static_def)
qed

lemma static_genLabel: "genLabel l cur g = Some (r, g') \<Longrightarrow> static g' = static g"
  using static_label [of l g]
  by (auto simp: genLabel_def bind_Some_iff Let_def case_prod_unfold dest!: static_CreateBr split: if_split_asm)

lemma static_orphan: "static g' = static g \<Longrightarrow> gb_emitOrphanedCode g' = gb_emitOrphanedCode g"
  by (simp add: static_def)

section \<open>Taking a run of \<open>gen\<close> apart\<close>

text \<open>The labels a tree defines and its instructions; the recursion is the induction over trees.\<close>

fun labels :: "stm \<Rightarrow> LabelId list"
  and labels_list :: "stm list \<Rightarrow> LabelId list"
  and labels_cases :: "(vref list \<times> stm) list \<Rightarrow> LabelId list" where
  "labels (TExpr ks is) = labels_list ks"
| "labels (TBlock ts) = labels_list ts"
| "labels (TIf c v t f) = labels c @ labels t @ labels f"
| "labels (TSwitch c v cs) = labels c @ labels_cases cs"
| "labels (TReturn t) = labels t"
| "labels (TGoto l) = []"
| "labels (TLabel l) = [l]"
| "labels_list [] = []"
| "labels_list (t # ts) = labels t @ labels_list ts"
| "labels_cases [] = []"
| "labels_cases ((vs, t) # cs) = labels t @ labels_cases cs"

fun insts :: "stm \<Rightarrow> vref list"
  and insts_list :: "stm list \<Rightarrow> vref list"
  and insts_cases :: "(vref list \<times> stm) list \<Rightarrow> vref list" where
  "insts (TExpr ks is) = insts_list ks @ is"
| "insts (TBlock ts) = insts_list ts"
| "insts (TIf c v t f) = insts c @ insts t @ insts f"
| "insts (TSwitch c v cs) = insts c @ insts_cases cs"
| "insts (TReturn t) = insts t"
| "insts (TGoto l) = []"
| "insts (TLabel l) = []"
| "insts_list [] = []"
| "insts_list (t # ts) = insts t @ insts_list ts"
| "insts_cases [] = []"
| "insts_cases ((vs, t) # cs) = insts t @ insts_cases cs"

lemmas tree_induct = labels_labels_list_labels_cases.induct

lemma gen_ExprE:
  assumes "gen (TExpr ks xs) cur g = Some (r, g')"
  obtains c1 g1 where "gens ks cur g = Some (c1, g1)" "place xs c1 g1 = Some (r, g')"
  using assms by (auto simp: bind_Some_iff)

lemma gens_ConsE:
  assumes "gens (t # ts) cur g = Some (r, g')"
  obtains c1 g1 where "gen t cur g = Some (c1, g1)" "gens ts c1 g1 = Some (r, g')"
  using assms by (auto simp: bind_Some_iff)

lemma gen_ReturnE:
  assumes "gen (TReturn t) cur g = Some (r, g')"
  obtains "gen t cur g = Some (cur, g')" "r = None"
  using assms by (auto simp: bind_Some_iff split: if_split_asm)

lemma gen_IfE:
  assumes "gen (TIf c v t f) cur g = Some (r, g')"
  obtains c1 g1 tb g2 ft g3 fb g4 g5 r6 g6 g7 r8 g8 where "gen c cur g = Some (c1, g1)"
    "mkLLVMBlock ''then'' ChooseVer g1 = (tb, g2)" "mkLLVMBlock ''fallthrough'' ChooseVer g2 = (ft, g3)"
    "mkLLVMBlock ''else'' ChooseVer g3 = (fb, g4)" "CreateCondBr tb fb v c1 g4 = Some g5"
    "gen t (Some tb) g5 = Some (r6, g6)" "branch_unless_left ft r6 g6 = Some g7" "gen f (Some fb) g7 = Some (r8, g8)"
    "branch_unless_left ft r8 g8 = Some g'" "r = Some ft"
proof -
  from assms obtain c1 g1 where 1: "gen c cur g = Some (c1, g1)" by (auto simp: bind_Some_iff)
  obtain tb g2 where 2: "mkLLVMBlock ''then'' ChooseVer g1 = (tb, g2)" by (meson surj_pair)
  obtain ft g3 where 3: "mkLLVMBlock ''fallthrough'' ChooseVer g2 = (ft, g3)" by (meson surj_pair)
  obtain fb g4 where 4: "mkLLVMBlock ''else'' ChooseVer g3 = (fb, g4)" by (meson surj_pair)
  from assms 1 2 3 4 that show thesis by (auto simp: bind_Some_iff)
qed

lemma gen_SwitchE:
  assumes "gen (TSwitch c v cs) cur g = Some (r, g')"
  obtains c1 g1 bs d g2 ep g3 df g4 sw g5 where "gen c cur g = Some (c1, g1)"
    "case_blocks (map fst cs) None g1 = Some (bs, d, g2)" "mkLLVMBlock ''epilog'' ChooseVer g2 = (ep, g3)"
    "df = (case d of Some b \<Rightarrow> b | None \<Rightarrow> ep)" "gen_cases cs bs ep g3 = Some g4"
    "append_new (SwitchOp df []) [v] VoidTy '''' c1 g4 = Some (sw, g5)"
    "fold_opt (add_const sw df) (case_table (map fst cs) bs) g5 = Some g'" "r = Some ep"
proof -
  from assms obtain c1 g1 bs d g2 where 1: "gen c cur g = Some (c1, g1)" "case_blocks (map fst cs) None g1 = Some (bs, d, g2)"
    by (auto simp: bind_Some_iff)
  obtain ep g3 where 2: "mkLLVMBlock ''epilog'' ChooseVer g2 = (ep, g3)" by (meson surj_pair)
  from assms 1 2 that show thesis by (auto simp: bind_Some_iff Let_def)
qed

lemma gen_casesE:
  assumes "gen_cases ((vs, t) # cs) (b # bs) epi g = Some g'"
  obtains r g1 g2 where "gen t (Some b) g = Some (r, g1)" "branch_unless_left epi (Some b) g1 = Some g2"
    "gen_cases cs bs epi g2 = Some g'"
  using assms by (auto simp: bind_Some_iff)

lemma gen_static:
  "gen t cur g = Some (r, g') \<Longrightarrow> \<not> gb_emitOrphanedCode g \<Longrightarrow> static g' = static g"
  "gens ts cur g = Some (r, g') \<Longrightarrow> \<not> gb_emitOrphanedCode g \<Longrightarrow> static g' = static g"
  "gen_cases cs bs epi g = Some g' \<Longrightarrow> \<not> gb_emitOrphanedCode g \<Longrightarrow> static g' = static g"
proof (induction t and ts and cs arbitrary: cur g r g' and cur g r g' and bs epi g g' rule: tree_induct)
  case (1 ks xs)
  from "1.prems"(1) show ?case by (rule gen_ExprE) (use "1.IH" "1.prems"(2) in \<open>auto dest: static_place\<close>)
next
  case (3 c v t f)
  from "3.prems"(1) show ?case
  proof (rule gen_IfE)
    fix c1 g1 tb g2 ft g3 fb g4 g5 r6 g6 g7 r8 g8
    assume a: "gen c cur g = Some (c1, g1)"
      "mkLLVMBlock ''then'' ChooseVer g1 = (tb, g2)" "mkLLVMBlock ''fallthrough'' ChooseVer g2 = (ft, g3)"
      "mkLLVMBlock ''else'' ChooseVer g3 = (fb, g4)" "CreateCondBr tb fb v c1 g4 = Some g5"
      "gen t (Some tb) g5 = Some (r6, g6)" "branch_unless_left ft r6 g6 = Some g7" "gen f (Some fb) g7 = Some (r8, g8)"
      "branch_unless_left ft r8 g8 = Some g'"
    have "static g4 = static g"
      using static_mkLLVMBlock [of "''then''" ChooseVer g1] static_mkLLVMBlock [of "''fallthrough''" ChooseVer g2]
        static_mkLLVMBlock [of "''else''" ChooseVer g3] a(2-4) "3.IH"(1) [OF a(1) "3.prems"(2)] by simp
    with static_CreateCondBr [OF a(5)] have s5: "static g5 = static g" by simp
    with "3.IH"(2) [OF a(6)] static_branch [OF a(7)] static_orphan [OF s5] "3.prems"(2) have s7: "static g7 = static g" by simp
    with "3.IH"(3) [OF a(8)] static_branch [OF a(9)] static_orphan [OF s7] "3.prems"(2) show ?thesis by simp
  qed
next
  case (4 c v cs)
  from "4.prems"(1) show ?case
  proof (rule gen_SwitchE)
    fix c1 g1 bs d g2 ep g3 df g4 sw g5
    assume a: "gen c cur g = Some (c1, g1)" "case_blocks (map fst cs) None g1 = Some (bs, d, g2)"
      "mkLLVMBlock ''epilog'' ChooseVer g2 = (ep, g3)" "gen_cases cs bs ep g3 = Some g4"
      "append_new (SwitchOp df []) [v] VoidTy '''' c1 g4 = Some (sw, g5)"
      "fold_opt (add_const sw df) (case_table (map fst cs) bs) g5 = Some g'"
    have s3: "static g3 = static g"
      using static_case_blocks [OF a(2)] static_mkLLVMBlock [of "''epilog''" ChooseVer g2] a(3) "4.IH"(1) [OF a(1) "4.prems"(2)] by simp
    with "4.IH"(2) [OF a(4)] static_orphan [OF s3] "4.prems"(2) static_append_new [OF a(5)] static_add_consts [OF a(6)]
    show ?thesis by simp
  qed
next
  case (5 t)
  from "5.prems"(1) show ?case by (rule gen_ReturnE) (use "5.IH" "5.prems"(2) in simp)
next
  case (6 l)
  then show ?case by (auto dest: static_goto)
next
  case (7 l)
  then show ?case by (auto dest: static_genLabel)
next
  case (9 t ts)
  from "9.prems"(1) show ?case
  proof (rule gens_ConsE)
    fix c1 g1 assume a: "gen t cur g = Some (c1, g1)" "gens ts c1 g1 = Some (r, g')"
    have s: "static g1 = static g" by (rule "9.IH"(1) [OF a(1) "9.prems"(2)])
    from "9.IH"(2) [OF a(2)] static_orphan [OF s] "9.prems"(2) s show ?thesis by simp
  qed
next
  case (11 vs t cs)
  show ?case
  proof (cases bs)
    case (Cons b bs')
    from "11.prems"(1) [unfolded Cons] show ?thesis
    proof (rule gen_casesE)
      fix r g1 g2 assume a: "gen t (Some b) g = Some (r, g1)" "branch_unless_left epi (Some b) g1 = Some g2"
        "gen_cases cs bs' epi g2 = Some g'"
      have s: "static g2 = static g" using "11.IH"(1) [OF a(1) "11.prems"(2)] static_branch [OF a(2)] by simp
      from "11.IH"(2) [OF a(3)] static_orphan [OF s] "11.prems"(2) s show ?thesis by simp
    qed
  qed (use "11.prems" in simp)
qed auto

section \<open>The walk is generation over the tree\<close>

definition plain :: "genblocks \<Rightarrow> bool" where
  "plain g \<longleftrightarrow> gb_padBlockStack g = [] \<and> gb_dibuildhelper g = None \<and> gb_finallyBlock g = None \<and> \<not> gb_emitOrphanedCode g"

lemma plain_static: "static g' = static g \<Longrightarrow> plain g' = plain g"
  by (simp add: static_def plain_def)

lemma plain_orphan: "plain g \<Longrightarrow> \<not> gb_emitOrphanedCode g"
  by (simp add: plain_def)

lemma plain_place: "plain g \<Longrightarrow> place_insts E loc xs cur g = place xs cur g"
proof (induction xs cur g rule: place.induct)
  case (2 i xs g)
  then show ?case by (cases "delete_inst i (gb_ir g)") (auto simp: plain_static [OF static_set_ir])
next
  case (3 i xs b g)
  have "postProcessInst i b g = Some ((i, b), g)" "debug_inst E loc i g = Some g"
    using 3(2) by (simp_all add: postProcessInst_def debug_inst_def plain_def)
  with 3 show ?case by (cases "push_back b i g") (auto simp: plain_static [OF static_push_back])
qed simp

text \<open>The reading of a tree depends on the heaps only.\<close>

definition heaps :: "bstate \<Rightarrow> (nref \<rightharpoonup> bnode) \<times> (swref \<rightharpoonup> SwitchCaseDesc list)" where
  "heaps s = (nd_heap s, sw_heap s)"

lemma heaps_static: "static g' = static g \<Longrightarrow> heaps (gb_s g') = heaps (gb_s g)"
  by (simp add: static_def heaps_def)

lemma heaps_accessors:
  assumes "heaps s' = heaps s"
  shows "node x s' = node x s" "as_expr x s' = as_expr x s" "as_stmt x s' = as_stmt x s" "node_value x s' = node_value x s"
    "case_value x s' = case_value x s" "getSwitchCases x s' = getSwitchCases x s" "expr_of rd x s' = expr_of rd x s"
    "getChildStmts x s' = getChildStmts x s" "label_of x s' = label_of x s"
    "getNthChildAsExpr fl i x s' = getNthChildAsExpr fl i x s" "getNthChildAsStmt fl i x s' = getNthChildAsStmt fl i x s"
proof -
  have n: "node y s' = node y s" for y using assms by (simp add: heaps_def node_def)
  moreover have sw: "sw_heap s' = sw_heap s" using assms by (simp add: heaps_def)
  ultimately have e: "as_expr y s' = as_expr y s" "as_stmt y s' = as_stmt y s" for y
    by (simp_all add: as_expr_def as_stmt_def)
  then have v: "node_value y s' = node_value y s" for y by (simp add: node_value_def)
  from n e v sw show "node x s' = node x s" "as_expr x s' = as_expr x s" "as_stmt x s' = as_stmt x s" "node_value x s' = node_value x s"
    "case_value x s' = case_value x s" "getSwitchCases x s' = getSwitchCases x s" "expr_of rd x s' = expr_of rd x s"
    "getChildStmts x s' = getChildStmts x s" "label_of x s' = label_of x s"
    "getNthChildAsExpr fl i x s' = getNthChildAsExpr fl i x s" "getNthChildAsStmt fl i x s' = getNthChildAsStmt fl i x s"
    by (simp_all add: case_value_def getSwitchCases_def expr_of_def getChildStmts_def label_of_def getNthChildAsExpr_def
        getNthChildAsStmt_def cong: payload.case_cong)
qed

lemma heaps_getters:
  assumes "heaps s' = heaps s"
  shows "getIfStmtCondition x s' = getIfStmtCondition x s" "getIfStmtTrueBlock x s' = getIfStmtTrueBlock x s"
    "getIfStmtFalseBlock x s' = getIfStmtFalseBlock x s" "getSwitchStmtValue x s' = getSwitchStmtValue x s"
    "getReturnStmtExpr x s' = getReturnStmtExpr x s" "getExprStmtExpr x s' = getExprStmtExpr x s"
    "getSwitchStmtNumCases x s' = getSwitchStmtNumCases x s" "getSwitchStmtNthCase i x s' = getSwitchStmtNthCase i x s"
    "getSwitchStmtNthStmt i x s' = getSwitchStmtNthStmt i x s" "getGotoStmtTargetLabel x s' = getGotoStmtTargetLabel x s"
    "getLabelStmtDefinedLabel x s' = getLabelStmtDefinedLabel x s"
  by (simp_all add: heaps_accessors [OF assms] getIfStmtCondition_def getIfStmtTrueBlock_def getIfStmtFalseBlock_def
      getSwitchStmtValue_def getReturnStmtExpr_def getExprStmtExpr_def getSwitchStmtNumCases_def getSwitchStmtNthCase_def
      getSwitchStmtNthStmt_def getGotoStmtTargetLabel_def getLabelStmtDefinedLabel_def)

lemma heaps_rec:
  assumes "heaps s' = heaps s"
  shows "if_of rd x s' = if_of rd x s" "switch_of rd x s' = switch_of rd x s"
  by (simp_all add: heaps_accessors [OF assms] heaps_getters [OF assms] if_of_def switch_of_def)

lemma stm_of_heaps: "heaps s' = heaps s \<Longrightarrow> stm_of n s' x = stm_of n s x"
proof (induction n arbitrary: x)
  case (Suc n)
  then have "stm_of n s' = stm_of n s" by blast
  with heaps_accessors [OF Suc.prems] heaps_getters [OF Suc.prems] heaps_rec [OF Suc.prems] show ?case
    by (simp cong: NodeFlavor.case_cong option.case_cong)
qed simp

text \<open>A walker that is \<open>gen\<close> on the trees a reader reads, in states with the given heaps.\<close>

definition walks :: "walker \<Rightarrow> (nref \<Rightarrow> stm option) \<Rightarrow> (nref \<rightharpoonup> bnode) \<times> (swref \<rightharpoonup> SwitchCaseDesc list) \<Rightarrow> bool" where
  "walks rec rd h \<longleftrightarrow> (\<forall>x t cur g. rd x = Some t \<longrightarrow> heaps (gb_s g) = h \<longrightarrow> plain g \<longrightarrow> rec x cur g = gen t cur g)"

lemma gens_static_plain:
  "gens ts cur g = Some (r, g') \<Longrightarrow> plain g \<Longrightarrow> plain g' \<and> heaps (gb_s g') = heaps (gb_s g)"
  "gen t cur g = Some (r, g') \<Longrightarrow> plain g \<Longrightarrow> plain g' \<and> heaps (gb_s g') = heaps (gb_s g)"
  using gen_static(1,2) plain_orphan plain_static heaps_static by metis+

lemma walk_list_gens:
  "walks rec rd h \<Longrightarrow> map_opt rd xs = Some ts \<Longrightarrow> heaps (gb_s g) = h \<Longrightarrow> plain g \<Longrightarrow> walk_list rec xs cur g = gens ts cur g"
proof (induction xs arbitrary: ts cur g)
  case (Cons x xs)
  then obtain t us where t: "rd x = Some t" "map_opt rd xs = Some us" "ts = t # us" by (auto simp: bind_Some_iff)
  with Cons.prems have "rec x cur g = gen t cur g" by (simp add: walks_def)
  with t Cons show ?case by (auto intro!: Option.bind_cong dest: gens_static_plain(2))
qed simp

lemma walkExpr_gen:
  assumes "walks rec rd h" "expr_of rd x (gb_s g) = Some t" "heaps (gb_s g) = h" "plain g"
  shows "walkExpr E rec cur x g = gen t cur g"
proof -
  from assms(2) obtain b e ks where b: "as_expr x (gb_s g) = Some (b, e)" "map_opt rd (nd_kids b) = Some ks" "t = TExpr ks (e_insts e)"
    by (auto simp: expr_of_def bind_Some_iff)
  then show ?thesis using walk_list_gens [OF assms(1) b(2) assms(3,4)]
    by (auto simp: walkExpr_def intro!: Option.bind_cong plain_place dest: gens_static_plain(1) [OF _ assms(4)])
qed

lemma plain_next: "static g' = static g \<Longrightarrow> plain g \<and> heaps (gb_s g) = h \<Longrightarrow> plain g' \<and> heaps (gb_s g') = h"
  using plain_static heaps_static by metis

lemma walks_next: "walks rec rd h \<Longrightarrow> rd x = Some t \<Longrightarrow> plain g \<and> heaps (gb_s g) = h \<Longrightarrow> rec x cur g = gen t cur g"
  by (simp add: walks_def)

lemma branches_gen:
  assumes w: "walks rec rd h" and t: "rd tx = Some t" "rd fx = Some f" and p: "plain g \<and> heaps (gb_s g) = h"
  shows "(rec tx b g \<bind> (\<lambda>(r, g). branch_unless_left ft r g \<bind> (\<lambda>g. rec fx b' g \<bind> k))) =
    (gen t b g \<bind> (\<lambda>(r, g). branch_unless_left ft r g \<bind> (\<lambda>g. gen f b' g \<bind> k)))"
proof -
  have "rec fx b' g2 = gen f b' g2" if a: "gen t b g = Some (r, g1)" "branch_unless_left ft r g1 = Some g2" for r g1 g2
  proof -
    have "plain g1 \<and> heaps (gb_s g1) = h" using gens_static_plain(2) [OF a(1)] p by simp
    from walks_next [OF w t(2) plain_next [OF static_branch [OF a(2)] this]] show ?thesis .
  qed
  then show ?thesis unfolding walks_next [OF w t(1) p]
    by (intro Option.bind_cong [OF refl]) (auto intro!: Option.bind_cong)
qed

lemma genIf_gen:
  assumes w: "walks rec rd h" and "if_of rd x (gb_s g) = Some t" and p: "plain g \<and> heaps (gb_s g) = h"
  shows "genIf E rec x cur g = gen t cur g"
proof -
  from assms(2) obtain cnd tx fx c v tt ff where o: "getIfStmtCondition x (gb_s g) = Some cnd"
    "getIfStmtTrueBlock x (gb_s g) = Some tx" "getIfStmtFalseBlock x (gb_s g) = Some fx"
    "expr_of rd cnd (gb_s g) = Some c" "node_value cnd (gb_s g) = Some v" "rd tx = Some tt" "rd fx = Some ff" "t = TIf c v tt ff"
    by (auto simp: if_of_def bind_Some_iff)
  have c: "walkExpr E rec cur cnd g = gen c cur g" by (rule walkExpr_gen [OF w o(4)]) (use p in auto)
  show ?thesis
  proof (cases "gen c cur g")
    case None
    then show ?thesis by (simp add: genIf_def o c)
  next
    case (Some p1)
    then obtain c1 g1 where 1: "gen c cur g = Some (c1, g1)" by (cases p1) auto
    from gens_static_plain(2) [OF this] p have p1: "plain g1 \<and> heaps (gb_s g1) = h" by simp
    obtain tb g2 where 2: "mkLLVMBlock ''then'' ChooseVer g1 = (tb, g2)" by (meson surj_pair)
    obtain ft g3 where 3: "mkLLVMBlock ''fallthrough'' ChooseVer g2 = (ft, g3)" by (meson surj_pair)
    obtain fb g4 where 4: "mkLLVMBlock ''else'' ChooseVer g3 = (fb, g4)" by (meson surj_pair)
    have p4: "plain g4 \<and> heaps (gb_s g4) = h"
      using static_mkLLVMBlock [of "''then''" ChooseVer g1] static_mkLLVMBlock [of "''fallthrough''" ChooseVer g2]
        static_mkLLVMBlock [of "''else''" ChooseVer g3] 2 3 4 by (intro plain_next [OF _ p1]) simp
    then have v: "value_of cnd g4 = Some v"
      using heaps_accessors(4) [of "gb_s g4" "gb_s g" cnd] p o(5) by (simp add: value_of_def node_value_def)
    show ?thesis
    proof (cases "CreateCondBr tb fb v c1 g4")
      case None
      then show ?thesis by (simp add: genIf_def o c 1 2 3 4 v)
    next
      case (Some g5)
      note p5 = plain_next [OF static_CreateCondBr [OF Some] p4]
      show ?thesis by (simp add: genIf_def o c 1 2 3 4 v Some branches_gen [OF w o(6,7) p5])
    qed
  qed
qed

lemma walk_cases_gen:
  assumes w: "walks rec rd h"
  shows "map_opt rd sts = Some ts \<Longrightarrow> length bs = length ts \<Longrightarrow> length vss = length ts \<Longrightarrow> plain g \<and> heaps (gb_s g) = h \<Longrightarrow>
    fold_opt (walk_case rec epi) (zip sts bs) g = gen_cases (zip vss ts) bs epi g"
proof (induction sts arbitrary: ts bs vss g)
  case (Cons st sts)
  then obtain t us b bs' vs vss' where o: "rd st = Some t" "map_opt rd sts = Some us" "ts = t # us" "bs = b # bs'" "vss = vs # vss'"
    by (cases bs; cases vss) (auto simp: bind_Some_iff)
  have "rec st (Some b) g = gen t (Some b) g" by (rule walks_next [OF w o(1) Cons.prems(4)])
  moreover have "fold_opt (walk_case rec epi) (zip sts bs') g2 = gen_cases (zip vss' us) bs' epi g2"
    if a: "gen t (Some b) g = Some (r, g1)" "branch_unless_left epi (Some b) g1 = Some g2" for r g1 g2
  proof -
    have "plain g1 \<and> heaps (gb_s g1) = h" using gens_static_plain(2) [OF a(1)] Cons.prems(4) by simp
    from plain_next [OF static_branch [OF a(2)] this] Cons.prems(2,3) o show ?thesis by (intro Cons.IH) auto
  qed
  ultimately show ?case by (cases "gen t (Some b) g") (auto simp: o walk_case_def intro!: Option.bind_cong)
qed simp

lemma addCase_const:
  assumes "case_value e (gb_s g) = Some v"
  shows "addCase sw df (e, b) g = add_const sw df (v, b) g"
  using assms by (auto simp: addCase_def add_const_def case_value_def value_of_def node_value_def bind_Some_iff split: if_split_asm)

lemma addCases_const:
  assumes "heaps s = h"
  shows "map_opt (\<lambda>e. case_value e s) es = Some vs \<Longrightarrow> heaps (gb_s g) = h \<Longrightarrow>
    fold_opt (addCase sw df) (map (\<lambda>e. (e, b)) es @ rest) g = (fold_opt (add_const sw df) (map (\<lambda>v. (v, b)) vs) g \<bind> fold_opt (addCase sw df) rest)"
proof (induction es arbitrary: vs g)
  case (Cons e es)
  then obtain v ws where o: "case_value e s = Some v" "map_opt (\<lambda>e. case_value e s) es = Some ws" "vs = v # ws"
    by (auto simp: bind_Some_iff)
  have "case_value e (gb_s g) = Some v" using heaps_accessors(5) [of "gb_s g" s e] o(1) assms Cons.prems(2) by simp
  then have a: "addCase sw df (e, b) g = add_const sw df (v, b) g" by (rule addCase_const)
  show ?case
  proof (cases "add_const sw df (v, b) g")
    case (Some g1)
    have "heaps (gb_s g1) = h" using heaps_static [OF static_add_const [OF Some]] Cons.prems(2) by simp
    from Cons.IH [OF o(2) this] show ?thesis by (simp add: a o(3) Some)
  qed (simp add: a o(3))
qed simp

lemma add_table:
  assumes "heaps s = h"
  shows "map_opt (map_opt (\<lambda>e. case_value e s)) css = Some vss \<Longrightarrow> heaps (gb_s g) = h \<Longrightarrow>
    fold_opt (addCase sw df) (concat (map (\<lambda>(es, b). map (\<lambda>e. (e, b)) es) (zip css bs))) g =
    fold_opt (add_const sw df) (case_table vss bs) g"
proof (induction css arbitrary: vss bs g)
  case (Cons es css)
  then obtain vs wss where o: "map_opt (\<lambda>e. case_value e s) es = Some vs" "map_opt (map_opt (\<lambda>e. case_value e s)) css = Some wss"
    "vss = vs # wss" by (auto simp: bind_Some_iff)
  show ?case
  proof (cases bs)
    case (Cons b bs')
    have "fold_opt (addCase sw df) (concat (map (\<lambda>(es, b). map (\<lambda>e. (e, b)) es) (zip css bs'))) g1 =
        fold_opt (add_const sw df) (case_table wss bs') g1" if "fold_opt (add_const sw df) (map (\<lambda>v. (v, b)) vs) g = Some g1" for g1
      by (rule Cons.IH [OF o(2)]) (use heaps_static [OF static_add_consts [OF that]] Cons.prems(2) in simp)
    then show ?thesis using addCases_const [OF assms o(1) Cons.prems(2), of sw df b]
      by (simp add: Cons o(3) case_table_def fold_opt_append cong: Option.bind_cong)
  qed (simp add: case_table_def)
qed (simp add: case_table_def)

lemma case_blocks_length: "case_blocks cs d g = Some (bs, d', g') \<Longrightarrow> length bs = length cs"
  by (induction cs arbitrary: d g bs d' g') (fastforce simp: bind_Some_iff Let_def case_prod_unfold split: if_split_asm)+

lemma case_blocks_cong: "map (\<lambda>c. c = []) cs = map (\<lambda>c. c = []) ds \<Longrightarrow> case_blocks cs d g = case_blocks ds d g"
proof (induction cs arbitrary: ds d g)
  case (Cons c cs)
  then obtain e es where "ds = e # es" "(c = []) = (e = [])" "map (\<lambda>c. c = []) cs = map (\<lambda>c. c = []) es" by (cases ds) auto
  with Cons.IH [OF this(3)] show ?case by simp
qed simp

lemma map_opt_empty: "map_opt (map_opt f) css = Some vss \<Longrightarrow> map (\<lambda>c. c = []) css = map (\<lambda>c. c = []) vss"
proof (induction css arbitrary: vss)
  case (Cons c css)
  then obtain v us where o: "map_opt f c = Some v" "map_opt (map_opt f) css = Some us" "vss = v # us" by (auto simp: bind_Some_iff)
  from map_opt_length [OF o(1)] have "(c = []) = (v = [])" by auto
  with Cons.IH [OF o(2)] o(3) show ?case by simp
qed simp

lemma genSwitch_gen:
  assumes w: "walks rec rd h" and "switch_of rd x (gb_s g) = Some t" and p: "plain g \<and> heaps (gb_s g) = h"
  shows "genSwitch E rec x cur g = gen t cur g"
proof -
  from assms(2) obtain sv c v n css sts vss ts where o: "getSwitchStmtValue x (gb_s g) = Some sv"
    "expr_of rd sv (gb_s g) = Some c" "node_value sv (gb_s g) = Some v" "getSwitchStmtNumCases x (gb_s g) = Some n"
    "map_opt (\<lambda>i. getSwitchStmtNthCase i x (gb_s g)) [0..<n] = Some css"
    "map_opt (\<lambda>i. getSwitchStmtNthStmt i x (gb_s g)) [0..<n] = Some sts"
    "map_opt (map_opt (\<lambda>e. case_value e (gb_s g))) css = Some vss" "map_opt rd sts = Some ts" "t = TSwitch c v (zip vss ts)"
    by (auto simp: switch_of_def bind_Some_iff)
  have len: "length css = n" "length sts = n" "length vss = n" "length ts = n"
    using o(5-8) by (auto dest!: map_opt_length)
  have c: "walkExpr E rec cur sv g = gen c cur g" by (rule walkExpr_gen [OF w o(2)]) (use p in auto)
  from case_blocks_cong [OF map_opt_empty [OF o(7)]] have cb: "case_blocks css None k = case_blocks vss None k" for k .
  show ?thesis
  proof (cases "gen c cur g")
    case None
    then show ?thesis by (simp add: genSwitch_def o c)
  next
    case (Some p1)
    then obtain c1 g1 where 1: "gen c cur g = Some (c1, g1)" by (cases p1) auto
    from gens_static_plain(2) [OF this] p have p1: "plain g1 \<and> heaps (gb_s g1) = h" by simp
    have hg: "heaps (gb_s g1) = heaps (gb_s g)" using p p1 by simp
    have o1: "getSwitchStmtNumCases x (gb_s g1) = Some n"
      "map_opt (\<lambda>i. getSwitchStmtNthCase i x (gb_s g1)) [0..<n] = Some css"
      "map_opt (\<lambda>i. getSwitchStmtNthStmt i x (gb_s g1)) [0..<n] = Some sts"
      using o(4-6) heaps_getters [OF hg] by simp_all
    show ?thesis
    proof (cases "case_blocks vss None g1")
      case None
      then show ?thesis by (simp add: genSwitch_def o c 1 o1 cb len)
    next
      case (Some p2)
      then obtain bs d g2 where 2: "case_blocks vss None g1 = Some (bs, d, g2)" by (cases p2) auto
      obtain ep g3 where 3: "mkLLVMBlock ''epilog'' ChooseVer g2 = (ep, g3)" by (meson surj_pair)
      define df where "df = (case d of Some b \<Rightarrow> b | None \<Rightarrow> ep)"
      have p3: "plain g3 \<and> heaps (gb_s g3) = h"
        using static_case_blocks [OF 2] static_mkLLVMBlock [of "''epilog''" ChooseVer g2] 3 by (intro plain_next [OF _ p1]) simp
      have lb: "length bs = n" using case_blocks_length [OF 2] len by simp
      have wc: "fold_opt (walk_case rec ep) (zip sts bs) g3 = gen_cases (zip vss ts) bs ep g3"
        by (rule walk_cases_gen [OF w o(8) _ _ p3]) (use len lb in auto)
      show ?thesis
      proof (cases "gen_cases (zip vss ts) bs ep g3")
        case None
        then show ?thesis by (simp add: genSwitch_def o c 1 o1 cb 2 3 wc len)
      next
        case (Some g4)
        have p4: "plain g4 \<and> heaps (gb_s g4) = h"
          by (rule plain_next [OF gen_static(3) [OF Some] p3]) (use p3 plain_orphan in auto)
        have v: "value_of sv g4 = Some v"
          using heaps_accessors(4) [of "gb_s g4" "gb_s g" sv] p p4 o(3) by (simp add: value_of_def node_value_def)
        have "fold_opt (addCase sw df) (concat (map (\<lambda>(es, b). map (\<lambda>e. (e, b)) es) (zip css bs))) g5 =
            fold_opt (add_const sw df) (case_table vss bs) g5"
          if "append_new (SwitchOp df []) [v] VoidTy '''' c1 g4 = Some (sw, g5)" for sw g5
          using add_table [OF _ o(7)] plain_next [OF static_append_new [OF that] p4] p by blast
        then show ?thesis
          by (auto simp: genSwitch_def o c 1 o1 cb 2 3 wc len Some v df_def [symmetric] intro!: Option.bind_cong)
      qed
    qed
  qed
qed

lemma gwalk_gen: "stm_of n (gb_s g) x = Some t \<Longrightarrow> plain g \<Longrightarrow> gwalk n E x cur g = gen t cur g"
proof (induction n arbitrary: x t cur g)
  case (Suc n)
  define h where "h = heaps (gb_s g)"
  have w: "walks (gwalk n E) (stm_of n (gb_s g)) h"
    unfolding walks_def h_def using Suc.IH stm_of_heaps by metis
  have p: "plain g \<and> heaps (gb_s g) = h" using Suc.prems(2) by (simp add: h_def)
  from Suc.prems(1) obtain b e where b: "node x (gb_s g) = Some b" "castToBexpression b = Some e" by (auto simp: bind_Some_iff)
  show ?case
  proof (cases e)
    case (Some d)
    with Suc.prems(1) b have "expr_of (stm_of n (gb_s g)) x (gb_s g) = Some t" by simp
    from walkExpr_gen [OF w this] p b Some show ?thesis by simp
  next
    case None
    show ?thesis
    proof (cases "nd_flavor b")
      case N_ExprStmt
      with Suc.prems(1) b None obtain ex where ex: "getExprStmtExpr x (gb_s g) = Some ex"
        "expr_of (stm_of n (gb_s g)) ex (gb_s g) = Some t" by (auto simp: bind_Some_iff)
      from walkExpr_gen [OF w ex(2)] p b None N_ExprStmt ex(1) show ?thesis by simp
    next
      case N_BlockStmt
      with Suc.prems(1) b None obtain sts ts where o: "getChildStmts x (gb_s g) = Some sts"
        "map_opt (stm_of n (gb_s g)) sts = Some ts" "t = TBlock ts" by (auto simp: bind_Some_iff)
      have dbg: "debug_begin_block E x k = Some k" "debug_end_block E x k = Some k" if "plain k" for k
        using that by (simp_all add: debug_begin_block_def debug_end_block_def plain_def)
      have "genBlock E (gwalk n E) x cur g = gens ts cur g"
        using walk_list_gens [OF w o(2), of g cur] p
        by (cases "gens ts cur g") (auto simp: genBlock_def dbg o(1) dest: gens_static_plain(1))
      with b None N_BlockStmt o(3) show ?thesis by simp
    next
      case N_IfStmt
      with Suc.prems(1) b None have "if_of (stm_of n (gb_s g)) x (gb_s g) = Some t" by simp
      from genIf_gen [OF w this p] b None N_IfStmt show ?thesis by simp
    next
      case N_SwitchStmt
      with Suc.prems(1) b None have "switch_of (stm_of n (gb_s g)) x (gb_s g) = Some t" by simp
      from genSwitch_gen [OF w this p] b None N_SwitchStmt show ?thesis by simp
    next
      case N_ReturnStmt
      with Suc.prems(1) b None obtain re u where o: "getReturnStmtExpr x (gb_s g) = Some re"
        "expr_of (stm_of n (gb_s g)) re (gb_s g) = Some u" "t = TReturn u" by (auto simp: bind_Some_iff)
      from walkExpr_gen [OF w o(2)] p have "walkExpr E (gwalk n E) cur re g = gen u cur g" by simp
      moreover have "gb_finallyBlock g = None" using p by (simp add: plain_def)
      ultimately show ?thesis using b None N_ReturnStmt o by (simp add: genReturn_def)
    next
      case N_GotoStmt
      with Suc.prems(1) b None show ?thesis by (auto simp: bind_Some_iff)
    next
      case N_LabelStmt
      with Suc.prems(1) b None show ?thesis by (auto simp: bind_Some_iff)
    qed (use Suc.prems(1) b None in simp_all)
  qed
qed simp

end
