(* ===== verification/GenFrames.thy ===== *)
theory GenFrames
  imports GenTrees
begin

text \<open>
  What generation may touch. Blocks only grow at their end; besides the block it starts from and the
  blocks of the labels it defines, generation over a tree leaves every existing block as it is, and a label
  that is still to be defined has an empty block (\<open>gen_frame\<close>).
\<close>

section \<open>Growth of the function body\<close>

definition old :: "irmem \<Rightarrow> vref \<Rightarrow> bool" where
  "old m v \<longleftrightarrow> (\<forall>k. v = InstV k \<or> v = ConstantV k \<longrightarrow> k < ir_next m)"

definition jump :: "iop \<Rightarrow> bool" where
  "jump p = (case p of BrOp b \<Rightarrow> True | CondBrOp b c \<Rightarrow> True | SwitchOp d cs \<Rightarrow> True | InvokeOp b c \<Rightarrow> True | _ \<Rightarrow> False)"

definition code :: "genblocks \<Rightarrow> bbref \<Rightarrow> vref list" where
  "code g b = (case cf_insts (gb_cfg g) b of None \<Rightarrow> [] | Some is \<Rightarrow> is)"

definition nblocks :: "genblocks \<Rightarrow> nat" where
  "nblocks g = cf_next (gb_cfg g)"

definition blocks_ok :: "genblocks \<Rightarrow> bool" where
  "blocks_ok g \<longleftrightarrow> (\<forall>b. cf_insts (gb_cfg g) b \<noteq> None \<longleftrightarrow> b < nblocks g) \<and>
     (\<forall>l b. gb_labelmap g l = Some b \<longrightarrow> b < nblocks g) \<and>
     (\<forall>l l' b. gb_labelmap g l = Some b \<longrightarrow> gb_labelmap g l' = Some b \<longrightarrow> l = l') \<and>
     (\<forall>b i. i \<in> set (code g b) \<longrightarrow> old (gb_ir g) i)"

definition ir_keeps :: "irmem \<Rightarrow> irmem \<Rightarrow> bool" where
  "ir_keeps m m' \<longleftrightarrow> ir_next m \<le> ir_next m' \<and>
     (\<forall>v. old m v \<longrightarrow> ir_op m' v = ir_op m v \<and> (jump (ir_op m v) \<longrightarrow> ir_operands m' v = ir_operands m v))"

definition prolongs :: "genblocks \<Rightarrow> genblocks \<Rightarrow> bool" where
  "prolongs g g' \<longleftrightarrow> nblocks g \<le> nblocks g' \<and> (\<forall>b < nblocks g. \<exists>is. code g' b = code g b @ is) \<and>
     gb_labelmap g \<subseteq>\<^sub>m gb_labelmap g' \<and> ir_keeps (gb_ir g) (gb_ir g')"

definition widens :: "bbref set \<Rightarrow> genblocks \<Rightarrow> genblocks \<Rightarrow> bool" where
  "widens B g g' \<longleftrightarrow> prolongs g g' \<and> (\<forall>b < nblocks g. b \<notin> B \<longrightarrow> code g' b = code g b) \<and>
     (\<forall>l b. gb_labelmap g' l = Some b \<longrightarrow> gb_labelmap g l = Some b \<or> nblocks g \<le> b)"

lemma old_mono: "ir_next m \<le> ir_next m' \<Longrightarrow> old m v \<Longrightarrow> old m' v"
  by (auto simp: old_def)

lemma ir_keeps_refl [simp]: "ir_keeps m m"
  by (simp add: ir_keeps_def)

lemma ir_keeps_trans: "ir_keeps m m1 \<Longrightarrow> ir_keeps m1 m2 \<Longrightarrow> ir_keeps m m2"
  by (auto simp: ir_keeps_def dest: old_mono)

lemma prolongs_refl [simp]: "prolongs g g"
  by (simp add: prolongs_def)

lemma prolongs_trans:
  assumes "prolongs g g1" "prolongs g1 g2"
  shows "prolongs g g2"
proof -
  have "\<exists>is. code g2 b = code g b @ is" if b: "b < nblocks g" for b
  proof -
    have "b < nblocks g1" using b assms(1) by (simp add: prolongs_def)
    with b assms obtain xs ys where "code g1 b = code g b @ xs" "code g2 b = code g1 b @ ys" unfolding prolongs_def by blast
    then show ?thesis by simp
  qed
  moreover have "nblocks g \<le> nblocks g2" using assms by (simp add: prolongs_def)
  moreover have "gb_labelmap g \<subseteq>\<^sub>m gb_labelmap g2" by (rule map_le_trans [of _ "gb_labelmap g1"]) (use assms in \<open>simp_all add: prolongs_def\<close>)
  moreover have "ir_keeps (gb_ir g) (gb_ir g2)" by (rule ir_keeps_trans [of _ "gb_ir g1"]) (use assms in \<open>simp_all add: prolongs_def\<close>)
  ultimately show ?thesis by (simp add: prolongs_def)
qed

lemma widens_refl [simp]: "widens B g g"
  by (simp add: widens_def)

lemma widens_prolongs: "widens B g g' \<Longrightarrow> prolongs g g'"
  by (simp add: widens_def)

lemma widensI:
  assumes "prolongs g g'" "\<And>b. b < nblocks g \<Longrightarrow> b \<notin> B \<Longrightarrow> code g' b = code g b"
    "\<And>l b. gb_labelmap g' l = Some b \<Longrightarrow> gb_labelmap g l = Some b \<or> nblocks g \<le> b"
  shows "widens B g g'"
  using assms by (simp add: widens_def)

lemma widensD:
  assumes "widens B g g'"
  shows "prolongs g g'" "b < nblocks g \<Longrightarrow> b \<notin> B \<Longrightarrow> code g' b = code g b" "nblocks g \<le> nblocks g'"
    "gb_labelmap g' l = Some b \<Longrightarrow> gb_labelmap g l = Some b \<or> nblocks g \<le> b"
  using assms by (simp_all add: widens_def prolongs_def)

lemma widens_trans:
  assumes "widens B g g1" "widens C g1 g2" "\<And>b. b \<in> C \<Longrightarrow> b < nblocks g \<Longrightarrow> b \<in> B"
  shows "widens B g g2"
proof (rule widensI)
  note n = widensD(3) [OF assms(1)]
  show "prolongs g g2" by (rule prolongs_trans [OF widensD(1) [OF assms(1)] widensD(1) [OF assms(2)]])
  show "code g2 b = code g b" if b: "b < nblocks g" "b \<notin> B" for b
  proof -
    have "b < nblocks g1" "b \<notin> C" using b n assms(3) by auto
    from widensD(2) [OF assms(2) this] widensD(2) [OF assms(1) b] show ?thesis by simp
  qed
  show "gb_labelmap g l = Some b \<or> nblocks g \<le> b" if "gb_labelmap g2 l = Some b" for l b
    using widensD(4) [OF assms(2) that] widensD(4) [OF assms(1), of l b] n by auto
qed

lemma widens_mono: "widens B g g' \<Longrightarrow> B \<subseteq> C \<Longrightarrow> widens C g g'"
  by (auto simp: widens_def)

lemma widens_nblocks: "widens B g g' \<Longrightarrow> nblocks g \<le> nblocks g'"
  by (simp add: widens_def prolongs_def)

lemma widens_label: "widens B g g' \<Longrightarrow> gb_labelmap g l = Some b \<Longrightarrow> gb_labelmap g' l = Some b"
  by (auto simp: widens_def prolongs_def map_le_def dom_def)

lemma widens_label_back: "widens B g g' \<Longrightarrow> gb_labelmap g' l = Some b \<Longrightarrow> b < nblocks g \<Longrightarrow> gb_labelmap g l = Some b"
  by (fastforce simp: widens_def)

lemma widens_code: "widens B g g' \<Longrightarrow> b < nblocks g \<Longrightarrow> b \<notin> B \<Longrightarrow> code g' b = code g b"
  by (simp add: widens_def)

section \<open>The primitives\<close>

lemma gb_ir_simps [simp]:
  "gb_ir (set_ir m g) = m" "gb_ir (g\<lparr>gb_cfg := c\<rparr>) = gb_ir g" "gb_ir (g\<lparr>gb_labelmap := lm\<rparr>) = gb_ir g"
  "gb_ir (g\<lparr>gb_names := nt\<rparr>) = gb_ir g"
  by (simp_all add: gb_ir_def set_ir_def)

lemma blocks_ok_label: "blocks_ok g \<Longrightarrow> gb_labelmap g l = Some b \<Longrightarrow> b < nblocks g"
  by (simp add: blocks_ok_def)

lemma mkLLVMBlock_grows:
  assumes "mkLLVMBlock nm v g = (b, g')" "blocks_ok g"
  shows "blocks_ok g'" "widens {} g g'" "b = nblocks g" "nblocks g' = Suc (nblocks g)" "code g' b = []"
    "gb_labelmap g' = gb_labelmap g" "gb_ir g' = gb_ir g"
proof -
  from assms(1) obtain nt where g': "b = nblocks g"
    "g' = g\<lparr>gb_names := nt, gb_cfg := snd (create_block (fst (namegen nm v (gb_names g))) None (gb_cfg g))\<rparr>"
    by (auto simp: mkLLVMBlock_def gb_namegen_def create_block_def nblocks_def Let_def case_prod_unfold)
  then have c: "code g' x = (if x = b then [] else code g x)" for x
    by (simp add: code_def create_block_def Let_def nblocks_def)
  show n: "nblocks g' = Suc (nblocks g)" and "b = nblocks g" and lm: "gb_labelmap g' = gb_labelmap g" and ir: "gb_ir g' = gb_ir g"
    using g' by (simp_all add: nblocks_def create_block_def Let_def gb_ir_def)
  show "code g' b = []" using c by simp
  show "widens {} g g'" using c g'(1) n lm ir by (auto simp: widens_def prolongs_def)
  have "cf_insts (gb_cfg g') x \<noteq> None \<longleftrightarrow> x < nblocks g'" for x
    using g' n assms(2) by (auto simp: blocks_ok_def nblocks_def create_block_def Let_def less_Suc_eq)
  moreover have "b < nblocks g'" if "gb_labelmap g' l = Some b" for l b
    using that assms(2) n lm by (fastforce simp: blocks_ok_def less_Suc_eq)
  ultimately show "blocks_ok g'" using assms(2) c ir lm unfolding blocks_ok_def by auto
qed

lemma push_back_grows:
  assumes "push_back b i g = Some g'" "blocks_ok g" "old (gb_ir g) i"
  shows "blocks_ok g'" "widens {b} g g'" "code g' b = code g b @ [i]" "b < nblocks g" "nblocks g' = nblocks g"
    "gb_labelmap g' = gb_labelmap g" "gb_ir g' = gb_ir g"
proof -
  from assms(1) obtain xs where xs: "cf_insts (gb_cfg g) b = Some xs"
    "g' = g\<lparr>gb_cfg := (gb_cfg g)\<lparr>cf_insts := (cf_insts (gb_cfg g))(b \<mapsto> xs @ [i])\<rparr>\<rparr>"
    by (auto simp: push_back_def push_inst_def bind_Some_iff)
  then have c: "code g' x = (if x = b then code g b @ [i] else code g x)" for x by (simp add: code_def)
  show n: "nblocks g' = nblocks g" and lm: "gb_labelmap g' = gb_labelmap g" and ir: "gb_ir g' = gb_ir g"
    using xs by (simp_all add: nblocks_def)
  show b: "b < nblocks g" using xs(1) assms(2) by (auto simp: blocks_ok_def)
  show "code g' b = code g b @ [i]" using c by simp
  show "widens {b} g g'" using c n lm ir by (auto simp: widens_def prolongs_def)
  have "cf_insts (gb_cfg g') x \<noteq> None \<longleftrightarrow> x < nblocks g'" for x
    using xs n b assms(2) by (auto simp: blocks_ok_def)
  then show "blocks_ok g'" using assms(2,3) c ir lm n unfolding blocks_ok_def by (auto split: if_split_asm)
qed

lemma set_ir_grows:
  assumes "ir_keeps (gb_ir g) m" "blocks_ok g"
  shows "blocks_ok (set_ir m g)" "widens {} g (set_ir m g)" "code (set_ir m g) b = code g b" "nblocks (set_ir m g) = nblocks g"
    "gb_labelmap (set_ir m g) = gb_labelmap g"
proof -
  show c: "code (set_ir m g) b = code g b" and n: "nblocks (set_ir m g) = nblocks g"
    and lm: "gb_labelmap (set_ir m g) = gb_labelmap g" for b by (simp_all add: set_ir_def code_def nblocks_def)
  have cf: "gb_cfg (set_ir m g) = gb_cfg g" by (simp add: set_ir_def)
  show "widens {} g (set_ir m g)" using c n lm assms(1) by (auto simp: widens_def prolongs_def)
  have "ir_next (gb_ir g) \<le> ir_next m" using assms(1) by (simp add: ir_keeps_def)
  from old_mono [OF this] show "blocks_ok (set_ir m g)" using assms(2) c n lm cf unfolding blocks_ok_def gb_ir_simps
    by simp
qed

lemma delete_keeps:
  assumes "delete_inst i m = Some m'" "\<not> jump (ir_op m i)"
  shows "ir_keeps m m'" "ir_next m' = ir_next m" "ir_op m' = ir_op m"
  using assms by (auto simp: delete_inst_def bind_Some_iff ir_keeps_def)

lemma new_inst_keeps:
  assumes "new_inst iop ops t nm m = (v, m')" "\<And>u. iop \<noteq> AllocaOp u"
  shows "ir_keeps m m'" "\<not> old m v" "old m' v" "ir_op m' v = iop" "ir_operands m' v = Some ops"
proof -
  have *: "(case iop of AllocaOp u \<Rightarrow> AllocaV (ir_next m) | _ \<Rightarrow> InstV (ir_next m)) = InstV (ir_next m)"
    using assms(2) by (cases iop) auto
  have "v = InstV (ir_next m)" "m' = m\<lparr>ir_next := Suc (ir_next m), ir_operands := (ir_operands m)(v \<mapsto> ops),
      ir_name := (ir_name m)(v := nm), ir_op := (ir_op m)(v := iop), ir_type := (ir_type m)(v := t)\<rparr>"
    using assms(1) unfolding new_inst_def * by (auto simp: Let_def)
  then show "ir_keeps m m'" "\<not> old m v" "old m' v" "ir_op m' v = iop" "ir_operands m' v = Some ops"
    by (auto simp: ir_keeps_def old_def)
qed

lemma append_new_grows:
  assumes "append_new iop ops t nm cur g = Some (v, g')" "\<And>u. iop \<noteq> AllocaOp u" "blocks_ok g"
  obtains b where "cur = Some b" "blocks_ok g'" "widens {b} g g'" "code g' b = code g b @ [v]" "b < nblocks g"
    "nblocks g' = nblocks g" "gb_labelmap g' = gb_labelmap g" "ir_op (gb_ir g') v = iop"
    "ir_operands (gb_ir g') v = Some ops" "\<not> old (gb_ir g) v" "old (gb_ir g') v"
proof -
  from assms(1) obtain b m where b: "cur = Some b" "new_inst iop ops t nm (gb_ir g) = (v, m)" "push_back b v (set_ir m g) = Some g'"
    by (auto simp: append_new_def bind_Some_iff Let_def case_prod_unfold prod_eq_iff split: if_split_asm)
  note k = new_inst_keeps [OF b(2) assms(2)] note s = set_ir_grows [OF k(1) assms(3)]
  have o: "old (gb_ir (set_ir m g)) v" using k(3) by simp
  note p = push_back_grows [OF b(3) s(1) o]
  have "widens {b} g g'" by (rule widens_trans [OF widens_mono [OF s(2)] p(2)]) auto
  with that b(1) p k s show thesis by simp
qed

lemma getBlockForLabel_grows:
  assumes "getBlockForLabel l g = (b, g')" "blocks_ok g"
  shows "blocks_ok g'" "widens {} g g'" "gb_labelmap g' = (gb_labelmap g)(l \<mapsto> b)" "gb_ir g' = gb_ir g"
    "gb_labelmap g l = Some b \<and> g' = g \<or> gb_labelmap g l = None \<and> b = nblocks g \<and> code g' b = []"
proof -
  have *: "blocks_ok g' \<and> widens {} g g' \<and> gb_labelmap g' = (gb_labelmap g)(l \<mapsto> b) \<and> gb_ir g' = gb_ir g \<and>
    (gb_labelmap g l = Some b \<and> g' = g \<or> gb_labelmap g l = None \<and> b = nblocks g \<and> code g' b = [])"
  proof (cases "gb_labelmap g l")
    case (Some c)
    with assms show ?thesis by (auto simp: getBlockForLabel_def)
  next
    case None
    obtain h where h: "mkLLVMBlock ''label'' l g = (b, h)" "g' = h\<lparr>gb_labelmap := (gb_labelmap h)(l \<mapsto> b)\<rparr>"
      using assms(1) None by (cases "mkLLVMBlock ''label'' l g") (auto simp: getBlockForLabel_def)
    note m = mkLLVMBlock_grows [OF h(1) assms(2)]
    have c: "code g' x = code h x" and n: "nblocks g' = nblocks h" and cf: "gb_cfg g' = gb_cfg h" for x
      using h(2) by (simp_all add: code_def nblocks_def)
    have lm: "gb_labelmap g' = (gb_labelmap g)(l \<mapsto> b)" and ir: "gb_ir g' = gb_ir g" using h(2) m(6,7) by simp_all
    have "widens {} g g'" using m(2-4) c n lm ir None unfolding widens_def prolongs_def
      by (auto simp: map_le_def dom_def)
    moreover have "blocks_ok g'"
      using m(1,3,4) c n cf ir lm m(6,7) assms(2) unfolding blocks_ok_def by (auto split: if_split_asm)
    ultimately show ?thesis using m(3,5) c lm ir None by simp
  qed
  then show "blocks_ok g'" "widens {} g g'" "gb_labelmap g' = (gb_labelmap g)(l \<mapsto> b)" "gb_ir g' = gb_ir g"
    "gb_labelmap g l = Some b \<and> g' = g \<or> gb_labelmap g l = None \<and> b = nblocks g \<and> code g' b = []" by blast+
qed

section \<open>Blocks that are not left yet\<close>

definition unleft :: "genblocks \<Rightarrow> bbref \<Rightarrow> bool" where
  "unleft g b \<longleftrightarrow> code g b = [] \<or> \<not> isTerminator (last (code g b)) (gb_ir g)"

lemma getTerminator_unleft: "getTerminator (gb_ir g) (gb_cfg g) b = Some t \<Longrightarrow> t = None \<longleftrightarrow> unleft g b"
  by (auto simp: getTerminator_def unleft_def code_def bind_Some_iff)

lemma CreateBr_grows:
  assumes "CreateBr d cur g = Some g'" "blocks_ok g"
  obtains b v where "cur = Some b" "blocks_ok g'" "widens {b} g g'" "code g' b = code g b @ [v]" "b < nblocks g"
    "nblocks g' = nblocks g" "gb_labelmap g' = gb_labelmap g" "ir_op (gb_ir g') v = BrOp d" "old (gb_ir g') v"
proof -
  from assms(1) obtain v where "append_new (BrOp d) [] VoidTy '''' cur g = Some (v, g')" by (auto simp: CreateBr_def bind_Some_iff)
  from append_new_grows [OF this _ assms(2)] that show thesis by auto
qed

lemma branch_grows:
  assumes "branch_unless_left d cur g = Some g'" "blocks_ok g"
  shows "blocks_ok g'" "nblocks g' = nblocks g" "gb_labelmap g' = gb_labelmap g" "widens (set_option cur) g g'"
    "cur = Some b \<Longrightarrow> unleft g b \<Longrightarrow> \<exists>v. code g' b = code g b @ [v] \<and> ir_op (gb_ir g') v = BrOp d \<and> old (gb_ir g') v"
proof -
  have *: "blocks_ok g' \<and> nblocks g' = nblocks g \<and> gb_labelmap g' = gb_labelmap g \<and> widens (set_option cur) g g' \<and>
    (\<forall>b. cur = Some b \<longrightarrow> unleft g b \<longrightarrow> (\<exists>v. code g' b = code g b @ [v] \<and> ir_op (gb_ir g') v = BrOp d \<and> old (gb_ir g') v))"
  proof (cases cur)
    case None
    with assms show ?thesis by (simp add: branch_unless_left_def)
  next
    case (Some b)
    with assms(1) obtain t where t: "getTerminator (gb_ir g) (gb_cfg g) b = Some t"
      "(if t = None then CreateBr d cur g else Some g) = Some g'"
      by (auto simp: branch_unless_left_def bind_Some_iff)
    show ?thesis
    proof (cases "unleft g b")
      case True
      then have "CreateBr d cur g = Some g'" using t(2) getTerminator_unleft [OF t(1)] by simp
      from CreateBr_grows [OF this assms(2)] Some show ?thesis by fastforce
    qed (use t getTerminator_unleft [OF t(1)] Some assms(2) in auto)
  qed
  then show "blocks_ok g'" "nblocks g' = nblocks g" "gb_labelmap g' = gb_labelmap g" "widens (set_option cur) g g'"
    "cur = Some b \<Longrightarrow> unleft g b \<Longrightarrow> \<exists>v. code g' b = code g b @ [v] \<and> ir_op (gb_ir g') v = BrOp d \<and> old (gb_ir g') v" by blast+
qed

lemma unleft_empty: "code g b = [] \<Longrightarrow> unleft g b"
  by (simp add: unleft_def)

text \<open>Placing the instructions of an expression.\<close>

lemma place_grows:
  "place xs cur g = Some (r, g') \<Longrightarrow> blocks_ok g \<Longrightarrow> \<forall>i \<in> set xs. old (gb_ir g) i \<and> \<not> jump (ir_op (gb_ir g) i) \<Longrightarrow>
   r = cur \<and> blocks_ok g' \<and> widens (set_option cur) g g' \<and> nblocks g' = nblocks g \<and> gb_labelmap g' = gb_labelmap g \<and>
   (\<forall>b. cur = Some b \<longrightarrow> code g' b = code g b @ xs) \<and> ir_op (gb_ir g') = ir_op (gb_ir g) \<and> ir_next (gb_ir g') = ir_next (gb_ir g)"
proof (induction xs cur g arbitrary: r g' rule: place.induct)
  case (1 cur g)
  then show ?case by simp
next
  case (2 i xs g)
  then obtain m where m: "delete_inst i (gb_ir g) = Some m" "place xs None (set_ir m g) = Some (r, g')"
    by (auto simp: bind_Some_iff)
  note k = delete_keeps [OF m(1)] note s = set_ir_grows [OF k(1) "2.prems"(2)]
  have "\<forall>j \<in> set xs. old (gb_ir (set_ir m g)) j \<and> \<not> jump (ir_op (gb_ir (set_ir m g)) j)"
    using "2.prems"(3) k by (simp add: old_def)
  with "2.IH" [OF m] s "2.prems"(3) k(2,3) show ?case by (auto intro: widens_trans)
next
  case (3 i xs b g)
  then obtain g1 where g1: "push_back b i g = Some g1" "place xs (Some b) g1 = Some (r, g')"
    by (auto simp: bind_Some_iff)
  have oi: "old (gb_ir g) i" using "3.prems"(3) by simp
  note p = push_back_grows [OF g1(1) "3.prems"(2) oi]
  have "\<forall>j \<in> set xs. old (gb_ir g1) j \<and> \<not> jump (ir_op (gb_ir g1) j)" using "3.prems"(3) p(7) by simp
  from "3.IH" [OF g1 p(1) this] p show ?case by (auto intro: widens_trans [OF p(2)])
qed

lemma add_consts:
  "ir_op (gb_ir g) sw = SwitchOp df cs \<Longrightarrow> fold_opt (add_const sw df) ps g = Some g' \<Longrightarrow>
   g' = set_ir ((gb_ir g)\<lparr>ir_op := (ir_op (gb_ir g))(sw := SwitchOp df (cs @ ps))\<rparr>) g"
proof (induction ps arbitrary: g cs)
  case Nil
  then have "(ir_op (gb_ir g))(sw := SwitchOp df cs) = ir_op (gb_ir g)" by auto
  with Nil show ?case by (simp add: set_ir_def gb_ir_def)
next
  case (Cons p ps)
  obtain ci b where p: "p = (ci, b)" by (cases p)
  define g1 where "g1 = set_ir ((gb_ir g)\<lparr>ir_op := (ir_op (gb_ir g))(sw := SwitchOp df (cs @ [p]))\<rparr>) g"
  have "add_const sw df p g = Some g1" using Cons.prems(1) by (simp add: add_const_def p g1_def)
  with Cons.prems(2) have "fold_opt (add_const sw df) ps g1 = Some g'" by simp
  from Cons.IH [OF _ this, of "cs @ [p]"] show ?case by (simp add: g1_def set_ir_def gb_ir_def cong: if_cong)
qed

lemma switch_grows:
  assumes "append_new (SwitchOp df []) [v] VoidTy '''' cur g = Some (sw, g1)" "fold_opt (add_const sw df) ps g1 = Some g'" "blocks_ok g"
  obtains b where "cur = Some b" "blocks_ok g'" "widens {b} g g'" "code g' b = code g b @ [sw]" "b < nblocks g"
    "nblocks g' = nblocks g" "gb_labelmap g' = gb_labelmap g" "ir_op (gb_ir g') sw = SwitchOp df ps"
    "ir_operands (gb_ir g') sw = Some [v]" "old (gb_ir g') sw"
proof -
  from append_new_grows [OF assms(1) _ assms(3)] obtain b where b: "cur = Some b" "blocks_ok g1" "widens {b} g g1"
    "code g1 b = code g b @ [sw]" "b < nblocks g" "nblocks g1 = nblocks g" "gb_labelmap g1 = gb_labelmap g"
    "ir_op (gb_ir g1) sw = SwitchOp df []" "ir_operands (gb_ir g1) sw = Some [v]" "\<not> old (gb_ir g) sw" "old (gb_ir g1) sw"
    by auto
  define m where "m = (gb_ir g1)\<lparr>ir_op := (ir_op (gb_ir g1))(sw := SwitchOp df ps)\<rparr>"
  have g': "g' = set_ir m g1" using add_consts [OF b(8) assms(2)] by (simp add: m_def)
  have ke: "ir_keeps (gb_ir g) (gb_ir g1)" using b(3) by (simp add: widens_def prolongs_def)
  have k: "ir_keeps (gb_ir g) m" using ke b(10) unfolding ir_keeps_def m_def by (auto simp: old_def)
  have o: "old m w = old (gb_ir g1) w" for w by (simp add: m_def old_def)
  have c: "code g' x = code g1 x" "nblocks g' = nblocks g1" "gb_labelmap g' = gb_labelmap g1" "gb_ir g' = m"
    "gb_cfg g' = gb_cfg g1" for x by (simp_all add: g' code_def nblocks_def set_ir_def gb_ir_def)
  have "blocks_ok g'" using b(2) c o unfolding blocks_ok_def by simp
  moreover have "widens {b} g g'" using b(3) k c unfolding widens_def prolongs_def by simp
  ultimately show thesis using that b c o by (simp add: m_def)
qed

lemma case_blocks_grows:
  "case_blocks cs d g = Some (bs, d', g') \<Longrightarrow> blocks_ok g \<Longrightarrow>
   blocks_ok g' \<and> widens {} g g' \<and> bs = [nblocks g..<nblocks g + length cs] \<and> nblocks g' = nblocks g + length cs \<and>
   (\<forall>b \<in> set bs. code g' b = []) \<and> gb_labelmap g' = gb_labelmap g \<and> gb_ir g' = gb_ir g"
proof (induction cs arbitrary: d g bs d' g')
  case (Cons c cs)
  obtain b g1 where b: "mkLLVMBlock (if c = [] then ''default'' else ''case'') ChooseVer g = (b, g1)" by (meson surj_pair)
  with Cons.prems(1) obtain bs' where bs': "case_blocks cs (if c = [] then Some b else d) g1 = Some (bs', d', g')" "bs = b # bs'"
    by (auto simp: bind_Some_iff Let_def case_prod_unfold split: if_split_asm)
  note m = mkLLVMBlock_grows [OF b Cons.prems(2)]
  from Cons.IH [OF bs'(1) m(1)] have IH: "blocks_ok g'" "widens {} g1 g'" "bs' = [nblocks g1..<nblocks g1 + length cs]"
    "nblocks g' = nblocks g1 + length cs" "\<forall>b \<in> set bs'. code g' b = []" "gb_labelmap g' = gb_labelmap g1" "gb_ir g' = gb_ir g1" by auto
  have "code g' b = []" using widensD(2) [OF IH(2), of b] m(3-5) by simp
  moreover have "[nblocks g..<nblocks g + length (c # cs)] = nblocks g # [Suc (nblocks g)..<Suc (nblocks g) + length cs]"
    by (subst upt_conv_Cons) simp_all
  moreover have "widens {} g g'" by (rule widens_trans [OF m(2) IH(2)]) simp
  ultimately show ?case using IH m bs'(2) by simp
qed simp

section \<open>The frame of generation\<close>

text \<open>Labels outside \<open>D\<close> that have a block already have an empty one, and the walk is not at it.\<close>

definition pending :: "LabelId set \<Rightarrow> bbref option \<Rightarrow> genblocks \<Rightarrow> bool" where
  "pending D cur g \<longleftrightarrow> (\<forall>l b. l \<notin> D \<longrightarrow> gb_labelmap g l = Some b \<longrightarrow> code g b = [] \<and> cur \<noteq> Some b)"

definition cur_ok :: "bbref option \<Rightarrow> genblocks \<Rightarrow> bool" where
  "cur_ok cur g \<longleftrightarrow> (\<forall>b. cur = Some b \<longrightarrow> b < nblocks g)"

definition label_blocks :: "LabelId list \<Rightarrow> genblocks \<Rightarrow> bbref set" where
  "label_blocks ls g = {b. \<exists>l \<in> set ls. gb_labelmap g l = Some b}"

definition ready :: "LabelId set \<Rightarrow> LabelId list \<Rightarrow> vref list \<Rightarrow> bbref option \<Rightarrow> genblocks \<Rightarrow> bool" where
  "ready D ls xs cur g \<longleftrightarrow> blocks_ok g \<and> \<not> gb_emitOrphanedCode g \<and> pending D cur g \<and> cur_ok cur g \<and> D \<inter> set ls = {} \<and>
     distinct ls \<and> (\<forall>i \<in> set xs. old (gb_ir g) i \<and> \<not> jump (ir_op (gb_ir g) i))"

definition framed :: "LabelId set \<Rightarrow> LabelId list \<Rightarrow> bbref option \<Rightarrow> genblocks \<Rightarrow> bbref option \<Rightarrow> genblocks \<Rightarrow> bool" where
  "framed D ls cur g r g' \<longleftrightarrow> blocks_ok g' \<and> \<not> gb_emitOrphanedCode g' \<and> widens (set_option cur \<union> label_blocks ls g) g g' \<and>
     pending (D \<union> set ls) r g' \<and> cur_ok r g' \<and> (\<forall>l \<in> set ls. gb_labelmap g' l \<noteq> None) \<and>
     (\<forall>b. r = Some b \<longrightarrow> b < nblocks g \<longrightarrow> b \<in> set_option cur \<union> label_blocks ls g)"

lemma insts_mono:
  assumes "prolongs g g'" "\<forall>i \<in> set xs. old (gb_ir g) i \<and> \<not> jump (ir_op (gb_ir g) i)"
  shows "\<forall>i \<in> set xs. old (gb_ir g') i \<and> \<not> jump (ir_op (gb_ir g') i)"
  using assms unfolding prolongs_def ir_keeps_def by (auto dest: old_mono)

lemma label_blocks_back: "widens B g g1 \<Longrightarrow> b \<in> label_blocks ls g1 \<Longrightarrow> b < nblocks g \<Longrightarrow> b \<in> label_blocks ls g"
  by (auto simp: label_blocks_def dest: widens_label_back)

lemma ready_part: "ready D (ls @ ls') (xs @ ys) cur g \<Longrightarrow> ready D ls xs cur g"
  by (auto simp: ready_def)

lemma ready_next:
  assumes "ready D (ls @ ls') (xs @ ys) cur g" "framed D ls cur g r g1"
  shows "ready (D \<union> set ls) ls' ys r g1"
proof -
  have "prolongs g g1" using assms(2) by (simp add: framed_def widens_def)
  moreover have "\<forall>i \<in> set ys. old (gb_ir g) i \<and> \<not> jump (ir_op (gb_ir g) i)" using assms(1) by (simp add: ready_def)
  ultimately have "\<forall>i \<in> set ys. old (gb_ir g1) i \<and> \<not> jump (ir_op (gb_ir g1) i)" by (rule insts_mono)
  then show ?thesis using assms unfolding ready_def framed_def by auto
qed

lemma framed_seq:
  assumes "framed D ls cur g r1 g1" "framed (D \<union> set ls) ls' r1 g1 r g2"
  shows "framed D (ls @ ls') cur g r g2"
proof -
  have G: "widens (set_option cur \<union> label_blocks ls g) g g1" "widens (set_option r1 \<union> label_blocks ls' g1) g1 g2"
    using assms by (simp_all add: framed_def)
  have sub: "b \<in> set_option cur \<union> label_blocks (ls @ ls') g"
    if "b \<in> set_option r1 \<union> label_blocks ls' g1" "b < nblocks g" for b
    using that assms(1) label_blocks_back [OF G(1), of b ls'] by (auto simp: framed_def label_blocks_def)
  have "widens (set_option cur \<union> label_blocks (ls @ ls') g) g g2"
    by (rule widens_trans [OF widens_mono [OF G(1)] G(2) sub]) (auto simp: label_blocks_def)
  moreover have "gb_labelmap g2 l \<noteq> None" if "l \<in> set ls" for l
    using that assms(1) widens_label [OF G(2)] by (fastforce simp: framed_def)
  moreover have "b \<in> set_option cur \<union> label_blocks (ls @ ls') g" if "r = Some b" "b < nblocks g" for b
    using that assms(2) sub widensD(3) [OF G(1)] by (auto simp: framed_def)
  ultimately show ?thesis using assms by (auto simp: framed_def Un_assoc)
qed

definition no_label :: "bbref \<Rightarrow> genblocks \<Rightarrow> bool" where
  "no_label x g \<longleftrightarrow> (\<forall>l. gb_labelmap g l \<noteq> Some x)"

lemma no_label_grows: "widens B g g' \<Longrightarrow> x < nblocks g \<Longrightarrow> no_label x g \<Longrightarrow> no_label x g'"
  by (auto simp: no_label_def dest: widens_label_back)

lemma no_label_new: "blocks_ok g \<Longrightarrow> nblocks g \<le> x \<Longrightarrow> no_label x g"
  by (fastforce simp: no_label_def blocks_ok_def)

lemma no_label_touched: "no_label x g \<Longrightarrow> x \<notin> label_blocks ls g"
  by (auto simp: no_label_def label_blocks_def)

lemma pending_at: "pending D None g \<Longrightarrow> no_label b g \<Longrightarrow> pending D (Some b) g"
  by (auto simp: pending_def no_label_def)

lemma pending_none: "pending D cur g \<Longrightarrow> pending D None g"
  by (auto simp: pending_def)

text \<open>Growth at the current block keeps the pending blocks.\<close>

lemma pending_grows:
  assumes "pending D cur g" "widens (set_option cur) g g'" "gb_labelmap g' = gb_labelmap g" "blocks_ok g"
  shows "pending D None g'"
proof -
  have "code g' b = []" if "l \<notin> D" "gb_labelmap g l = Some b" for l b
  proof -
    have "b < nblocks g" using that(2) assms(4) by (simp add: blocks_ok_def)
    moreover have "b \<notin> set_option cur" "code g b = []" using that assms(1) by (auto simp: pending_def)
    ultimately show ?thesis using widensD(2) [OF assms(2)] by simp
  qed
  then show ?thesis using assms(3) by (auto simp: pending_def)
qed

lemma framed_one:
  assumes "widens (set_option cur) g g'" "gb_labelmap g' = gb_labelmap g" "blocks_ok g'" "\<not> gb_emitOrphanedCode g'"
    "pending D cur g" "blocks_ok g" "r = None \<or> (\<exists>b. r = Some b \<and> nblocks g \<le> b \<and> b < nblocks g')"
  shows "framed D [] cur g r g'"
proof -
  have "pending D None g'" by (rule pending_grows [OF assms(5,1,2,6)])
  moreover have "pending D r g'" if "r = Some b" "nblocks g \<le> b" for b
    using pending_at [OF \<open>pending D None g'\<close>] no_label_new [OF assms(6) that(2)] assms(2) that(1) by (simp add: no_label_def)
  ultimately show ?thesis using assms by (auto simp: framed_def label_blocks_def cur_ok_def)
qed

lemma CreateCondBr_grows:
  assumes "CreateCondBr t f v cur g = Some g'" "blocks_ok g"
  obtains b w where "cur = Some b" "blocks_ok g'" "widens {b} g g'" "code g' b = code g b @ [w]" "b < nblocks g"
    "nblocks g' = nblocks g" "gb_labelmap g' = gb_labelmap g" "ir_op (gb_ir g') w = CondBrOp t f"
    "ir_operands (gb_ir g') w = Some [v]" "old (gb_ir g') w"
proof -
  from assms(1) obtain w where "append_new (CondBrOp t f) [v] VoidTy '''' cur g = Some (w, g')"
    by (auto simp: CreateCondBr_def bind_Some_iff split: if_split_asm)
  from append_new_grows [OF this _ assms(2)] that show thesis by auto
qed

lemma mkLLVMBlock_static: "mkLLVMBlock nm v g = (b, g') \<Longrightarrow> static g' = static g"
  using static_mkLLVMBlock [of nm v g] by simp

lemma getBlockForLabel_static: "getBlockForLabel l g = (b, g') \<Longrightarrow> static g' = static g"
  using static_label [of l g] by simp

lemma if_frame:
  assumes m: "mkLLVMBlock ''then'' ChooseVer g1 = (tb, g2)" "mkLLVMBlock ''fallthrough'' ChooseVer g2 = (ft, g3)"
      "mkLLVMBlock ''else'' ChooseVer g3 = (fb, g4)"
    and br: "CreateCondBr tb fb v c1 g4 = Some g5" "branch_unless_left ft r6 g6 = Some g7" "branch_unless_left ft r8 g8 = Some g'"
    and re: "ready D (ls @ ls') (xs @ ys) c1 g1"
    and ts: "ready D ls xs (Some tb) g5 \<Longrightarrow> framed D ls (Some tb) g5 r6 g6"
    and fs: "ready (D \<union> set ls) ls' ys (Some fb) g7 \<Longrightarrow> framed (D \<union> set ls) ls' (Some fb) g7 r8 g8"
  shows "framed D (ls @ ls') c1 g1 (Some ft) g'" "ready D ls xs (Some tb) g5" "ready (D \<union> set ls) ls' ys (Some fb) g7"
    "framed D ls (Some tb) g5 r6 g6" "framed (D \<union> set ls) ls' (Some fb) g7 r8 g8"
    "code g' ft = []" "code g5 tb = []" "code g7 fb = []" "widens (set_option c1) g1 g5"
proof -
  have ok: "blocks_ok g1" and orph: "\<not> gb_emitOrphanedCode g1" using re by (simp_all add: ready_def)
  note m2 = mkLLVMBlock_grows [OF m(1) ok] note m3 = mkLLVMBlock_grows [OF m(2) m2(1)] note m4 = mkLLVMBlock_grows [OF m(3) m3(1)]
  from CreateCondBr_grows [OF br(1) m4(1)] obtain b w where cb: "c1 = Some b" "blocks_ok g5" "widens {b} g4 g5"
    "b < nblocks g4" "nblocks g5 = nblocks g4" "gb_labelmap g5 = gb_labelmap g4" by metis
  have o5: "\<not> gb_emitOrphanedCode g5"
    using mkLLVMBlock_static [OF m(1)] mkLLVMBlock_static [OF m(2)] mkLLVMBlock_static [OF m(3)] static_CreateCondBr [OF br(1)] orph
    by (simp add: static_def)
  have b: "b < nblocks g1" using re cb(1) by (simp add: ready_def cur_ok_def)
  have g14: "widens {} g1 g4" by (rule widens_trans [OF widens_trans [OF m2(2) m3(2)] m4(2)]) auto
  show g15: "widens (set_option c1) g1 g5" by (rule widens_trans [OF widens_mono [OF g14] cb(3)]) (use cb(1) in auto)
  have lm5: "gb_labelmap g5 = gb_labelmap g1" using cb(6) m2(6) m3(6) m4(6) by simp
  have num: "tb = nblocks g1" "ft = Suc tb" "fb = Suc ft" "nblocks g5 = Suc fb" using m2(3,4) m3(3,4) m4(3,4) cb(5) by auto
  have "framed D [] c1 g1 (Some tb) g5"
    by (rule framed_one [OF g15 lm5 cb(2) o5]) (use re num in \<open>auto simp: ready_def\<close>)
  from ready_next [of D "[]" "ls @ ls'" "[]" "xs @ ys" c1 g1 "Some tb" g5, simplified, OF re this]
  have r5: "ready D (ls @ ls') (xs @ ys) (Some tb) g5" .
  show R5: "ready D ls xs (Some tb) g5" by (rule ready_part [OF r5])
  from ts [OF this] show F6: "framed D ls (Some tb) g5 r6 g6" .
  then have ok6: "blocks_ok g6" and g56: "widens (set_option (Some tb) \<union> label_blocks ls g5) g5 g6" by (simp_all add: framed_def)
  note b7 = branch_grows [OF br(2) ok6]
  have nl: "no_label ft g5" "no_label fb g5" "no_label ft g6" "no_label fb g6" "no_label fb g7" "no_label ft g7"
    using no_label_new [OF ok] num lm5 no_label_grows [OF g56] b7(3) by (auto simp: no_label_def)
  have r6: "r6 \<noteq> Some ft" "r6 \<noteq> Some fb" using F6 nl(1,2) num by (auto simp: framed_def no_label_def label_blocks_def)
  have p7: "pending (D \<union> set ls) None g7"
    by (rule pending_grows [OF _ b7(4,3) ok6]) (use F6 in \<open>simp add: framed_def\<close>)
  have o7: "\<not> gb_emitOrphanedCode g7" using static_branch [OF br(2)] F6 by (simp add: framed_def static_def)
  have n67: "nblocks g5 \<le> nblocks g7" using widensD(3) [OF g56] b7(2) by simp
  have "\<forall>i \<in> set ys. old (gb_ir g7) i \<and> \<not> jump (ir_op (gb_ir g7) i)"
    by (rule insts_mono [OF prolongs_trans [OF widensD(1) [OF g56] widensD(1) [OF b7(4)]]]) (use r5 in \<open>auto simp: ready_def\<close>)
  then show R7: "ready (D \<union> set ls) ls' ys (Some fb) g7"
    using r5 b7(1) o7 pending_at [OF p7 nl(5)] num n67 by (auto simp: ready_def cur_ok_def)
  from fs [OF this] show F8: "framed (D \<union> set ls) ls' (Some fb) g7 r8 g8" .
  then have ok8: "blocks_ok g8" and g78: "widens (set_option (Some fb) \<union> label_blocks ls' g7) g7 g8" by (simp_all add: framed_def)
  note b9 = branch_grows [OF br(3) ok8]
  have nl8: "no_label ft g8" "no_label ft g'" using no_label_grows [OF g78, of ft] nl(6) num n67 b9(3) by (auto simp: no_label_def)
  have r8: "r8 \<noteq> Some ft" using F8 nl(6) num n67 by (auto simp: framed_def no_label_def label_blocks_def)
  have n8: "nblocks g7 \<le> nblocks g8" "nblocks g' = nblocks g8" using widensD(3) [OF g78] b9(2) by simp_all
  have c4: "code g4 tb = []" "code g4 ft = []" "code g4 fb = []"
    using m2(5) m3(5) m4(5) widensD(2) [OF m3(2), of tb] widensD(2) [OF m4(2), of tb] widensD(2) [OF m4(2), of ft] m2(3,4) m3(3,4) m4(3,4) by simp_all
  show c5: "code g5 tb = []" using c4 widensD(2) [OF cb(3), of tb] b num cb(5) by simp
  have "code g5 ft = []" "code g5 fb = []" using c4 widensD(2) [OF cb(3), of ft] widensD(2) [OF cb(3), of fb] b num cb(5) by simp_all
  then have "code g6 ft = []" "code g6 fb = []"
    using widensD(2) [OF g56, of ft] widensD(2) [OF g56, of fb] num no_label_touched [OF nl(1)] no_label_touched [OF nl(2)] by simp_all
  then have c7: "code g7 ft = []" "code g7 fb = []"
    using widensD(2) [OF b7(4), of ft] widensD(2) [OF b7(4), of fb] r6 num widensD(3) [OF g56] by (auto simp: elem_set)
  then show "code g7 fb = []" by simp
  have "code g8 ft = []" using c7(1) widensD(2) [OF g78, of ft] num n67 no_label_touched [OF nl(6)] by simp
  then show "code g' ft = []" using widensD(2) [OF b9(4), of ft] r8 num n67 n8 by (auto simp: elem_set)
  have B1: "widens (set_option c1 \<union> label_blocks (ls @ ls') g1) g1 g6"
    by (rule widens_trans [OF widens_mono [OF g15] g56])
      (use num lm5 in \<open>auto simp: label_blocks_def\<close>)
  have B2: "widens (set_option c1 \<union> label_blocks (ls @ ls') g1) g1 g7"
  proof (rule widens_trans [OF B1 b7(4)])
    fix x assume x: "x \<in> set_option r6" "x < nblocks g1"
    then have "x \<in> set_option (Some tb) \<union> label_blocks ls g5" using F6 num by (auto simp: framed_def)
    then show "x \<in> set_option c1 \<union> label_blocks (ls @ ls') g1" using x num lm5 by (auto simp: label_blocks_def)
  qed
  have lb7: "x \<in> label_blocks (ls @ ls') g1" if "x \<in> label_blocks ls' g7" "x < nblocks g1" for x
    using label_blocks_back [OF B2 that] by (auto simp: label_blocks_def)
  have B3: "widens (set_option c1 \<union> label_blocks (ls @ ls') g1) g1 g8"
    by (rule widens_trans [OF B2 g78]) (use num lb7 in auto)
  have B4: "widens (set_option c1 \<union> label_blocks (ls @ ls') g1) g1 g'"
  proof (rule widens_trans [OF B3 b9(4)])
    fix x assume x: "x \<in> set_option r8" "x < nblocks g1"
    have "x < nblocks g7" using x(2) widensD(3) [OF B2] by simp
    with x F8 have "x \<in> set_option (Some fb) \<union> label_blocks ls' g7" by (auto simp: framed_def)
    then show "x \<in> set_option c1 \<union> label_blocks (ls @ ls') g1" using x num lb7 by auto
  qed
  have "pending (D \<union> set (ls @ ls')) None g'"
    by (rule pending_grows [OF _ b9(4,3) ok8]) (use F8 in \<open>simp add: framed_def Un_assoc\<close>)
  from pending_at [OF this nl8(2)] have "pending (D \<union> set (ls @ ls')) (Some ft) g'" .
  moreover have "gb_labelmap g' l \<noteq> None" if "l \<in> set (ls @ ls')" for l
    using that F6 F8 b7(3) b9(3) widens_label [OF g78] by (fastforce simp: framed_def)
  moreover have "\<not> gb_emitOrphanedCode g'" using static_branch [OF br(3)] F8 by (simp add: framed_def static_def)
  ultimately show "framed D (ls @ ls') c1 g1 (Some ft) g'"
    using b9(1) B4 num n67 n8 by (auto simp: framed_def cur_ok_def)
qed

definition case_targets_ok :: "bbref list \<Rightarrow> genblocks \<Rightarrow> bool" where
  "case_targets_ok bs g \<longleftrightarrow> (\<forall>b \<in> set bs. b < nblocks g \<and> no_label b g)"

definition cases_framed :: "LabelId set \<Rightarrow> LabelId list \<Rightarrow> bbref list \<Rightarrow> genblocks \<Rightarrow> genblocks \<Rightarrow> bool" where
  "cases_framed D ls bs g g' \<longleftrightarrow> blocks_ok g' \<and> \<not> gb_emitOrphanedCode g' \<and> widens (set bs \<union> label_blocks ls g) g g' \<and>
     pending (D \<union> set ls) None g' \<and> (\<forall>l \<in> set ls. gb_labelmap g' l \<noteq> None)"

lemma case_targets_grows: "case_targets_ok bs g \<Longrightarrow> widens B g g' \<Longrightarrow> case_targets_ok bs g'"
  unfolding case_targets_ok_def by (meson widens_nblocks less_le_trans no_label_grows)

lemma case_frame:
  assumes re: "ready D (ls @ ls') (xs @ ys) None g" and bs: "case_targets_ok (b # bs) g"
    and F: "ready D ls xs (Some b) g \<Longrightarrow> framed D ls (Some b) g r g1"
    and br: "branch_unless_left epi (Some b) g1 = Some g2"
    and C: "ready (D \<union> set ls) ls' ys None g2 \<Longrightarrow> case_targets_ok bs g2 \<Longrightarrow> cases_framed (D \<union> set ls) ls' bs g2 g'"
  shows "cases_framed D (ls @ ls') (b # bs) g g'" "ready D ls xs (Some b) g" "framed D ls (Some b) g r g1"
    "ready (D \<union> set ls) ls' ys None g2" "case_targets_ok bs g2" "widens (set (b # bs) \<union> label_blocks (ls @ ls') g) g g2"
proof -
  have b: "b < nblocks g" "no_label b g" using bs by (simp_all add: case_targets_ok_def)
  have "ready D (ls @ ls') (xs @ ys) (Some b) g" using re b pending_at [OF _ b(2)] by (simp add: ready_def cur_ok_def)
  then show R: "ready D ls xs (Some b) g" by (rule ready_part)
  from F [OF this] show F1: "framed D ls (Some b) g r g1" .
  then have g1: "blocks_ok g1" "widens (set_option (Some b) \<union> label_blocks ls g) g g1" by (simp_all add: framed_def)
  note b2 = branch_grows [OF br g1(1)]
  have nl: "no_label b g1" by (rule no_label_grows [OF g1(2) b])
  have "pending (D \<union> set ls) (Some b) g1"
    by (rule pending_at [OF pending_none [of _ r] nl]) (use F1 in \<open>simp add: framed_def\<close>)
  from pending_grows [OF this b2(4,3) g1(1)] have p2: "pending (D \<union> set ls) None g2" .
  have o2: "\<not> gb_emitOrphanedCode g2" using static_branch [OF br] F1 by (simp add: framed_def static_def)
  have B1: "widens (set (b # bs) \<union> label_blocks (ls @ ls') g) g g1" by (rule widens_mono [OF g1(2)]) (auto simp: label_blocks_def)
  show B2: "widens (set (b # bs) \<union> label_blocks (ls @ ls') g) g g2" by (rule widens_trans [OF B1 b2(4)]) auto
  have "\<forall>i \<in> set ys. old (gb_ir g2) i \<and> \<not> jump (ir_op (gb_ir g2) i)"
    by (rule insts_mono [OF widensD(1) [OF B2]]) (use re in \<open>auto simp: ready_def\<close>)
  then show R2: "ready (D \<union> set ls) ls' ys None g2"
    using re b2(1) o2 p2 by (auto simp: ready_def cur_ok_def)
  show T2: "case_targets_ok bs g2" using case_targets_grows [OF _ B2, of bs] bs by (simp add: case_targets_ok_def)
  from C [OF R2 T2] have C2: "cases_framed (D \<union> set ls) ls' bs g2 g'" .
  then have g2: "widens (set bs \<union> label_blocks ls' g2) g2 g'" by (simp add: cases_framed_def)
  have "widens (set (b # bs) \<union> label_blocks (ls @ ls') g) g g'"
  proof (rule widens_trans [OF B2 g2])
    fix x assume x: "x \<in> set bs \<union> label_blocks ls' g2" "x < nblocks g"
    then show "x \<in> set (b # bs) \<union> label_blocks (ls @ ls') g" using label_blocks_back [OF B2, of x ls'] by (auto simp: label_blocks_def)
  qed
  moreover have "gb_labelmap g' l \<noteq> None" if "l \<in> set (ls @ ls')" for l
    using that F1 C2 b2(3) widens_label [OF g2] by (fastforce simp: framed_def cases_framed_def)
  ultimately show "cases_framed D (ls @ ls') (b # bs) g g'" using C2 by (auto simp: cases_framed_def Un_assoc)
qed

lemma switch_frame:
  assumes m: "case_blocks (map fst cs) None g1 = Some (bs, d, g2)" "mkLLVMBlock ''epilog'' ChooseVer g2 = (ep, g3)"
    and sw: "append_new (SwitchOp df []) [v] VoidTy '''' c1 g4 = Some (sw, g5)" "fold_opt (add_const sw df) ps g5 = Some g'"
    and re: "ready D ls xs c1 g1"
    and C: "ready D ls xs None g3 \<Longrightarrow> case_targets_ok bs g3 \<Longrightarrow> cases_framed D ls bs g3 g4"
  shows "framed D ls c1 g1 (Some ep) g'" "ready D ls xs None g3" "case_targets_ok bs g3" "cases_framed D ls bs g3 g4"
    "code g' ep = []" "bs = [nblocks g1..<nblocks g1 + length cs]" "\<forall>b \<in> set bs. code g3 b = []"
    "widens {} g1 g3" "code g4 ep = []" "ep = nblocks g1 + length cs" "gb_labelmap g3 = gb_labelmap g1" "nblocks g3 = Suc ep"
proof -
  have ok: "blocks_ok g1" and orph: "\<not> gb_emitOrphanedCode g1" using re by (simp_all add: ready_def)
  from case_blocks_grows [OF m(1) ok] have m2: "blocks_ok g2" "widens {} g1 g2" "bs = [nblocks g1..<nblocks g1 + length cs]"
    "nblocks g2 = nblocks g1 + length cs" "\<forall>b \<in> set bs. code g2 b = []" "gb_labelmap g2 = gb_labelmap g1" by auto
  note m3 = mkLLVMBlock_grows [OF m(2) m2(1)]
  show bs: "bs = [nblocks g1..<nblocks g1 + length cs]" by (rule m2(3))
  show ep: "ep = nblocks g1 + length cs" and lm3: "gb_labelmap g3 = gb_labelmap g1" and n3: "nblocks g3 = Suc ep"
    using m3(3,4,6) m2(4,6) by simp_all
  show "\<forall>b \<in> set bs. code g3 b = []" using m2(4,5) widensD(2) [OF m3(2)] bs by auto
  show g13: "widens {} g1 g3" by (rule widens_trans [OF m2(2) m3(2)]) simp
  have o3: "\<not> gb_emitOrphanedCode g3"
    using static_case_blocks [OF m(1)] mkLLVMBlock_static [OF m(2)] orph by (simp add: static_def)
  have "framed D [] c1 g1 None g3"
    by (rule framed_one [OF widens_mono [OF g13] lm3 m3(1) o3 _ ok]) (use re in \<open>auto simp: ready_def\<close>)
  from ready_next [of D "[]" ls "[]" xs c1 g1 None g3, simplified, OF re this] show R3: "ready D ls xs None g3" .
  show T3: "case_targets_ok bs g3"
    using bs ep n3 lm3 no_label_new [OF ok] by (auto simp: case_targets_ok_def no_label_def)
  from C [OF R3 T3] show C4: "cases_framed D ls bs g3 g4" .
  then have ok4: "blocks_ok g4" and g34: "widens (set bs \<union> label_blocks ls g3) g3 g4" by (simp_all add: cases_framed_def)
  from switch_grows [OF sw ok4] obtain b where b: "c1 = Some b" "blocks_ok g'" "widens {b} g4 g'" "nblocks g' = nblocks g4"
    "gb_labelmap g' = gb_labelmap g4" by metis
  have b1: "b < nblocks g1" using re b(1) by (simp add: ready_def cur_ok_def)
  have nlep: "no_label ep g3" using no_label_new [OF ok, of ep] ep lm3 by (simp add: no_label_def)
  have c3: "code g3 ep = []" by (rule m3(5))
  then show c4: "code g4 ep = []" using widensD(2) [OF g34, of ep] bs ep n3 no_label_touched [OF nlep] by simp
  show "code g' ep = []" using c4 widensD(2) [OF b(3), of ep] b1 ep n3 widensD(3) [OF g34] by simp
  have B1: "widens (set_option c1 \<union> label_blocks ls g1) g1 g4"
  proof (rule widens_trans [OF widens_mono [OF g13] g34])
    fix x assume "x \<in> set bs \<union> label_blocks ls g3" "x < nblocks g1"
    then show "x \<in> set_option c1 \<union> label_blocks ls g1" using bs lm3 by (auto simp: label_blocks_def)
  qed simp
  have B2: "widens (set_option c1 \<union> label_blocks ls g1) g1 g'" by (rule widens_trans [OF B1 b(3)]) (use b(1) in auto)
  have nb: "b \<notin> set bs" using bs b1 by auto
  have "code g4 x = []" "x \<noteq> b" if "l \<notin> D \<union> set ls" "gb_labelmap g4 l = Some x" for l x
  proof -
    show "code g4 x = []" using C4 that by (auto simp: cases_framed_def pending_def)
    show "x \<noteq> b"
    proof
      assume "x = b"
      then have "gb_labelmap g1 l = Some b" using widens_label_back [OF B1] that(2) b1 by simp
      with that(1) re b(1) show False by (auto simp: ready_def pending_def)
    qed
  qed
  then have "pending (D \<union> set ls) c1 g4" using b(1) by (auto simp: pending_def)
  from pending_grows [OF this _ b(5) ok4] b(1,3) have "pending (D \<union> set ls) None g'" by simp
  moreover have "no_label ep g'" using no_label_grows [OF g34 _ nlep] n3 b(5) by (simp add: no_label_def)
  ultimately have "pending (D \<union> set ls) (Some ep) g'" by (rule pending_at)
  moreover have "\<not> gb_emitOrphanedCode g'"
    using static_append_new [OF sw(1)] static_add_consts [OF sw(2)] C4 by (simp add: cases_framed_def static_def)
  ultimately show "framed D ls c1 g1 (Some ep) g'"
    using b(2,4,5) B2 C4 ep n3 widensD(3) [OF g34] by (auto simp: framed_def cases_framed_def cur_ok_def)
qed

lemma goto_frame:
  assumes "genGoto l cur g = Some (r, g')" "ready D [] [] cur g"
  shows "framed D [] cur g r g'" "r = None"
    "\<exists>lb. gb_labelmap g' l = Some lb \<and> (\<forall>b. cur = Some b \<longrightarrow> unleft g b \<longrightarrow>
       (\<exists>v. code g' b = code g b @ [v] \<and> ir_op (gb_ir g') v = BrOp lb \<and> old (gb_ir g') v))"
proof -
  have ok: "blocks_ok g" and orph: "\<not> gb_emitOrphanedCode g" and p: "pending D cur g" and c: "cur_ok cur g"
    using assms(2) by (simp_all add: ready_def)
  obtain lb h where h: "getBlockForLabel l g = (lb, h)" by (meson surj_pair)
  note L = getBlockForLabel_grows [OF h ok]
  have oh: "\<not> gb_emitOrphanedCode h" using getBlockForLabel_static [OF h] orph by (simp add: static_def)
  from assms(1) h obtain k where k: "branch_unless_left lb cur h = Some k"
    "(if gb_emitOrphanedCode k then do { let (nm, g) = gb_namegen ''orphan'' ChooseVer k;
        let (orphan, c) = create_block nm (Some lb) (gb_cfg g); Some (Some orphan, g\<lparr>gb_cfg := c\<rparr>) } else Some (None, k)) = Some (r, g')"
    by (auto simp: genGoto_def bind_Some_iff)
  have ok': "\<not> gb_emitOrphanedCode k" using static_branch [OF k(1)] oh by (simp add: static_def)
  then have r: "r = None" "g' = k" using k(2) by simp_all
  then show "r = None" by simp
  note B = branch_grows [OF k(1) L(1)]
  have G: "widens (set_option cur) g g'" unfolding r by (rule widens_trans [OF widens_mono [OF L(2)] B(4)]) auto
  have "code g' x = []" if "l' \<notin> D" "gb_labelmap g' l' = Some x" for l' x
  proof (cases "gb_labelmap g l' = Some x")
    case True
    with p that(1) have "code g x = []" "cur \<noteq> Some x" by (auto simp: pending_def)
    moreover have "x < nblocks g" using blocks_ok_label [OF ok True] .
    ultimately show ?thesis using widensD(2) [OF G, of x] by (auto simp: elem_set)
  next
    case False
    then have "l' = l" "x = lb" using that(2) r B(3) L(3) by (auto split: if_split_asm)
    with False L(5) have "lb = nblocks g" "code h lb = []" by auto
    moreover have "cur \<noteq> Some lb" using c \<open>lb = nblocks g\<close> by (auto simp: cur_ok_def)
    moreover have "lb < nblocks h" by (rule blocks_ok_label [OF L(1), of l]) (simp add: L(3))
    ultimately show ?thesis using widensD(2) [OF B(4), of lb] r \<open>x = lb\<close> by (auto simp: elem_set)
  qed
  then have "pending D None g'" by (simp add: pending_def)
  then show "framed D [] cur g r g'" using B(1) G ok' r by (auto simp: framed_def label_blocks_def cur_ok_def)
  have "\<exists>v. code g' b = code g b @ [v] \<and> ir_op (gb_ir g') v = BrOp lb \<and> old (gb_ir g') v" if "cur = Some b" "unleft g b" for b
  proof -
    have "b < nblocks g" using c that(1) by (simp add: cur_ok_def)
    then have ch: "code h b = code g b" using widensD(2) [OF L(2)] by simp
    then have "unleft h b" using that(2) L(4) by (simp add: unleft_def)
    from B(5) [OF that(1) this] ch r show ?thesis by simp
  qed
  moreover have "gb_labelmap g' l = Some lb" using B(3) L(3) r by simp
  ultimately show "\<exists>lb. gb_labelmap g' l = Some lb \<and> (\<forall>b. cur = Some b \<longrightarrow> unleft g b \<longrightarrow>
       (\<exists>v. code g' b = code g b @ [v] \<and> ir_op (gb_ir g') v = BrOp lb \<and> old (gb_ir g') v))" by blast
qed

lemma label_frame:
  assumes "genLabel l cur g = Some (r, g')" "ready D [l] [] cur g"
  shows "framed D [l] cur g r g'"
    "\<exists>lb. r = Some lb \<and> gb_labelmap g' l = Some lb \<and> code g' lb = [] \<and> (\<forall>b. cur = Some b \<longrightarrow>
       (\<exists>v. code g' b = code g b @ [v] \<and> ir_op (gb_ir g') v = BrOp lb \<and> old (gb_ir g') v))"
proof -
  have ok: "blocks_ok g" and orph: "\<not> gb_emitOrphanedCode g" and p: "pending D cur g" and c: "cur_ok cur g" and l: "l \<notin> D"
    using assms(2) by (simp_all add: ready_def)
  obtain lb h where h: "getBlockForLabel l g = (lb, h)" by (meson surj_pair)
  note L = getBlockForLabel_grows [OF h ok]
  from assms(1) h have k: "(if cur \<noteq> None then CreateBr lb cur h else Some h) = Some g'" "r = Some lb"
    by (auto simp: genLabel_def bind_Some_iff)
  have oh: "\<not> gb_emitOrphanedCode h" using getBlockForLabel_static [OF h] orph by (simp add: static_def)
  have lb: "lb < nblocks h" by (rule blocks_ok_label [OF L(1), of l]) (simp add: L(3))
  have lb: "code h lb = []" "cur \<noteq> Some lb" "lb < nblocks h"
    using L(5) p l c lb unfolding pending_def cur_ok_def by auto
  have H: "blocks_ok g' \<and> \<not> gb_emitOrphanedCode g' \<and> widens (set_option cur) h g' \<and> gb_labelmap g' = gb_labelmap h \<and> nblocks g' = nblocks h \<and>
    (\<forall>b. cur = Some b \<longrightarrow> (\<exists>v. code g' b = code h b @ [v] \<and> ir_op (gb_ir g') v = BrOp lb \<and> old (gb_ir g') v))"
  proof (cases cur)
    case None
    with k L(1) oh show ?thesis by simp
  next
    case (Some b)
    with k have "CreateBr lb cur h = Some g'" by simp
    from CreateBr_grows [OF this L(1)] static_CreateBr [OF this] oh Some show ?thesis by (fastforce simp: static_def)
  qed
  then have G: "widens (set_option cur) g g'" by (auto intro: widens_trans [OF widens_mono [OF L(2)]])
  have clb: "code g' lb = []" using H widensD(2) [of "set_option cur" h g' lb] lb by (auto simp: elem_set)
  have "pending (D \<union> {l}) (Some lb) g'"
  proof -
    have "code g' x = [] \<and> x \<noteq> lb" if "l' \<notin> D \<union> {l}" "gb_labelmap g' l' = Some x" for l' x
    proof -
      have g: "gb_labelmap g l' = Some x" using that H L(3) by auto
      with that(1) p have "code g x = []" "cur \<noteq> Some x" by (auto simp: pending_def)
      moreover have "x < nblocks g" using blocks_ok_label [OF ok g] .
      ultimately have "code g' x = []" using widensD(2) [OF G, of x] by (auto simp: elem_set)
      moreover have "x \<noteq> lb"
      proof
        assume "x = lb"
        moreover have "gb_labelmap g' l = Some lb" using H L(3) by simp
        moreover have "blocks_ok g'" using H by simp
        ultimately have "l' = l" using that(2) unfolding blocks_ok_def by blast
        with that(1) show False by simp
      qed
      ultimately show ?thesis by simp
    qed
    then show ?thesis unfolding pending_def by fastforce
  qed
  moreover have "lb < nblocks g \<longrightarrow> lb \<in> label_blocks [l] g" using L(5) by (auto simp: label_blocks_def)
  moreover have "gb_labelmap g' l = Some lb" using H L(3) by simp
  ultimately show "framed D [l] cur g r g'"
    using H k(2) lb(3) widens_mono [OF G, of "set_option cur \<union> label_blocks [l] g"] by (auto simp: framed_def cur_ok_def)
  have "code h b = code g b" if "cur = Some b" for b using widensD(2) [OF L(2), of b] c that by (simp add: cur_ok_def)
  with H L(3) clb k(2) show "\<exists>lb. r = Some lb \<and> gb_labelmap g' l = Some lb \<and> code g' lb = [] \<and> (\<forall>b. cur = Some b \<longrightarrow>
       (\<exists>v. code g' b = code g b @ [v] \<and> ir_op (gb_ir g') v = BrOp lb \<and> old (gb_ir g') v))" by auto
qed

text \<open>The frame of a whole tree.\<close>

lemma framed_same: "ready D [] xs cur g \<Longrightarrow> framed D [] cur g cur g"
  by (auto simp: ready_def framed_def)

lemma framed_none: "framed D ls cur g r g' \<Longrightarrow> framed D ls cur g None g'"
  by (auto simp: framed_def cur_ok_def dest: pending_none)

lemma expr_frame:
  assumes "place xs cur g = Some (r, g')" "ready D [] xs cur g"
  shows "framed D [] cur g r g'" "r = cur" "cur = Some b \<Longrightarrow> code g' b = code g b @ xs"
proof -
  have ok: "blocks_ok g" and io: "\<forall>i \<in> set xs. old (gb_ir g) i \<and> \<not> jump (ir_op (gb_ir g) i)"
    using assms(2) by (simp_all add: ready_def)
  from place_grows [OF assms(1) ok io] have P: "r = cur" "blocks_ok g'" "widens (set_option cur) g g'" "nblocks g' = nblocks g"
    "gb_labelmap g' = gb_labelmap g" "\<forall>b. cur = Some b \<longrightarrow> code g' b = code g b @ xs" by auto
  have p: "pending D cur g" and c: "cur_ok cur g" using assms(2) by (simp_all add: ready_def)
  have "pending D None g'" by (rule pending_grows [OF p P(3,5) ok])
  then have "pending D cur g'" using p P(5) by (auto simp: pending_def)
  moreover have "\<not> gb_emitOrphanedCode g'" using static_place [OF assms(1)] assms(2) by (simp add: ready_def static_def)
  ultimately show "framed D [] cur g r g'" using P c by (auto simp: framed_def cur_ok_def label_blocks_def)
  show "r = cur" "cur = Some b \<Longrightarrow> code g' b = code g b @ xs" using P by simp_all
qed

lemma gen_frame:
  "gen t cur g = Some (r, g') \<Longrightarrow> ready D (labels t) (insts t) cur g \<Longrightarrow> framed D (labels t) cur g r g'"
  "gens ts cur g = Some (r, g') \<Longrightarrow> ready D (labels_list ts) (insts_list ts) cur g \<Longrightarrow> framed D (labels_list ts) cur g r g'"
  "gen_cases cs bs epi g = Some g' \<Longrightarrow> ready D (labels_cases cs) (insts_cases cs) None g \<Longrightarrow> case_targets_ok bs g \<Longrightarrow>
   length bs = length cs \<Longrightarrow> cases_framed D (labels_cases cs) bs g g'"
proof (induction t and ts and cs arbitrary: D cur g r g' and D cur g r g' and D bs epi g g' rule: tree_induct)
  case (1 ks xs)
  from "1.prems"(1) show ?case
  proof (rule gen_ExprE)
    fix c1 g1 assume a: "gens ks cur g = Some (c1, g1)" "place xs c1 g1 = Some (r, g')"
    have re: "ready D (labels_list ks @ []) (insts_list ks @ xs) cur g" using "1.prems"(2) by simp
    note F = "1.IH" [OF a(1) ready_part [OF re]]
    from framed_seq [OF F expr_frame(1) [OF a(2) ready_next [OF re F]]] show ?thesis by simp
  qed
next
  case (2 ts)
  then show ?case by simp
next
  case (3 c v t f)
  from "3.prems"(1) show ?case
  proof (rule gen_IfE)
    fix c1 g1 tb g2 ft g3 fb g4 g5 r6 g6 g7 r8 g8
    assume a: "gen c cur g = Some (c1, g1)"
      "mkLLVMBlock ''then'' ChooseVer g1 = (tb, g2)" "mkLLVMBlock ''fallthrough'' ChooseVer g2 = (ft, g3)"
      "mkLLVMBlock ''else'' ChooseVer g3 = (fb, g4)" "CreateCondBr tb fb v c1 g4 = Some g5"
      "gen t (Some tb) g5 = Some (r6, g6)" "branch_unless_left ft r6 g6 = Some g7" "gen f (Some fb) g7 = Some (r8, g8)"
      "branch_unless_left ft r8 g8 = Some g'" "r = Some ft"
    have re: "ready D (labels c @ labels t @ labels f) (insts c @ insts t @ insts f) cur g" using "3.prems"(2) by simp
    note F = "3.IH"(1) [OF a(1) ready_part [OF re]]
    note I = if_frame(1) [OF a(2,3,4,5,7,9) ready_next [OF re F] "3.IH"(2) [OF a(6)] "3.IH"(3) [OF a(8)]]
    from framed_seq [OF F I] show ?thesis by (simp add: a(10))
  qed
next
  case (4 c v cs)
  from "4.prems"(1) show ?case
  proof (rule gen_SwitchE)
    fix c1 g1 bs d g2 ep g3 df g4 sw g5
    assume a: "gen c cur g = Some (c1, g1)" "case_blocks (map fst cs) None g1 = Some (bs, d, g2)"
      "mkLLVMBlock ''epilog'' ChooseVer g2 = (ep, g3)" "gen_cases cs bs ep g3 = Some g4"
      "append_new (SwitchOp df []) [v] VoidTy '''' c1 g4 = Some (sw, g5)"
      "fold_opt (add_const sw df) (case_table (map fst cs) bs) g5 = Some g'" "r = Some ep"
    have re: "ready D (labels c @ labels_cases cs) (insts c @ insts_cases cs) cur g" using "4.prems"(2) by simp
    note F = "4.IH"(1) [OF a(1) ready_part [OF re]]
    have len: "length bs = length cs" using case_blocks_length [OF a(2)] by simp
    note S = switch_frame(1) [OF a(2,3,5,6) ready_next [OF re F] "4.IH"(2) [OF a(4) _ _ len]]
    from framed_seq [OF F S] show ?thesis by (simp add: a(7))
  qed
next
  case (5 t)
  from "5.prems"(1) show ?case
  proof (rule gen_ReturnE)
    assume a: "gen t cur g = Some (cur, g')" "r = None"
    have "framed D (labels t) cur g cur g'" by (rule "5.IH" [OF a(1)]) (use "5.prems"(2) in simp)
    with a(2) framed_none show ?thesis by simp
  qed
next
  case (6 l)
  then show ?case using goto_frame(1) [of l cur g r g' D] by simp
next
  case (7 l)
  then show ?case using label_frame(1) [of l cur g r g' D] by simp
next
  case 8
  then show ?case using framed_same [of D "[]" cur g] by simp
next
  case (9 t ts)
  from "9.prems"(1) show ?case
  proof (rule gens_ConsE)
    fix c1 g1 assume a: "gen t cur g = Some (c1, g1)" "gens ts c1 g1 = Some (r, g')"
    have re: "ready D (labels t @ labels_list ts) (insts t @ insts_list ts) cur g" using "9.prems"(2) by simp
    note F = "9.IH"(1) [OF a(1) ready_part [OF re]]
    from framed_seq [OF F "9.IH"(2) [OF a(2) ready_next [OF re F]]] show ?thesis by simp
  qed
next
  case 10
  then show ?case by (auto simp: cases_framed_def ready_def)
next
  case (11 vs t cs)
  from "11.prems"(4) obtain b bs' where bs: "bs = b # bs'" "length bs' = length cs" by (cases bs) auto
  from "11.prems"(1) [unfolded bs] show ?case
  proof (rule gen_casesE)
    fix r g1 g2 assume a: "gen t (Some b) g = Some (r, g1)" "branch_unless_left epi (Some b) g1 = Some g2"
      "gen_cases cs bs' epi g2 = Some g'"
    have re: "ready D (labels t @ labels_cases cs) (insts t @ insts_cases cs) None g" using "11.prems"(2) by simp
    have T: "case_targets_ok (b # bs') g" using "11.prems"(3) bs by simp
    show ?thesis using case_frame(1) [OF re T "11.IH"(1) [OF a(1)] a(2) "11.IH"(2) [OF a(3) _ _ bs(2)]] bs(1) by simp
  qed
qed

end
