(* ===== verification/GenCorrect.thy ===== *)
theory GenCorrect
  imports GenFrames
begin

text \<open>
  What the generated blocks do. A run of a function is abstracted to the instructions executed and the
  decisions taken; the outcomes of the decisions are given by a list of numbers (\<open>decide\<close>). The
  statement tree has a direct semantics (\<open>eval\<close>, and \<open>enter\<close> for entering it at a label); the blocks
  are run instruction by instruction (\<open>cstep\<close>, \<open>runs\<close>). Generation is a refinement: the blocks execute
  what the tree says, for every list of decisions.
\<close>

section \<open>Events and outcomes\<close>

datatype event =
    Do vref
  | Test vref nat
  | Case vref "vref option"

datatype outcome = Fall | Jump LabelId | Ret

type_synonym result = "event list \<times> outcome \<times> nat list"

definition decide :: "nat list \<Rightarrow> nat \<times> nat list" where
  "decide ds = (case ds of [] \<Rightarrow> (0, []) | d # ds \<Rightarrow> (d, ds))"

definition andthen :: "result \<Rightarrow> (nat list \<Rightarrow> result) \<Rightarrow> result" where
  "andthen res k =
     (case res of (es, out, ds) \<Rightarrow> if out = Fall then (case k ds of (es', out', ds') \<Rightarrow> (es @ es', out', ds')) else res)"

definition emit :: "event \<Rightarrow> result \<Rightarrow> result" where
  "emit e res = (case res of (es, out, ds) \<Rightarrow> (e # es, out, ds))"

section \<open>The tree\<close>

fun eval_insts :: "irmem \<Rightarrow> vref list \<Rightarrow> nat list \<Rightarrow> result" where
  "eval_insts m [] ds = ([], Fall, ds)"
| "eval_insts m (i # is) ds =
     (if terminator_op (ir_op m i) then ([Do i], Ret, ds) else emit (Do i) (eval_insts m is ds))"

text \<open>The constant and the case the d-th entry of a switch leads to; the default case has no constants.\<close>

definition default_case :: "vref list list \<Rightarrow> nat option" where
  "default_case vss = List.find (\<lambda>k. vss ! k = []) [0..<length vss]"

definition chosen :: "vref list list \<Rightarrow> nat \<Rightarrow> vref option \<times> nat option" where
  "chosen vss d =
     (let tab = case_table vss [0..<length vss]
      in if d < length tab then (Some (fst (tab ! d)), Some (snd (tab ! d))) else (None, default_case vss))"

definition if_choice :: "vref \<Rightarrow> (nat list \<Rightarrow> result) \<Rightarrow> (nat list \<Rightarrow> result) \<Rightarrow> nat list \<Rightarrow> result" where
  "if_choice v a b ds = (case decide ds of (d, ds) \<Rightarrow> emit (Test v d) (if d = 0 then a ds else b ds))"

definition switch_choice :: "vref \<Rightarrow> vref list list \<Rightarrow> (nat option \<Rightarrow> nat list \<Rightarrow> result) \<Rightarrow> nat list \<Rightarrow> result" where
  "switch_choice v vss body ds =
     (case decide ds of (d, ds) \<Rightarrow> case chosen vss d of (k, i) \<Rightarrow> emit (Case v k) (body i ds))"

fun eval :: "irmem \<Rightarrow> stm \<Rightarrow> nat list \<Rightarrow> result"
  and evals :: "irmem \<Rightarrow> stm list \<Rightarrow> nat list \<Rightarrow> result"
  and eval_case :: "irmem \<Rightarrow> (vref list \<times> stm) list \<Rightarrow> nat option \<Rightarrow> nat list \<Rightarrow> result" where
  "eval m (TExpr ks is) ds = andthen (evals m ks ds) (\<lambda>ds. eval_insts m is ds)"
| "eval m (TBlock ts) ds = evals m ts ds"
| "eval m (TIf c v t f) ds = andthen (eval m c ds) (if_choice v (\<lambda>ds. eval m t ds) (\<lambda>ds. eval m f ds))"
| "eval m (TSwitch c v cs) ds = andthen (eval m c ds) (switch_choice v (map fst cs) (\<lambda>i ds. eval_case m cs i ds))"
| "eval m (TReturn t) ds = eval m t ds"
| "eval m (TGoto l) ds = ([], Jump l, ds)"
| "eval m (TLabel l) ds = ([], Fall, ds)"
| "evals m [] ds = ([], Fall, ds)"
| "evals m (t # ts) ds = andthen (eval m t ds) (\<lambda>ds. evals m ts ds)"
| "eval_case m [] i ds = ([], Fall, ds)"
| "eval_case m ((vs, t) # cs) i ds =
     (case i of None \<Rightarrow> ([], Fall, ds) | Some 0 \<Rightarrow> eval m t ds | Some (Suc k) \<Rightarrow> eval_case m cs (Some k) ds)"

fun enter :: "irmem \<Rightarrow> LabelId \<Rightarrow> stm \<Rightarrow> nat list \<Rightarrow> result"
  and enters :: "irmem \<Rightarrow> LabelId \<Rightarrow> stm list \<Rightarrow> nat list \<Rightarrow> result"
  and enter_case :: "irmem \<Rightarrow> LabelId \<Rightarrow> (vref list \<times> stm) list \<Rightarrow> nat list \<Rightarrow> result" where
  "enter m l (TExpr ks is) ds = andthen (enters m l ks ds) (\<lambda>ds. eval_insts m is ds)"
| "enter m l (TBlock ts) ds = enters m l ts ds"
| "enter m l (TIf c v t f) ds =
     (if l \<in> set (labels c) then andthen (enter m l c ds) (if_choice v (eval m t) (eval m f))
      else if l \<in> set (labels t) then enter m l t ds else enter m l f ds)"
| "enter m l (TSwitch c v cs) ds =
     (if l \<in> set (labels c) then andthen (enter m l c ds) (switch_choice v (map fst cs) (eval_case m cs))
      else enter_case m l cs ds)"
| "enter m l (TReturn t) ds = enter m l t ds"
| "enter m l (TGoto l') ds = ([], Fall, ds)"
| "enter m l (TLabel l') ds = ([], Fall, ds)"
| "enters m l [] ds = ([], Fall, ds)"
| "enters m l (t # ts) ds =
     (if l \<in> set (labels t) then andthen (enter m l t ds) (evals m ts) else enters m l ts ds)"
| "enter_case m l [] ds = ([], Fall, ds)"
| "enter_case m l ((vs, t) # cs) ds = (if l \<in> set (labels t) then enter m l t ds else enter_case m l cs ds)"

text \<open>A function body: the tree, then from label to label for at most \<open>k\<close> jumps.\<close>

fun exec :: "nat \<Rightarrow> irmem \<Rightarrow> stm \<Rightarrow> nat list \<Rightarrow> result" where
  "exec 0 m t ds = eval m t ds"
| "exec (Suc k) m t ds =
     (case exec k m t ds of (es, out, ds') \<Rightarrow>
        (case out of Jump l \<Rightarrow> if l \<in> set (labels t) then (case enter m l t ds' of (es', out', ds'') \<Rightarrow> (es @ es', out', ds''))
                             else (es, out, ds')
         | _ \<Rightarrow> (es, out, ds')))"

section \<open>The blocks\<close>

text \<open>
  A position is a block and an index; no position is the end of the run. A call that may throw asks
  for a decision as well: 0 continues, anything else is the exception.
\<close>

definition cstep :: "irmem \<Rightarrow> cfg \<Rightarrow> bbref \<times> nat \<Rightarrow> nat list \<Rightarrow> (event list \<times> (bbref \<times> nat) option \<times> nat list) option" where
  "cstep m c = (\<lambda>(b, i) ds.
     do { is \<leftarrow> cf_insts c b;
          x \<leftarrow> nth_opt is i;
          (case ir_op m x of
             BrOp b' \<Rightarrow> Some ([], Some (b', 0), ds)
           | CondBrOp t f \<Rightarrow>
               do { ops \<leftarrow> ir_operands m x; v \<leftarrow> nth_opt ops 0;
                    let (d, ds) = decide ds;
                    Some ([Test v d], Some (if d = 0 then t else f, 0), ds) }
           | SwitchOp df cs \<Rightarrow>
               do { ops \<leftarrow> ir_operands m x; v \<leftarrow> nth_opt ops 0;
                    let (d, ds) = decide ds;
                    Some (if d < length cs then ([Case v (Some (fst (cs ! d)))], Some (snd (cs ! d), 0), ds)
                          else ([Case v None], Some (df, 0), ds)) }
           | InvokeOp n u \<Rightarrow>
               (let (d, ds) = decide ds in Some ([Do x, Test x d], Some (if d = 0 then n else u, 0), ds))
           | p \<Rightarrow> Some ([Do x], if terminator_op p then None else Some (b, Suc i), ds)) })"

inductive runs :: "irmem \<Rightarrow> cfg \<Rightarrow> (bbref \<times> nat) option \<Rightarrow> nat list \<Rightarrow> event list \<Rightarrow> (bbref \<times> nat) option \<Rightarrow> nat list \<Rightarrow> bool"
  for m :: irmem and c :: cfg where
  runs_refl: "runs m c p ds [] p ds"
| runs_step: "cstep m c p ds = Some (e, q, ds1) \<Longrightarrow> runs m c q ds1 es r ds2 \<Longrightarrow> runs m c (Some p) ds (e @ es) r ds2"

lemma runs_trans: "runs m c p ds es q ds1 \<Longrightarrow> runs m c q ds1 es' r ds2 \<Longrightarrow> runs m c p ds (es @ es') r ds2"
  by (induction rule: runs.induct) (auto intro: runs_step)

lemma runs_one: "cstep m c p ds = Some (e, q, ds1) \<Longrightarrow> runs m c (Some p) ds e q ds1"
  using runs_step [OF _ runs_refl] by fastforce

section \<open>Trees generation is right for\<close>

text \<open>A case body that generation finishes in the block it began.\<close>

fun straight :: "stm \<Rightarrow> bool"
  and straight_list :: "stm list \<Rightarrow> bool" where
  "straight (TExpr ks is) = straight_list ks"
| "straight (TBlock ts) = straight_list ts"
| "straight (TIf c v t f) = False"
| "straight (TSwitch c v cs) = False"
| "straight (TReturn t) = straight t"
| "straight (TGoto l) = True"
| "straight (TLabel l) = False"
| "straight_list [] = True"
| "straight_list (t # ts) = (straight t \<and> straight_list ts)"

text \<open>A return statement ends in a terminator; case bodies are straight.\<close>

fun ends :: "irmem \<Rightarrow> stm \<Rightarrow> bool" where
  "ends m (TExpr ks is) = (is \<noteq> [] \<and> terminator_op (ir_op m (last is)))"
| "ends m _ = False"

fun wf :: "irmem \<Rightarrow> stm \<Rightarrow> bool"
  and wf_list :: "irmem \<Rightarrow> stm list \<Rightarrow> bool"
  and wf_cases :: "irmem \<Rightarrow> (vref list \<times> stm) list \<Rightarrow> bool" where
  "wf m (TExpr ks is) = wf_list m ks"
| "wf m (TBlock ts) = wf_list m ts"
| "wf m (TIf c v t f) = (wf m c \<and> wf m t \<and> wf m f)"
| "wf m (TSwitch c v cs) = (wf m c \<and> wf_cases m cs)"
| "wf m (TReturn t) = (wf m t \<and> ends m t)"
| "wf m (TGoto l) = True"
| "wf m (TLabel l) = True"
| "wf_list m [] = True"
| "wf_list m (t # ts) = (wf m t \<and> wf_list m ts)"
| "wf_cases m [] = True"
| "wf_cases m ((vs, t) # cs) = (wf m t \<and> straight t \<and> wf_cases m cs)"

lemma straight_labels: "straight t \<Longrightarrow> labels t = []" "straight_list ts \<Longrightarrow> labels_list ts = []"
  by (induction t and ts rule: straight_straight_list.induct) auto

lemma wf_cases_labels: "wf_cases m cs \<Longrightarrow> labels_cases cs = []"
  by (induction cs) (auto simp: straight_labels)

lemma place_cur: "place xs cur g = Some (r, g') \<Longrightarrow> r = cur"
  by (induction xs cur g rule: place.induct) (auto simp: bind_Some_iff)

lemma goto_none: "genGoto l cur g = Some (r, g') \<Longrightarrow> \<not> gb_emitOrphanedCode g \<Longrightarrow> r = None"
proof -
  assume a: "genGoto l cur g = Some (r, g')" "\<not> gb_emitOrphanedCode g"
  obtain lb h where h: "getBlockForLabel l g = (lb, h)" by (meson surj_pair)
  from a h obtain k where k: "branch_unless_left lb cur h = Some k"
    "(if gb_emitOrphanedCode k then do { let (nm, g) = gb_namegen ''orphan'' ChooseVer k;
        let (orphan, c) = create_block nm (Some lb) (gb_cfg g); Some (Some orphan, g\<lparr>gb_cfg := c\<rparr>) } else Some (None, k)) = Some (r, g')"
    by (auto simp: genGoto_def bind_Some_iff)
  have "\<not> gb_emitOrphanedCode k"
    using static_branch [OF k(1)] getBlockForLabel_static [OF h] a(2) by (simp add: static_def)
  with k(2) show ?thesis by simp
qed

lemma straight_gen:
  "straight t \<Longrightarrow> gen t cur g = Some (r, g') \<Longrightarrow> \<not> gb_emitOrphanedCode g \<Longrightarrow> r = cur \<or> r = None"
  "straight_list ts \<Longrightarrow> gens ts cur g = Some (r, g') \<Longrightarrow> \<not> gb_emitOrphanedCode g \<Longrightarrow> r = cur \<or> r = None"
proof (induction t and ts arbitrary: cur g r g' and cur g r g' rule: straight_straight_list.induct)
  case (1 ks xs)
  from "1.prems"(2) show ?case
    by (rule gen_ExprE) (use 1 in \<open>fastforce dest: place_cur\<close>)
next
  case (6 l)
  then show ?case using goto_none by simp
next
  case (9 t ts)
  from "9.prems"(2) show ?case
  proof (rule gens_ConsE)
    fix c1 g1 assume a: "gen t cur g = Some (c1, g1)" "gens ts c1 g1 = Some (r, g')"
    have "c1 = cur \<or> c1 = None" using "9.IH"(1) [OF _ a(1) "9.prems"(3)] "9.prems"(1) by simp
    moreover have "r = c1 \<or> r = None"
      using "9.IH"(2) [OF _ a(2)] "9.prems"(1) static_orphan [OF gen_static(1) [OF a(1) "9.prems"(3)]] "9.prems"(3) by simp
    ultimately show ?thesis by auto
  qed
qed (auto simp: bind_Some_iff split: if_split_asm)

text \<open>What is generated before a terminator never falls through it.\<close>

lemma eval_insts_ends: "is \<noteq> [] \<Longrightarrow> terminator_op (ir_op m (last is)) \<Longrightarrow> eval_insts m is ds = (es, out, ds') \<Longrightarrow> out = Ret"
  by (induction "is" arbitrary: es) (auto simp: emit_def split: prod.split_asm if_split_asm)

lemma eval_insts_no_jump: "eval_insts m is ds = (es, out, ds') \<Longrightarrow> out \<noteq> Jump l \<and> ds' = ds"
  by (induction "is" arbitrary: es) (auto simp: emit_def split: prod.split_asm if_split_asm)

section \<open>Generation refines the tree\<close>

definition reaches :: "genblocks \<Rightarrow> genblocks \<Rightarrow> bbref option \<Rightarrow> bbref \<times> nat \<Rightarrow> nat list \<Rightarrow> result \<Rightarrow> bool" where
  "reaches fin g r p ds res =
     (case res of (es, out, ds') \<Rightarrow>
        case out of
          Fall \<Rightarrow> (\<exists>b. r = Some b \<and> unleft g b \<and> runs (gb_ir fin) (gb_cfg fin) (Some p) ds es (Some (b, length (code g b))) ds')
        | Jump l \<Rightarrow> (\<exists>b. gb_labelmap g l = Some b \<and> runs (gb_ir fin) (gb_cfg fin) (Some p) ds es (Some (b, 0)) ds')
        | Ret \<Rightarrow> runs (gb_ir fin) (gb_cfg fin) (Some p) ds es None ds')"

text \<open>From the end of the current block, and from the blocks of the labels, the code does what the tree does.\<close>

definition sim :: "genblocks \<Rightarrow> (nat list \<Rightarrow> result) \<Rightarrow> (LabelId \<Rightarrow> nat list \<Rightarrow> result) \<Rightarrow> LabelId list \<Rightarrow> bbref option \<Rightarrow>
    genblocks \<Rightarrow> bbref option \<Rightarrow> genblocks \<Rightarrow> bool" where
  "sim fin ev en ls cur g r g' \<longleftrightarrow>
     (\<forall>b ds. cur = Some b \<longrightarrow> unleft g b \<longrightarrow> reaches fin g' r (b, length (code g b)) ds (ev ds)) \<and>
     (\<forall>l b ds. l \<in> set ls \<longrightarrow> gb_labelmap g' l = Some b \<longrightarrow> reaches fin g' r (b, 0) ds (en l ds))"

lemma reaches_andthen:
  assumes "reaches fin g1 r1 p ds res" "gb_labelmap g1 \<subseteq>\<^sub>m gb_labelmap g2"
    and "\<And>b ds. r1 = Some b \<Longrightarrow> unleft g1 b \<Longrightarrow> reaches fin g2 r2 (b, length (code g1 b)) ds (k ds)"
  shows "reaches fin g2 r2 p ds (andthen res k)"
proof -
  obtain es out ds' where res: "res = (es, out, ds')" by (cases res) auto
  show ?thesis
  proof (cases out)
    case Fall
    with assms(1) res obtain b where b: "r1 = Some b" "unleft g1 b"
      "runs (gb_ir fin) (gb_cfg fin) (Some p) ds es (Some (b, length (code g1 b))) ds'" by (auto simp: reaches_def)
    obtain es2 out2 ds2 where k: "k ds' = (es2, out2, ds2)" by (cases "k ds'") auto
    from assms(3) [OF b(1,2), of ds'] k runs_trans [OF b(3)] show ?thesis
      by (cases out2) (auto simp: reaches_def andthen_def res Fall)
  next
    case (Jump l)
    with assms(1,2) res show ?thesis by (auto simp: reaches_def andthen_def map_le_def dom_def)
  next
    case Ret
    with assms(1) res show ?thesis by (auto simp: reaches_def andthen_def)
  qed
qed

lemma reaches_prefix:
  assumes "runs (gb_ir fin) (gb_cfg fin) (Some p) ds es (Some q) ds1" "reaches fin g r q ds1 (es', out, ds')"
  shows "reaches fin g r p ds (es @ es', out, ds')"
  using assms by (cases out) (auto simp: reaches_def intro: runs_trans)

lemma sim_seq:
  assumes S: "sim fin ev1 en1 ls1 cur g r1 g1" "sim fin ev2 en2 ls2 r1 g1 r2 g2" and G: "prolongs g1 g2"
    and L: "\<forall>l \<in> set ls1. gb_labelmap g1 l \<noteq> None" "set ls1 \<inter> set ls2 = {}"
  shows "sim fin (\<lambda>ds. andthen (ev1 ds) ev2) (\<lambda>l ds. if l \<in> set ls1 then andthen (en1 l ds) ev2 else en2 l ds) (ls1 @ ls2) cur g r2 g2"
proof -
  have lm: "gb_labelmap g1 \<subseteq>\<^sub>m gb_labelmap g2" using G by (simp add: prolongs_def)
  have 2: "reaches fin g2 r2 (b, length (code g1 b)) ds (ev2 ds)" if "r1 = Some b" "unleft g1 b" for b ds
    using S(2) that by (simp add: sim_def)
  have "reaches fin g2 r2 (b, length (code g b)) ds (andthen (ev1 ds) ev2)" if "cur = Some b" "unleft g b" for b ds
    by (rule reaches_andthen [OF _ lm 2]) (use S(1) that in \<open>simp_all add: sim_def\<close>)
  moreover have "reaches fin g2 r2 (b, 0) ds (andthen (en1 l ds) ev2)" if "l \<in> set ls1" "gb_labelmap g2 l = Some b" for l b ds
  proof (rule reaches_andthen [OF _ lm 2])
    obtain b' where b': "gb_labelmap g1 l = Some b'" using L(1) \<open>l \<in> set ls1\<close> by blast
    with lm have "gb_labelmap g2 l = Some b'" by (auto simp: map_le_def dom_def)
    with b' that have "gb_labelmap g1 l = Some b" by simp
    then show "reaches fin g1 r1 (b, 0) ds (en1 l ds)" using S(1) that(1) by (simp add: sim_def)
  qed
  moreover have "reaches fin g2 r2 (b, 0) ds (en2 l ds)" if "l \<in> set ls2" "gb_labelmap g2 l = Some b" for l b ds
    using S(2) that by (simp add: sim_def)
  ultimately show ?thesis using L(2) by (auto simp: sim_def)
qed

text \<open>Reading the final blocks through a prefix of them.\<close>

lemma prolongs_code: "prolongs g fin \<Longrightarrow> b < nblocks g \<Longrightarrow> i < length (code g b) \<Longrightarrow> blocks_ok fin \<Longrightarrow>
    \<exists>is. cf_insts (gb_cfg fin) b = Some is \<and> i < length is \<and> is ! i = code g b ! i"
proof -
  assume a: "prolongs g fin" "b < nblocks g" "i < length (code g b)" "blocks_ok fin"
  then have "b < nblocks fin" by (simp add: prolongs_def)
  with a(4) have "cf_insts (gb_cfg fin) b \<noteq> None" unfolding blocks_ok_def by blast
  then obtain js where js: "cf_insts (gb_cfg fin) b = Some js" by blast
  from a(1,2) obtain ks where "code fin b = code g b @ ks" unfolding prolongs_def by blast
  then have "js = code g b @ ks" using js by (simp add: code_def)
  with js a(3) show ?thesis by (auto simp: nth_append)
qed

lemma prolongs_op: "prolongs g fin \<Longrightarrow> old (gb_ir g) v \<Longrightarrow> ir_op (gb_ir fin) v = ir_op (gb_ir g) v"
  by (simp add: prolongs_def ir_keeps_def)

lemma prolongs_operands: "prolongs g fin \<Longrightarrow> old (gb_ir g) v \<Longrightarrow> jump (ir_op (gb_ir g) v) \<Longrightarrow>
    ir_operands (gb_ir fin) v = ir_operands (gb_ir g) v"
  by (simp add: prolongs_def ir_keeps_def)

lemma step_branch:
  assumes "prolongs g fin" "blocks_ok fin" "b < nblocks g" "code g b = xs @ [v]" "old (gb_ir g) v" "ir_op (gb_ir g) v = BrOp d"
  shows "runs (gb_ir fin) (gb_cfg fin) (Some (b, length xs)) ds [] (Some (d, 0)) ds"
proof -
  from prolongs_code [OF assms(1,3) _ assms(2), of "length xs"] assms(4) obtain js where
    js: "cf_insts (gb_cfg fin) b = Some js" "length xs < length js" "js ! length xs = v" by auto
  have "ir_op (gb_ir fin) v = BrOp d" using prolongs_op [OF assms(1,5)] assms(6) by simp
  with js have "cstep (gb_ir fin) (gb_cfg fin) (b, length xs) ds = Some ([], Some (d, 0), ds)" by (simp add: cstep_def)
  then show ?thesis by (rule runs_one)
qed

lemma reaches_branch:
  assumes R: "reaches fin g r p ds res" and br: "branch_unless_left d cur g = Some g1" and rc: "r = cur \<or> r = None"
    and ok: "blocks_ok g" "prolongs g1 fin" "blocks_ok fin" "cur_ok r g" and gx: "gb_labelmap g \<subseteq>\<^sub>m gb_labelmap gx" "code gx d = []"
  shows "reaches fin gx (Some d) p ds res"
proof -
  obtain es out ds' where res: "res = (es, out, ds')" by (cases res) auto
  show ?thesis
  proof (cases out)
    case Fall
    with R res obtain b where b: "r = Some b" "unleft g b"
      "runs (gb_ir fin) (gb_cfg fin) (Some p) ds es (Some (b, length (code g b))) ds'" by (auto simp: reaches_def)
    then have cur: "cur = Some b" using rc by auto
    note B = branch_grows [OF br ok(1)]
    from B(5) [OF cur b(2)] obtain v where v: "code g1 b = code g b @ [v]" "ir_op (gb_ir g1) v = BrOp d" "old (gb_ir g1) v" by blast
    have "b < nblocks g1" using ok(4) b(1) B(2) by (simp add: cur_ok_def)
    from step_branch [OF ok(2,3) this v(1,3,2)] have "runs (gb_ir fin) (gb_cfg fin) (Some (b, length (code g b))) ds' [] (Some (d, 0)) ds'" .
    from runs_trans [OF b(3) this] gx(2) show ?thesis by (auto simp: reaches_def res Fall unleft_empty)
  next
    case (Jump l)
    with R gx(1) res show ?thesis by (auto simp: reaches_def map_le_def dom_def)
  next
    case Ret
    with R res show ?thesis by (auto simp: reaches_def)
  qed
qed

lemma step_inst:
  assumes "cf_insts (gb_cfg fin) b = Some is" "i < length is" "\<not> jump (ir_op (gb_ir fin) (is ! i))"
  shows "runs (gb_ir fin) (gb_cfg fin) (Some (b, i)) ds [Do (is ! i)]
    (if terminator_op (ir_op (gb_ir fin) (is ! i)) then None else Some (b, Suc i)) ds"
  by (rule runs_one) (use assms in \<open>auto simp: cstep_def jump_def split: iop.split\<close>)

lemma run_insts:
  assumes "cf_insts (gb_cfg fin) b = Some (pre @ is @ post)" "\<forall>i \<in> set is. \<not> jump (ir_op (gb_ir fin) i)"
    and "eval_insts (gb_ir fin) is ds = (es, out, ds')"
  shows "runs (gb_ir fin) (gb_cfg fin) (Some (b, length pre)) ds es
    (if out = Fall then Some (b, length pre + length is) else None) ds'"
  using assms
proof (induction "is" arbitrary: pre es)
  case Nil
  then show ?case by (auto intro: runs_refl)
next
  case (Cons i xs)
  have s: "runs (gb_ir fin) (gb_cfg fin) (Some (b, length pre)) ds [Do i]
    (if terminator_op (ir_op (gb_ir fin) i) then None else Some (b, Suc (length pre))) ds"
    using step_inst [OF Cons.prems(1), of "length pre" ds] Cons.prems(2) by (simp add: nth_append)
  show ?case
  proof (cases "terminator_op (ir_op (gb_ir fin) i)")
    case True
    with s Cons.prems(3) show ?thesis by auto
  next
    case False
    with Cons.prems(3) obtain es' where e: "eval_insts (gb_ir fin) xs ds = (es', out, ds')" "es = Do i # es'"
      by (auto simp: emit_def split: prod.split_asm)
    from Cons.IH [of "pre @ [i]", OF _ _ e(1)] Cons.prems(1,2) have "runs (gb_ir fin) (gb_cfg fin) (Some (b, Suc (length pre))) ds es'
      (if out = Fall then Some (b, length pre + length (i # xs)) else None) ds'" by (auto split: if_split_asm)
    from runs_trans [OF _ this, of "Some (b, length pre)" ds "[Do i]"] s False e(2) show ?thesis by simp
  qed
qed

lemma eval_insts_unleft:
  "eval_insts m is ds = (es, Fall, ds') \<Longrightarrow> is = [] \<or> \<not> terminator_op (ir_op m (last is))"
  using eval_insts_ends by blast

lemma expr_sim:
  assumes p: "place xs cur g = Some (r, g')" and re: "ready D [] xs cur g" and ex: "prolongs g' fin" "blocks_ok fin"
  shows "sim fin (\<lambda>ds. eval_insts (gb_ir fin) xs ds) en [] cur g r g'"
proof -
  have "reaches fin g' r (b, length (code g b)) ds (eval_insts (gb_ir fin) xs ds)" if b: "cur = Some b" "unleft g b" for b ds
  proof -
    note F = expr_frame [OF p re] note c = expr_frame(3) [OF p re b(1)]
    have io: "\<forall>i \<in> set xs. old (gb_ir g') i \<and> \<not> jump (ir_op (gb_ir g') i)"
      by (rule insts_mono [of g]) (use F(1) re in \<open>simp_all add: framed_def widens_def ready_def\<close>)
    then have j: "\<forall>i \<in> set xs. ir_op (gb_ir fin) i = ir_op (gb_ir g') i \<and> \<not> jump (ir_op (gb_ir fin) i)"
      using prolongs_op [OF ex(1)] by simp
    obtain es out ds' where e: "eval_insts (gb_ir fin) xs ds = (es, out, ds')" by (cases "eval_insts (gb_ir fin) xs ds") auto
    have bn: "b < nblocks g'" using F(1,2) b(1) by (simp add: framed_def cur_ok_def)
    have "b < nblocks fin" using ex(1) bn by (simp add: prolongs_def)
    with ex(2) obtain js where js: "cf_insts (gb_cfg fin) b = Some js" unfolding blocks_ok_def by blast
    from ex(1) bn obtain ks where "code fin b = code g' b @ ks" unfolding prolongs_def by blast
    with js c have cf: "cf_insts (gb_cfg fin) b = Some (code g b @ xs @ ks)" by (simp add: code_def)
    have nj: "\<forall>i \<in> set xs. \<not> jump (ir_op (gb_ir fin) i)" using j by blast
    from run_insts [OF cf nj e] c have R: "runs (gb_ir fin) (gb_cfg fin) (Some (b, length (code g b))) ds es
      (if out = Fall then Some (b, length (code g' b)) else None) ds'" by (cases "out = Fall") auto
    have "out \<noteq> Jump l" for l using eval_insts_no_jump [OF e] by blast
    moreover have "unleft g' b" if "out = Fall"
    proof (cases "xs = []")
      case True
      then have "g' = g" using p by simp
      with b(2) show ?thesis by simp
    next
      case False
      then have "\<not> terminator_op (ir_op (gb_ir g') (last xs))" using eval_insts_unleft [of "gb_ir fin" xs ds] e that j by simp
      with c False show ?thesis by (simp add: unleft_def isTerminator_def)
    qed
    ultimately show ?thesis using R e F(2) b(1) by (cases out) (auto simp: reaches_def)
  qed
  then show ?thesis by (simp add: sim_def)
qed

lemma label_at: "prolongs g1 g2 \<Longrightarrow> gb_labelmap g1 l \<noteq> None \<Longrightarrow> gb_labelmap g2 l = Some b \<Longrightarrow> gb_labelmap g1 l = Some b"
  by (auto simp: prolongs_def map_le_def dom_def)

lemma step_cond:
  assumes "prolongs g fin" "blocks_ok fin" "b < nblocks g" "code g b = xs @ [w]" "old (gb_ir g) w" "ir_op (gb_ir g) w = CondBrOp t f"
    "ir_operands (gb_ir g) w = Some [v]"
  shows "cstep (gb_ir fin) (gb_cfg fin) (b, length xs) ds =
    (case decide ds of (d, ds) \<Rightarrow> Some ([Test v d], Some (if d = 0 then t else f, 0), ds))"
proof -
  from prolongs_code [OF assms(1,3) _ assms(2), of "length xs"] assms(4) obtain js where
    js: "cf_insts (gb_cfg fin) b = Some js" "length xs < length js" "js ! length xs = w" by auto
  have "ir_op (gb_ir fin) w = CondBrOp t f" using prolongs_op [OF assms(1,5)] assms(6) by simp
  moreover have "ir_operands (gb_ir fin) w = Some [v]" using prolongs_operands [OF assms(1,5)] assms(6,7) by (simp add: jump_def)
  ultimately show ?thesis using js by (auto simp: cstep_def split: prod.splits)
qed

lemma if_sim:
  assumes m: "mkLLVMBlock ''then'' ChooseVer g1 = (tb, g2)" "mkLLVMBlock ''fallthrough'' ChooseVer g2 = (ft, g3)"
      "mkLLVMBlock ''else'' ChooseVer g3 = (fb, g4)"
    and br: "CreateCondBr tb fb v c1 g4 = Some g5" "branch_unless_left ft r6 g6 = Some g7" "branch_unless_left ft r8 g8 = Some g'"
    and re: "ready D (ls @ ls') (xs @ ys) c1 g1"
    and F: "ready D ls xs (Some tb) g5 \<Longrightarrow> framed D ls (Some tb) g5 r6 g6"
      "ready (D \<union> set ls) ls' ys (Some fb) g7 \<Longrightarrow> framed (D \<union> set ls) ls' (Some fb) g7 r8 g8"
    and ex: "prolongs g' fin" "blocks_ok fin"
    and S: "prolongs g6 fin \<Longrightarrow> sim fin ev1 en1 ls (Some tb) g5 r6 g6" "prolongs g8 fin \<Longrightarrow> sim fin ev2 en2 ls' (Some fb) g7 r8 g8"
  shows "sim fin (if_choice v ev1 ev2) (\<lambda>l ds. if l \<in> set ls then en1 l ds else en2 l ds) (ls @ ls') c1 g1 (Some ft) g'"
proof -
  note I = if_frame [OF m br re F]
  have G: "prolongs g5 g6" "prolongs g7 g8" and ok: "blocks_ok g6" "blocks_ok g8" and c: "cur_ok r6 g6" "cur_ok r8 g8"
    using I(4,5) by (auto simp: framed_def widens_def)
  have G2: "prolongs g6 g7" "prolongs g8 g'"
    using widensD(1) [OF branch_grows(4) [OF br(2) ok(1)]] widensD(1) [OF branch_grows(4) [OF br(3) ok(2)]] by auto
  have X8: "prolongs g8 fin" by (rule prolongs_trans [OF G2(2) ex(1)])
  have X7: "prolongs g7 fin" by (rule prolongs_trans [OF G(2) X8])
  have X6: "prolongs g6 fin" by (rule prolongs_trans [OF G2(1) X7])
  have X5: "prolongs g5 fin" by (rule prolongs_trans [OF G(1) X6])
  have E6: "prolongs g6 g'" by (rule prolongs_trans [OF G2(1) prolongs_trans [OF G(2) G2(2)]])
  have T: "reaches fin g' (Some ft) p ds res" if "reaches fin g6 r6 p ds res" for p ds res
    by (rule reaches_branch [OF that br(2) _ ok(1) X7 ex(2) c(1)]) (use E6 I(6) in \<open>simp_all add: prolongs_def\<close>)
  have E: "reaches fin g' (Some ft) p ds res" if "reaches fin g8 r8 p ds res" for p ds res
    by (rule reaches_branch [OF that br(3) _ ok(2) ex(1) ex(2) c(2)]) (use G2(2) I(6) in \<open>simp_all add: prolongs_def\<close>)
  note S1 = S(1) [OF X6] and S2 = S(2) [OF X8]
  have ok1: "blocks_ok g1" using re by (simp add: ready_def)
  note m2 = mkLLVMBlock_grows [OF m(1) ok1] note m3 = mkLLVMBlock_grows [OF m(2) m2(1)] note m4 = mkLLVMBlock_grows [OF m(3) m3(1)]
  have g14: "widens {} g1 g4" by (rule widens_trans [OF widens_trans [OF m2(2) m3(2)] m4(2)]) auto
  have "reaches fin g' (Some ft) (b, length (code g1 b)) ds (if_choice v ev1 ev2 ds)" if b: "c1 = Some b" for b ds
  proof -
    have bn: "b < nblocks g1" using re b by (simp add: ready_def cur_ok_def)
    from CreateCondBr_grows [OF br(1) m4(1)] b obtain w where w: "code g5 b = code g4 b @ [w]" "b < nblocks g4"
      "nblocks g5 = nblocks g4" "ir_op (gb_ir g5) w = CondBrOp tb fb" "ir_operands (gb_ir g5) w = Some [v]" "old (gb_ir g5) w"
      by (metis option.inject)
    have c4: "code g4 b = code g1 b" using widensD(2) [OF g14 bn] by simp
    obtain d ds1 where d: "decide ds = (d, ds1)" by (cases "decide ds")
    have st: "cstep (gb_ir fin) (gb_cfg fin) (b, length (code g1 b)) ds = Some ([Test v d], Some (if d = 0 then tb else fb, 0), ds1)"
      using step_cond [OF X5 ex(2) _ w(1,6,4,5), of ds] w(2,3) c4 d by simp
    have R: "reaches fin g' (Some ft) (if d = 0 then tb else fb, 0) ds1 (if d = 0 then ev1 ds1 else ev2 ds1)"
    proof (cases "d = 0")
      case True
      have "reaches fin g6 r6 (tb, 0) ds1 (ev1 ds1)"
        using S1 I(7) unleft_empty [OF I(7)] by (fastforce simp: sim_def)
      from T [OF this] True show ?thesis by simp
    next
      case False
      have "reaches fin g8 r8 (fb, 0) ds1 (ev2 ds1)"
        using S2 I(8) unleft_empty [OF I(8)] by (fastforce simp: sim_def)
      from E [OF this] False show ?thesis by simp
    qed
    obtain es out ds2 where res: "(if d = 0 then ev1 ds1 else ev2 ds1) = (es, out, ds2)" by (cases "if d = 0 then ev1 ds1 else ev2 ds1") auto
    have "if_choice v ev1 ev2 ds = ([Test v d] @ es, out, ds2)" using res by (simp add: if_choice_def d emit_def split: if_split_asm)
    with reaches_prefix [OF runs_one [OF st] R [unfolded res]] show ?thesis by simp
  qed
  moreover have "reaches fin g' (Some ft) (b, 0) ds (en1 l ds)" if "l \<in> set ls" "gb_labelmap g' l = Some b" for l b ds
  proof -
    have "gb_labelmap g6 l = Some b" by (rule label_at [OF E6 _ that(2)]) (use I(4) that(1) in \<open>simp add: framed_def\<close>)
    with S1 that(1) T show ?thesis by (simp add: sim_def)
  qed
  moreover have "reaches fin g' (Some ft) (b, 0) ds (en2 l ds)" if "l \<in> set ls'" "gb_labelmap g' l = Some b" for l b ds
  proof -
    have "gb_labelmap g8 l = Some b" by (rule label_at [OF G2(2) _ that(2)]) (use I(5) that(1) in \<open>simp add: framed_def\<close>)
    with S2 that(1) E show ?thesis by (simp add: sim_def)
  qed
  moreover have "set ls \<inter> set ls' = {}" using re by (auto simp: ready_def)
  ultimately show ?thesis by (auto simp: sim_def)
qed

lemma find_map: "List.find P (map f xs) = map_option f (List.find (\<lambda>x. P (f x)) xs)"
  by (induction xs) auto

lemma default_case_Cons: "default_case (vs # vss) = (if vs = [] then Some 0 else map_option Suc (default_case vss))"
proof -
  have "[0..<length (vs # vss)] = 0 # map Suc [0..<length vss]" by (subst upt_conv_Cons) (simp_all add: map_Suc_upt)
  then show ?thesis by (simp add: default_case_def find_map del: upt_Suc)
qed

lemma default_case_bound: "default_case vss = Some k \<Longrightarrow> k < length vss"
  by (auto simp: default_case_def find_Some_iff)

lemma case_blocks_default:
  "case_blocks vss d g = Some (bs, d', g') \<Longrightarrow>
   d' = (case default_case vss of None \<Rightarrow> d | Some k \<Rightarrow> Some (bs ! k)) \<and> (d \<noteq> None \<longrightarrow> default_case vss = None)"
proof (induction vss arbitrary: d g bs d' g')
  case Nil
  then show ?case by (simp add: default_case_def)
next
  case (Cons vs vss)
  obtain b g1 where b: "mkLLVMBlock (if vs = [] then ''default'' else ''case'') ChooseVer g = (b, g1)" by (meson surj_pair)
  with Cons.prems obtain bs' where bs': "case_blocks vss (if vs = [] then Some b else d) g1 = Some (bs', d', g')" "bs = b # bs'"
    "vs = [] \<longrightarrow> d = None"
    by (auto simp: bind_Some_iff Let_def case_prod_unfold split: if_split_asm)
  from Cons.IH [OF bs'(1)] bs'(2,3) show ?case by (auto simp: default_case_Cons split: option.splits if_splits)
qed

lemma case_table_map: "case_table vss (map f ks) = map (\<lambda>(v, k). (v, f k)) (case_table vss ks)"
proof (induction vss arbitrary: ks)
  case (Cons vs vss)
  then show ?case by (cases ks) (auto simp: case_table_def)
qed (simp add: case_table_def)

lemma case_table_nth:
  assumes "length bs = length vss"
  shows "case_table vss bs = map (\<lambda>(v, k). (v, bs ! k)) (case_table vss [0..<length vss])"
  using case_table_map [of vss "(!) bs" "[0..<length vss]"] assms by (metis map_nth)

lemma case_table_snd: "p \<in> set (case_table vss ks) \<Longrightarrow> snd p \<in> set ks"
  by (auto simp: case_table_def dest: set_zip_rightD)

lemma step_switch:
  assumes "prolongs g fin" "blocks_ok fin" "b < nblocks g" "code g b = xs @ [w]" "old (gb_ir g) w" "ir_op (gb_ir g) w = SwitchOp df cs"
    "ir_operands (gb_ir g) w = Some [v]"
  shows "cstep (gb_ir fin) (gb_cfg fin) (b, length xs) ds =
    (case decide ds of (d, ds) \<Rightarrow> Some (if d < length cs then ([Case v (Some (fst (cs ! d)))], Some (snd (cs ! d), 0), ds)
                                      else ([Case v None], Some (df, 0), ds)))"
proof -
  from prolongs_code [OF assms(1,3) _ assms(2), of "length xs"] assms(4) obtain js where
    js: "cf_insts (gb_cfg fin) b = Some js" "length xs < length js" "js ! length xs = w" by auto
  have "ir_op (gb_ir fin) w = SwitchOp df cs" using prolongs_op [OF assms(1,5)] assms(6) by simp
  moreover have "ir_operands (gb_ir fin) w = Some [v]" using prolongs_operands [OF assms(1,5)] assms(6,7) by (simp add: jump_def)
  ultimately show ?thesis using js by (auto simp: cstep_def split: prod.splits)
qed

text \<open>The bodies of a switch, each from its own empty block to the block after the switch.\<close>

definition cases_sim :: "genblocks \<Rightarrow> (vref list \<times> stm) list \<Rightarrow> bbref list \<Rightarrow> bbref \<Rightarrow> genblocks \<Rightarrow> bool" where
  "cases_sim fin cs bs epi g' \<longleftrightarrow>
     (\<forall>k < length cs. \<forall>ds gx. prolongs g' gx \<longrightarrow> code gx epi = [] \<longrightarrow>
        reaches fin gx (Some epi) (bs ! k, 0) ds (eval_case (gb_ir fin) cs (Some k) ds))"

lemma case_sim_step:
  assumes re: "ready D (ls @ ls') (xs @ ys) None g" and bs: "case_targets_ok (b # bs) g" and emp: "code g b = []"
    and F: "ready D ls xs (Some b) g \<Longrightarrow> framed D ls (Some b) g r g1"
    and br: "branch_unless_left epi (Some b) g1 = Some g2"
    and C: "ready (D \<union> set ls) ls' ys None g2 \<Longrightarrow> case_targets_ok bs g2 \<Longrightarrow> cases_framed (D \<union> set ls) ls' bs g2 g'"
    and ex: "prolongs g' fin" "blocks_ok fin" and r: "r = Some b \<or> r = None"
    and S: "prolongs g1 fin \<Longrightarrow> sim fin (eval (gb_ir fin) t) en ls (Some b) g r g1"
    and CS: "prolongs g2 fin \<Longrightarrow> cases_sim fin cs bs epi g'"
  shows "cases_sim fin ((vs, t) # cs) (b # bs) epi g'"
proof -
  note I = case_frame [OF re bs F br C]
  have ok1: "blocks_ok g1" and c: "cur_ok r g1" using I(3) by (simp_all add: framed_def)
  have G12: "prolongs g1 g2" using widensD(1) [OF branch_grows(4) [OF br ok1]] by simp
  have "prolongs g2 g'" using C [OF I(4,5)] by (simp add: cases_framed_def widens_def)
  note X2 = prolongs_trans [OF this ex(1)]
  note S1 = S [OF prolongs_trans [OF G12 X2]]
  have "reaches fin gx (Some epi) (b, 0) ds (eval (gb_ir fin) t ds)" if "prolongs g' gx" "code gx epi = []" for gx ds
  proof (rule reaches_branch [OF _ br r ok1 X2 ex(2) c _ that(2)])
    show "reaches fin g1 r (b, 0) ds (eval (gb_ir fin) t ds)" using S1 emp unleft_empty [OF emp] by (fastforce simp: sim_def)
    have "prolongs g1 gx" by (rule prolongs_trans [OF G12 prolongs_trans [OF \<open>prolongs g2 g'\<close> that(1)]])
    then show "gb_labelmap g1 \<subseteq>\<^sub>m gb_labelmap gx" by (simp add: prolongs_def)
  qed
  moreover note CS [OF X2]
  ultimately show ?thesis unfolding cases_sim_def by (auto split: nat.split simp: less_Suc_eq_0_disj)
qed

lemma switch_sim:
  assumes m: "case_blocks (map fst cs) None g1 = Some (bs, d, g2)" "mkLLVMBlock ''epilog'' ChooseVer g2 = (ep, g3)"
      "df = (case d of Some b \<Rightarrow> b | None \<Rightarrow> ep)"
    and sw: "append_new (SwitchOp df []) [v] VoidTy '''' c1 g4 = Some (sw, g5)"
      "fold_opt (add_const sw df) (case_table (map fst cs) bs) g5 = Some g'"
    and re: "ready D ls xs c1 g1" and nol: "ls = []"
    and C: "ready D ls xs None g3 \<Longrightarrow> case_targets_ok bs g3 \<Longrightarrow> cases_framed D ls bs g3 g4"
    and ex: "prolongs g' fin" "blocks_ok fin"
    and S: "prolongs g4 fin \<Longrightarrow> distinct bs \<Longrightarrow> \<forall>b \<in> set bs. code g3 b = [] \<Longrightarrow> cases_sim fin cs bs ep g4"
  shows "sim fin (switch_choice v (map fst cs) (eval_case (gb_ir fin) cs)) en ls c1 g1 (Some ep) g'"
proof -
  note I = switch_frame [OF m(1,2) sw re C]
  have ok4: "blocks_ok g4" and g34: "widens (set bs) g3 g4" using I(4) nol by (simp_all add: cases_framed_def label_blocks_def)
  have len: "length bs = length cs" using I(6) by simp
  from switch_grows [OF sw ok4] obtain b where b: "c1 = Some b" "blocks_ok g'" "widens {b} g4 g'" "code g' b = code g4 b @ [sw]"
    "b < nblocks g4" "nblocks g' = nblocks g4" "ir_op (gb_ir g') sw = SwitchOp df (case_table (map fst cs) bs)"
    "ir_operands (gb_ir g') sw = Some [v]" "old (gb_ir g') sw" by metis
  have X4: "prolongs g4 g'" using b(3) by (simp add: widens_def)
  have CS: "cases_sim fin cs bs ep g4" by (rule S [OF prolongs_trans [OF X4 ex(1)]]) (use I(6,7) in auto)
  have b1: "b < nblocks g1" using re b(1) by (simp add: ready_def cur_ok_def)
  have "code g3 b = code g1 b" using widensD(2) [OF I(8) b1] by simp
  moreover have "code g4 b = code g3 b" using widensD(2) [OF g34, of b] b1 I(6,10,12) by simp
  ultimately have c4: "code g4 b = code g1 b" by simp
  define vss where "vss = map fst cs"
  define tab where "tab = case_table vss [0..<length vss]"
  have tb: "case_table (map fst cs) bs = map (\<lambda>(v, k). (v, bs ! k)) tab"
    using case_table_nth [of bs vss] len by (simp add: tab_def vss_def)
  have R: "reaches fin g' (Some ep) (bs ! k, 0) ds (eval_case (gb_ir fin) cs (Some k) ds)" if "k < length cs" for k ds
    using CS that X4 I(5) by (simp add: cases_sim_def)
  have Rn: "reaches fin g' (Some ep) (ep, 0) ds (eval_case (gb_ir fin) cs None ds)" for ds
    using I(5) unleft_empty [OF I(5)] by (cases cs) (auto simp: reaches_def intro: runs_refl)
  have "reaches fin g' (Some ep) (b, length (code g1 b)) ds (switch_choice v vss (eval_case (gb_ir fin) cs) ds)" for ds
  proof -
    obtain e ds1 where d: "decide ds = (e, ds1)" by (cases "decide ds")
    obtain k i where ki: "chosen vss e = (k, i)" by (cases "chosen vss e")
    define q where "q = (case i of None \<Rightarrow> ep | Some j \<Rightarrow> bs ! j)"
    have "cstep (gb_ir fin) (gb_cfg fin) (b, length (code g1 b)) ds = Some ([Case v k], Some (q, 0), ds1) \<and>
      (\<forall>j. i = Some j \<longrightarrow> j < length cs)"
    proof (cases "e < length tab")
      case True
      then have "k = Some (fst (tab ! e))" "i = Some (snd (tab ! e))" using ki by (auto simp: chosen_def tab_def Let_def)
      moreover have "snd (tab ! e) < length cs" using case_table_snd [of "tab ! e" vss "[0..<length vss]"] True
        by (auto simp: tab_def vss_def)
      ultimately show ?thesis using step_switch [OF ex _ b(4,9,7,8), of ds] b(5,6) c4 d True
        by (simp add: tb q_def case_prod_unfold)
    next
      case False
      then have i: "k = None" "i = default_case vss" using ki by (auto simp: chosen_def tab_def Let_def)
      have "df = q" using case_blocks_default [OF m(1)] m(3) i(2) by (auto simp: q_def vss_def split: option.splits)
      with i show ?thesis using step_switch [OF ex _ b(4,9,7,8), of ds] b(5,6) c4 d False default_case_bound [of vss]
        by (simp add: tb vss_def)
    qed
    then have st: "cstep (gb_ir fin) (gb_cfg fin) (b, length (code g1 b)) ds = Some ([Case v k], Some (q, 0), ds1)"
      and bound: "\<forall>j. i = Some j \<longrightarrow> j < length cs" by blast+
    have RR: "reaches fin g' (Some ep) (q, 0) ds1 (eval_case (gb_ir fin) cs i ds1)"
      using R Rn bound by (cases i) (auto simp: q_def)
    obtain es out ds2 where res: "eval_case (gb_ir fin) cs i ds1 = (es, out, ds2)" by (cases "eval_case (gb_ir fin) cs i ds1") auto
    have "switch_choice v vss (eval_case (gb_ir fin) cs) ds = ([Case v k] @ es, out, ds2)"
      using res by (simp add: switch_choice_def d ki emit_def)
    with reaches_prefix [OF runs_one [OF st] RR [unfolded res]] show ?thesis by simp
  qed
  then show ?thesis using nol b(1) by (simp add: sim_def vss_def)
qed

lemma sim_cong:
  "sim fin ev en ls cur g r g' \<Longrightarrow> (\<And>ds. ev' ds = ev ds) \<Longrightarrow> (\<And>l ds. l \<in> set ls \<Longrightarrow> en' l ds = en l ds) \<Longrightarrow>
   sim fin ev' en' ls cur g r g'"
  by (simp add: sim_def)

lemma andthen_no_fall: "(\<And>ds. fst (snd (k ds)) \<noteq> Fall) \<Longrightarrow> fst (snd (andthen res k)) \<noteq> Fall"
  by (auto simp: andthen_def split: prod.splits) (metis fst_conv snd_conv)

lemma ends_no_fall: "ends m t \<Longrightarrow> fst (snd (eval m t ds)) \<noteq> Fall" "ends m t \<Longrightarrow> fst (snd (enter m l t ds)) \<noteq> Fall"
  by (cases t; auto intro!: andthen_no_fall dest: eval_insts_ends simp: prod_eq_iff split: prod.splits; metis eval_insts_ends outcome.distinct(3) prod.collapse)+

lemma reaches_no_fall: "reaches fin g r p ds res \<Longrightarrow> fst (snd res) \<noteq> Fall \<Longrightarrow> reaches fin g r' p ds res"
  by (auto simp: reaches_def split: prod.splits outcome.splits)

lemma gen_sim:
  "gen t cur g = Some (r, g') \<Longrightarrow> ready D (labels t) (insts t) cur g \<Longrightarrow> wf (gb_ir fin) t \<Longrightarrow> prolongs g' fin \<Longrightarrow> blocks_ok fin \<Longrightarrow>
   sim fin (eval (gb_ir fin) t) (\<lambda>l. enter (gb_ir fin) l t) (labels t) cur g r g'"
  "gens ts cur g = Some (r, g') \<Longrightarrow> ready D (labels_list ts) (insts_list ts) cur g \<Longrightarrow> wf_list (gb_ir fin) ts \<Longrightarrow> prolongs g' fin \<Longrightarrow>
   blocks_ok fin \<Longrightarrow> sim fin (evals (gb_ir fin) ts) (\<lambda>l. enters (gb_ir fin) l ts) (labels_list ts) cur g r g'"
  "gen_cases cs bs epi g = Some g' \<Longrightarrow> ready D (labels_cases cs) (insts_cases cs) None g \<Longrightarrow> case_targets_ok bs g \<Longrightarrow>
   length bs = length cs \<Longrightarrow> distinct bs \<Longrightarrow> \<forall>b \<in> set bs. code g b = [] \<Longrightarrow> wf_cases (gb_ir fin) cs \<Longrightarrow> prolongs g' fin \<Longrightarrow>
   blocks_ok fin \<Longrightarrow> cases_sim fin cs bs epi g'"
proof (induction t and ts and cs arbitrary: D cur g r g' and D cur g r g' and D bs epi g g' rule: tree_induct)
  case (1 ks xs)
  from "1.prems"(1) show ?case
  proof (rule gen_ExprE)
    fix c1 g1 assume a: "gens ks cur g = Some (c1, g1)" "place xs c1 g1 = Some (r, g')"
    have re: "ready D (labels_list ks @ []) (insts_list ks @ xs) cur g" using "1.prems"(2) by simp
    note F = gen_frame(2) [OF a(1) ready_part [OF re]] note re2 = ready_next [OF re F]
    have X: "prolongs g1 g'" using expr_frame(1) [OF a(2) re2] by (simp add: framed_def widens_def)
    note S1 = "1.IH" [OF a(1) ready_part [OF re] _ prolongs_trans [OF X "1.prems"(4)] "1.prems"(5)]
    note S2 = expr_sim [OF a(2) re2 "1.prems"(4,5), of "\<lambda>l ds. ([], Fall, ds)"]
    show ?case unfolding labels.simps
      by (rule sim_cong [OF sim_seq [OF S1 S2 X, unfolded append_Nil2]]) (use F "1.prems"(3) in \<open>auto simp: framed_def\<close>)
  qed
next
  case (2 ts)
  then show ?case by (auto intro: sim_cong)
next
  case (3 c v t f)
  from "3.prems"(1) show ?case
  proof (rule gen_IfE)
    fix c1 g1 tb g2 ft g3 fb g4 g5 r6 g6 g7 r8 g8
    assume a: "gen c cur g = Some (c1, g1)"
      "mkLLVMBlock ''then'' ChooseVer g1 = (tb, g2)" "mkLLVMBlock ''fallthrough'' ChooseVer g2 = (ft, g3)"
      "mkLLVMBlock ''else'' ChooseVer g3 = (fb, g4)" "CreateCondBr tb fb v c1 g4 = Some g5"
      "gen t (Some tb) g5 = Some (r6, g6)" "branch_unless_left ft r6 g6 = Some g7" "gen f (Some fb) g7 = Some (r8, g8)"
      "branch_unless_left ft r8 g8 = Some g'" "r = Some ft"
    have re: "ready D (labels c @ labels t @ labels f) (insts c @ insts t @ insts f) cur g" using "3.prems"(2) by simp
    have w: "wf (gb_ir fin) c" "wf (gb_ir fin) t" "wf (gb_ir fin) f" using "3.prems"(3) by simp_all
    note F = gen_frame(1) [OF a(1) ready_part [OF re]] note re2 = ready_next [OF re F]
    note Ft = gen_frame(1) [OF a(6)] note Ff = gen_frame(1) [OF a(8)]
    note I = if_frame [OF a(2,3,4,5,7,9) re2 Ft Ff]
    have X: "prolongs g1 g'" using I(1) by (simp add: framed_def widens_def)
    note S1 = "3.IH"(1) [OF a(1) ready_part [OF re] w(1) prolongs_trans [OF X "3.prems"(4)] "3.prems"(5)]
    note S2 = if_sim [OF a(2,3,4,5,7,9) re2 Ft Ff "3.prems"(4,5)
        "3.IH"(2) [OF a(6) I(2) w(2) _ "3.prems"(5)] "3.IH"(3) [OF a(8) I(3) w(3) _ "3.prems"(5)]]
    show ?thesis unfolding a(10) labels.simps
      by (rule sim_cong [OF sim_seq [OF S1 S2 X]]) (use F re in \<open>auto simp: framed_def ready_def\<close>)
  qed
next
  case (4 c v cs)
  from "4.prems"(1) show ?case
  proof (rule gen_SwitchE)
    fix c1 g1 bs d g2 ep g3 df g4 sw g5
    assume a: "gen c cur g = Some (c1, g1)" "case_blocks (map fst cs) None g1 = Some (bs, d, g2)"
      "mkLLVMBlock ''epilog'' ChooseVer g2 = (ep, g3)" "df = (case d of Some b \<Rightarrow> b | None \<Rightarrow> ep)"
      "gen_cases cs bs ep g3 = Some g4" "append_new (SwitchOp df []) [v] VoidTy '''' c1 g4 = Some (sw, g5)"
      "fold_opt (add_const sw df) (case_table (map fst cs) bs) g5 = Some g'" "r = Some ep"
    have re: "ready D (labels c @ labels_cases cs) (insts c @ insts_cases cs) cur g" using "4.prems"(2) by simp
    have w: "wf (gb_ir fin) c" "wf_cases (gb_ir fin) cs" using "4.prems"(3) by simp_all
    have len: "length bs = length cs" using case_blocks_length [OF a(2)] by simp
    note F = gen_frame(1) [OF a(1) ready_part [OF re]] note re2 = ready_next [OF re F]
    note Fc = gen_frame(3) [OF a(5) _ _ len]
    note I = switch_frame [OF a(2,3,6,7) re2 Fc]
    have X: "prolongs g1 g'" using I(1) by (simp add: framed_def widens_def)
    note S1 = "4.IH"(1) [OF a(1) ready_part [OF re] w(1) prolongs_trans [OF X "4.prems"(4)] "4.prems"(5)]
    have S2: "sim fin (switch_choice v (map fst cs) (eval_case (gb_ir fin) cs)) (\<lambda>l ds. ([], Fall, ds)) (labels_cases cs) c1 g1 (Some ep) g'"
      by (rule switch_sim [OF a(2,3,4,6,7) re2 wf_cases_labels [OF w(2)] Fc "4.prems"(4,5)
            "4.IH"(2) [OF a(5) I(2,3) len _ _ w(2) _ "4.prems"(5)]])
    show ?thesis unfolding a(8) labels.simps
      by (rule sim_cong [OF sim_seq [OF S1 S2 X]]) (use F re wf_cases_labels [OF w(2)] in \<open>auto simp: framed_def ready_def\<close>)
  qed
next
  case (5 t)
  from "5.prems"(1) show ?case
  proof (rule gen_ReturnE)
    assume a: "gen t cur g = Some (cur, g')" "r = None"
    have "sim fin (eval (gb_ir fin) t) (\<lambda>l. enter (gb_ir fin) l t) (labels t) cur g cur g'"
      by (rule "5.IH" [OF a(1)]) (use "5.prems" in auto)
    moreover have en: "ends (gb_ir fin) t" using "5.prems"(3) by simp
    note reaches_no_fall [OF _ ends_no_fall(1) [OF en]] reaches_no_fall [OF _ ends_no_fall(2) [OF en]]
    ultimately show ?thesis unfolding sim_def eval.simps enter.simps labels.simps by blast
  qed
next
  case (6 l)
  note G = goto_frame [of l cur g r g' D]
  have "reaches fin g' r (b, length (code g b)) ds ([], Jump l, ds)" if b: "cur = Some b" "unleft g b" for b ds
  proof -
    from G(3) "6.prems" b obtain lb v where v: "gb_labelmap g' l = Some lb" "code g' b = code g b @ [v]"
      "ir_op (gb_ir g') v = BrOp lb" "old (gb_ir g') v" by auto
    have "b < nblocks g'" using "6.prems"(2) b(1) G(1) "6.prems"(1) widensD(3) by (fastforce simp: ready_def cur_ok_def framed_def)
    from step_branch [OF "6.prems"(4,5) this v(2,4,3)] v(1) show ?thesis by (simp add: reaches_def)
  qed
  then show ?case by (simp add: sim_def)
next
  case (7 l)
  note G = label_frame [of l cur g r g' D]
  from G(2) "7.prems" obtain lb where lb: "r = Some lb" "gb_labelmap g' l = Some lb" "code g' lb = []"
    "\<forall>b. cur = Some b \<longrightarrow> (\<exists>v. code g' b = code g b @ [v] \<and> ir_op (gb_ir g') v = BrOp lb \<and> old (gb_ir g') v)" by auto
  have "reaches fin g' r (b, length (code g b)) ds ([], Fall, ds)" if b: "cur = Some b" for b ds
  proof -
    from lb(4) b obtain v where v: "code g' b = code g b @ [v]" "ir_op (gb_ir g') v = BrOp lb" "old (gb_ir g') v" by auto
    have "b < nblocks g'" using "7.prems"(2) b G(1) "7.prems"(1) widensD(3) by (fastforce simp: ready_def cur_ok_def framed_def)
    from step_branch [OF "7.prems"(4,5) this v(1,3,2)] lb show ?thesis by (simp add: reaches_def unleft_empty)
  qed
  moreover have "reaches fin g' r (lb, 0) ds ([], Fall, ds)" for ds using lb by (auto simp: reaches_def unleft_empty intro: runs_refl)
  ultimately show ?case using lb(2) by (simp add: sim_def)
next
  case 8
  then show ?case by (auto simp: sim_def reaches_def intro: runs_refl)
next
  case (9 t ts)
  from "9.prems"(1) show ?case
  proof (rule gens_ConsE)
    fix c1 g1 assume a: "gen t cur g = Some (c1, g1)" "gens ts c1 g1 = Some (r, g')"
    have re: "ready D (labels t @ labels_list ts) (insts t @ insts_list ts) cur g" using "9.prems"(2) by simp
    note F = gen_frame(1) [OF a(1) ready_part [OF re]] note re2 = ready_next [OF re F]
    have X: "prolongs g1 g'" using gen_frame(2) [OF a(2) re2] by (simp add: framed_def widens_def)
    have w: "wf (gb_ir fin) t" "wf_list (gb_ir fin) ts" using "9.prems"(3) by simp_all
    note S1 = "9.IH"(1) [OF a(1) ready_part [OF re] w(1) prolongs_trans [OF X "9.prems"(4)] "9.prems"(5)]
    note S2 = "9.IH"(2) [OF a(2) re2 w(2) "9.prems"(4,5)]
    show ?thesis unfolding labels_list.simps
      by (rule sim_cong [OF sim_seq [OF S1 S2 X]]) (use F re in \<open>auto simp: framed_def ready_def\<close>)
  qed
next
  case 10
  then show ?case by (simp add: cases_sim_def)
next
  case (11 vs t cs)
  from "11.prems"(4) obtain b bs' where bs: "bs = b # bs'" "length bs' = length cs" by (cases bs) auto
  from "11.prems"(1) [unfolded bs] show ?case
  proof (rule gen_casesE)
    fix r g1 g2 assume a: "gen t (Some b) g = Some (r, g1)" "branch_unless_left epi (Some b) g1 = Some g2"
      "gen_cases cs bs' epi g2 = Some g'"
    have re: "ready D (labels t @ labels_cases cs) (insts t @ insts_cases cs) None g" using "11.prems"(2) by simp
    have T: "case_targets_ok (b # bs') g" using "11.prems"(3) bs by simp
    have w: "wf (gb_ir fin) t" "straight t" "wf_cases (gb_ir fin) cs" using "11.prems"(7) by simp_all
    note Ft = gen_frame(1) [OF a(1)] note Fc = gen_frame(3) [OF a(3) _ _ bs(2)]
    note I = case_frame [OF re T Ft a(2) Fc]
    have rb: "r = Some b \<or> r = None"
      using straight_gen(1) [OF w(2) a(1)] "11.prems"(2) by (auto simp: ready_def)
    have "code g2 x = []" if "x \<in> set bs'" for x
    proof -
      have "x < nblocks g" "x \<noteq> b" "no_label x g" "code g x = []"
        using that "11.prems"(5,6) T bs by (auto simp: case_targets_ok_def)
      moreover have "x \<notin> set_option (Some b) \<union> label_blocks (labels t) g" using \<open>x \<noteq> b\<close> no_label_touched [OF \<open>no_label x g\<close>] by simp
      moreover have G1: "widens (set_option (Some b) \<union> label_blocks (labels t) g) g g1" using I(3) by (simp add: framed_def)
      ultimately have "code g1 x = []" using widensD(2) [OF G1, of x] by simp
      moreover have "x < nblocks g1" using \<open>x < nblocks g\<close> I(3) widensD(3) by (fastforce simp: framed_def)
      moreover have "blocks_ok g1" using I(3) by (simp add: framed_def)
      ultimately show ?thesis using widensD(2) [OF branch_grows(4) [OF a(2)], of x] \<open>x \<noteq> b\<close> by simp
    qed
    then have emp: "\<forall>x \<in> set bs'. code g2 x = []" by blast
    have d: "distinct bs'" using "11.prems"(5) bs by simp
    show ?thesis unfolding bs(1)
      by (rule case_sim_step [OF re T _ Ft a(2) Fc "11.prems"(8,9) rb "11.IH"(1) [OF a(1) I(2) w(1) _ "11.prems"(9)]
            "11.IH"(2) [OF a(3) I(4,5) bs(2) d emp w(3) "11.prems"(8,9)]]) (use "11.prems"(6) bs in simp_all)
  qed
qed

section \<open>Function bodies\<close>

text \<open>The semantics reads the operations of the instructions of the tree only.\<close>

lemma eval_insts_cong: "\<forall>i \<in> set xs. ir_op m i = ir_op m' i \<Longrightarrow> eval_insts m xs ds = eval_insts m' xs ds"
  by (induction xs) auto

lemma eval_cong:
  "\<forall>i \<in> set (insts t). ir_op m i = ir_op m' i \<Longrightarrow> eval m t = eval m' t \<and> enter m l t = enter m' l t \<and> wf m t = wf m' t"
  "\<forall>i \<in> set (insts_list ts). ir_op m i = ir_op m' i \<Longrightarrow>
     evals m ts = evals m' ts \<and> enters m l ts = enters m' l ts \<and> wf_list m ts = wf_list m' ts"
  "\<forall>i \<in> set (insts_cases cs). ir_op m i = ir_op m' i \<Longrightarrow>
     eval_case m cs = eval_case m' cs \<and> enter_case m l cs = enter_case m' l cs \<and> wf_cases m cs = wf_cases m' cs"
proof (induction t and ts and cs rule: tree_induct)
  case (1 ks xs)
  then have "eval_insts m xs = eval_insts m' xs" using eval_insts_cong by (auto intro!: ext)
  with 1 show ?case by (auto intro!: ext)
next
  case (5 t)
  then have "ends m t = ends m' t" by (cases t) (auto simp: last_in_set)
  with 5 show ?case by (auto intro!: ext)
qed (auto intro!: ext split: option.split nat.split)

lemma finishFunction_same:
  assumes "finishFunction E entry g = Some g'" "gb_dibuildhelper g = None"
  shows "gb_cfg g' = gb_cfg g" "gb_ir g' = gb_ir g" "gb_labelmap g' = gb_labelmap g"
proof -
  have one: "nd_ir s' = nd_ir s" if "default_initializer f fr i s = Some s'" for f fr i s s'
    using that by (auto simp: default_initializer_def var_setInitializer_def bind_Some_iff split: if_split_asm)
  have all: "nd_ir s' = nd_ir s" if "fold_opt (default_initializer f fr) is s = Some s'" for f fr "is" s s'
    by (rule fold_opt_inv [OF _ _ that, of "\<lambda>u. nd_ir u = nd_ir s"]) (auto dest: one)
  from assms obtain f s tm where f: "fixupProlog entry (gb_cfg g) (gb_function g, gb_s g, gb_tm g) = Some (f, s, tm)"
    "g' = g\<lparr>gb_function := f, gb_s := s, gb_tm := tm\<rparr>"
    by (auto simp: finishFunction_def bind_Some_iff)
  from f(1) have "nd_ir s = nd_ir (gb_s g)" by (auto simp: fixupProlog_def bind_Some_iff dest!: all)
  with f(2) show "gb_cfg g' = gb_cfg g" "gb_ir g' = gb_ir g" "gb_labelmap g' = gb_labelmap g" by (simp_all add: gb_ir_def)
qed

lemma fixupEpilog_unleft:
  assumes "fixupEpilogBlock b g = Some g'" "blocks_ok g" "unleft g b"
  obtains ri where "blocks_ok g'" "prolongs g g'" "code g' b = code g b @ [ri]" "ir_op (gb_ir g') ri = RetOp" "b < nblocks g" "old (gb_ir g') ri"
proof -
  obtain t where t: "getTerminator (gb_ir g) (gb_cfg g) b = Some t" using assms(1) by (auto simp: fixupEpilogBlock_def bind_Some_iff)
  then have "t = None" using getTerminator_unleft [OF t] assms(3) by simp
  have same: "set_ir (gb_ir g) g = g" by (simp add: set_ir_def gb_ir_def)
  have "\<exists>m ops ri. ir_keeps (gb_ir g) m \<and> append_new RetOp ops VoidTy [] (Some b) (set_ir m g) = Some (ri, g')"
  proof -
    have k: "ir_keeps (gb_ir g) (snd (folded_constant NoOp [] u (gb_ir g)))" for u
      by (auto simp: folded_constant_def ir_keeps_def old_def Let_def)
    show ?thesis
    proof (cases "\<exists>ri. append_new RetOp [] VoidTy [] (Some b) g = Some (ri, g')")
      case True
      then show ?thesis using same ir_keeps_refl by metis
    next
      case False
      then obtain u zv ri where "append_new RetOp [zv] VoidTy [] (Some b) (set_ir (snd (folded_constant NoOp [] u (gb_ir g))) g) = Some (ri, g')"
        using assms(1) t \<open>t = None\<close>
        by (auto simp: fixupEpilogBlock_def bind_Some_iff Let_def case_prod_unfold split: if_split_asm)
      with k show ?thesis by blast
    qed
  qed
  then obtain m ops ri where m: "ir_keeps (gb_ir g) m" "append_new RetOp ops VoidTy [] (Some b) (set_ir m g) = Some (ri, g')" by blast
  note s = set_ir_grows [OF m(1) assms(2)]
  from append_new_grows [OF m(2) _ s(1)] obtain b' where *: "Some b = Some b'" "blocks_ok g'" "widens {b'} (set_ir m g) g'"
    "code g' b' = code (set_ir m g) b' @ [ri]" "b' < nblocks (set_ir m g)" "ir_op (gb_ir g') ri = RetOp" "old (gb_ir g') ri" by auto
  have "prolongs g g'" by (rule prolongs_trans [OF widensD(1) [OF s(2)] widensD(1) [OF *(3)]])
  with that * s(3,4) show thesis by simp
qed

lemma exec_reaches:
  assumes "\<And>ds. reaches fin g r p ds (eval m t ds)"
    and "\<And>l b ds. l \<in> set (labels t) \<Longrightarrow> gb_labelmap g l = Some b \<Longrightarrow> reaches fin g r (b, 0) ds (enter m l t ds)"
  shows "reaches fin g r p ds (exec k m t ds)"
proof (induction k)
  case 0
  then show ?case using assms(1) by simp
next
  case (Suc k)
  obtain es out ds1 where e: "exec k m t ds = (es, out, ds1)" by (cases "exec k m t ds") auto
  show ?case
  proof (cases out)
    case (Jump l)
    show ?thesis
    proof (cases "l \<in> set (labels t)")
      case True
      from Suc e Jump obtain b where b: "gb_labelmap g l = Some b" "runs (gb_ir fin) (gb_cfg fin) (Some p) ds es (Some (b, 0)) ds1"
        by (auto simp: reaches_def)
      obtain es2 out2 ds2 where e2: "enter m l t ds1 = (es2, out2, ds2)" by (cases "enter m l t ds1") auto
      from reaches_prefix [OF b(2)] assms(2) [OF True b(1), of ds1] e2 have "reaches fin g r p ds (es @ es2, out2, ds2)" by simp
      then show ?thesis by (simp add: e Jump True e2)
    next
      case False
      with Suc e Jump show ?thesis by simp
    qed
  qed (use Suc e in simp_all)
qed

lemma fixupEpilog_prolongs:
  assumes "fixupEpilogBlock b g = Some g'" "blocks_ok g"
  shows "blocks_ok g' \<and> prolongs g g'"
proof (cases "unleft g b")
  case True
  from fixupEpilog_unleft [OF assms this] show ?thesis by blast
next
  case False
  from assms(1) obtain t where t: "getTerminator (gb_ir g) (gb_cfg g) b = Some t" by (auto simp: fixupEpilogBlock_def bind_Some_iff)
  with False getTerminator_unleft [OF t] assms show ?thesis by (simp add: fixupEpilogBlock_def)
qed

text \<open>
  C1. Code generation is correct for a function body within these limits: its tree has no defer or exception
  statement, every case body of a switch is straight (an if or a switch inside one is left without a
  branch) and every return statement ends with a return instruction (\<open>wf\<close>), its labels are distinct and
  not yet placed, its instructions exist and are no branches, and there is no debug information, no enclosing pad
  and no finally block (\<open>plain\<close>). Let the walk, started in the entry block, the end of the function
  and the fixup of the last block give \<open>g3\<close>. For every list of decisions and every number of jumps: what the tree
  executes, instruction by instruction and decision by decision, the blocks execute from the point
  the walk started at. Where the tree falls off its end the blocks go on to a return instruction; where it
  returns they stop; where it is about to jump they are at the beginning of the label's block.
\<close>

theorem body_correct:
  assumes tree: "stm_of n (gb_s g) x = Some t" "wf (gb_ir g) t" "distinct (labels t)"
      "\<forall>i \<in> set (insts t). old (gb_ir g) i \<and> \<not> jump (ir_op (gb_ir g) i)"
    and start: "plain g" "blocks_ok g" "gb_labelmap g = Map.empty" "b < nblocks g" "unleft g b"
    and "gwalk n E x (Some b) g = Some (r, g1)" "finishFunction E entry g1 = Some g2"
      "(case r of None \<Rightarrow> Some g2 | Some b' \<Rightarrow> fixupEpilogBlock b' g2) = Some g3"
    and "exec k (gb_ir g) t ds = (es, out, ds')"
  shows "case out of
      Fall \<Rightarrow> \<exists>ri. ir_op (gb_ir g3) ri = RetOp \<and>
        runs (gb_ir g3) (gb_cfg g3) (Some (b, length (code g b))) ds (es @ [Do ri]) None ds'
    | Ret \<Rightarrow> runs (gb_ir g3) (gb_cfg g3) (Some (b, length (code g b))) ds es None ds'
    | Jump l \<Rightarrow> \<exists>lb. gb_labelmap g1 l = Some lb \<and>
        runs (gb_ir g3) (gb_cfg g3) (Some (b, length (code g b))) ds es (Some (lb, 0)) ds'"
proof -
  have gen: "gen t (Some b) g = Some (r, g1)" using gwalk_gen [OF tree(1) start(1)] assms(10) by simp
  have re: "ready {} (labels t) (insts t) (Some b) g"
    using tree start plain_orphan by (auto simp: ready_def pending_def cur_ok_def)
  note F = gen_frame(1) [OF gen re]
  have "gb_dibuildhelper g1 = None" using gen_static(1) [OF gen plain_orphan [OF start(1)]] start(1)
    by (simp add: static_def plain_def)
  note same = finishFunction_same [OF assms(11) this]
  have c12: "code g2 = code g1" "nblocks g2 = nblocks g1" using same by (simp_all add: code_def nblocks_def fun_eq_iff)
  have ok2: "blocks_ok g2" using F same c12 by (simp add: framed_def blocks_ok_def)
  have X12: "prolongs g1 g2" using same c12 by (simp add: prolongs_def)
  have u12: "unleft g2 b' = unleft g1 b'" for b' using c12(1) same(2) by (simp add: unleft_def)
  have f3: "blocks_ok g3 \<and> prolongs g2 g3" using assms(12) ok2 fixupEpilog_prolongs by (cases r) auto
  note X13 = prolongs_trans [OF X12 conjunct2 [OF f3]]
  have X03: "prolongs g g3" using prolongs_trans [OF widensD(1) X13] F by (auto simp: framed_def)
  have ops: "\<forall>i \<in> set (insts t). ir_op (gb_ir g3) i = ir_op (gb_ir g) i" using prolongs_op [OF X03] tree(4) by blast
  have "eval (gb_ir g3) t = eval (gb_ir g) t" "wf (gb_ir g3) t" and en: "enter (gb_ir g3) l t = enter (gb_ir g) l t" for l
    using eval_cong(1) [OF ops] tree(2) by auto
  with gen_sim(1) [OF gen re _ X13] f3 have S: "sim g3 (eval (gb_ir g) t) (\<lambda>l. enter (gb_ir g) l t) (labels t) (Some b) g r g1" by simp
  have R: "reaches g3 g1 r (b, length (code g b)) ds (exec k (gb_ir g) t ds)"
    by (rule exec_reaches) (use S start(5) in \<open>simp_all add: sim_def\<close>)
  show ?thesis
  proof (cases out)
    case Fall
    with R assms(13) obtain b' where b': "r = Some b'" "unleft g1 b'"
      "runs (gb_ir g3) (gb_cfg g3) (Some (b, length (code g b))) ds es (Some (b', length (code g1 b'))) ds'"
      by (auto simp: reaches_def)
    from b'(1) assms(12) have "fixupEpilogBlock b' g2 = Some g3" by simp
    from fixupEpilog_unleft [OF this ok2] u12 b'(2) obtain ri where ri: "code g3 b' = code g2 b' @ [ri]"
      "ir_op (gb_ir g3) ri = RetOp" "b' < nblocks g2" by metis
    have "b' < nblocks g3" using ri(3) f3 by (simp add: prolongs_def)
    with f3 have "cf_insts (gb_cfg g3) b' \<noteq> None" unfolding blocks_ok_def by blast
    with ri(1) c12(1) have cf: "cf_insts (gb_cfg g3) b' = Some (code g1 b' @ [ri])" by (auto simp: code_def)
    from step_inst [OF cf, of "length (code g1 b')" ds'] ri(2)
    have "runs (gb_ir g3) (gb_cfg g3) (Some (b', length (code g1 b'))) ds' [Do ri] None ds'" by (simp add: jump_def)
    from runs_trans [OF b'(3) this] ri(2) Fall show ?thesis by auto
  next
    case (Jump l)
    with R assms(13) show ?thesis by (auto simp: reaches_def)
  next
    case Ret
    with R assms(13) show ?thesis by (auto simp: reaches_def)
  qed
qed

end
