(* ===== verification/GenTotal.thy ===== *)
theory GenTotal
  imports GenCorrect
begin

text \<open>
  The walk returns. For a tree without branching in dead code, whose instructions are there and
  whose conditions are values that dead code does not own, generation gives a result (\<open>gen_total\<close>);
  and it says whether the end of the tree is reached (\<open>flow\<close>).
\<close>

section \<open>Flow\<close>

text \<open>Whether there is a current block after a tree, given whether there is one before; \<open>None\<close> is an abort.\<close>

fun flow :: "stm \<Rightarrow> bool \<Rightarrow> bool option"
  and flows :: "stm list \<Rightarrow> bool \<Rightarrow> bool option"
  and flow_cases :: "(vref list \<times> stm) list \<Rightarrow> bool" where
  "flow (TExpr ks is) c = flows ks c"
| "flow (TBlock ts) c = flows ts c"
| "flow (TIf cn v t f) c =
     (if flow cn c = Some True \<and> flow t True \<noteq> None \<and> flow f True \<noteq> None then Some True else None)"
| "flow (TSwitch cn v cs) c =
     (if flow cn c = Some True \<and> length (filter (\<lambda>p. fst p = []) cs) \<le> 1 \<and> flow_cases cs then Some True else None)"
| "flow (TReturn t) c = (if straight t \<and> flow t c = Some c then Some False else None)"
| "flow (TGoto l) c = Some False"
| "flow (TLabel l) c = Some True"
| "flows [] c = Some c"
| "flows (t # ts) c = (case flow t c of None \<Rightarrow> None | Some c' \<Rightarrow> flows ts c')"
| "flow_cases [] = True"
| "flow_cases ((vs, t) # cs) = (flow t True \<noteq> None \<and> flow_cases cs)"

text \<open>The instructions in dead code.\<close>

fun deads :: "stm \<Rightarrow> bool \<Rightarrow> vref list"
  and deads_list :: "stm list \<Rightarrow> bool \<Rightarrow> vref list"
  and deads_cases :: "(vref list \<times> stm) list \<Rightarrow> vref list" where
  "deads (TExpr ks is) c = deads_list ks c @ (if flows ks c = Some False then is else [])"
| "deads (TBlock ts) c = deads_list ts c"
| "deads (TIf cn v t f) c = deads cn c @ deads t True @ deads f True"
| "deads (TSwitch cn v cs) c = deads cn c @ deads_cases cs"
| "deads (TReturn t) c = deads t c"
| "deads (TGoto l) c = []"
| "deads (TLabel l) c = []"
| "deads_list [] c = []"
| "deads_list (t # ts) c = deads t c @ (case flow t c of None \<Rightarrow> [] | Some c' \<Rightarrow> deads_list ts c')"
| "deads_cases [] = []"
| "deads_cases ((vs, t) # cs) = deads t True @ deads_cases cs"

text \<open>The values branched on; the flag says that it must be an \<open>i1\<close>.\<close>

fun vals :: "stm \<Rightarrow> (vref \<times> bool) list"
  and vals_list :: "stm list \<Rightarrow> (vref \<times> bool) list"
  and vals_cases :: "(vref list \<times> stm) list \<Rightarrow> (vref \<times> bool) list" where
  "vals (TExpr ks is) = vals_list ks"
| "vals (TBlock ts) = vals_list ts"
| "vals (TIf cn v t f) = (v, True) # vals cn @ vals t @ vals f"
| "vals (TSwitch cn v cs) = (v, False) # vals cn @ vals_cases cs"
| "vals (TReturn t) = vals t"
| "vals (TGoto l) = []"
| "vals (TLabel l) = []"
| "vals_list [] = []"
| "vals_list (t # ts) = vals t @ vals_list ts"
| "vals_cases [] = []"
| "vals_cases ((vs, t) # cs) = vals t @ vals_cases cs"

definition sound :: "vref list \<Rightarrow> vref list \<Rightarrow> (vref \<times> bool) list \<Rightarrow> irmem \<Rightarrow> bool" where
  "sound xs ds vs m \<longleftrightarrow> distinct xs \<and> set ds \<subseteq> set xs \<and> (\<forall>i \<in> set xs. old m i \<and> ir_operands m i \<noteq> None) \<and>
     (\<forall>(v, b) \<in> set vs. old m v \<and> ir_live v m \<and> v \<notin> set ds \<and> (b \<longrightarrow> ir_type m v = IntTy 1))"

text \<open>Operands change for the given instructions only, types not at all.\<close>

definition frees :: "vref list \<Rightarrow> irmem \<Rightarrow> irmem \<Rightarrow> bool" where
  "frees ds m m' \<longleftrightarrow> ir_next m \<le> ir_next m' \<and>
     (\<forall>v. old m v \<longrightarrow> ir_type m' v = ir_type m v \<and> (v \<notin> set ds \<longrightarrow> ir_operands m' v = ir_operands m v))"

lemma frees_refl [simp]: "frees ds m m"
  by (simp add: frees_def)

lemma frees_trans: "frees ds m m1 \<Longrightarrow> frees ds' m1 m2 \<Longrightarrow> frees (ds @ ds') m m2"
  unfolding frees_def using old_mono by fastforce

lemma frees_more: "frees ds m m' \<Longrightarrow> set ds \<subseteq> set ds' \<Longrightarrow> frees ds' m m'"
  by (auto simp: frees_def)

lemma deads_insts:
  "set (deads t c) \<subseteq> set (insts t)" "set (deads_list ts c) \<subseteq> set (insts_list ts)" "set (deads_cases cs) \<subseteq> set (insts_cases cs)"
  by (induction t and ts and cs arbitrary: c and c rule: tree_induct) (fastforce split: option.splits)+

lemma sound_part: "sound (xs @ ys) (ds @ es) (vs @ ws) m \<Longrightarrow> set ds \<subseteq> set xs \<Longrightarrow> sound xs ds vs m"
  by (auto simp: sound_def)

lemma sound_next:
  assumes "sound (xs @ ys) (ds @ es) (vs @ ws) m" "frees ds m m'" "set ds \<subseteq> set xs" "set es \<subseteq> set ys"
  shows "sound ys es ws m'"
proof -
  have o: "old m' v" if "old m v" for v using assms(2) that old_mono by (auto simp: frees_def)
  have "old m' i \<and> ir_operands m' i \<noteq> None" if i: "i \<in> set ys" for i
  proof -
    have "i \<notin> set ds" "old m i" "ir_operands m i \<noteq> None" using assms(1,3) i by (auto simp: sound_def)
    then show ?thesis using assms(2) o by (auto simp: frees_def)
  qed
  moreover have "old m' v \<and> ir_live v m' \<and> v \<notin> set es \<and> (b \<longrightarrow> ir_type m' v = IntTy 1)" if "(v, b) \<in> set ws" for v b
  proof -
    have "old m v" "ir_live v m" "v \<notin> set ds" "v \<notin> set es" "b \<longrightarrow> ir_type m v = IntTy 1"
      using assms(1) that by (auto simp: sound_def)
    then show ?thesis using assms(2) o by (auto simp: frees_def ir_live_def)
  qed
  moreover have "distinct ys" using assms(1) by (simp add: sound_def)
  ultimately show ?thesis using assms(4) by (auto simp: sound_def)
qed

section \<open>The primitives return\<close>

lemma push_back_total:
  assumes "b < nblocks g" "blocks_ok g"
  obtains g' where "push_back b i g = Some g'" "gb_ir g' = gb_ir g"
proof -
  from assms have "cf_insts (gb_cfg g) b \<noteq> None" by (simp add: blocks_ok_def)
  then obtain xs where "cf_insts (gb_cfg g) b = Some xs" by blast
  then show thesis using that by (simp add: push_back_def push_inst_def)
qed

lemma append_new_total:
  assumes "cur = Some b" "b < nblocks g" "blocks_ok g" "\<forall>v \<in> set ops. ir_live v (gb_ir g)" "\<And>u. iop \<noteq> AllocaOp u"
  obtains v g' where "append_new iop ops t nm cur g = Some (v, g')" "frees [] (gb_ir g) (gb_ir g')"
proof -
  obtain v m where m: "new_inst iop ops t nm (gb_ir g) = (v, m)" by (meson surj_pair)
  note k = new_inst_keeps [OF m assms(5)]
  have f: "frees [] (gb_ir g) m" using m k(2) by (auto simp: frees_def new_inst_def Let_def)
  note s = set_ir_grows [OF k(1) assms(3)]
  from push_back_total [OF _ s(1), of b v] s(4) assms(2) obtain g' where g': "push_back b v (set_ir m g) = Some g'" "gb_ir g' = m"
    by auto
  have "append_new iop ops t nm cur g = Some (v, g')" using assms(1,4) m g' by (simp add: append_new_def list_all_iff)
  with that f g'(2) show thesis by simp
qed

lemma CreateBr_total:
  assumes "cur = Some b" "b < nblocks g" "blocks_ok g"
  obtains g' where "CreateBr d cur g = Some g'" "frees [] (gb_ir g) (gb_ir g')"
proof -
  from append_new_total [OF assms, of "[]" "BrOp d" VoidTy "[]"] obtain v g' where
    "append_new (BrOp d) [] VoidTy [] cur g = Some (v, g')" "frees [] (gb_ir g) (gb_ir g')" by auto
  with that show thesis by (simp add: CreateBr_def)
qed

lemma branch_total:
  assumes "cur_ok cur g" "blocks_ok g"
  obtains g' where "branch_unless_left d cur g = Some g'" "frees [] (gb_ir g) (gb_ir g')"
proof (cases cur)
  case None
  with that show thesis by (simp add: branch_unless_left_def)
next
  case (Some b)
  then have b: "b < nblocks g" using assms(1) by (simp add: cur_ok_def)
  then have "cf_insts (gb_cfg g) b \<noteq> None" using assms(2) by (simp add: blocks_ok_def)
  then obtain t where "getTerminator (gb_ir g) (gb_cfg g) b = Some t" by (auto simp: getTerminator_def)
  moreover obtain g' where "CreateBr d cur g = Some g'" "frees [] (gb_ir g) (gb_ir g')" by (rule CreateBr_total [OF Some b assms(2)])
  ultimately show thesis using that Some by (cases "t = None") (auto simp: branch_unless_left_def)
qed

lemma place_total:
  "cur_ok cur g \<Longrightarrow> blocks_ok g \<Longrightarrow> distinct xs \<Longrightarrow> \<forall>i \<in> set xs. old (gb_ir g) i \<and> \<not> jump (ir_op (gb_ir g) i) \<and> ir_operands (gb_ir g) i \<noteq> None \<Longrightarrow>
   \<exists>g'. place xs cur g = Some (cur, g') \<and> frees (if cur = None then xs else []) (gb_ir g) (gb_ir g')"
proof (induction xs cur g rule: place.induct)
  case (2 i xs g)
  then obtain m where m: "delete_inst i (gb_ir g) = Some m" by (auto simp: delete_inst_def)
  then have m': "m = (gb_ir g)\<lparr>ir_operands := (ir_operands (gb_ir g))(i := None)\<rparr>" by (auto simp: delete_inst_def bind_Some_iff)
  note s = set_ir_grows [OF delete_keeps(1) [OF m] "2.prems"(2)]
  have io: "\<not> jump (ir_op (gb_ir g) i)" using "2.prems"(4) by simp
  have "\<exists>g'. place xs None (set_ir m g) = Some (None, g') \<and> frees (if (None :: bbref option) = None then xs else []) (gb_ir (set_ir m g)) (gb_ir g')"
    by (rule "2.IH" [OF m]) (use "2.prems" s [OF io] m' in \<open>auto simp: cur_ok_def old_def\<close>)
  then obtain g' where g': "place xs None (set_ir m g) = Some (None, g')" "frees xs m (gb_ir g')" by auto
  have "frees [i] (gb_ir g) m" by (simp add: m' frees_def)
  from frees_trans [OF this g'(2)] m g'(1) show ?case by simp
next
  case (3 i xs b g)
  have oi: "old (gb_ir g) i" using "3.prems"(4) by simp
  from push_back_total [of b g i] "3.prems"(1,2) obtain g1 where g1: "push_back b i g = Some g1" "gb_ir g1 = gb_ir g"
    by (auto simp: cur_ok_def)
  note p = push_back_grows [OF g1(1) "3.prems"(2) oi]
  have "\<exists>g'. place xs (Some b) g1 = Some (Some b, g') \<and> frees (if Some b = None then xs else []) (gb_ir g1) (gb_ir g')"
    by (rule "3.IH" [OF g1(1)]) (use "3.prems" p in \<open>auto simp: cur_ok_def\<close>)
  then show ?case using g1 by auto
qed simp

lemma case_blocks_total:
  "length (filter (\<lambda>c. c = []) cs) \<le> (if d = None then 1 else 0) \<Longrightarrow> \<exists>bs d' g'. case_blocks cs d g = Some (bs, d', g')"
proof (induction cs arbitrary: d g)
  case (Cons c cs)
  obtain b g1 where b: "mkLLVMBlock (if c = [] then ''default'' else ''case'') ChooseVer g = (b, g1)" by (meson surj_pair)
  have "length (filter (\<lambda>c. c = []) cs) \<le> (if (if c = [] then Some b else d) = None then 1 else 0)"
    using Cons.prems by (auto split: if_split_asm)
  from Cons.IH [OF this, of g1] obtain bs d' g' where "case_blocks cs (if c = [] then Some b else d) g1 = Some (bs, d', g')" by blast
  moreover have "c = [] \<longrightarrow> d = None" using Cons.prems by (auto split: if_split_asm)
  ultimately show ?case using b by (auto split: if_split_asm)
qed simp

lemma add_consts_total:
  "ir_op (gb_ir g) sw = SwitchOp df cs \<Longrightarrow> \<exists>g'. fold_opt (add_const sw df) ps g = Some g'"
proof (induction ps arbitrary: g cs)
  case (Cons p ps)
  obtain ci b where p: "p = (ci, b)" by (cases p)
  define g1 where "g1 = set_ir ((gb_ir g)\<lparr>ir_op := (ir_op (gb_ir g))(sw := SwitchOp df (cs @ [p]))\<rparr>) g"
  have "add_const sw df p g = Some g1" using Cons.prems by (simp add: add_const_def p g1_def)
  moreover have "ir_op (gb_ir g1) sw = SwitchOp df (cs @ [p])" by (simp add: g1_def)
  ultimately show ?case using Cons.IH by simp
qed simp

lemma add_consts_frees:
  "ir_op (gb_ir g) sw = SwitchOp df cs \<Longrightarrow> fold_opt (add_const sw df) ps g = Some g' \<Longrightarrow> frees [] (gb_ir g) (gb_ir g')"
  by (drule (1) add_consts) (simp add: frees_def)

section \<open>Generation returns\<close>

lemma goto_total:
  assumes "ready D [] [] cur g"
  obtains g' where "genGoto l cur g = Some (None, g')" "frees [] (gb_ir g) (gb_ir g')"
proof -
  have ok: "blocks_ok g" and c: "cur_ok cur g" and orph: "\<not> gb_emitOrphanedCode g" using assms by (simp_all add: ready_def)
  obtain lb h where h: "getBlockForLabel l g = (lb, h)" by (meson surj_pair)
  note L = getBlockForLabel_grows [OF h ok]
  have "cur_ok cur h" using c widensD(3) [OF L(2)] by (auto simp: cur_ok_def)
  from branch_total [OF this L(1)] obtain g' where g': "branch_unless_left lb cur h = Some g'" "frees [] (gb_ir h) (gb_ir g')" by blast
  have "\<not> gb_emitOrphanedCode g'" using static_branch [OF g'(1)] getBlockForLabel_static [OF h] orph by (simp add: static_def)
  with that g' h L(4) show thesis by (simp add: genGoto_def)
qed

lemma label_total:
  assumes "ready D [l] [] cur g"
  obtains lb g' where "genLabel l cur g = Some (Some lb, g')" "frees [] (gb_ir g) (gb_ir g')"
proof -
  have ok: "blocks_ok g" and c: "cur_ok cur g" using assms by (simp_all add: ready_def)
  obtain lb h where h: "getBlockForLabel l g = (lb, h)" by (meson surj_pair)
  note L = getBlockForLabel_grows [OF h ok]
  show thesis
  proof (cases cur)
    case None
    with that h L(4) show thesis by (simp add: genLabel_def)
  next
    case (Some b)
    have "b < nblocks h" using c widensD(3) [OF L(2)] Some by (auto simp: cur_ok_def)
    from CreateBr_total [OF Some this L(1)] obtain g' where "CreateBr lb cur h = Some g'" "frees [] (gb_ir h) (gb_ir g')" by blast
    with that h L(4) Some show thesis by (simp add: genLabel_def)
  qed
qed

definition returns :: "(bbref option \<times> genblocks) option \<Rightarrow> bool \<Rightarrow> vref list \<Rightarrow> genblocks \<Rightarrow> bool" where
  "returns res q ds g \<longleftrightarrow> (\<exists>r g'. res = Some (r, g') \<and> (r \<noteq> None) = q \<and> frees ds (gb_ir g) (gb_ir g'))"

lemma CondBr_total:
  assumes "cur = Some b" "b < nblocks g" "blocks_ok g" "ir_live v (gb_ir g)" "ir_type (gb_ir g) v = IntTy 1"
  obtains g' where "CreateCondBr t f v cur g = Some g'" "frees [] (gb_ir g) (gb_ir g')"
proof -
  from append_new_total [OF assms(1-3), of "[v]" "CondBrOp t f" VoidTy "[]"] assms(4) obtain w g' where
    "append_new (CondBrOp t f) [v] VoidTy [] cur g = Some (w, g')" "frees [] (gb_ir g) (gb_ir g')" by auto
  with that assms(5) show thesis by (simp add: CreateCondBr_def)
qed

lemma if_total:
  assumes re: "ready D (ls @ ls') (xs @ ys) c1 g1" and c: "c1 = Some b"
    and v: "old (gb_ir g1) v" "ir_live v (gb_ir g1)" "ir_type (gb_ir g1) v = IntTy 1"
    and so: "sound (xs @ ys) (ds @ es) (vs @ ws) (gb_ir g1)" "set ds \<subseteq> set xs" "set es \<subseteq> set ys"
    and F: "\<And>cur g r g'. gen t cur g = Some (r, g') \<Longrightarrow> ready D ls xs cur g \<Longrightarrow> framed D ls cur g r g'"
    and T: "\<And>cur g. ready D ls xs (Some cur) g \<Longrightarrow> sound xs ds vs (gb_ir g) \<Longrightarrow> \<exists>q. returns (gen t (Some cur) g) q ds g"
    and F': "\<And>cur g r g'. gen f cur g = Some (r, g') \<Longrightarrow> ready (D \<union> set ls) ls' ys cur g \<Longrightarrow> framed (D \<union> set ls) ls' cur g r g'"
    and T': "\<And>cur g. ready (D \<union> set ls) ls' ys (Some cur) g \<Longrightarrow> sound ys es ws (gb_ir g) \<Longrightarrow> \<exists>q. returns (gen f (Some cur) g) q es g"
  shows "returns (let (tblock, g) = mkLLVMBlock ''then'' ChooseVer g1; (ft, g) = mkLLVMBlock ''fallthrough'' ChooseVer g;
      (fblock, g) = mkLLVMBlock ''else'' ChooseVer g
      in do { g \<leftarrow> CreateCondBr tblock fblock v c1 g; (tsucc, g) \<leftarrow> gen t (Some tblock) g; g \<leftarrow> branch_unless_left ft tsucc g;
          (fsucc, g) \<leftarrow> gen f (Some fblock) g; g \<leftarrow> branch_unless_left ft fsucc g; Some (Some ft, g) }) True (ds @ es) g1"
proof -
  obtain tb g2 where 2: "mkLLVMBlock ''then'' ChooseVer g1 = (tb, g2)" by (meson surj_pair)
  obtain ft g3 where 3: "mkLLVMBlock ''fallthrough'' ChooseVer g2 = (ft, g3)" by (meson surj_pair)
  obtain fb g4 where 4: "mkLLVMBlock ''else'' ChooseVer g3 = (fb, g4)" by (meson surj_pair)
  have ok: "blocks_ok g1" and b: "b < nblocks g1" and orph: "\<not> gb_emitOrphanedCode g1" using re c by (simp_all add: ready_def cur_ok_def)
  note m2 = mkLLVMBlock_grows [OF 2 ok] note m3 = mkLLVMBlock_grows [OF 3 m2(1)] note m4 = mkLLVMBlock_grows [OF 4 m3(1)]
  have ir4: "gb_ir g4 = gb_ir g1" using m2 m3 m4 by simp
  have b4: "b < nblocks g4" using b m2(4) m3(4) m4(4) by simp
  from CondBr_total [OF c b4 m4(1), of v tb fb] v ir4 obtain g5 where 5: "CreateCondBr tb fb v c1 g4 = Some g5"
    "frees [] (gb_ir g1) (gb_ir g5)" by auto
  from CreateCondBr_grows [OF 5(1) m4(1)] c have cb: "blocks_ok g5" "widens {b} g4 g5" "nblocks g5 = nblocks g4" "gb_labelmap g5 = gb_labelmap g4" by auto
  have g14: "widens {} g1 g4" by (rule widens_trans [OF widens_trans [OF m2(2) m3(2)] m4(2)]) auto
  have g15: "widens (set_option c1) g1 g5" by (rule widens_trans [OF widens_mono [OF g14] cb(2)]) (use c in auto)
  have lm5: "gb_labelmap g5 = gb_labelmap g1" using cb(4) m2(6) m3(6) m4(6) by simp
  have o5: "\<not> gb_emitOrphanedCode g5"
    using mkLLVMBlock_static [OF 2] mkLLVMBlock_static [OF 3] mkLLVMBlock_static [OF 4] static_CreateCondBr [OF 5(1)] orph
    by (simp add: static_def)
  have "framed D [] c1 g1 (Some tb) g5"
    by (rule framed_one [OF g15 lm5 cb(1) o5 _ ok]) (use re cb(3) m2(3,4) m3(4) m4(4) in \<open>auto simp: ready_def\<close>)
  from ready_part [OF ready_next [of D "[]" "ls @ ls'" "[]" "xs @ ys" c1 g1 "Some tb" g5, simplified, OF re this]]
  have R5: "ready D ls xs (Some tb) g5" by simp
  have s5: "sound (xs @ ys) (ds @ es) (vs @ ws) (gb_ir g5)"
    using sound_next [of "[]" "xs @ ys" "[]" "ds @ es" "[]" "vs @ ws", OF _ 5(2)] so by auto
  from T [OF R5 sound_part [OF s5 so(2)]] obtain r6 g6 where 6: "gen t (Some tb) g5 = Some (r6, g6)" "frees ds (gb_ir g5) (gb_ir g6)"
    by (auto simp: returns_def)
  note F6 = F [OF 6(1) R5]
  have ok6: "cur_ok r6 g6" "blocks_ok g6" using F6 by (simp_all add: framed_def)
  from branch_total [OF this] obtain g7 where 7: "branch_unless_left ft r6 g6 = Some g7" "frees [] (gb_ir g6) (gb_ir g7)" by blast
  have R7: "ready (D \<union> set ls) ls' ys (Some fb) g7"
  proof -
    have "\<not> gb_emitOrphanedCode g7" using static_branch [OF 7(1)] F6 by (simp add: framed_def static_def)
    note b7 = branch_grows [OF 7(1) ok6(2)]
    have g56: "widens (set_option (Some tb) \<union> label_blocks ls g5) g5 g6" using F6 by (simp add: framed_def)
    have nl: "no_label fb g7" using no_label_new [OF ok, of fb] lm5 no_label_grows [OF g56, of fb] m2(3,4) m3(3,4) m4(3,4) cb(3) b7(3)
      by (auto simp: no_label_def)
    have "pending (D \<union> set ls) None g7" by (rule pending_grows [OF _ b7(4,3) ok6(2)]) (use F6 in \<open>simp add: framed_def\<close>)
    from pending_at [OF this nl] have "pending (D \<union> set ls) (Some fb) g7" .
    moreover have "\<forall>i \<in> set ys. old (gb_ir g7) i \<and> \<not> jump (ir_op (gb_ir g7) i)"
      by (rule insts_mono [OF prolongs_trans [OF widensD(1) [OF g15] prolongs_trans [OF widensD(1) [OF g56] widensD(1) [OF b7(4)]]]])
        (use re in \<open>auto simp: ready_def\<close>)
    ultimately show ?thesis using re b7(1,2) \<open>\<not> gb_emitOrphanedCode g7\<close> widensD(3) [OF g56] cb(3) m4(3,4)
      by (auto simp: ready_def cur_ok_def)
  qed
  have f57: "frees ds (gb_ir g5) (gb_ir g7)" using frees_trans [OF 6(2) 7(2)] by simp
  from T' [OF R7 sound_next [OF s5 f57 so(2,3)]] obtain r8 g8 where 8: "gen f (Some fb) g7 = Some (r8, g8)" "frees es (gb_ir g7) (gb_ir g8)"
    by (auto simp: returns_def)
  have ok8: "cur_ok r8 g8" "blocks_ok g8" using F' [OF 8(1) R7] by (simp_all add: framed_def)
  from branch_total [OF this] obtain g9 where 9: "branch_unless_left ft r8 g8 = Some g9" "frees [] (gb_ir g8) (gb_ir g9)" by blast
  have "frees (ds @ es) (gb_ir g1) (gb_ir g9)" using frees_trans [OF frees_trans [OF 5(2) f57] frees_trans [OF 8(2) 9(2)]] by simp
  then show ?thesis using 2 3 4 5(1) 6(1) 7(1) 8(1) 9(1) by (simp add: returns_def)
qed

text \<open>The bodies of a switch.\<close>

definition cases_return :: "(vref list \<times> stm) list \<Rightarrow> bbref list \<Rightarrow> bbref \<Rightarrow> genblocks \<Rightarrow> bool" where
  "cases_return cs bs epi g \<longleftrightarrow> (\<exists>g'. gen_cases cs bs epi g = Some g' \<and> frees (deads_cases cs) (gb_ir g) (gb_ir g'))"

lemma cases_total:
  assumes re: "ready D (ls @ ls') (xs @ ys) None g" and bs: "case_targets_ok (b # bs) g"
    and so: "sound (xs @ ys) (ds @ deads_cases cs) (vs @ ws) (gb_ir g)" "set ds \<subseteq> set xs" "set (deads_cases cs) \<subseteq> set ys"
    and F: "\<And>r g1. gen t (Some b) g = Some (r, g1) \<Longrightarrow> ready D ls xs (Some b) g \<Longrightarrow> framed D ls (Some b) g r g1"
    and T: "ready D ls xs (Some b) g \<Longrightarrow> sound xs ds vs (gb_ir g) \<Longrightarrow> \<exists>q. returns (gen t (Some b) g) q ds g"
    and C: "\<And>g2. ready (D \<union> set ls) ls' ys None g2 \<Longrightarrow> case_targets_ok bs g2 \<Longrightarrow> sound ys (deads_cases cs) ws (gb_ir g2) \<Longrightarrow>
      cases_return cs bs epi g2"
  shows "\<exists>g'. gen_cases ((cv, t) # cs) (b # bs) epi g = Some g' \<and> frees (ds @ deads_cases cs) (gb_ir g) (gb_ir g')"
proof -
  have b: "b < nblocks g" "no_label b g" using bs by (simp_all add: case_targets_ok_def)
  have "ready D (ls @ ls') (xs @ ys) (Some b) g" using re b pending_at [OF _ b(2)] by (simp add: ready_def cur_ok_def)
  note R = ready_part [OF this]
  from T [OF R sound_part [OF so(1,2)]] obtain r g1 where 1: "gen t (Some b) g = Some (r, g1)" "frees ds (gb_ir g) (gb_ir g1)"
    by (auto simp: returns_def)
  note F1 = F [OF 1(1) R]
  then have g1: "blocks_ok g1" "widens (set_option (Some b) \<union> label_blocks ls g) g g1" by (simp_all add: framed_def)
  have "cur_ok (Some b) g1" using b(1) widensD(3) [OF g1(2)] by (simp add: cur_ok_def)
  from branch_total [OF this g1(1)] obtain g2 where 2: "branch_unless_left epi (Some b) g1 = Some g2" "frees [] (gb_ir g1) (gb_ir g2)" by blast
  have f2: "frees ds (gb_ir g) (gb_ir g2)" using frees_trans [OF 1(2) 2(2)] by simp
  note b2 = branch_grows [OF 2(1) g1(1)]
  have nl: "no_label b g1" by (rule no_label_grows [OF g1(2) b])
  have "pending (D \<union> set ls) (Some b) g1"
    by (rule pending_at [OF pending_none [of _ r] nl]) (use F1 in \<open>simp add: framed_def\<close>)
  from pending_grows [OF this b2(4,3) g1(1)] have p2: "pending (D \<union> set ls) None g2" .
  have o2: "\<not> gb_emitOrphanedCode g2" using static_branch [OF 2(1)] F1 by (simp add: framed_def static_def)
  have X: "prolongs g g2" by (rule prolongs_trans [OF widensD(1) [OF g1(2)] widensD(1) [OF b2(4)]])
  have "\<forall>i \<in> set ys. old (gb_ir g2) i \<and> \<not> jump (ir_op (gb_ir g2) i)"
    by (rule insts_mono [OF X]) (use re in \<open>auto simp: ready_def\<close>)
  then have R2: "ready (D \<union> set ls) ls' ys None g2" using re b2(1) o2 p2 by (auto simp: ready_def cur_ok_def)
  have "case_targets_ok bs g1" using case_targets_grows [OF _ g1(2), of bs] bs by (simp add: case_targets_ok_def)
  from case_targets_grows [OF this b2(4)] have T2: "case_targets_ok bs g2" .
  from C [OF R2 T2 sound_next [OF so(1) f2 so(2,3)]] obtain g' where
    3: "gen_cases cs bs epi g2 = Some g'" "frees (deads_cases cs) (gb_ir g2) (gb_ir g')" by (auto simp: cases_return_def)
  with 1(1) 2(1) frees_trans [OF f2 3(2)] show ?thesis by simp
qed

lemma switch_total:
  assumes re: "ready D ls xs c1 g1" and c: "c1 = Some b" and v: "old (gb_ir g1) v" "ir_live v (gb_ir g1)" "v \<notin> set (deads_cases cs)"
    and so: "sound xs (deads_cases cs) vs (gb_ir g1)" and def: "length (filter (\<lambda>p. fst p = []) cs) \<le> 1"
    and F: "\<And>bs g g' epi. gen_cases cs bs epi g = Some g' \<Longrightarrow> ready D ls xs None g \<Longrightarrow> case_targets_ok bs g \<Longrightarrow> length bs = length cs \<Longrightarrow>
      cases_framed D ls bs g g'"
    and C: "\<And>bs g epi. ready D ls xs None g \<Longrightarrow> case_targets_ok bs g \<Longrightarrow> length bs = length cs \<Longrightarrow> sound xs (deads_cases cs) vs (gb_ir g) \<Longrightarrow>
      cases_return cs bs epi g"
  shows "returns (do { (blocks, defBB, g) \<leftarrow> case_blocks (map fst cs) None g1;
      let (epilogBB, g) = mkLLVMBlock ''epilog'' ChooseVer g;
      let defBB = (case defBB of Some b \<Rightarrow> b | None \<Rightarrow> epilogBB);
      g \<leftarrow> gen_cases cs blocks epilogBB g;
      (swinst, g) \<leftarrow> append_new (SwitchOp defBB []) [v] VoidTy '''' c1 g;
      g \<leftarrow> fold_opt (add_const swinst defBB) (case_table (map fst cs) blocks) g;
      Some (Some epilogBB, g) }) True (deads_cases cs) g1"
proof -
  have ok: "blocks_ok g1" and b: "b < nblocks g1" and orph: "\<not> gb_emitOrphanedCode g1" using re c by (simp_all add: ready_def cur_ok_def)
  have "length (filter (\<lambda>c. c = []) (map fst cs)) \<le> (if (None :: bbref option) = None then 1 else 0)"
    using def by (simp add: filter_map comp_def)
  from case_blocks_total [OF this, of g1] obtain bs d g2 where 2: "case_blocks (map fst cs) None g1 = Some (bs, d, g2)" by blast
  obtain ep g3 where 3: "mkLLVMBlock ''epilog'' ChooseVer g2 = (ep, g3)" by (meson surj_pair)
  define df where "df = (case d of Some b \<Rightarrow> b | None \<Rightarrow> ep)"
  from case_blocks_grows [OF 2 ok] have m2: "blocks_ok g2" "widens {} g1 g2" "bs = [nblocks g1..<nblocks g1 + length cs]"
    "nblocks g2 = nblocks g1 + length cs" "gb_labelmap g2 = gb_labelmap g1" "gb_ir g2 = gb_ir g1" by auto
  note m3 = mkLLVMBlock_grows [OF 3 m2(1)]
  have len: "length bs = length cs" by (simp add: m2(3))
  have g13: "widens {} g1 g3" by (rule widens_trans [OF m2(2) m3(2)]) simp
  have o3: "\<not> gb_emitOrphanedCode g3"
    using static_case_blocks [OF 2] mkLLVMBlock_static [OF 3] orph by (simp add: static_def)
  have "framed D [] c1 g1 None g3"
    by (rule framed_one [OF widens_mono [OF g13] _ m3(1) o3 _ ok]) (use re m2(5) m3(6) in \<open>auto simp: ready_def\<close>)
  from ready_next [of D "[]" ls "[]" xs c1 g1 None g3, simplified, OF re this] have R3: "ready D ls xs None g3" .
  have T3: "case_targets_ok bs g3"
    using m2(3,4,5) m3(3,4,6) no_label_new [OF ok] by (auto simp: case_targets_ok_def no_label_def)
  have ir3: "gb_ir g3 = gb_ir g1" using m2(6) m3(7) by simp
  from C [OF R3 T3 len] so ir3 obtain g4 where 4: "gen_cases cs bs ep g3 = Some g4" "frees (deads_cases cs) (gb_ir g3) (gb_ir g4)"
    by (auto simp: cases_return_def)
  note F4 = F [OF 4(1) R3 T3 len]
  have ok4: "blocks_ok g4" and n4: "nblocks g3 \<le> nblocks g4" using F4 widensD(3) by (auto simp: cases_framed_def)
  have "b < nblocks g4" using b m2(4) m3(4) n4 by simp
  moreover have "ir_live v (gb_ir g4)" using v 4(2) ir3 by (auto simp: frees_def ir_live_def)
  ultimately obtain sw g5 where 5: "append_new (SwitchOp df []) [v] VoidTy '''' c1 g4 = Some (sw, g5)" "frees [] (gb_ir g4) (gb_ir g5)"
    using append_new_total [OF c _ ok4, of "[v]" "SwitchOp df []" VoidTy "[]"] by auto
  from append_new_grows [OF 5(1) _ ok4] have op: "ir_op (gb_ir g5) sw = SwitchOp df []" by auto
  from add_consts_total [OF op, of "case_table (map fst cs) bs"] obtain g6 where
    6: "fold_opt (add_const sw df) (case_table (map fst cs) bs) g5 = Some g6" by blast
  have "frees (deads_cases cs) (gb_ir g1) (gb_ir g6)"
    using frees_trans [OF frees_trans [OF 4(2) 5(2)] add_consts_frees [OF op 6]] ir3 by simp
  with 2 3 4(1) 5(1) 6 show ?thesis by (simp add: returns_def df_def)
qed

lemma gen_total:
  "flow t (cur \<noteq> None) = Some q \<Longrightarrow> ready D (labels t) (insts t) cur g \<Longrightarrow> sound (insts t) (deads t (cur \<noteq> None)) (vals t) (gb_ir g) \<Longrightarrow>
   returns (gen t cur g) q (deads t (cur \<noteq> None)) g"
  "flows ts (cur \<noteq> None) = Some q \<Longrightarrow> ready D (labels_list ts) (insts_list ts) cur g \<Longrightarrow>
   sound (insts_list ts) (deads_list ts (cur \<noteq> None)) (vals_list ts) (gb_ir g) \<Longrightarrow> returns (gens ts cur g) q (deads_list ts (cur \<noteq> None)) g"
  "flow_cases cs \<Longrightarrow> ready D (labels_cases cs) (insts_cases cs) None g \<Longrightarrow> case_targets_ok bs g \<Longrightarrow> length bs = length cs \<Longrightarrow>
   sound (insts_cases cs) (deads_cases cs) (vals_cases cs) (gb_ir g) \<Longrightarrow> cases_return cs bs epi g"
proof (induction t and ts and cs arbitrary: D cur g q and D cur g q and D bs epi g rule: tree_induct)
  case (1 ks xs)
  have re: "ready D (labels_list ks @ []) (insts_list ks @ xs) cur g" using "1.prems"(2) by simp
  have fl: "flows ks (cur \<noteq> None) = Some q" using "1.prems"(1) by simp
  have so: "sound (insts_list ks @ xs) (deads_list ks (cur \<noteq> None) @ (if q = False then xs else [])) (vals_list ks @ []) (gb_ir g)"
    using "1.prems"(3) fl by simp
  from "1.IH" [OF fl ready_part [OF re] sound_part [OF so deads_insts(2)]] obtain c1 g1 where
    a: "gens ks cur g = Some (c1, g1)" "(c1 \<noteq> None) = q" "frees (deads_list ks (cur \<noteq> None)) (gb_ir g) (gb_ir g1)"
    by (auto simp: returns_def)
  note re2 = ready_next [OF re gen_frame(2) [OF a(1) ready_part [OF re]]]
  have so2: "sound xs (if q = False then xs else []) [] (gb_ir g1)" by (rule sound_next [OF so a(3) deads_insts(2)]) auto
  have "\<exists>g'. place xs c1 g1 = Some (c1, g') \<and> frees (if c1 = None then xs else []) (gb_ir g1) (gb_ir g')"
    by (rule place_total) (use re2 so2 in \<open>auto simp: ready_def sound_def\<close>)
  then obtain g' where g': "place xs c1 g1 = Some (c1, g')" "frees (if c1 = None then xs else []) (gb_ir g1) (gb_ir g')" by blast
  have "frees (deads (TExpr ks xs) (cur \<noteq> None)) (gb_ir g) (gb_ir g')"
    using frees_trans [OF a(3) g'(2)] a(2) fl by (cases c1) auto
  moreover have "gen (TExpr ks xs) cur g = Some (c1, g')" using a(1) g'(1) by simp
  ultimately show ?case using a(2) unfolding returns_def by blast
next
  case (3 cn v t f)
  have f0: "flow cn (cur \<noteq> None) = Some True \<and> flow t True \<noteq> None \<and> flow f True \<noteq> None" "q = True"
    using "3.prems"(1) unfolding flow.simps by (metis option.inject option.distinct(1))+
  then obtain q1 q2 where fl: "flow cn (cur \<noteq> None) = Some True" "flow t True = Some q1" "flow f True = Some q2" "q = True" by blast
  have re: "ready D (labels cn @ labels t @ labels f) (insts cn @ insts t @ insts f) cur g" using "3.prems"(2) by simp
  have so: "sound (insts cn @ insts t @ insts f) (deads cn (cur \<noteq> None) @ deads t True @ deads f True) (vals cn @ vals t @ vals f) (gb_ir g)"
    and vv: "old (gb_ir g) v" "ir_live v (gb_ir g)" "ir_type (gb_ir g) v = IntTy 1" "v \<notin> set (deads cn (cur \<noteq> None))"
    using "3.prems"(3) by (auto simp: sound_def)
  from "3.IH"(1) [OF fl(1) ready_part [OF re] sound_part [OF so deads_insts(1)]] obtain b g1 where
    a: "gen cn cur g = Some (Some b, g1)" "frees (deads cn (cur \<noteq> None)) (gb_ir g) (gb_ir g1)"
    by (auto simp: returns_def)
  note re2 = ready_next [OF re gen_frame(1) [OF a(1) ready_part [OF re]]]
  have "set (deads t True @ deads f True) \<subseteq> set (insts t @ insts f)" using deads_insts(1) by auto
  note so2 = sound_next [OF so a(2) deads_insts(1) this]
  have v1: "old (gb_ir g1) v" "ir_live v (gb_ir g1)" "ir_type (gb_ir g1) v = IntTy 1"
    using vv a(2) old_mono by (auto simp: frees_def ir_live_def)
  have T: "\<exists>q. returns (gen t (Some k) h) q (deads t True) h"
    if "ready D' (labels t) (insts t) (Some k) h" "sound (insts t) (deads t True) (vals t) (gb_ir h)" for D' k h
    using "3.IH"(2) [of "Some k" q1 D' h] fl(2) that by auto
  have T': "\<exists>q. returns (gen f (Some k) h) q (deads f True) h"
    if "ready D' (labels f) (insts f) (Some k) h" "sound (insts f) (deads f True) (vals f) (gb_ir h)" for D' k h
    using "3.IH"(3) [of "Some k" q2 D' h] fl(3) that by auto
  have "returns (let (tblock, g) = mkLLVMBlock ''then'' ChooseVer g1; (ft, g) = mkLLVMBlock ''fallthrough'' ChooseVer g;
      (fblock, g) = mkLLVMBlock ''else'' ChooseVer g
      in do { g \<leftarrow> CreateCondBr tblock fblock v (Some b) g; (tsucc, g) \<leftarrow> gen t (Some tblock) g; g \<leftarrow> branch_unless_left ft tsucc g;
          (fsucc, g) \<leftarrow> gen f (Some fblock) g; g \<leftarrow> branch_unless_left ft fsucc g; Some (Some ft, g) }) True (deads t True @ deads f True) g1"
    by (rule if_total [OF re2 refl v1 so2 deads_insts(1) deads_insts(1) gen_frame(1) T gen_frame(1) T'])
  then obtain r g' where r: "(let (tblock, g) = mkLLVMBlock ''then'' ChooseVer g1; (ft, g) = mkLLVMBlock ''fallthrough'' ChooseVer g;
      (fblock, g) = mkLLVMBlock ''else'' ChooseVer g
      in do { g \<leftarrow> CreateCondBr tblock fblock v (Some b) g; (tsucc, g) \<leftarrow> gen t (Some tblock) g; g \<leftarrow> branch_unless_left ft tsucc g;
          (fsucc, g) \<leftarrow> gen f (Some fblock) g; g \<leftarrow> branch_unless_left ft fsucc g; Some (Some ft, g) }) = Some (r, g')" "r \<noteq> None"
    "frees (deads t True @ deads f True) (gb_ir g1) (gb_ir g')" by (auto simp: returns_def)
  from frees_trans [OF a(2) r(3)] r(1,2) a(1) fl(4) show ?case by (simp add: returns_def)
next
  case (4 cn v cs)
  have fl: "flow cn (cur \<noteq> None) = Some True" "length (filter (\<lambda>p. fst p = []) cs) \<le> 1" "flow_cases cs" "q = True"
    using "4.prems"(1) unfolding flow.simps by (metis option.inject option.distinct(1))+
  have re: "ready D (labels cn @ labels_cases cs) (insts cn @ insts_cases cs) cur g" using "4.prems"(2) by simp
  have so: "sound (insts cn @ insts_cases cs) (deads cn (cur \<noteq> None) @ deads_cases cs) (vals cn @ vals_cases cs) (gb_ir g)"
    and vv: "old (gb_ir g) v" "ir_live v (gb_ir g)" "v \<notin> set (deads cn (cur \<noteq> None))" "v \<notin> set (deads_cases cs)"
    using "4.prems"(3) by (auto simp: sound_def)
  from "4.IH"(1) [OF fl(1) ready_part [OF re] sound_part [OF so deads_insts(1)]] obtain b g1 where
    a: "gen cn cur g = Some (Some b, g1)" "frees (deads cn (cur \<noteq> None)) (gb_ir g) (gb_ir g1)"
    by (auto simp: returns_def)
  note re2 = ready_next [OF re gen_frame(1) [OF a(1) ready_part [OF re]]]
  note so2 = sound_next [OF so a(2) deads_insts(1) deads_insts(3)]
  have v1: "old (gb_ir g1) v" "ir_live v (gb_ir g1)" using vv a(2) old_mono by (auto simp: frees_def ir_live_def)
  from switch_total [OF re2 refl v1 vv(4) so2 fl(2) gen_frame(3) "4.IH"(2) [OF fl(3)]] frees_trans [OF a(2)] a(1) fl(4)
  show ?case by (fastforce simp: returns_def)
next
  case (5 t)
  have fl: "straight t" "flow t (cur \<noteq> None) = Some (cur \<noteq> None)" "q = False"
    using "5.prems"(1) unfolding flow.simps by (metis option.inject option.distinct(1))+
  have "returns (gen t cur g) (cur \<noteq> None) (deads t (cur \<noteq> None)) g"
    by (rule "5.IH" [OF fl(2)]) (use "5.prems"(2,3) in simp_all)
  then obtain r g' where r: "gen t cur g = Some (r, g')" "(r \<noteq> None) = (cur \<noteq> None)"
    "frees (deads t (cur \<noteq> None)) (gb_ir g) (gb_ir g')" unfolding returns_def by blast
  have "r = cur" using straight_gen(1) [OF fl(1) r(1)] "5.prems"(2) r(2) by (auto simp: ready_def)
  with r fl(3) show ?case by (simp add: returns_def)
next
  case (6 l)
  have re: "ready D [] [] cur g" using "6.prems"(2) by simp
  have q: "q = False" using "6.prems"(1) by simp
  obtain g' where "genGoto l cur g = Some (None, g')" "frees [] (gb_ir g) (gb_ir g')" by (rule goto_total [OF re])
  with q show ?case unfolding returns_def gen.simps deads.simps by blast
next
  case (7 l)
  have re: "ready D [l] [] cur g" using "7.prems"(2) by simp
  have q: "q = True" using "7.prems"(1) by simp
  obtain lb g' where "genLabel l cur g = Some (Some lb, g')" "frees [] (gb_ir g) (gb_ir g')" by (rule label_total [OF re])
  with q show ?case unfolding returns_def gen.simps deads.simps by blast
next
  case (9 t ts)
  from "9.prems"(1) obtain q1 where fl: "flow t (cur \<noteq> None) = Some q1" "flows ts q1 = Some q" by (auto split: option.split_asm)
  have re: "ready D (labels t @ labels_list ts) (insts t @ insts_list ts) cur g" using "9.prems"(2) by simp
  have so: "sound (insts t @ insts_list ts) (deads t (cur \<noteq> None) @ deads_list ts q1) (vals t @ vals_list ts) (gb_ir g)"
    using "9.prems"(3) fl by simp
  from "9.IH"(1) [OF fl(1) ready_part [OF re] sound_part [OF so deads_insts(1)]] obtain c1 g1 where
    a: "gen t cur g = Some (c1, g1)" "(c1 \<noteq> None) = q1" "frees (deads t (cur \<noteq> None)) (gb_ir g) (gb_ir g1)"
    by (auto simp: returns_def)
  note re2 = ready_next [OF re gen_frame(1) [OF a(1) ready_part [OF re]]]
  note so2 = sound_next [OF so a(3) deads_insts(1) deads_insts(2)]
  from "9.IH"(2) [of c1 q, unfolded a(2), OF fl(2) re2 so2] obtain r g' where
    "gens ts c1 g1 = Some (r, g')" "(r \<noteq> None) = q" "frees (deads_list ts q1) (gb_ir g1) (gb_ir g')" by (auto simp: returns_def)
  with a frees_trans [OF a(3)] fl show ?case by (auto simp: returns_def)
next
  case (11 vs t cs)
  from "11.prems"(4) obtain b bs' where bs: "bs = b # bs'" "length bs' = length cs" by (cases bs) auto
  from "11.prems"(1) obtain q1 where fl: "flow t True = Some q1" "flow_cases cs" by auto
  have re: "ready D (labels t @ labels_cases cs) (insts t @ insts_cases cs) None g" using "11.prems"(2) by simp
  have T: "case_targets_ok (b # bs') g" using "11.prems"(3) bs by simp
  have so: "sound (insts t @ insts_cases cs) (deads t True @ deads_cases cs) (vals t @ vals_cases cs) (gb_ir g)"
    using "11.prems"(5) by simp
  have IH1: "\<exists>q. returns (gen t (Some b) g) q (deads t True) g"
    if "ready D (labels t) (insts t) (Some b) g" "sound (insts t) (deads t True) (vals t) (gb_ir g)"
    using "11.IH"(1) [of "Some b" q1 D g] that fl by auto
  show ?case unfolding bs(1) cases_return_def deads_cases.simps
    by (rule cases_total [OF re T so deads_insts(1) deads_insts(3) gen_frame(1) IH1 "11.IH"(2) [OF fl(2) _ _ bs(2)]])
qed (auto simp: returns_def cases_return_def)

section \<open>The flow analysis and the semantics\<close>

text \<open>Every return statement ends with a terminator, as building it makes it.\<close>

fun closed :: "irmem \<Rightarrow> stm \<Rightarrow> bool"
  and closed_list :: "irmem \<Rightarrow> stm list \<Rightarrow> bool"
  and closed_cases :: "irmem \<Rightarrow> (vref list \<times> stm) list \<Rightarrow> bool" where
  "closed m (TExpr ks is) = closed_list m ks"
| "closed m (TBlock ts) = closed_list m ts"
| "closed m (TIf c v t f) = (closed m c \<and> closed m t \<and> closed m f)"
| "closed m (TSwitch c v cs) = (closed m c \<and> closed_cases m cs)"
| "closed m (TReturn t) = (closed m t \<and> ends m t)"
| "closed m (TGoto l) = True"
| "closed m (TLabel l) = True"
| "closed_list m [] = True"
| "closed_list m (t # ts) = (closed m t \<and> closed_list m ts)"
| "closed_cases m [] = True"
| "closed_cases m ((vs, t) # cs) = (closed m t \<and> closed_cases m cs)"

lemma andthen_Fall:
  assumes "andthen res k = (es, Fall, ds')"
  obtains es1 ds1 es2 where "res = (es1, Fall, ds1)" "k ds1 = (es2, Fall, ds')"
  using assms by (cases res; cases "k (snd (snd res))") (auto simp: andthen_def split: if_split_asm)

text \<open>What falls off its end when it is run from the beginning, or entered at one of its labels, has a block there.\<close>

lemma fall_flow:
  "flow t True = Some q \<Longrightarrow> closed m t \<Longrightarrow> eval m t ds = (es, Fall, ds') \<Longrightarrow> q"
  "flows ts True = Some q \<Longrightarrow> closed_list m ts \<Longrightarrow> evals m ts ds = (es, Fall, ds') \<Longrightarrow> q"
  "flow_cases cs \<Longrightarrow> True"
proof (induction t and ts and cs arbitrary: q ds es ds' and q ds es ds' and q rule: tree_induct)
  case (1 ks xs)
  from "1.prems"(3) obtain es1 ds1 where "evals m ks ds = (es1, Fall, ds1)" by (auto elim: andthen_Fall)
  from "1.IH" [OF _ _ this] "1.prems"(1,2) show ?case by simp
next
  case (5 t)
  then show ?case using ends_no_fall(1) [of m t ds] by simp
next
  case (9 t ts)
  from "9.prems"(1) obtain q1 where fl: "flow t True = Some q1" "flows ts q1 = Some q" by (auto split: option.split_asm)
  from "9.prems"(3) obtain es1 ds1 es2 where e: "eval m t ds = (es1, Fall, ds1)" "evals m ts ds1 = (es2, Fall, ds')"
    by (auto elim: andthen_Fall)
  from "9.IH"(1) [OF fl(1) _ e(1)] "9.prems"(2) fl(2) show ?case using "9.IH"(2) [OF _ _ e(2)] by auto
qed (auto split: if_split_asm)

lemma enter_flow:
  "l \<in> set (labels t) \<Longrightarrow> flow t c = Some q \<Longrightarrow> closed m t \<Longrightarrow> enter m l t ds = (es, Fall, ds') \<Longrightarrow> q"
  "l \<in> set (labels_list ts) \<Longrightarrow> flows ts c = Some q \<Longrightarrow> closed_list m ts \<Longrightarrow> enters m l ts ds = (es, Fall, ds') \<Longrightarrow> q"
  "flow_cases cs \<Longrightarrow> True"
proof (induction t and ts and cs arbitrary: c q ds es ds' and c q ds es ds' and q rule: tree_induct)
  case (1 ks xs)
  from "1.prems"(4) obtain es1 ds1 where "enters m l ks ds = (es1, Fall, ds1)" by (auto elim: andthen_Fall)
  from "1.IH" [OF _ _ _ this] "1.prems"(1-3) show ?case by simp
next
  case (5 t)
  then show ?case by (auto simp: straight_labels split: if_split_asm)
next
  case (9 t ts)
  from "9.prems"(2) obtain q1 where fl: "flow t c = Some q1" "flows ts q1 = Some q" by (auto split: option.split_asm)
  show ?case
  proof (cases "l \<in> set (labels t)")
    case True
    from "9.prems"(4) True obtain es1 ds1 es2 where
      e: "enter m l t ds = (es1, Fall, ds1)" "evals m ts ds1 = (es2, Fall, ds')" by (auto elim: andthen_Fall)
    from "9.IH"(1) [OF True fl(1) _ e(1)] "9.prems"(3) fl(2) show ?thesis using fall_flow(2) [OF _ _ e(2)] by auto
  next
    case False
    with "9.prems" "9.IH"(2) [OF _ fl(2)] show ?thesis by auto
  qed
qed (auto split: if_split_asm)

lemma exec_flow:
  assumes "flow t True = Some q" "closed m t" "exec k m t ds = (es, Fall, ds')"
  shows q
  using assms(3)
proof (induction k arbitrary: es ds')
  case 0
  then show ?case using fall_flow(1) [OF assms(1,2)] by simp
next
  case (Suc k)
  obtain es1 out ds1 where e: "exec k m t ds = (es1, out, ds1)" by (cases "exec k m t ds")
  show ?case
  proof (cases out)
    case Fall
    with Suc.IH e show ?thesis by blast
  next
    case (Jump l)
    with Suc.prems e have "l \<in> set (labels t)" "\<exists>es2. enter m l t ds1 = (es2, Fall, ds')"
      by (auto split: if_split_asm prod.split_asm)
    then show ?thesis using enter_flow(1) [OF _ assms(1,2)] by blast
  next
    case Ret
    with Suc.prems e show ?thesis by simp
  qed
qed


text \<open>
  C37. Branching in dead code is not handled: the walk over an if or a switch statement without a current
  block aborts, where its condition is a straight expression (it contains no label, no if and no switch)
  and there is no debug information, no enclosing pad and no finally block.
\<close>

theorem dead_branch_aborts:
  assumes "stm_of n (gb_s g) x = Some t" "plain g" "straight c"
    and "(\<exists>v a b. t = TIf c v a b) \<or> (\<exists>v cs. t = TSwitch c v cs)"
  shows "gwalk n E x None g = None"
proof (rule ccontr)
  assume "gwalk n E x None g \<noteq> None"
  with gwalk_gen [OF assms(1,2)] obtain r g' where g': "gen t None g = Some (r, g')" by fastforce
  have no: "c1 = None" if "gen c None g = Some (c1, g1)" for c1 g1
    using straight_gen(1) [OF assms(3) that] plain_orphan [OF assms(2)] by auto
  from assms(4) show False
  proof
    assume "\<exists>v a b. t = TIf c v a b"
    then obtain v a b where "gen (TIf c v a b) None g = Some (r, g')" using g' by blast
    then show False by (rule gen_IfE) (use no in \<open>auto simp: CreateCondBr_def append_new_def split: if_split_asm\<close>)
  next
    assume "\<exists>v cs. t = TSwitch c v cs"
    then obtain v cs where "gen (TSwitch c v cs) None g = Some (r, g')" using g' by blast
    then show False by (rule gen_SwitchE) (use no in \<open>auto simp: append_new_def\<close>)
  qed
qed

end
