(* ===== verification/GenSamples.thy ===== *)
theory GenSamples
  imports GenTotal BfunctionSamples
begin

text \<open>
  A concrete function body, \<open>L: if (c) \<lbrace> goto L \<rbrace> ; return\<close>, and a switch with an if statement in a case
  body.
\<close>

definition sample_expr :: "vref option \<Rightarrow> vref list \<Rightarrow> bnode" where
  "sample_expr v is = \<lparr>nd_kids = [], nd_u = NoU, nd_loc = 0, nd_flavor = N_Const, nd_id = 0,
     nd_data = ExprNode \<lparr>e_value = v, e_btype = None, e_tag = [], e_ctx = mk_varctx, e_insts = is\<rparr>\<rparr>"

definition sample_stmt :: "NodeFlavor \<Rightarrow> nref list \<Rightarrow> payload \<Rightarrow> bnode" where
  "sample_stmt fl ks u = \<lparr>nd_kids = ks, nd_u = u, nd_loc = 0, nd_flavor = fl, nd_id = 0, nd_data = StmtNode None\<rparr>"

definition sample_block :: "nref list \<Rightarrow> bnode" where
  "sample_block ks = \<lparr>nd_kids = ks, nd_u = NoU, nd_loc = 0, nd_flavor = N_BlockStmt, nd_id = 0, nd_data = BlockNode None []\<rparr>"

definition loop_nodes :: "(nref \<times> bnode) list" where
  "loop_nodes =
     [(0, sample_stmt N_LabelStmt [] (ULabel 0)),
      (1, sample_expr (Some (InstV 0)) [InstV 0]),
      (2, sample_block [3]),
      (3, sample_stmt N_GotoStmt [] (ULabel 0)),
      (4, sample_block []),
      (5, sample_stmt N_IfStmt [1, 2, 4] NoU),
      (6, sample_expr None [InstV 1]),
      (7, sample_stmt N_ReturnStmt [6] NoU),
      (8, sample_block [0, 5, 7])]"

definition sample_ir :: irmem where
  "sample_ir = \<lparr>ir_next = 2, ir_operands = (\<lambda>v. if v \<in> {InstV 0, InstV 1} then Some [] else None), ir_name = (\<lambda>v. []),
     ir_op = (\<lambda>v. if v = InstV 1 then RetOp else if v = InstV 0 then CmpOp ''eq'' else NoOp), ir_type = (\<lambda>v. IntTy 1)\<rparr>"

definition sample_state :: "(nref \<times> bnode) list \<Rightarrow> bstate" where
  "sample_state ns = (init_bstate sample_ir)\<lparr>nd_heap := map_of ns, nd_next := length ns\<rparr>"

text \<open>The function has no parameters; its state is that of a constructor applied to a type without the C ABI.\<close>

definition sample_tm :: "typemanager \<Rightarrow> typemanager" where
  "sample_tm tm = tm\<lparr>tm_heap := (tm_heap tm)(7 \<mapsto> \<lparr>bt_name = [], bt_type = None, bt_location = 0, bt_placeholder = False,
     bt_kind = KFunction None [] [] 0 False\<rparr>)\<rparr>"

definition sample_fcn :: bfunction where
  "sample_fcn = \<lparr>bf_fcnType = 7, bf_function = FunctionV 0,
     bf_oracle = \<lparr>or_fcnParamTypes = [], or_fcnResultType = 0, or_fcnTypeForABI = None, or_infov = [], or_followsCabi = False\<rparr>,
     bf_allocas = [], bf_localVariables = [], bf_blocks = [], bf_valueVarMap = Map.empty, bf_rtnValueMem = None,
     bf_chainVal = None, bf_paramValues = [], bf_arguments = [], bf_paramsRegistered = 0, bf_labelmap = [],
     bf_labels = [], bf_name = [], bf_asmName = [], bf_location = 0, bf_splitStack = YesSplit,
     bf_prologGenerated = True, bf_attrs = []\<rparr>"

text \<open>The surroundings of the debug information, which this function does not use.\<close>

definition sample_env :: dbgenv where
  "sample_env =
     \<lparr>de_L = uleb,
      de_lm = the (init_linemap uleb),
      de_fuel = 5, de_print = (\<lambda>t. []), de_parent_path = (\<lambda>p. []), de_filename = (\<lambda>p. p), de_declare = FunctionV 1\<rparr>"

definition sample_genblocks :: "(nref \<times> bnode) list \<Rightarrow> typemanager \<Rightarrow> genblocks" where
  "sample_genblocks ns tm =
     \<lparr>gb_function = sample_fcn, gb_s = sample_state ns, gb_tm = sample_tm tm, gb_names = Map.empty, gb_personalityFunction = None,
      gb_cfg = snd (create_block ''entry'' None empty_cfg),
      gb_md = \<lparr>md_heap = Map.empty, md_next = 0, md_debugLoc = Map.empty, md_subprogram = Map.empty\<rparr>,
      gb_dibuildhelper = None, gb_labelmap = Map.empty, gb_padBlockStack = [], gb_finallyBlock = None,
      gb_cachedReturn = None, gb_emitOrphanedCode = False\<rparr>"

lemma sample_genblocks_facts [simp]:
  "plain (sample_genblocks ns tm)" "gb_labelmap (sample_genblocks ns tm) = Map.empty" "gb_ir (sample_genblocks ns tm) = sample_ir"
  "gb_s (sample_genblocks ns tm) = sample_state ns" "nblocks (sample_genblocks ns tm) = 1" "code (sample_genblocks ns tm) b = []"
  "unleft (sample_genblocks ns tm) b"
  by (simp_all add: sample_genblocks_def plain_def gb_ir_def sample_state_def init_bstate_def nblocks_def code_def unleft_def
      create_block_def empty_cfg_def)

lemma sample_blocks_ok [simp]: "blocks_ok (sample_genblocks ns tm)"
proof -
  have "(cf_insts (gb_cfg (sample_genblocks ns tm)) b \<noteq> None) = (b < 1)" for b
    by (simp add: sample_genblocks_def create_block_def empty_cfg_def)
  then show ?thesis by (simp add: blocks_ok_def)
qed

lemma start_tm_Some: "\<exists>tm. start_tm = Some tm"
proof -
  have "start_tm \<noteq> None" by code_simp
  then show ?thesis by blast
qed

definition loop_tree :: stm where
  "loop_tree = TBlock [TLabel 0, TIf (TExpr [] [InstV 0]) (InstV 0) (TBlock [TGoto 0]) (TBlock []), TReturn (TExpr [] [InstV 1])]"

lemma old_cases [code]: "old m v = (case v of InstV k \<Rightarrow> k < ir_next m | ConstantV k \<Rightarrow> k < ir_next m | _ \<Rightarrow> True)"
  by (auto simp: old_def split: vref.split)

lemma loop_premises:
  "flow loop_tree True = Some False" "wf sample_ir loop_tree" "distinct (labels loop_tree)"
  "sound (insts loop_tree) (deads loop_tree True) (vals loop_tree) sample_ir"
  "\<forall>i \<in> set (insts loop_tree). old sample_ir i \<and> \<not> jump (ir_op sample_ir i)"
  "closed sample_ir loop_tree"
  by code_simp+

text \<open>Twice around the loop and out of it.\<close>

lemma loop_exec:
  "exec 5 sample_ir loop_tree [0, 0, 1] =
     ([Do (InstV 0), Test (InstV 0) 0, Do (InstV 0), Test (InstV 0) 0, Do (InstV 0), Test (InstV 0) 1, Do (InstV 1)], Ret, [])"
  by code_simp

lemma sample_finish:
  assumes "static g = static (sample_genblocks ns tm)" "blocks_ok g" "0 < nblocks g"
  shows "\<exists>g'. finishFunction E 0 g = Some g'"
proof -
  obtain xs where "cf_insts (gb_cfg g) 0 = Some xs" using assms(2,3) by (fastforce simp: blocks_ok_def)
  then show ?thesis using assms(1)
    by (simp add: static_def sample_genblocks_def finishFunction_def fixupProlog_def fcn_parts_def sample_fcn_def sample_tm_def
        obj_def)
qed

lemma loop_read: "stm_of 5 (sample_state loop_nodes) 8 = Some loop_tree"
  by code_simp



lemma body_correct_witness:
  "\<exists>tm g1 g2. start_tm = Some tm \<and> gwalk 5 sample_env 8 (Some 0) (sample_genblocks loop_nodes tm) = Some (None, g1) \<and>
     finishFunction sample_env 0 g1 = Some g2 \<and>
     runs (gb_ir g2) (gb_cfg g2) (Some (0, 0)) [0, 0, 1]
       [Do (InstV 0), Test (InstV 0) 0, Do (InstV 0), Test (InstV 0) 0, Do (InstV 0), Test (InstV 0) 1, Do (InstV 1)] None []"
proof -
  obtain tm where tm: "start_tm = Some tm" using start_tm_Some by blast
  let ?g = "sample_genblocks loop_nodes tm"
  have re: "ready {} (labels loop_tree) (insts loop_tree) (Some 0) ?g"
    using loop_premises by (auto simp: ready_def pending_def cur_ok_def plain_orphan)
  then have "returns (gen loop_tree (Some 0) ?g) False (deads loop_tree True) ?g"
    using gen_total(1) [of loop_tree "Some 0" False "{}" ?g] loop_premises by simp
  then obtain g1 where g1: "gen loop_tree (Some 0) ?g = Some (None, g1)" by (auto simp: returns_def)
  then have walk: "gwalk 5 sample_env 8 (Some 0) ?g = Some (None, g1)" using gwalk_gen [of 5 ?g 8 loop_tree] loop_read by simp
  have "framed {} (labels loop_tree) (Some 0) ?g None g1" using gen_frame(1) [OF g1 re] .
  then have "blocks_ok g1" "prolongs ?g g1" by (auto simp: framed_def dest: widensD(1))
  then have "blocks_ok g1" "0 < nblocks g1" by (auto simp: prolongs_def)
  with sample_finish [OF gen_static(1) [OF g1]] plain_orphan [of ?g] obtain g2 where
    g2: "finishFunction sample_env 0 g1 = Some g2" by auto
  from body_correct [of 5 ?g 8 loop_tree 0 sample_env None g1 0 g2 g2 5] walk g2 loop_read loop_premises loop_exec tm
  show ?thesis by fastforce
qed

text \<open>An if statement reached without a block.\<close>

lemma dead_branch_aborts_witness:
  "\<exists>tm. start_tm = Some tm \<and> gwalk 3 sample_env 5 None (sample_genblocks loop_nodes tm) = None"
proof -
  obtain tm where tm: "start_tm = Some tm" using start_tm_Some by blast
  have "stm_of 3 (sample_state loop_nodes) 5 = Some (TIf (TExpr [] [InstV 0]) (InstV 0) (TBlock [TGoto 0]) (TBlock []))"
    by code_simp
  with dead_branch_aborts [of 3 "sample_genblocks loop_nodes tm" 5 _ "TExpr [] [InstV 0]"] tm show ?thesis by auto
qed

end
