(* ===== verification/ExportData.thy ===== *)
theory ExportData
  imports Prelude
begin

text \<open>
  The Go export data of \<^verbatim>\<open>go-llvm.cpp\<close>: \<open>postProcessExportDataChunk\<close>, \<open>write_export_data\<close> and
  \<open>finalizeExportData\<close>. The module's inline assembly is the list of the strings appended to it, in
  order (\<open>appendModuleInlineAsm\<close> ends each with a newline where it does not have one). The bytes are
  written as \<^verbatim>\<open>.ascii\<close> directives; \<open>asm_string\<close> is how an assembler reads such a string, and the section
  ends with the round trip. The trace output and the call to the debug builder's \<open>finalize\<close> are left out.
\<close>

section \<open>Writing\<close>

record exportdata =
  ex_asm :: "string list"
  ex_begun :: bool
  ex_finalized :: bool

definition empty_exportdata :: exportdata where
  "empty_exportdata = \<lparr>ex_asm = [], ex_begun = False, ex_finalized = False\<rparr>"

definition byte_rewrites :: "char \<rightharpoonup> string" where
  "byte_rewrites = [CHR 0x5C \<mapsto> [CHR 0x5C, CHR 0x5C], CHR 0x00 \<mapsto> CHR 0x5C # ''000'', CHR 0x0A \<mapsto> CHR 0x5C # ''n'',
     CHR 0x22 \<mapsto> [CHR 0x5C, CHR 0x22]]"

definition rewrite_byte :: "char \<Rightarrow> string" where
  "rewrite_byte c = (case byte_rewrites c of Some s \<Rightarrow> s | None \<Rightarrow> [c])"

text \<open>Reading beyond the end of the bytes is undefined.\<close>

definition postProcessExportDataChunk :: "string \<Rightarrow> u32 \<Rightarrow> string option" where
  "postProcessExportDataChunk bytes n =
     do { check (unat n \<le> length bytes);
          Some (concat (map rewrite_byte (take (unat n) bytes))) }"

definition appendModuleInlineAsm :: "string \<Rightarrow> exportdata \<Rightarrow> exportdata" where
  "appendModuleInlineAsm s x = x\<lparr>ex_asm := ex_asm x @ [s]\<rparr>"

definition preamble :: string where
  "preamble = CHR 0x09 # ''.section '' @ [CHR 0x22] @ ''.go_export'' @ [CHR 0x22] @ '','' @ [CHR 0x22] @ ''e'' @ [CHR 0x22] @ '',@progbits''"

definition ascii_head :: string where
  "ascii_head = CHR 0x09 # ''.ascii '' @ [CHR 0x22]"

definition write_export_data :: "string \<Rightarrow> u32 \<Rightarrow> exportdata \<Rightarrow> exportdata option" where
  "write_export_data bytes n x =
     do { check (\<not> ex_finalized x);
          let x = (if ex_begun x then x else appendModuleInlineAsm preamble (x\<lparr>ex_begun := True\<rparr>));
          ss \<leftarrow> postProcessExportDataChunk bytes n;
          Some (appendModuleInlineAsm (ascii_head @ ss @ [CHR 0x22, CHR 0x0A]) x) }"

definition text_section :: string where
  "text_section = CHR 0x09 # ''.text'' @ [CHR 0x0A]"

definition finalizeExportData :: "exportdata \<Rightarrow> exportdata option" where
  "finalizeExportData x =
     do { check (\<not> ex_finalized x);
          Some (appendModuleInlineAsm text_section (x\<lparr>ex_finalized := True\<rparr>)) }"

text \<open>\<open>write_global_definitions\<close> does nothing else than finalize.\<close>

definition write_global_definitions :: "exportdata \<Rightarrow> exportdata option" where
  "write_global_definitions x = finalizeExportData x"

section \<open>Reading\<close>

text \<open>
  A quoted string of the assembler: a backslash is followed by up to three octal digits, or by a letter or
  another character. The string ends at the first quote that is not behind a backslash; the rest follows.
\<close>

definition octal :: "char \<Rightarrow> nat option" where
  "octal c = (let n = of_char c :: nat in if 48 \<le> n \<and> n \<le> 55 then Some (n - 48) else None)"

fun octal_value :: "nat \<Rightarrow> nat \<Rightarrow> string \<Rightarrow> nat \<times> string" where
  "octal_value (Suc k) acc (c # cs) =
     (case octal c of Some d \<Rightarrow> octal_value k (8 * acc + d) cs | None \<Rightarrow> (acc, c # cs))"
| "octal_value k acc cs = (acc, cs)"

lemma octal_value_length: "length (snd (octal_value k acc cs)) \<le> length cs"
  by (induction k acc cs rule: octal_value.induct) (auto split: option.split)

definition escape_letter :: "char \<Rightarrow> char" where
  "escape_letter c = (if c = CHR ''n'' then CHR 0x0A else if c = CHR ''t'' then CHR 0x09 else if c = CHR ''r'' then CHR 0x0D
     else if c = CHR ''b'' then CHR 0x08 else if c = CHR ''f'' then CHR 0x0C else c)"

function asm_string :: "string \<Rightarrow> (string \<times> string) option" where
  "asm_string [] = None"
| "asm_string (c # cs) =
     (if c = CHR 0x22 then Some ([], cs)
      else if c = CHR 0x5C then
        (case cs of
           [] \<Rightarrow> None
         | d # ds \<Rightarrow>
             (if octal d \<noteq> None
              then (let (n, r) = octal_value 2 (the (octal d)) ds
                    in map_option (apfst (\<lambda>s. char_of n # s)) (asm_string r))
              else map_option (apfst (\<lambda>s. escape_letter d # s)) (asm_string ds)))
      else map_option (apfst (\<lambda>s. c # s)) (asm_string cs))"
  by pat_completeness auto
termination
  by (relation "measure length") (auto, metis octal_value_length snd_conv le_imp_less_Suc less_SucI)

definition ascii_bytes :: "string \<Rightarrow> string option" where
  "ascii_bytes s =
     (if take (length ascii_head) s = ascii_head
      then (case asm_string (drop (length ascii_head) s) of Some (b, r) \<Rightarrow> (if r = [CHR 0x0A] then Some b else None) | None \<Rightarrow> None)
      else None)"

lemma octal_value_three: "octal_value (Suc (Suc 0)) 0 (CHR ''0'' # CHR ''0'' # r) = (0, r)"
  by (simp add: octal_def)

lemma char_of_zero: "char_of (0::nat) = CHR 0x00"
  by code_simp

text \<open>The text of a byte is read back as this byte, whatever follows.\<close>

lemma asm_rewrite_byte: "asm_string (rewrite_byte c @ r) = map_option (apfst (\<lambda>s. c # s)) (asm_string r)"
  by (simp add: rewrite_byte_def byte_rewrites_def octal_value_three octal_def escape_letter_def Let_def numeral_2_eq_2 char_of_zero)

lemma asm_rewrite_bytes: "asm_string (concat (map rewrite_byte bs) @ CHR 0x22 # r) = Some (bs, r)"
  by (induction bs) (simp_all add: asm_rewrite_byte del: asm_string.simps(2), simp)

lemma ascii_write:
  assumes "postProcessExportDataChunk bytes n = Some ss"
  shows "ascii_bytes (ascii_head @ ss @ [CHR 0x22, CHR 0x0A]) = Some (take (unat n) bytes)"
  using assms by (auto simp: ascii_bytes_def postProcessExportDataChunk_def asm_rewrite_bytes simp del: asm_string.simps
      split: if_split_asm)

section \<open>Histories\<close>

datatype exop = ExWrite string u32 | ExFinalize

definition ex_step :: "exop \<Rightarrow> exportdata \<Rightarrow> exportdata option" where
  "ex_step p = (case p of ExWrite b n \<Rightarrow> write_export_data b n | ExFinalize \<Rightarrow> write_global_definitions)"

fun written :: "exop list \<Rightarrow> string list" where
  "written [] = []"
| "written (ExWrite b n # ps) = take (unat n) b # written ps"
| "written (ExFinalize # ps) = written ps"

lemma written_append [simp]: "written (ps @ qs) = written ps @ written qs"
  by (induction ps rule: written.induct) simp_all

definition ex_rep :: "exop list \<Rightarrow> exportdata \<Rightarrow> bool" where
  "ex_rep ps x \<longleftrightarrow> ex_begun x = (written ps \<noteq> []) \<and> ex_finalized x = (ExFinalize \<in> set ps) \<and>
     (\<exists>as. ex_asm x = (if written ps = [] then [] else [preamble]) @ as @ (if ExFinalize \<in> set ps then [text_section] else []) \<and>
           map_opt ascii_bytes as = Some (written ps))"

lemma ex_rep_step:
  assumes "ex_rep ps x" "ex_step p x = Some x'"
  shows "ex_rep (ps @ [p]) x'"
proof (cases p)
  case (ExWrite b n)
  with assms obtain ss where ss: "postProcessExportDataChunk b n = Some ss" "\<not> ex_finalized x"
    "x' = appendModuleInlineAsm (ascii_head @ ss @ [CHR 0x22, CHR 0x0A])
            (if ex_begun x then x else appendModuleInlineAsm preamble (x\<lparr>ex_begun := True\<rparr>))"
    by (auto simp: ex_step_def write_export_data_def bind_Some_iff Let_def split: if_split_asm)
  from assms(1) ss(2) obtain as where as: "ex_asm x = (if written ps = [] then [] else [preamble]) @ as"
    "map_opt ascii_bytes as = Some (written ps)" "ExFinalize \<notin> set ps" "ex_begun x = (written ps \<noteq> [])" by (auto simp: ex_rep_def)
  have "map_opt ascii_bytes (as @ [ascii_head @ ss @ [CHR 0x22, CHR 0x0A]]) = Some (written (ps @ [p]))"
    using as(2) ascii_write [OF ss(1)] ExWrite by (simp add: map_opt_append)
  moreover have "as = []" if "written ps = []" using as(2) that by (auto simp: map_opt_Some_iff)
  ultimately show ?thesis using as(1,3,4) ss(2,3) ExWrite by (auto simp: ex_rep_def appendModuleInlineAsm_def)
next
  case ExFinalize
  with assms show ?thesis
    by (auto simp: ex_step_def write_global_definitions_def finalizeExportData_def appendModuleInlineAsm_def ex_rep_def)
qed

lemma ex_rep_run: "fold_opt ex_step ps empty_exportdata = Some x \<Longrightarrow> ex_rep ps x"
proof (induction ps arbitrary: x rule: rev_induct)
  case (snoc p ps)
  then show ?case by (auto simp: fold_opt_append bind_Some_iff intro: ex_rep_step)
qed (auto simp: ex_rep_def empty_exportdata_def)

lemma ex_step_total:
  "ex_rep ps x \<Longrightarrow> (ex_step p x \<noteq> None) = (ExFinalize \<notin> set ps \<and> (\<forall>b n. p = ExWrite b n \<longrightarrow> unat n \<le> length b))"
  by (cases p) (auto simp: ex_rep_def ex_step_def write_export_data_def write_global_definitions_def finalizeExportData_def
      postProcessExportDataChunk_def bind_eq_None_conv Let_def)

text \<open>
  C34. What is written comes back: after any sequence of writes and at most one finalization the module's
  inline assembly is the section directive, then one \<^verbatim>\<open>.ascii\<close> directive per write, then (if finalized) the
  text directive, and an assembler reading the strings gets exactly the bytes of each write, the ones that
  need escaping included.
\<close>

theorem export_roundtrip:
  assumes "fold_opt ex_step ps empty_exportdata = Some x"
  shows "\<exists>as. ex_asm x = (if written ps = [] then [] else [preamble]) @ as @ (if ExFinalize \<in> set ps then [text_section] else []) \<and>
    map_opt ascii_bytes as = Some (written ps)"
  using ex_rep_run [OF assms] by (simp add: ex_rep_def)

definition export_sample :: "exop list" where
  "export_sample = [ExWrite [CHR ''v'', CHR 0x22, CHR 0x5C, CHR 0x00, CHR ''1''] 5, ExWrite [CHR 0x0A, CHR ''x''] 1, ExFinalize]"

lemma export_roundtrip_witness:
  "\<exists>x a b. fold_opt ex_step export_sample empty_exportdata = Some x \<and> ex_asm x = [preamble, a, b, text_section] \<and>
    ascii_bytes a = Some [CHR ''v'', CHR 0x22, CHR 0x5C, CHR 0x00, CHR ''1''] \<and> ascii_bytes b = Some [CHR 0x0A]"
proof -
  have "fold_opt ex_step export_sample empty_exportdata \<noteq> None" by code_simp
  then obtain x where x: "fold_opt ex_step export_sample empty_exportdata = Some x" by blast
  from export_roundtrip [OF this] obtain as where as: "ex_asm x = preamble # as @ [text_section]"
    "map_opt ascii_bytes as = Some [[CHR ''v'', CHR 0x22, CHR 0x5C, CHR 0x00, CHR ''1''], [CHR 0x0A]]"
    by (auto simp: export_sample_def)
  then show ?thesis using x by (auto simp: map_opt_Some_iff list_all2_Cons2)
qed

text \<open>
  C36. The writer accepts a sequence of operations exactly if no write asks for more bytes than it passes and
  nothing follows a finalization: a second finalization or a write after it aborts.
\<close>

theorem export_accepts:
  "fold_opt ex_step ps empty_exportdata \<noteq> None \<longleftrightarrow>
     (\<forall>b n. ExWrite b n \<in> set ps \<longrightarrow> unat n \<le> length b) \<and> ExFinalize \<notin> set (butlast ps)"
proof (induction ps rule: rev_induct)
  case (snoc p ps)
  show ?case
  proof (cases "fold_opt ex_step ps empty_exportdata")
    case None
    with snoc show ?thesis by (auto simp: fold_opt_append dest: in_set_butlastD)
  next
    case (Some x)
    from ex_step_total [OF ex_rep_run [OF Some], of p] Some snoc show ?thesis
      by (auto simp: fold_opt_append dest: in_set_butlastD)
  qed
qed simp

lemma export_accepts_witness:
  "fold_opt ex_step [ExFinalize, ExWrite [] 0] empty_exportdata = None"
  using export_accepts [of "[ExFinalize, ExWrite [] 0]"] by simp

end
