(* ===== verification/ExportRead.thy ===== *)
theory ExportRead
  imports ExportData
begin

text \<open>
  Reading Go export data back from an object file or an archive: \<open>go_read_export_data\<close> of
  \<^verbatim>\<open>go-backend.cpp\<close>. What LLVM's object library makes of the file behind the descriptor is the input: nothing
  (the file cannot be opened or is no binary), the sections of an object file, or the children of an archive
  with the offsets of their headers and whether the iteration over them ended in an error (an error ends the
  iteration, so that the test inside the loop never finds one). The result is the message returned and the
  three out parameters. Errors LLVM reports and the code ignores are taken as handled.
\<close>

section \<open>Binaries\<close>

record section_ref =
  sr_name :: "string option"
  sr_contents :: "string option"

datatype member = BrokenMember | ObjectMember "section_ref list" | OtherMember

datatype binary = Archive "(u64 \<times> member) list" bool | ObjectFile "section_ref list" | OtherBinary

record readres =
  rd_msg :: "string option"
  rd_err :: "u32 option"
  rd_buf :: "string option"
  rd_len :: u64

definition GO_EXPORT_SECTION_NAME :: string where
  "GO_EXPORT_SECTION_NAME = ''.go_export''"

definition ARCHIVE_MEMBER_HEADER_SIZE :: u64 where
  "ARCHIVE_MEMBER_HEADER_SIZE = 60"

section \<open>Reading\<close>

fun readExportDataFromObject :: "u32 \<Rightarrow> section_ref list \<Rightarrow> readres \<Rightarrow> readres" where
  "readExportDataFromObject errno [] r = r"
| "readExportDataFromObject errno (s # ss) r =
     (case sr_name s of
        None \<Rightarrow> r
      | Some sname \<Rightarrow>
          if sname = GO_EXPORT_SECTION_NAME then
            (case sr_contents s of
               None \<Rightarrow> r\<lparr>rd_err := Some errno, rd_msg := Some ''get section contents''\<rparr>
             | Some bytes \<Rightarrow> r\<lparr>rd_buf := Some bytes, rd_len := of_nat (length bytes)\<rparr>)
          else readExportDataFromObject errno ss r)"

fun read_children :: "u32 \<Rightarrow> u64 \<Rightarrow> bool \<Rightarrow> (u64 \<times> member) list \<Rightarrow> readres \<Rightarrow> readres" where
  "read_children errno uoffset err [] r = (if err then r\<lparr>rd_msg := Some ''unable to open as archive''\<rparr> else r)"
| "read_children errno uoffset err ((off, m) # cs) r =
     (if off \<noteq> uoffset then read_children errno uoffset err cs r
      else (case m of
              BrokenMember \<Rightarrow> r\<lparr>rd_msg := Some ''archive member is not an object''\<rparr>
            | ObjectMember ss \<Rightarrow> readExportDataFromObject errno ss r
            | OtherMember \<Rightarrow> read_children errno uoffset err cs r))"

definition readExportDataFromArchive :: "u32 \<Rightarrow> (u64 \<times> member) list \<Rightarrow> bool \<Rightarrow> u64 \<Rightarrow> readres \<Rightarrow> readres option" where
  "readExportDataFromArchive errno cs err offset r =
     do { check (offset = 0 \<or> sint ARCHIVE_MEMBER_HEADER_SIZE < sint offset);
          let uoffset = offset - ARCHIVE_MEMBER_HEADER_SIZE;
          Some (read_children errno uoffset err cs r) }"

definition no_export_data :: readres where
  "no_export_data = \<lparr>rd_msg = None, rd_err = None, rd_buf = None, rd_len = 0\<rparr>"

definition go_read_export_data :: "u32 \<Rightarrow> binary option \<Rightarrow> u64 \<Rightarrow> readres option" where
  "go_read_export_data errno bin offset =
     (case bin of
        None \<Rightarrow> Some no_export_data
      | Some (Archive cs err) \<Rightarrow> readExportDataFromArchive errno cs err offset no_export_data
      | Some (ObjectFile ss) \<Rightarrow> Some (readExportDataFromObject errno ss no_export_data)
      | Some OtherBinary \<Rightarrow> Some no_export_data)"

section \<open>From the writer to the reader\<close>

text \<open>
  The section an assembler makes of the module's inline assembly: the bytes of the directives behind the
  section directive, up to the one that leaves the section.
\<close>

fun section_bytes :: "string list \<Rightarrow> string option" where
  "section_bytes [] = Some []"
| "section_bytes (s # ss) =
     (if s = text_section then Some []
      else do { b \<leftarrow> ascii_bytes s; bs \<leftarrow> section_bytes ss; Some (b @ bs) })"

definition assembled :: "string list \<Rightarrow> section_ref list option" where
  "assembled strs =
     (case strs of
        p # ss \<Rightarrow> if p = preamble
                 then map_option (\<lambda>b. [\<lparr>sr_name = Some GO_EXPORT_SECTION_NAME, sr_contents = Some b\<rparr>]) (section_bytes ss)
                 else Some []
      | [] \<Rightarrow> Some [])"

text \<open>A directive of bytes is not the one that leaves the section.\<close>

lemma text_section_no_bytes: "ascii_bytes text_section = None"
  by code_simp

lemma section_bytes_ascii:
  "map_opt ascii_bytes strs = Some bs \<Longrightarrow> ts = [] \<or> ts = [text_section] \<Longrightarrow> section_bytes (strs @ ts) = Some (concat bs)"
  by (induction strs arbitrary: bs) (auto simp: bind_Some_iff text_section_no_bytes)

lemma assembled_run:
  assumes "fold_opt ex_step ps empty_exportdata = Some x"
  shows "assembled (ex_asm x) =
    Some (if written ps = [] then [] else [\<lparr>sr_name = Some GO_EXPORT_SECTION_NAME, sr_contents = Some (concat (written ps))\<rparr>])"
proof -
  from ex_rep_run [OF assms] obtain strs where x:
    "ex_asm x = (if written ps = [] then [] else [preamble]) @ strs @ (if ExFinalize \<in> set ps then [text_section] else [])"
    "map_opt ascii_bytes strs = Some (written ps)" by (auto simp: ex_rep_def)
  have "strs = []" if "written ps = []" using x(2) that by (auto simp: map_opt_Some_iff)
  moreover have "preamble \<noteq> text_section" by code_simp
  ultimately show ?thesis using x(1) section_bytes_ascii [OF x(2), of "if ExFinalize \<in> set ps then [text_section] else []"]
    by (auto simp: assembled_def)
qed

text \<open>Sections with other names are skipped, and children at other offsets.\<close>

definition other_section :: "section_ref \<Rightarrow> bool" where
  "other_section s \<longleftrightarrow> (case sr_name s of Some n \<Rightarrow> n \<noteq> GO_EXPORT_SECTION_NAME | None \<Rightarrow> False)"

lemma read_object_skip:
  "list_all other_section pre \<Longrightarrow> readExportDataFromObject errno (pre @ ss) r = readExportDataFromObject errno ss r"
  by (induction pre) (auto simp: other_section_def split: option.splits)

lemma read_children_at:
  "list_all (\<lambda>c. fst c \<noteq> off) pre \<Longrightarrow>
   read_children errno off err (pre @ (off, ObjectMember ss) # cs) r = readExportDataFromObject errno ss r"
  by (induction pre) auto

lemma read_object_other:
  "list_all other_section ss \<Longrightarrow> readExportDataFromObject errno ss r = r"
  using read_object_skip [of ss errno "[]" r] by simp

text \<open>
  C35. Export data survives the trip through an archive. Let a module write export data by any sequence of writes,
  finalized or not, and let the object file made of it, with other sections around, be a member of an archive
  whose header is at offset \<open>off\<close>. Asked for the data of the member behind the header, \<open>go_read_export_data\<close>
  returns no error and the bytes written, all of them in order; or no buffer, if nothing was written. The same
  holds for the object file on its own.
\<close>

theorem export_read_back:
  assumes "fold_opt ex_step ps empty_exportdata = Some x" "assembled (ex_asm x) = Some secs"
    and "list_all other_section pre" "list_all other_section post"
    and "list_all (\<lambda>c. fst c \<noteq> off) before" "off < 2 ^ 63 - 60" "0 < off"
  shows "\<exists>r. go_read_export_data errno (Some (Archive (before @ (off, ObjectMember (pre @ secs @ post)) # after) err)) (off + 60) = Some r \<and>
     go_read_export_data errno (Some (ObjectFile (pre @ secs @ post))) 0 = Some r \<and>
     r = (if written ps = [] then no_export_data
          else no_export_data\<lparr>rd_buf := Some (concat (written ps)), rd_len := of_nat (length (concat (written ps)))\<rparr>)"
proof -
  have secs: "secs = (if written ps = [] then []
      else [\<lparr>sr_name = Some GO_EXPORT_SECTION_NAME, sr_contents = Some (concat (written ps))\<rparr>])"
    using assembled_run [OF assms(1)] assms(2) by simp
  have obj: "readExportDataFromObject errno (pre @ secs @ post) no_export_data =
      (if written ps = [] then no_export_data
       else no_export_data\<lparr>rd_buf := Some (concat (written ps)), rd_len := of_nat (length (concat (written ps)))\<rparr>)"
    using read_object_skip [OF assms(3)] read_object_other [OF assms(4)] by (simp add: secs GO_EXPORT_SECTION_NAME_def)
  have o: "uint off < 2 ^ 63 - 60" "0 < uint off" using assms(6,7) by (simp_all add: word_less_def)
  then have "uint (off + 60) = uint off + 60" by (simp add: uint_word_ariths)
  then have "sint (60 :: u64) < sint (off + 60)"
    using o by (simp add: sint_uint signed_take_bit_int_eq_self)
  then have "readExportDataFromArchive errno (before @ (off, ObjectMember (pre @ secs @ post)) # after) err (off + 60) r =
      Some (readExportDataFromObject errno (pre @ secs @ post) r)" for r
    by (simp add: readExportDataFromArchive_def ARCHIVE_MEMBER_HEADER_SIZE_def read_children_at [OF assms(5)])
  then show ?thesis by (simp add: go_read_export_data_def obj)
qed

definition text_sections :: "section_ref list" where
  "text_sections = [\<lparr>sr_name = Some ''.text'', sr_contents = Some ''code''\<rparr>]"

text \<open>Three writes, read from the second member of an archive.\<close>

lemma export_read_back_witness:
  "\<exists>x secs r. fold_opt ex_step export_sample empty_exportdata = Some x \<and> assembled (ex_asm x) = Some secs \<and>
     go_read_export_data 0 (Some (Archive [(8, OtherMember), (100, ObjectMember (text_sections @ secs @ []))] False)) 160 = Some r \<and>
     rd_msg r = None \<and> rd_buf r = Some [CHR ''v'', CHR 0x22, CHR 0x5C, CHR 0x00, CHR ''1'', CHR 0x0A] \<and> rd_len r = 6"
proof -
  have "fold_opt ex_step export_sample empty_exportdata \<noteq> None" by code_simp
  then obtain x where x: "fold_opt ex_step export_sample empty_exportdata = Some x" by blast
  from assembled_run [OF x] obtain secs where secs: "assembled (ex_asm x) = Some secs" by blast
  from export_read_back [OF x secs, of text_sections "[]" 100 "[(8, OtherMember)]" 0 "[]" False]
  obtain r where "go_read_export_data 0 (Some (Archive [(8, OtherMember), (100, ObjectMember (text_sections @ secs @ []))] False)) 160 = Some r"
    "r = no_export_data\<lparr>rd_buf := Some [CHR ''v'', CHR 0x22, CHR 0x5C, CHR 0x00, CHR ''1'', CHR 0x0A], rd_len := 6\<rparr>"
    by (auto simp: text_sections_def other_section_def GO_EXPORT_SECTION_NAME_def export_sample_def)
  then show ?thesis using x secs by (auto simp: no_export_data_def)
qed

end
