(* ===== verification/LlvmBuild.thy ===== *)
theory LlvmBuild
  imports IrBuilders
begin

text \<open>
  Making constants and instructions that are in no block yet: LLVM's \<open>Constant\<close> classes and an
  \<open>IRBuilder\<close> without insertion point (\<open>LIRBuilder\<close>), as \<^verbatim>\<open>go-llvm.cpp\<close> uses them. Constants are unique:
  asking twice for the same one gives the same reference. An operation all of whose operands are
  constants gives a constant; conversions of null values and between integer types are evaluated, every other
  operation is kept symbolic (that LLVM evaluates more is left out). The assertions of LLVM on operand types
  are checks.
\<close>

section \<open>Constants\<close>

definition get_constant :: "iop \<Rightarrow> vref list \<Rightarrow> llty \<Rightarrow> irmem \<Rightarrow> vref \<times> irmem" where
  "get_constant iop ops t m =
     (case List.find (\<lambda>k. ir_op m (ConstantV k) = iop \<and> ir_operands m (ConstantV k) = Some ops \<and> ir_type m (ConstantV k) = t)
             [0..<ir_next m] of
        Some k \<Rightarrow> (ConstantV k, m)
      | None \<Rightarrow> folded_constant iop ops t m)"

definition getNullValue :: "llty \<Rightarrow> irmem \<Rightarrow> vref \<times> irmem" where
  "getNullValue t = get_constant (ConstOp CNull) [] t"

definition getUndef :: "llty \<Rightarrow> irmem \<Rightarrow> vref \<times> irmem" where
  "getUndef t = get_constant (ConstOp CUndef) [] t"

fun int_bits :: "llty \<Rightarrow> nat" where
  "int_bits (IntTy n) = unat n" | "int_bits _ = 0"

text \<open>An integer constant, by the unsigned reading of its bits; zero is the null value of its type.\<close>

definition getInt :: "llty \<Rightarrow> int \<Rightarrow> irmem \<Rightarrow> vref \<times> irmem" where
  "getInt t i =
     (let k = i mod 2 ^ int_bits t in if k = 0 then getNullValue t else get_constant (ConstOp (CInt k)) [] t)"

definition isNullValue :: "vref \<Rightarrow> irmem \<Rightarrow> bool" where
  "isNullValue v m \<longleftrightarrow> (case v of ConstantV k \<Rightarrow> ir_op m v = ConstOp CNull | _ \<Rightarrow> False)"

definition int_value :: "vref \<Rightarrow> irmem \<Rightarrow> int option" where
  "int_value v m =
     (case v of ConstantV k \<Rightarrow> (case ir_op m v of ConstOp (CInt i) \<Rightarrow> Some i | _ \<Rightarrow> None) | _ \<Rightarrow> None)"

definition isNullPointer :: "vref \<Rightarrow> irmem \<Rightarrow> bool" where
  "isNullPointer v m \<longleftrightarrow> isNullValue v m \<and> isPointerTy (ir_type m v)"

definition isUndef :: "vref \<Rightarrow> irmem \<Rightarrow> bool" where
  "isUndef v m \<longleftrightarrow> (case v of ConstantV k \<Rightarrow> ir_op m v = ConstOp CUndef | _ \<Rightarrow> False)"

section \<open>Instructions\<close>

definition build :: "iop \<Rightarrow> vref list \<Rightarrow> llty \<Rightarrow> string \<Rightarrow> irmem \<Rightarrow> vref \<times> irmem" where
  "build iop ops t nm m = (if list_all isConstant ops then get_constant iop ops t m else new_inst iop ops t nm m)"

definition isFloatingPointTy :: "llty \<Rightarrow> bool" where
  "isFloatingPointTy t \<longleftrightarrow> t = FloatTy \<or> t = DoubleTy \<or> t = FP128Ty"

fun fp_bits :: "llty \<Rightarrow> nat" where
  "fp_bits FloatTy = 32" | "fp_bits DoubleTy = 64" | "fp_bits FP128Ty = 128" | "fp_bits _ = 0"

fun prim_bits :: "llty \<Rightarrow> nat" where
  "prim_bits (IntTy n) = unat n" | "prim_bits (VectorTy t n) = prim_bits t * unat n" | "prim_bits t = fp_bits t"

datatype cast = BitCast | PtrToInt | IntToPtr | Trunc | ZExt | SExt | FPTrunc | FPExt | FPToUI | FPToSI | UIToFP | SIToFP

fun cast_name :: "cast \<Rightarrow> string" where
  "cast_name BitCast = ''bitcast''" | "cast_name PtrToInt = ''ptrtoint''" | "cast_name IntToPtr = ''inttoptr''"
| "cast_name Trunc = ''trunc''" | "cast_name ZExt = ''zext''" | "cast_name SExt = ''sext''" | "cast_name FPTrunc = ''fptrunc''"
| "cast_name FPExt = ''fpext''" | "cast_name FPToUI = ''fptoui''" | "cast_name FPToSI = ''fptosi''"
| "cast_name UIToFP = ''uitofp''" | "cast_name SIToFP = ''sitofp''"

text \<open>\<open>CastInst::castIsValid\<close>.\<close>

fun castIsValid :: "cast \<Rightarrow> llty \<Rightarrow> llty \<Rightarrow> bool" where
  "castIsValid BitCast a b = (if isPointerTy a then isPointerTy b else 0 < prim_bits a \<and> prim_bits a = prim_bits b)"
| "castIsValid PtrToInt a b = (isPointerTy a \<and> isIntegerTy b)"
| "castIsValid IntToPtr a b = (isIntegerTy a \<and> isPointerTy b)"
| "castIsValid Trunc a b = (isIntegerTy a \<and> isIntegerTy b \<and> int_bits b < int_bits a)"
| "castIsValid ZExt a b = (isIntegerTy a \<and> isIntegerTy b \<and> int_bits a < int_bits b)"
| "castIsValid SExt a b = (isIntegerTy a \<and> isIntegerTy b \<and> int_bits a < int_bits b)"
| "castIsValid FPTrunc a b = (isFloatingPointTy a \<and> isFloatingPointTy b \<and> fp_bits b < fp_bits a)"
| "castIsValid FPExt a b = (isFloatingPointTy a \<and> isFloatingPointTy b \<and> fp_bits a < fp_bits b)"
| "castIsValid FPToUI a b = (isFloatingPointTy a \<and> isIntegerTy b)"
| "castIsValid FPToSI a b = (isFloatingPointTy a \<and> isIntegerTy b)"
| "castIsValid UIToFP a b = (isIntegerTy a \<and> isFloatingPointTy b)"
| "castIsValid SIToFP a b = (isIntegerTy a \<and> isFloatingPointTy b)"

definition build_cast :: "cast \<Rightarrow> vref \<Rightarrow> llty \<Rightarrow> string \<Rightarrow> irmem \<Rightarrow> vref \<times> irmem" where
  "build_cast c v t nm m =
     (case (c, int_value v m) of
        (ZExt, Some i) \<Rightarrow> getInt t i m
      | (Trunc, Some i) \<Rightarrow> getInt t i m
      | (SExt, Some i) \<Rightarrow> getInt t (if 2 * i < 2 ^ int_bits (ir_type m v) then i else i - 2 ^ int_bits (ir_type m v)) m
      | _ \<Rightarrow> if isNullValue v m then getNullValue t m else build (CastOp (cast_name c)) [v] t nm m)"

definition CreateCast :: "cast \<Rightarrow> vref \<Rightarrow> llty \<Rightarrow> string \<Rightarrow> irmem \<Rightarrow> (vref \<times> irmem) option" where
  "CreateCast c v t nm m =
     (if ir_type m v = t then Some (v, m)
      else do { check (castIsValid c (ir_type m v) t); Some (build_cast c v t nm m) })"

text \<open>The builder leaves out \<open>x | 0\<close> and \<open>x & -1\<close> when the second operand is that constant.\<close>

definition CreateBinOp :: "string \<Rightarrow> bool \<Rightarrow> vref \<Rightarrow> vref \<Rightarrow> string \<Rightarrow> irmem \<Rightarrow> (vref \<times> irmem) option" where
  "CreateBinOp opname fp a b nm m =
     do { check (ir_type m a = ir_type m b);
          check (if fp then isFloatingPointTy (ir_type m a) else isIntegerTy (ir_type m a));
          Some (if opname = ''or'' \<and> isNullValue b m \<or> opname = ''and'' \<and> int_value b m = Some (2 ^ int_bits (ir_type m a) - 1)
                then (a, m) else build (BinaryOp opname) [a, b] (ir_type m a) nm m) }"

datatype Predicate =
    FCMP_OEQ | FCMP_ONE | FCMP_OLT | FCMP_OLE | FCMP_OGT | FCMP_OGE
  | ICMP_EQ | ICMP_NE | ICMP_ULT | ICMP_SLT | ICMP_ULE | ICMP_SLE | ICMP_UGT | ICMP_SGT | ICMP_UGE | ICMP_SGE

fun pred_name :: "Predicate \<Rightarrow> string" where
  "pred_name FCMP_OEQ = ''oeq''" | "pred_name FCMP_ONE = ''one''" | "pred_name FCMP_OLT = ''olt''" | "pred_name FCMP_OLE = ''ole''"
| "pred_name FCMP_OGT = ''ogt''" | "pred_name FCMP_OGE = ''oge''" | "pred_name ICMP_EQ = ''eq''" | "pred_name ICMP_NE = ''ne''"
| "pred_name ICMP_ULT = ''ult''" | "pred_name ICMP_SLT = ''slt''" | "pred_name ICMP_ULE = ''ule''" | "pred_name ICMP_SLE = ''sle''"
| "pred_name ICMP_UGT = ''ugt''" | "pred_name ICMP_SGT = ''sgt''" | "pred_name ICMP_UGE = ''uge''" | "pred_name ICMP_SGE = ''sge''"

definition CreateICmp :: "Predicate \<Rightarrow> vref \<Rightarrow> vref \<Rightarrow> string \<Rightarrow> irmem \<Rightarrow> (vref \<times> irmem) option" where
  "CreateICmp p a b nm m =
     do { check (ir_type m a = ir_type m b \<and> (isIntegerTy (ir_type m a) \<or> isPointerTy (ir_type m a)));
          Some (build (CmpOp (pred_name p)) [a, b] (IntTy 1) nm m) }"

definition CreateFCmp :: "Predicate \<Rightarrow> vref \<Rightarrow> vref \<Rightarrow> string \<Rightarrow> irmem \<Rightarrow> (vref \<times> irmem) option" where
  "CreateFCmp p a b nm m =
     do { check (ir_type m a = ir_type m b \<and> isFloatingPointTy (ir_type m a));
          Some (build (CmpOp (pred_name p)) [a, b] (IntTy 1) nm m) }"

text \<open>
  Addresses: \<open>ptr + index\<close>, an element of an array, a field of a struct. The constant indices are in the
  operation, a computed index is an operand.
\<close>

definition CreateGEP_ptr :: "llty \<Rightarrow> vref \<Rightarrow> vref \<Rightarrow> string \<Rightarrow> irmem \<Rightarrow> (vref \<times> irmem) option" where
  "CreateGEP_ptr pointee p idx nm m =
     do { check (ir_type m p = PointerTy pointee \<and> isIntegerTy (ir_type m idx));
          Some (build (GepOp []) [p, idx] (PointerTy pointee) nm m) }"

definition CreateGEP_array :: "llty \<Rightarrow> vref \<Rightarrow> vref \<Rightarrow> string \<Rightarrow> irmem \<Rightarrow> (vref \<times> irmem) option" where
  "CreateGEP_array llat p idx nm m =
     do { check (ir_type m p = PointerTy llat \<and> isIntegerTy (ir_type m idx));
          t \<leftarrow> (case llat of ArrayTy t n \<Rightarrow> Some t | _ \<Rightarrow> None);
          Some (build (GepOp [0]) [p, idx] (PointerTy t) nm m) }"

definition CreateGEP_field :: "llctx \<Rightarrow> llty \<Rightarrow> vref \<Rightarrow> u32 \<Rightarrow> string \<Rightarrow> irmem \<Rightarrow> (vref \<times> irmem) option" where
  "CreateGEP_field c llst p j nm m =
     do { check (ir_type m p = PointerTy llst);
          ts \<leftarrow> struct_elems c llst;
          t \<leftarrow> nth_opt ts (unat j);
          Some (build (GepOp [0, j]) [p] (PointerTy t) nm m) }"

definition mk_load :: "vref \<Rightarrow> string \<Rightarrow> irmem \<Rightarrow> (vref \<times> irmem) option" where
  "mk_load p nm m = do { t \<leftarrow> (case ir_type m p of PointerTy t \<Rightarrow> Some t | _ \<Rightarrow> None); Some (new_inst LoadOp [p] t nm m) }"

section \<open>What a builder adds\<close>

text \<open>Instructions and constants that exist keep operation, operands and type.\<close>

definition ir_grows :: "irmem \<Rightarrow> irmem \<Rightarrow> bool" where
  "ir_grows m m' \<longleftrightarrow> ir_next m \<le> ir_next m' \<and>
     (\<forall>v. (\<forall>k. v = InstV k \<or> v = AllocaV k \<or> v = ConstantV k \<longrightarrow> k < ir_next m) \<longrightarrow>
          ir_type m' v = ir_type m v \<and> ir_op m' v = ir_op m v \<and> ir_operands m' v = ir_operands m v)"

lemma ir_grows_refl [simp]: "ir_grows m m"
  by (simp add: ir_grows_def)

lemma ir_grows_trans: "ir_grows m m' \<Longrightarrow> ir_grows m' m'' \<Longrightarrow> ir_grows m m''"
  unfolding ir_grows_def by (metis order.trans order.strict_trans2)

end
