(* ===== verification/Backend.thy ===== *)
theory Backend
  imports LlvmBuild Bfunctions BnodeBuilder Builtins TypeResolve
begin

text \<open>
  The state of class \<open>Llvm_backend\<close> (\<^verbatim>\<open>go-llvm.h\<close>, \<^verbatim>\<open>go-llvm.cpp\<close>) and the operations that only touch the
  state: the interface to the type manager, error objects, global expressions, module-scope
  variables and functions.

  The record \<open>backend\<close> holds the tree and the instructions (\<open>bk_s\<close>), the type manager (\<open>bk_tm\<close>, whose name
  generator is the backend's own), the functions under construction as objects of a heap, and the maps
  of the class. What does not change after construction is in \<open>benv\<close>: the error objects, the texts LLVM
  prints, \<open>CreateMemCpy\<close>, the frontend's enumerator \<open>VE_rvalue\<close> read as a bool, and the fuel for comparing
  types and walking trees. Trace output is left out.
\<close>

section \<open>State\<close>

datatype linkage = ExternalLinkage | PrivateLinkage | WeakODRLinkage

record globalvar =
  gv_type :: llty
  gv_constant :: bool
  gv_linkage :: linkage
  gv_initializer :: "vref option"
  gv_name :: string
  gv_hidden :: bool
  gv_alignment :: u32

record llfunction =
  lf_type :: llty
  lf_name :: string
  lf_hidden :: bool
  lf_noinline :: bool
  lf_attrs :: "string list"

record benv =
  en_P :: printers
  en_fuel :: nat
  en_memcpy :: memcpy_builder
  en_errorExpression :: nref
  en_errorStatement :: nref
  en_errorVariable :: vbref
  en_errorFunction :: fref
  en_checkIntegrity :: bool
  en_rvalue_as_bool :: bool
  en_arguments :: "vref \<Rightarrow> vref list"
  en_predeclared :: location
  en_intrinsic :: "IntrinsicID \<Rightarrow> llty list \<Rightarrow> llty \<times> string"

record backend =
  bk_s :: bstate
  bk_tm :: typemanager
  bk_functions :: "fref \<rightharpoonup> bfunction"
  bk_fnext :: fref
  bk_functionList :: "fref list"
  bk_valueVarMap :: "vref \<rightharpoonup> vbref"
  bk_stringConstantMap :: "vref \<rightharpoonup> nref"
  bk_immutableStructRefs :: "string \<rightharpoonup> vbref"
  bk_fcnNameMap :: "string \<rightharpoonup> fref"
  bk_globals :: "vref \<rightharpoonup> globalvar"
  bk_llfunctions :: "vref \<rightharpoonup> llfunction"
  bk_callAttrs :: "vref \<rightharpoonup> (u32 \<times> arg_attr) list"
  bk_builtinTable :: builtintable
  bk_errorCount :: u32
  bk_curFcn :: "fref option"

type_synonym 'a bm = "backend \<Rightarrow> ('a \<times> backend) option"

text \<open>Running an operation of a part on the whole.\<close>

definition on_s :: "(bstate \<Rightarrow> ('a \<times> bstate) option) \<Rightarrow> 'a bm" where
  "on_s f B = do { (x, s) \<leftarrow> f (bk_s B); Some (x, B\<lparr>bk_s := s\<rparr>) }"

definition upd_s :: "(bstate \<Rightarrow> bstate option) \<Rightarrow> backend \<Rightarrow> backend option" where
  "upd_s f B = do { s \<leftarrow> f (bk_s B); Some (B\<lparr>bk_s := s\<rparr>) }"

definition on_tm :: "(typemanager \<Rightarrow> ('a \<times> typemanager) option) \<Rightarrow> 'a bm" where
  "on_tm f B = do { (x, tm) \<leftarrow> f (bk_tm B); Some (x, B\<lparr>bk_tm := tm\<rparr>) }"

definition on_ir :: "(irmem \<Rightarrow> ('a \<times> irmem) option) \<Rightarrow> 'a bm" where
  "on_ir f B = do { (x, m) \<leftarrow> f (nd_ir (bk_s B)); Some (x, B\<lparr>bk_s := (bk_s B)\<lparr>nd_ir := m\<rparr>\<rparr>) }"

definition on_const :: "(irmem \<Rightarrow> 'a \<times> irmem) \<Rightarrow> 'a bm" where
  "on_const f = on_ir (\<lambda>m. Some (f m))"

definition bk_namegen :: "string \<Rightarrow> string bm" where
  "bk_namegen tag = on_tm (tnamegen tag)"

definition bk_aux :: "llty \<Rightarrow> tref bm" where
  "bk_aux t = on_tm (\<lambda>tm. Some (makeAuxType t tm))"

text \<open>The fields of an expression, and the LLVM types of values and of types.\<close>

definition bk_expr :: "nref \<Rightarrow> backend \<Rightarrow> exprdata option" where
  "bk_expr x B = do { (b, e) \<leftarrow> as_expr x (bk_s B); Some e }"

definition bk_loc :: "nref \<Rightarrow> backend \<Rightarrow> location option" where
  "bk_loc x B = do { b \<leftarrow> node x (bk_s B); Some (nd_loc b) }"

definition bk_value :: "nref \<Rightarrow> backend \<Rightarrow> vref option" where
  "bk_value x B = do { e \<leftarrow> bk_expr x B; e_value e }"

definition bk_btype :: "nref \<Rightarrow> backend \<Rightarrow> tref option" where
  "bk_btype x B = do { e \<leftarrow> bk_expr x B; e_btype e }"

definition bk_pending :: "nref \<Rightarrow> backend \<Rightarrow> bool option" where
  "bk_pending x B = do { e \<leftarrow> bk_expr x B; Some (varExprPending e) }"

definition val_type :: "backend \<Rightarrow> vref \<Rightarrow> llty" where
  "val_type B v = ir_type (nd_ir (bk_s B)) v"

definition bk_type :: "tref \<Rightarrow> backend \<Rightarrow> llty option" where
  "bk_type t B = ll_of t (bk_tm B)"

definition is_unsigned_of :: "tref \<Rightarrow> backend \<Rightarrow> bool option" where
  "is_unsigned_of t B = do { b \<leftarrow> obj t (bk_tm B); case bt_kind b of KInteger u n \<Rightarrow> Some u | _ \<Rightarrow> None }"

section \<open>Error objects\<close>

definition count_error :: "backend \<Rightarrow> backend" where
  "count_error B = B\<lparr>bk_errorCount := bk_errorCount B + 1\<rparr>"

definition error_type :: "backend \<Rightarrow> tref \<times> backend" where
  "error_type B = (errorType (bk_tm B), count_error B)"

definition error_expression :: "benv \<Rightarrow> backend \<Rightarrow> nref \<times> backend" where
  "error_expression E B = (en_errorExpression E, count_error B)"

definition error_statement :: "benv \<Rightarrow> backend \<Rightarrow> nref \<times> backend" where
  "error_statement E B = (en_errorStatement E, count_error B)"

definition error_variable :: "benv \<Rightarrow> backend \<Rightarrow> vbref \<times> backend" where
  "error_variable E B = (en_errorVariable E, count_error B)"

definition error_function :: "benv \<Rightarrow> backend \<Rightarrow> fref \<times> backend" where
  "error_function E B = (en_errorFunction E, count_error B)"

definition exprVectorHasError :: "benv \<Rightarrow> nref list \<Rightarrow> bool" where
  "exprVectorHasError E vals \<longleftrightarrow> en_errorExpression E \<in> set vals"

definition stmtVectorHasError :: "benv \<Rightarrow> nref list \<Rightarrow> bool" where
  "stmtVectorHasError E stmts \<longleftrightarrow> en_errorStatement E \<in> set stmts"

section \<open>Types\<close>

text \<open>The widths the frontend passes are of type \<open>int\<close>.\<close>

definition void_type :: "tref bm" where
  "void_type = on_tm (\<lambda>tm. Some (voidType tm))"

definition bool_type :: "benv \<Rightarrow> tref bm" where
  "bool_type E = on_tm (boolType (en_fuel E))"

definition float_type :: "benv \<Rightarrow> int \<Rightarrow> tref bm" where
  "float_type E bits = on_tm (floatType (en_fuel E) (of_int bits))"

definition integer_type :: "benv \<Rightarrow> bool \<Rightarrow> int \<Rightarrow> tref bm" where
  "integer_type E is_unsigned bits = on_tm (integerType (en_fuel E) is_unsigned (of_int bits))"

definition struct_type :: "benv \<Rightarrow> tident list \<Rightarrow> tref bm" where
  "struct_type E flds = on_tm (structType (en_fuel E) flds)"

definition placeholder_struct_type :: "string \<Rightarrow> location \<Rightarrow> tref bm" where
  "placeholder_struct_type name loc = on_tm (placeholderStructType name loc)"

definition complex_type :: "int \<Rightarrow> tref bm" where
  "complex_type bits = on_tm (complexType (of_int bits))"

definition pointer_type :: "benv \<Rightarrow> tref \<Rightarrow> tref bm" where
  "pointer_type E toType = on_tm (pointerType (en_fuel E) toType)"

definition placeholder_pointer_type :: "string \<Rightarrow> location \<Rightarrow> tref bm" where
  "placeholder_pointer_type name loc = on_tm (placeholderPointerType name loc)"

definition function_type :: "benv \<Rightarrow> tref option \<Rightarrow> tident list \<Rightarrow> tident list \<Rightarrow> tref option \<Rightarrow> location \<Rightarrow> tref bm" where
  "function_type E receiver parameters results result_struct loc =
     on_tm (functionType (en_fuel E) receiver parameters results result_struct True loc)"

definition placeholder_array_type :: "string \<Rightarrow> location \<Rightarrow> tref bm" where
  "placeholder_array_type name loc = on_tm (placeholderArrayType name loc)"

text \<open>The length of an array type is a constant expression.\<close>

definition array_length :: "nref \<Rightarrow> backend \<Rightarrow> lenexpr" where
  "array_length x B =
     \<lparr>le_node = x,
      le_const = do { v \<leftarrow> bk_value x B;
                      if isNullValue v (nd_ir (bk_s B)) then Some 0
                      else map_option of_int (int_value v (nd_ir (bk_s B))) }\<rparr>"

definition array_type :: "benv \<Rightarrow> tref \<Rightarrow> nref \<Rightarrow> tref bm" where
  "array_type E elemType len B = on_tm (arrayType (en_fuel E) elemType (array_length len B)) B"

definition set_placeholder_pointer_type :: "benv \<Rightarrow> tref \<Rightarrow> tref \<Rightarrow> bool bm" where
  "set_placeholder_pointer_type E placeholder to_type =
     on_tm (setPlaceholderPointerType (en_fuel E) (en_fuel E) placeholder to_type)"

definition set_placeholder_function_type :: "benv \<Rightarrow> tref \<Rightarrow> tref \<Rightarrow> bool bm" where
  "set_placeholder_function_type E placeholder ft =
     on_tm (setPlaceholderPointerType (en_fuel E) (en_fuel E) placeholder ft)"

definition set_placeholder_struct_type :: "benv \<Rightarrow> tref \<Rightarrow> tident list \<Rightarrow> bool bm" where
  "set_placeholder_struct_type E placeholder flds =
     on_tm (setPlaceholderStructType (en_fuel E) (en_fuel E) placeholder flds)"

definition set_placeholder_array_type :: "benv \<Rightarrow> tref \<Rightarrow> tref \<Rightarrow> nref \<Rightarrow> bool bm" where
  "set_placeholder_array_type E placeholder element_btype len B =
     on_tm (setPlaceholderArrayType (en_fuel E) (en_fuel E) placeholder element_btype (array_length len B)) B"

definition named_type :: "string \<Rightarrow> tref \<Rightarrow> location \<Rightarrow> tref bm" where
  "named_type name btype loc = on_tm (namedType name btype loc)"

definition circular_pointer_type :: "tref \<Rightarrow> tref bm" where
  "circular_pointer_type placeholder = on_tm (circularPointerType placeholder)"

definition is_circular_pointer_type :: "tref \<Rightarrow> backend \<Rightarrow> bool option" where
  "is_circular_pointer_type t B = isCircularPointerType t (bk_tm B)"

definition type_size :: "benv \<Rightarrow> tref \<Rightarrow> backend \<Rightarrow> u64 option" where
  "type_size E t B = typeSize (en_fuel E) t (bk_tm B)"

definition type_alignment :: "tref \<Rightarrow> backend \<Rightarrow> u64 option" where
  "type_alignment t B = typeAlignment t (bk_tm B)"

definition type_field_alignment :: "tref \<Rightarrow> backend \<Rightarrow> u64 option" where
  "type_field_alignment t B = typeFieldAlignment t (bk_tm B)"

definition type_field_offset :: "tref \<Rightarrow> nat \<Rightarrow> backend \<Rightarrow> u64 option" where
  "type_field_offset t index B = typeFieldOffset (bk_tm B) t index"

section \<open>Global expressions\<close>

definition makeGlobalExpression :: "nref \<Rightarrow> vref \<Rightarrow> tref \<Rightarrow> nref bm" where
  "makeGlobalExpression expr val btype B =
     do { check (\<not> isInstruction val);
          (case valueExprmap (bk_s B) (Some val, Some btype) of
             Some x \<Rightarrow> do { B \<leftarrow> upd_s (freeExpr expr) B; Some (x, B) }
           | None \<Rightarrow> Some (expr, B\<lparr>bk_s := (bk_s B)\<lparr>valueExprmap := (valueExprmap (bk_s B))((Some val, Some btype) \<mapsto> expr)\<rparr>\<rparr>)) }"

definition global_const :: "benv \<Rightarrow> tref \<Rightarrow> vref \<Rightarrow> nref bm" where
  "global_const E btype val B =
     do { (x, B) \<leftarrow> on_s (mkConst (en_P E) (Some btype) (Some val)) B; makeGlobalExpression x val btype B }"

definition zero_expression :: "benv \<Rightarrow> tref \<Rightarrow> nref bm" where
  "zero_expression E btype B =
     (if btype = errorType (bk_tm B) then Some (en_errorExpression E, B)
      else do { t \<leftarrow> bk_type btype B; (zeroval, B) \<leftarrow> on_const (getNullValue t) B; global_const E btype zeroval B })"

definition nil_pointer_expression :: "benv \<Rightarrow> nref bm" where
  "nil_pointer_expression E B =
     do { it \<leftarrow> llvmIntegerType (bk_tm B);
          (uintptrt, B) \<leftarrow> bk_aux (PointerTy it) B;
          zero_expression E uintptrt B }"

definition named_constant_expression :: "benv \<Rightarrow> tref \<Rightarrow> nref \<Rightarrow> backend \<Rightarrow> nref" where
  "named_constant_expression E btype val B =
     (if btype = errorType (bk_tm B) \<or> val = en_errorExpression E then en_errorExpression E else val)"

text \<open>
  \<open>checked_convert_mpz_to_int\<close> for a 64-bit type: the magnitude must fit into 64 bits, and the
  sign is put back by negating the word.
\<close>

definition checked_convert_mpz_to_int :: "int \<Rightarrow> u64 option" where
  "checked_convert_mpz_to_int value =
     do { check (\<bar>value\<bar> < 2 ^ 64);
          let rval = (of_int \<bar>value\<bar> :: u64);
          Some (if value < 0 then - rval else rval) }"

text \<open>\<open>ConstantInt::isValueValidForType\<close>.\<close>

definition valid_unsigned :: "nat \<Rightarrow> u64 \<Rightarrow> bool" where
  "valid_unsigned n v \<longleftrightarrow> (if n = 1 then v = 0 \<or> v = 1 else 64 \<le> n \<or> unat v < 2 ^ n)"

definition valid_signed :: "nat \<Rightarrow> u64 \<Rightarrow> bool" where
  "valid_signed n v \<longleftrightarrow> (if n = 1 then v = 0 \<or> v = 1 \<or> v = -1 else 64 \<le> n \<or> (- (2 ^ (n - 1)) \<le> sint v \<and> sint v < 2 ^ (n - 1)))"

definition integer_constant_expression :: "benv \<Rightarrow> tref \<Rightarrow> int \<Rightarrow> nref bm" where
  "integer_constant_expression E btype mpz_val B =
     (if btype = errorType (bk_tm B) then Some (en_errorExpression E, B)
      else do { t \<leftarrow> bk_type btype B; check (isIntegerTy t);
                u \<leftarrow> is_unsigned_of btype B;
                val \<leftarrow> checked_convert_mpz_to_int mpz_val;
                check (if u then valid_unsigned (int_bits t) val else valid_signed (int_bits t) val);
                (lval, B) \<leftarrow> on_const (getInt t (if u then uint val else sint val)) B;
                global_const E btype lval B })"

text \<open>
  Floating-point constants: the arbitrary-precision value is a parameter \<open>val\<close>, rounded by the
  functions of the number library \<open>get_flt\<close> and \<open>get_d\<close> to the bits of a float and of a double.
\<close>

definition float_constant_expression :: "('r \<Rightarrow> u32) \<Rightarrow> ('r \<Rightarrow> u64) \<Rightarrow> benv \<Rightarrow> tref \<Rightarrow> 'r \<Rightarrow> nref bm" where
  "float_constant_expression get_flt get_d E btype val B =
     (if btype = errorType (bk_tm B) then Some (en_errorExpression E, B)
      else do { t \<leftarrow> bk_type btype B;
                if t = FloatTy
                then do { (fcon, B) \<leftarrow> on_const (get_constant (ConstOp (CFloat (ucast (get_flt val)))) [] t) B; global_const E btype fcon B }
                else if t = DoubleTy
                then do { (fcon, B) \<leftarrow> on_const (get_constant (ConstOp (CFloat (get_d val))) [] t) B; global_const E btype fcon B }
                else if t = FP128Ty then None
                else Some (en_errorExpression E, B) })"

definition boolean_constant_expression :: "benv \<Rightarrow> bool \<Rightarrow> nref bm" where
  "boolean_constant_expression E val B =
     do { (con, B) \<leftarrow> on_const (getInt (IntTy 1) (if val then 1 else 0)) B;
          (bt, B) \<leftarrow> bool_type E B;
          t \<leftarrow> bk_type bt B;
          (tobool, B) \<leftarrow> on_ir (CreateCast cast.ZExt con t '''') B;
          global_const E bt tobool B }"

section \<open>Module-scope variables\<close>

definition new_global :: "llty \<Rightarrow> bool \<Rightarrow> linkage \<Rightarrow> vref option \<Rightarrow> string \<Rightarrow> backend \<Rightarrow> vref \<times> backend" where
  "new_global t isConst link init nm B =
     (let m = nd_ir (bk_s B); g = GlobalV (ir_next m);
          m = m\<lparr>ir_next := Suc (ir_next m), ir_type := (ir_type m)(g := PointerTy t), ir_name := (ir_name m)(g := nm)\<rparr>
      in (g, B\<lparr>bk_s := (bk_s B)\<lparr>nd_ir := m\<rparr>,
               bk_globals := (bk_globals B)(g \<mapsto> \<lparr>gv_type = t, gv_constant = isConst, gv_linkage = link, gv_initializer = init,
                                               gv_name = nm, gv_hidden = False, gv_alignment = 0\<rparr>)\<rparr>))"

definition upd_global :: "vref \<Rightarrow> (globalvar \<Rightarrow> globalvar) \<Rightarrow> backend \<Rightarrow> backend option" where
  "upd_global g f B = do { gv \<leftarrow> bk_globals B g; Some (B\<lparr>bk_globals := (bk_globals B)(g \<mapsto> f gv)\<rparr>) }"

definition register_module_var :: "bvariable \<Rightarrow> vref \<Rightarrow> vbref bm" where
  "register_module_var v glob B =
     do { let (bv, s) = new_bvariable v (bk_s B);
          check (bk_valueVarMap B glob = None);
          Some (bv, B\<lparr>bk_s := s, bk_valueVarMap := (bk_valueVarMap B)(glob \<mapsto> bv)\<rparr>) }"

definition makeModuleVar :: "benv \<Rightarrow> tref \<Rightarrow> string \<Rightarrow> string \<Rightarrow> location \<Rightarrow> bool \<Rightarrow> bool \<Rightarrow> bool \<Rightarrow> linkage \<Rightarrow> vref option \<Rightarrow> u32 \<Rightarrow>
    vbref bm" where
  "makeModuleVar E btype name asm_name loc is_const inUniqueSection isHidden link initializer alignment B =
     (if btype = errorType (bk_tm B) then Some (en_errorVariable E, B)
      else do { check (\<not> inUniqueSection);
                t \<leftarrow> bk_type btype B;
                (init, B) \<leftarrow> on_const (getNullValue t) B;
                let gname = (if asm_name = [] then name else asm_name);
                let (glob, B) = new_global t is_const link (Some init) gname B;
                B \<leftarrow> (if isHidden then upd_global glob (\<lambda>g. g\<lparr>gv_hidden := True\<rparr>) B else Some B);
                B \<leftarrow> (if alignment \<noteq> 0 then upd_global glob (\<lambda>g. g\<lparr>gv_alignment := alignment\<rparr>) B else Some B);
                B \<leftarrow> (if initializer \<noteq> None then upd_global glob (\<lambda>g. g\<lparr>gv_initializer := initializer\<rparr>) B else Some B);
                register_module_var (mk_bvariable btype loc gname GlobalVar True (Some glob)) glob B })"

definition genVarForConstant :: "benv \<Rightarrow> vref \<Rightarrow> tref \<Rightarrow> vbref bm" where
  "genVarForConstant E conval type B =
     (case bk_valueVarMap B conval of
        Some v \<Rightarrow> Some (v, B)
      | None \<Rightarrow> do { (ctag, B) \<leftarrow> bk_namegen ''const'' B;
                     (rv, B) \<leftarrow> makeModuleVar E type ctag [] 0 True False False PrivateLinkage (Some conval) 0 B;
                     v \<leftarrow> vb_heap (bk_s B) rv; g \<leftarrow> bv_value v;
                     check (case g of GlobalV k \<Rightarrow> True | _ \<Rightarrow> False);
                     Some (rv, B) })"

definition var_value :: "vbref \<Rightarrow> backend \<Rightarrow> vref option" where
  "var_value x B = do { v \<leftarrow> vb_heap (bk_s B) x; bv_value v }"

text \<open>A constant used as an address goes into a module-scope variable.\<close>

definition spill_constant :: "benv \<Rightarrow> vref \<Rightarrow> tref \<Rightarrow> vref bm" where
  "spill_constant E val btype B =
     (if isConstant val then do { (cv, B) \<leftarrow> genVarForConstant E val btype B; v \<leftarrow> var_value cv B; Some (v, B) }
      else Some (val, B))"

definition global_variable :: "benv \<Rightarrow> string \<Rightarrow> string \<Rightarrow> tref \<Rightarrow> bool \<Rightarrow> bool \<Rightarrow> bool \<Rightarrow> location \<Rightarrow> vbref bm" where
  "global_variable E var_name asm_name btype is_external is_hidden in_unique_section loc =
     makeModuleVar E btype var_name asm_name loc False in_unique_section is_hidden ExternalLinkage None 0"

definition implicit_variable :: "benv \<Rightarrow> string \<Rightarrow> string \<Rightarrow> tref \<Rightarrow> bool \<Rightarrow> bool \<Rightarrow> bool \<Rightarrow> int \<Rightarrow> vbref bm" where
  "implicit_variable E name asm_name btype is_hidden is_constant is_common ialignment B =
     (if btype = errorType (bk_tm B) then Some (en_errorVariable E, B)
      else do { check (0 \<le> ialignment); check (ialignment < 2 ^ 30);
                check (\<not> (is_hidden \<and> is_common));
                makeModuleVar E btype name asm_name 0 is_constant False is_hidden
                  (if is_hidden then ExternalLinkage else WeakODRLinkage) None (of_int ialignment) B })"

definition immutable_struct :: "benv \<Rightarrow> string \<Rightarrow> string \<Rightarrow> bool \<Rightarrow> bool \<Rightarrow> tref \<Rightarrow> location \<Rightarrow> vbref bm" where
  "immutable_struct E name asm_name is_hidden is_common btype loc B =
     (if btype = errorType (bk_tm B) then Some (en_errorVariable E, B)
      else do { check (\<not> (is_hidden \<and> is_common));
                makeModuleVar E btype name asm_name loc True False is_hidden
                  (if is_hidden then ExternalLinkage else WeakODRLinkage) None 0 B })"

definition set_global_init :: "vbref \<Rightarrow> vref \<Rightarrow> backend \<Rightarrow> backend option" where
  "set_global_init var econ B =
     do { g \<leftarrow> var_value var B; upd_global g (\<lambda>x. x\<lparr>gv_initializer := Some econ\<rparr>) B }"

definition immutable_struct_set_init :: "benv \<Rightarrow> vbref \<Rightarrow> nref \<Rightarrow> backend \<Rightarrow> backend option" where
  "immutable_struct_set_init E var initializer B =
     (if var = en_errorVariable E \<or> initializer = en_errorExpression E then Some B
      else do { econ \<leftarrow> bk_value initializer B; check (isConstant econ); set_global_init var econ B })"

definition immutable_struct_reference :: "benv \<Rightarrow> string \<Rightarrow> string \<Rightarrow> tref \<Rightarrow> location \<Rightarrow> vbref bm" where
  "immutable_struct_reference E name asm_name btype loc B =
     (if btype = errorType (bk_tm B) then Some (en_errorVariable E, B)
      else do { let gname = (if asm_name = [] then name else asm_name);
                t \<leftarrow> bk_type btype B;
                (case bk_immutableStructRefs B gname of
                   Some existing \<Rightarrow>
                     do { v \<leftarrow> vb_heap (bk_s B) existing; et \<leftarrow> bk_type (bv_type v) B; check (t = et); Some (existing, B) }
                 | None \<Rightarrow>
                     do { let (glob, B) = new_global t True ExternalLinkage None gname B;
                          (bv, B) \<leftarrow> register_module_var (mk_bvariable btype loc name GlobalVar False (Some glob)) glob B;
                          Some (bv, B\<lparr>bk_immutableStructRefs := (bk_immutableStructRefs B)(gname \<mapsto> bv)\<rparr>) }) })"

text \<open>A string constant: the bytes and a null byte, in a private variable; the value is its address cast to a pointer to bytes.\<close>

definition string_constant_expression :: "benv \<Rightarrow> string \<Rightarrow> nref bm" where
  "string_constant_expression E val B =
     do { st \<leftarrow> stringType (bk_tm B);
          t \<leftarrow> bk_type st B;
          if val = [] then do { (zer, B) \<leftarrow> on_const (getNullValue t) B; global_const E st zer B }
          else do {
            let at = ArrayTy (IntTy 8) (of_nat (length val + 1));
            (scon, B) \<leftarrow> on_const (get_constant (ConstOp (CString (val @ [CHR 0x00]))) [] at) B;
            (case bk_stringConstantMap B scon of
               Some x \<Rightarrow> Some (x, B)
             | None \<Rightarrow>
                 do { (aux, B) \<leftarrow> bk_aux at B;
                      (svar, B) \<leftarrow> makeModuleVar E aux [] [] 0 True False False PrivateLinkage (Some scon) 1 B;
                      varval \<leftarrow> var_value svar B;
                      (bitcast, B) \<leftarrow> on_ir (CreateCast BitCast varval t '''') B;
                      (rval, B) \<leftarrow> global_const E st bitcast B;
                      Some (rval, B\<lparr>bk_stringConstantMap := (bk_stringConstantMap B)(scon \<mapsto> rval)\<rparr>) }) } }"

section \<open>Functions\<close>

definition upd_fcn :: "fref \<Rightarrow> (bfunction \<times> bstate \<Rightarrow> ('a \<times> bfunction \<times> bstate) option) \<Rightarrow> 'a bm" where
  "upd_fcn fr act B =
     do { f \<leftarrow> bk_functions B fr;
          (x, f, s) \<leftarrow> act (f, bk_s B);
          Some (x, B\<lparr>bk_s := s, bk_functions := (bk_functions B)(fr \<mapsto> f)\<rparr>) }"

definition set_curFcn :: "fref \<Rightarrow> backend \<Rightarrow> backend" where
  "set_curFcn fr B = B\<lparr>bk_curFcn := Some fr\<rparr>"

text \<open>\<open>Function::Create\<close> and the constructor of \<open>Bfunction\<close>; the arguments of an LLVM function are \<open>en_arguments\<close>.\<close>

definition new_llfunction :: "llty \<Rightarrow> string \<Rightarrow> backend \<Rightarrow> vref \<times> backend" where
  "new_llfunction fty nm B =
     (let m = nd_ir (bk_s B); fv = FunctionV (ir_next m);
          m = m\<lparr>ir_next := Suc (ir_next m), ir_type := (ir_type m)(fv := PointerTy fty), ir_name := (ir_name m)(fv := nm)\<rparr>
      in (fv, B\<lparr>bk_s := (bk_s B)\<lparr>nd_ir := m\<rparr>,
                bk_llfunctions := (bk_llfunctions B)(fv \<mapsto> \<lparr>lf_type = fty, lf_name = nm, lf_hidden = False, lf_noinline = False,
                   lf_attrs = []\<rparr>)\<rparr>))"

definition upd_llfunction :: "vref \<Rightarrow> (llfunction \<Rightarrow> llfunction) \<Rightarrow> backend \<Rightarrow> backend option" where
  "upd_llfunction fv g B = do { l \<leftarrow> bk_llfunctions B fv; Some (B\<lparr>bk_llfunctions := (bk_llfunctions B)(fv \<mapsto> g l)\<rparr>) }"

definition new_bfunction :: "benv \<Rightarrow> vref \<Rightarrow> tref \<Rightarrow> string \<Rightarrow> string \<Rightarrow> location \<Rightarrow> fref bm" where
  "new_bfunction E fv fcnType name asm_name loc B =
     do { (f, s, tm) \<leftarrow> mk_bfunction (en_fuel E) fv (en_arguments E fv) fcnType name asm_name loc (bk_s B, bk_tm B);
          let fr = bk_fnext B;
          Some (fr, B\<lparr>bk_s := s, bk_tm := tm, bk_functions := (bk_functions B)(fr \<mapsto> f), bk_fnext := Suc fr\<rparr>) }"

definition add_fn_attr :: "string \<Rightarrow> llfunction \<Rightarrow> llfunction" where
  "add_fn_attr a l = l\<lparr>lf_attrs := lf_attrs l @ [a]\<rparr>"

definition bk_function :: "benv \<Rightarrow> tref \<Rightarrow> string \<Rightarrow> string \<Rightarrow> bool \<Rightarrow> bool \<Rightarrow> bool \<Rightarrow> bool \<Rightarrow> bool \<Rightarrow> location \<Rightarrow> fref bm" where
  "bk_function E fntype name asm_name is_visible is_declaration is_inlinable disable_split_stack in_unique_section loc B =
     (if fntype = errorType (bk_tm B) then Some (en_errorFunction E, B)
      else do {
        let fns = (if asm_name \<noteq> [] then asm_name else name);
        fty \<leftarrow> bk_type fntype B;
        check (isFunctionTy fty);
        (case (if is_declaration then bk_fcnNameMap B fns else None) of
           Some found \<Rightarrow>
             do { f \<leftarrow> bk_functions B found; ft \<leftarrow> bk_type (bf_fcnType f) B; check (ft = fty); Some (found, B) }
         | None \<Rightarrow>
             do { let (fcn, B) = new_llfunction fty fns B;
                  B \<leftarrow> upd_llfunction fcn (add_fn_attr ''disable-tail-calls'') B;
                  B \<leftarrow> (if \<not> is_visible then upd_llfunction fcn (\<lambda>l. l\<lparr>lf_hidden := True\<rparr>) B else Some B);
                  B \<leftarrow> (if \<not> is_inlinable then upd_llfunction fcn (\<lambda>l. l\<lparr>lf_noinline := True\<rparr>) B else Some B);
                  (fr, B) \<leftarrow> new_bfunction E fcn fntype name asm_name loc B;
                  B \<leftarrow> (if \<not> disable_split_stack then upd_llfunction fcn (add_fn_attr ''split-stack'') B
                        else do { (u, B) \<leftarrow> upd_fcn fr (\<lambda>(f, s). Some ((), setSplitStack NoSplit f, s)) B; Some B });
                  check (\<not> in_unique_section \<or> is_declaration);
                  let B = (if is_declaration then B\<lparr>bk_fcnNameMap := (bk_fcnNameMap B)(fns \<mapsto> fr)\<rparr> else B);
                  Some (fr, B\<lparr>bk_functionList := bk_functionList B @ [fr]\<rparr>) }) })"

definition function_code_expression :: "benv \<Rightarrow> fref \<Rightarrow> location \<Rightarrow> nref bm" where
  "function_code_expression E bfunc loc B =
     (if bfunc = en_errorFunction E then Some (en_errorExpression E, B)
      else do { f \<leftarrow> bk_functions B bfunc;
                check (isConstant (bf_function f));
                (fpBtype, B) \<leftarrow> pointer_type E (bf_fcnType f) B;
                (fexpr, B) \<leftarrow> on_s (mkFcnAddress (en_P E) (Some fpBtype) (Some (bf_function f)) bfunc loc) B;
                makeGlobalExpression fexpr (bf_function f) fpBtype B })"

section \<open>Builtin functions\<close>

text \<open>
  The type and the name of an intrinsic for given types are LLVM's (\<open>en_intrinsic\<close>); a function of that name
  in the module is used again. The check against the target library (\<open>TLI_\<close>) is never made, nothing sets
  \<open>TLI_\<close>.
\<close>

definition getDeclaration :: "benv \<Rightarrow> IntrinsicID \<Rightarrow> llty list \<Rightarrow> backend \<Rightarrow> vref \<times> backend" where
  "getDeclaration E iid ltypes B =
     (let (fty, nm) = en_intrinsic E iid ltypes
      in case List.find (\<lambda>k. case bk_llfunctions B (FunctionV k) of Some l \<Rightarrow> lf_name l = nm | None \<Rightarrow> False)
                [0..<ir_next (nd_ir (bk_s B))] of
           Some k \<Rightarrow> (FunctionV k, B)
         | None \<Rightarrow> new_llfunction fty nm B)"

definition defineBuiltinFcn :: "benv \<Rightarrow> string \<Rightarrow> vref \<Rightarrow> fref bm" where
  "defineBuiltinFcn E name fcn B =
     do { llft \<leftarrow> (case val_type B fcn of PointerTy t \<Rightarrow> Some t | _ \<Rightarrow> None);
          check (isFunctionTy llft);
          (fcnType, B) \<leftarrow> on_tm (makeAuxFcnType llft) B;
          new_bfunction E fcn fcnType name name (en_predeclared E) B }"

definition builtin_ident :: "location \<Rightarrow> string \<Rightarrow> tref \<Rightarrow> tident" where
  "builtin_ident loc nm t = \<lparr>ti_name = nm, ti_btype = t, ti_location = loc\<rparr>"

definition materialize_builtin :: "benv \<Rightarrow> BuiltinEntry \<Rightarrow> fref bm" where
  "materialize_builtin E e B =
     (case be_flavor e of
        IntrinsicBuiltin \<Rightarrow>
          do { ltypes \<leftarrow> map_opt (\<lambda>t. bk_type t B) (be_types e);
               iid \<leftarrow> be_intrinsicId e;
               let (fcn, B) = getDeclaration E iid ltypes B;
               defineBuiltinFcn E (be_name e) fcn B }
      | LibcallBuiltin \<Rightarrow>
          do { let bloc = en_predeclared E;
               r \<leftarrow> nth_opt (be_types e) 0;
               (fcnType, B) \<leftarrow> on_tm (functionType (en_fuel E) None (map (builtin_ident bloc []) (tl (be_types e)))
                  [builtin_ident bloc ''ret'' r] None False bloc) B;
               bk_function E fcnType (be_name e) (be_name e) True False False False False bloc B })"

definition lookup_builtin :: "benv \<Rightarrow> string \<Rightarrow> fref option bm" where
  "lookup_builtin E name B =
     do { r \<leftarrow> builtin_lookup name (bk_builtinTable B);
          (case r of
             None \<Rightarrow> Some (None, B)
           | Some i \<Rightarrow>
               do { e \<leftarrow> nth_opt (bt_entries (bk_builtinTable B)) i;
                    (case be_bfunction e of
                       Some bf \<Rightarrow> Some (Some bf, B)
                     | None \<Rightarrow>
                         do { (bf, B) \<leftarrow> materialize_builtin E e B;
                              e \<leftarrow> setBfunction bf e;
                              let T = bk_builtinTable B;
                              Some (Some bf, B\<lparr>bk_builtinTable := T\<lparr>bt_entries := (bt_entries T)[i := e]\<rparr>\<rparr>) }) }) }"

section \<open>Local variables, labels and goto\<close>

definition local_variable :: "benv \<Rightarrow> fref \<Rightarrow> string \<Rightarrow> tref \<Rightarrow> bool \<Rightarrow> location \<Rightarrow> vbref bm" where
  "local_variable E func name btype is_address_taken loc B =
     (if btype = errorType (bk_tm B) \<or> func = en_errorFunction E then Some (en_errorVariable E, B)
      else upd_fcn func (localVariable name btype is_address_taken loc (bk_tm B)) (set_curFcn func B))"

definition parameter_variable :: "benv \<Rightarrow> fref \<Rightarrow> string \<Rightarrow> tref \<Rightarrow> bool \<Rightarrow> location \<Rightarrow> vbref bm" where
  "parameter_variable E func name btype is_address_taken loc B =
     (let B = set_curFcn func B
      in if btype = errorType (bk_tm B) \<or> func = en_errorFunction E then Some (en_errorVariable E, B)
         else upd_fcn func (parameterVariable name btype is_address_taken loc (bk_tm B)) B)"

definition static_chain_variable :: "benv \<Rightarrow> fref \<Rightarrow> string \<Rightarrow> tref \<Rightarrow> location \<Rightarrow> vbref bm" where
  "static_chain_variable E func name btype loc B =
     (if func = en_errorFunction E \<or> btype = errorType (bk_tm B) then Some (en_errorVariable E, B)
      else upd_fcn func (staticChainVariable name btype loc (bk_tm B)) B)"

definition bk_label :: "fref \<Rightarrow> location \<Rightarrow> blabel bm" where
  "bk_label func loc = upd_fcn func (\<lambda>(f, s). let (lb, f) = newLabel (Some func) loc f in Some (lb, f, s))"

definition label_definition_statement :: "benv \<Rightarrow> blabel \<Rightarrow> nref bm" where
  "label_definition_statement E label B =
     do { (st, B) \<leftarrow> on_s (mkLabelDefStmt (en_P E) (lb_function label) label (lb_location label)) B;
          func \<leftarrow> lb_function label;
          (u, B) \<leftarrow> upd_fcn func (\<lambda>(f, s). do { f \<leftarrow> registerLabelDefStatement st label (f, s); Some ((), f, s) }) B;
          Some (st, B) }"

definition goto_statement :: "benv \<Rightarrow> blabel \<Rightarrow> location \<Rightarrow> nref bm" where
  "goto_statement E label loc = on_s (mkGotoStmt (en_P E) (lb_function label) label loc)"

section \<open>The constructor\<close>

text \<open>
  \<open>E\<close> brings what is not the backend's; the error objects come from the constructor. The error function has a
  variable number of arguments so that it meets no function of the frontend.
\<close>

definition empty_irmem :: irmem where
  "empty_irmem = \<lparr>ir_next = 0, ir_operands = Map.empty, ir_name = (\<lambda>v. []), ir_op = (\<lambda>v. NoOp), ir_type = (\<lambda>v. VoidTy)\<rparr>"

definition empty_backend :: "bstate \<Rightarrow> typemanager \<Rightarrow> backend" where
  "empty_backend s tm =
     \<lparr>bk_s = s, bk_tm = tm, bk_functions = Map.empty, bk_fnext = 0, bk_functionList = [], bk_valueVarMap = Map.empty,
      bk_stringConstantMap = Map.empty, bk_immutableStructRefs = Map.empty, bk_fcnNameMap = Map.empty,
      bk_globals = Map.empty, bk_llfunctions = Map.empty, bk_callAttrs = Map.empty,
      bk_builtinTable = mk_builtintable False, bk_errorCount = 0, bk_curFcn = None\<rparr>"

definition mk_backend :: "benv \<Rightarrow> llctx \<Rightarrow> layout \<Rightarrow> (benv \<times> backend) option" where
  "mk_backend E c D =
     do { tm \<leftarrow> new_typemanager X86_64_SysV c;
          (ex, s) \<leftarrow> mkError (en_P E) (errorType tm) (init_bstate empty_irmem);
          let B = empty_backend s (initializeTypeManager ex D Map.empty tm);
          let eft = FunctionTy VoidTy [llvmPtrType] True;
          let (ef, B) = new_llfunction eft [] B;
          (fty, B) \<leftarrow> on_tm (makeAuxFcnType eft) B;
          (errf, B) \<leftarrow> new_bfunction E ef fty [] [] 0 B;
          (st, B) \<leftarrow> on_s mkErrorStmt B;
          (ev, B) \<leftarrow> on_s (\<lambda>s. Some (new_bvariable (mk_bvariable (errorType (bk_tm B)) 0 [] ErrorVar False None) s)) B;
          (T, tm) \<leftarrow> defineAllBuiltins (en_fuel E) (bk_builtinTable B, bk_tm B);
          Some (E\<lparr>en_errorExpression := ex, en_errorStatement := st, en_errorVariable := ev, en_errorFunction := errf\<rparr>,
                B\<lparr>bk_tm := tm, bk_builtinTable := T\<rparr>) }"

end
