(* ===== verification/Expressions.thy ===== *)
theory Expressions
  imports Backend
begin

text \<open>
  The expressions of \<^verbatim>\<open>go-llvm.cpp\<close> that need no function: loads, variables, conversions, addresses,
  fields and elements, unary and binary operators, and constructors of composites. An expression with a
  pending variable context stands for its value or its address; \<open>resolveVarContext\<close> decides. The error
  expression comes back for erroneous operands. What the code asserts aborts, what it does not implement
  (complex numbers, \<open>long double\<close> constants) aborts as well.
\<close>

section \<open>Conversions\<close>

text \<open>
  The instruction for a conversion, with the tag its name is made from: \<open>it\<close> is the integer type as wide as a
  pointer; \<open>to_u\<close> and \<open>from_u\<close> are the signedness of the types, if they are integer types. The test for
  pointer-sized integers comes before the other integer cases.
\<close>

definition cast_kind :: "llty \<Rightarrow> bool option \<Rightarrow> bool option \<Rightarrow> llty \<Rightarrow> llty \<Rightarrow> (cast \<times> string) option" where
  "cast_kind it to_u from_u valType toType =
     (if isPointerTy valType \<and> toType = it then Some (PtrToInt, ''pticast'')
      else if valType = it then Some (IntToPtr, ''itpcast'')
      else if isPointerTy valType \<and> isPointerTy toType then Some (BitCast, ''cast'')
      else if isIntegerTy valType \<and> isIntegerTy toType then
        (if int_bits valType < int_bits toType
         then map_option (\<lambda>u. if u then (cast.ZExt, ''zext'') else (cast.SExt, ''sext'')) to_u
         else Some (Trunc, ''trunc''))
      else if isFloatTy toType \<and> isFloatTy valType then
        (if toType = FloatTy \<and> valType = DoubleTy then Some (FPTrunc, ''trunc'')
         else if toType = DoubleTy \<and> valType = FloatTy then Some (FPExt, ''trunc'')
         else None)
      else if isIntegerTy toType \<and> isFloatTy valType then
        map_option (\<lambda>u. if u then (FPToUI, ''ftoui'') else (FPToUI, ''ftosi'')) to_u
      else if isFloatTy toType \<and> isIntegerTy valType then
        map_option (\<lambda>u. if u then (UIToFP, ''uitof'') else (SIToFP, ''sitof'')) from_u
      else None)"

definition convert_value :: "benv \<Rightarrow> tref \<Rightarrow> llty \<Rightarrow> vref \<Rightarrow> tref option \<Rightarrow> nref \<Rightarrow> location \<Rightarrow> nref bm" where
  "convert_value E type toType val from_t expr loc B =
     do { it \<leftarrow> llvmIntegerType (bk_tm B);
          (c, tag) \<leftarrow> cast_kind it (is_unsigned_of type B) (do { t \<leftarrow> from_t; is_unsigned_of t B }) (val_type B val) toType;
          (nm, B) \<leftarrow> bk_namegen tag B;
          (conv, B) \<leftarrow> on_ir (CreateCast c val toType nm) B;
          on_s (mkConversion (en_P E) (Some type) (Some conv) expr loc) B }"

definition convert_expression :: "benv \<Rightarrow> tref \<Rightarrow> nref \<Rightarrow> location \<Rightarrow> nref bm" where
  "convert_expression E type expr loc B =
     (if type = errorType (bk_tm B) \<or> expr = en_errorExpression E then Some (en_errorExpression E, B)
      else do {
        e \<leftarrow> bk_expr expr B;
        if e_btype e = Some type then Some (expr, B)
        else do {
          val \<leftarrow> e_value e;
          toType \<leftarrow> bk_type type B;
          if toType = val_type B val then Some (expr, B)
          else do {
            (type, toType, B) \<leftarrow>
              (if isFunctionTy toType
               then do { (pt, B) \<leftarrow> pointer_type E type B; t \<leftarrow> bk_type pt B; Some (pt, t, B) }
               else Some (type, toType, B));
            toType \<leftarrow>
              (if varExprPending e
               then do { et \<leftarrow> e_btype e; t \<leftarrow> bk_type et B;
                         Some (if val_type B val = PointerTy t then PointerTy toType else toType) }
               else Some toType);
            convert_value E type toType val (e_btype e) expr loc B } } })"

section \<open>Loads and variable contexts\<close>

definition loadFromExpr :: "benv \<Rightarrow> nref \<Rightarrow> tref \<Rightarrow> location \<Rightarrow> string \<Rightarrow> nref bm" where
  "loadFromExpr E expr btype loc tag B =
     do { (ldname, B) \<leftarrow> bk_namegen (tag @ ''.ld'') B;
          et \<leftarrow> bk_btype expr B;
          (space, loadResultType, B) \<leftarrow>
            (case circularTypeLoadConversion et (bk_tm B) of
               None \<Rightarrow> Some (expr, btype, B)
             | Some tctyp \<Rightarrow>
                 do { (pt, B) \<leftarrow> pointer_type E tctyp B;
                      (space, B) \<leftarrow> convert_expression E pt expr loc B;
                      Some (space, tctyp, B) });
          p \<leftarrow> bk_value space B;
          (loadInst, B) \<leftarrow> on_ir (mk_load p ldname) B;
          (rval, B) \<leftarrow> on_s (mkDeref (en_P E) (Some loadResultType) (Some loadInst) space loc) B;
          B \<leftarrow> upd_s (appendInstruction rval loadInst) B;
          Some (rval, B) }"

definition resolveVarContext :: "benv \<Rightarrow> nref \<Rightarrow> Varexpr_context \<Rightarrow> nref bm" where
  "resolveVarContext E expr ctx B =
     do { e \<leftarrow> bk_expr expr B;
          if \<not> varExprPending e then Some (expr, B)
          else do {
            let vc = e_ctx e;
            check (vc_addrLevel vc = 0 \<or> vc_addrLevel vc = 1);
            bt \<leftarrow> e_btype e;
            if vc_addrLevel vc = 1 \<or> vc_lvalue vc \<or> ctx = VE_lvalue
            then do { t \<leftarrow> bk_type bt B;
                      check (vc_addrLevel vc = 0 \<or> isPointerTy t);
                      B \<leftarrow> upd_s (resetVarExprContext expr) B;
                      Some (expr, B) }
            else do { loc \<leftarrow> bk_loc expr B; loadFromExpr E expr bt loc (e_tag e) B } } }"

definition var_expression :: "benv \<Rightarrow> vbref \<Rightarrow> Varexpr_context \<Rightarrow> location \<Rightarrow> nref bm" where
  "var_expression E var in_lvalue_pos loc B =
     (if var = en_errorVariable E then Some (en_errorExpression E, B)
      else do { (varexp, B) \<leftarrow> on_s (mkVar (en_P E) var loc) B;
                v \<leftarrow> vb_heap (bk_s B) var;
                B \<leftarrow> upd_s (setTag varexp (bv_name v)) B;
                B \<leftarrow> upd_s (setVarExprPending varexp (in_lvalue_pos = VE_lvalue) 0) B;
                Some (varexp, B) })"

definition indirect_expression :: "benv \<Rightarrow> tref \<Rightarrow> nref \<Rightarrow> bool \<Rightarrow> location \<Rightarrow> nref bm" where
  "indirect_expression E btype expr known_valid loc B =
     (if expr = en_errorExpression E \<or> btype = errorType (bk_tm B) then Some (en_errorExpression E, B)
      else do {
        e \<leftarrow> bk_expr expr B;
        et \<leftarrow> e_btype e; t \<leftarrow> bk_type et B;
        check (isPointerTy t);
        if varExprPending e \<and> vc_addrLevel (e_ctx e) \<noteq> 0
        then do { (rval, B) \<leftarrow> on_s (mkDeref (en_P E) (Some btype) (e_value e) expr loc) B;
                  B \<leftarrow> upd_s (setVarExprPending rval (vc_lvalue (e_ctx e)) (vc_addrLevel (e_ctx e) - 1)) B;
                  Some (rval, B) }
        else do { (rval, B) \<leftarrow> loadFromExpr E expr btype loc (if e_tag e = [] then ''deref'' else e_tag e) B;
                  B \<leftarrow> (if varExprPending e
                       then do { e' \<leftarrow> bk_expr expr B; upd_s (setVarExprPending_ctx rval (e_ctx e')) B }
                       else Some B);
                  Some (rval, B) } })"

section \<open>Addresses\<close>

text \<open>
  \<open>isa<ConstantArray>\<close>: an array of nothing but plain numbers is of another class (\<open>ConstantDataArray\<close>), and
  so is an array of zeros, which is a null value.
\<close>

definition data_element :: "llty \<Rightarrow> bool" where
  "data_element t \<longleftrightarrow> t \<in> {IntTy 8, IntTy 16, IntTy 32, IntTy 64, FloatTy, DoubleTy}"

definition isNumber :: "irmem \<Rightarrow> vref \<Rightarrow> bool" where
  "isNumber m v \<longleftrightarrow> (case v of ConstantV k \<Rightarrow> (case ir_op m v of ConstOp CNull \<Rightarrow> True | ConstOp (CInt i) \<Rightarrow> True
      | ConstOp (CFloat f) \<Rightarrow> True | _ \<Rightarrow> False) | _ \<Rightarrow> False)"

definition isConstantArray :: "vref \<Rightarrow> irmem \<Rightarrow> bool" where
  "isConstantArray v m \<longleftrightarrow>
     (case v of ConstantV k \<Rightarrow>
        (case ir_type m v of ArrayTy t n \<Rightarrow>
           ir_op m v = ConstOp CAggregate \<and>
           \<not> (data_element t \<and> (case ir_operands m v of Some ops \<Rightarrow> list_all (isNumber m) ops | None \<Rightarrow> False))
         | _ \<Rightarrow> False)
      | _ \<Rightarrow> False)"

definition address_expression :: "benv \<Rightarrow> nref \<Rightarrow> location \<Rightarrow> nref bm" where
  "address_expression E bexpr loc B =
     (if bexpr = en_errorExpression E then Some (en_errorExpression E, B)
      else do {
        e \<leftarrow> bk_expr bexpr B;
        val \<leftarrow> e_value e;
        if isConstantArray val (nd_ir (bk_s B)) then Some (bexpr, B)
        else do {
          st \<leftarrow> stringType (bk_tm B); stt \<leftarrow> bk_type st B;
          if val_type B val = stt \<and> isConstant val then Some (bexpr, B)
          else do {
            bt \<leftarrow> e_btype e;
            (val, B) \<leftarrow> spill_constant E val bt B;
            (pt, B) \<leftarrow> pointer_type E bt B;
            (rval, B) \<leftarrow> on_s (mkAddress (en_P E) (Some pt) (Some val) bexpr loc) B;
            B \<leftarrow> upd_s (setTag rval (e_tag e @ ''.ad'')) B;
            B \<leftarrow> upd_s (setVarExprPending rval (vc_lvalue (e_ctx e)) (vc_addrLevel (e_ctx e) + 1)) B;
            (case circularTypeAddrConversion bt (bk_tm B) of
               Some ctypconv \<Rightarrow> convert_expression E ctypconv rval loc B
             | None \<Rightarrow> Some (rval, B)) } } })"

definition makePointerOffsetGEP :: "llty \<Rightarrow> vref \<Rightarrow> vref \<Rightarrow> vref bm" where
  "makePointerOffsetGEP pointee idxval sptr B =
     do { (nm, B) \<leftarrow> bk_namegen ''ptroff'' B; on_ir (CreateGEP_ptr pointee sptr idxval nm) B }"

definition makeArrayIndexGEP :: "llty \<Rightarrow> vref \<Rightarrow> vref \<Rightarrow> vref bm" where
  "makeArrayIndexGEP llat idxval sptr B =
     do { (nm, B) \<leftarrow> bk_namegen ''index'' B; on_ir (CreateGEP_array llat sptr idxval nm) B }"

definition makeFieldGEP :: "llty \<Rightarrow> u32 \<Rightarrow> vref \<Rightarrow> vref bm" where
  "makeFieldGEP llst fieldIndex sptr B =
     do { ts \<leftarrow> struct_elems (tm_context (bk_tm B)) llst;
          check (unat fieldIndex < length ts);
          (nm, B) \<leftarrow> bk_namegen ''field'' B;
          on_ir (CreateGEP_field (tm_context (bk_tm B)) llst sptr fieldIndex nm) B }"

text \<open>A pending context moves to the new expression, the tag gets a suffix.\<close>

definition derived :: "nref \<Rightarrow> nref \<Rightarrow> string \<Rightarrow> nref bm" where
  "derived src rval suffix B =
     do { e \<leftarrow> bk_expr src B;
          B \<leftarrow> (if varExprPending e then upd_s (setVarExprPending_ctx rval (e_ctx e)) B else Some B);
          B \<leftarrow> upd_s (setTag rval (e_tag e @ suffix)) B;
          Some (rval, B) }"

definition struct_field_expression :: "benv \<Rightarrow> nref \<Rightarrow> u64 \<Rightarrow> location \<Rightarrow> nref bm" where
  "struct_field_expression E bstruct index loc B =
     (if bstruct = en_errorExpression E then Some (en_errorExpression E, B)
      else do {
        e \<leftarrow> bk_expr bstruct B;
        bt \<leftarrow> e_btype e; llt \<leftarrow> bk_type bt B;
        check (isStructTy llt);
        p \<leftarrow> e_value e;
        (gep, B) \<leftarrow> makeFieldGEP llt (ucast index) p B;
        bft \<leftarrow> elementTypeByIndex bt (unat (ucast index :: u32)) (bk_tm B);
        (rval, B) \<leftarrow> on_s (mkStructField (en_P E) (Some bft) (Some gep) bstruct (ucast index) loc) B;
        derived bstruct rval ''.field'' B })"

definition pointer_offset_expression :: "benv \<Rightarrow> nref \<Rightarrow> nref \<Rightarrow> location \<Rightarrow> nref bm" where
  "pointer_offset_expression E base index loc B =
     (if base = en_errorExpression E \<or> index = en_errorExpression E then Some (en_errorExpression E, B)
      else do {
        (base, B) \<leftarrow> resolveVarContext E base VE_rvalue B;
        (index, B) \<leftarrow> resolveVarContext E index VE_rvalue B;
        bt \<leftarrow> bk_btype base B; t \<leftarrow> bk_type bt B;
        pointee \<leftarrow> (case t of PointerTy t \<Rightarrow> Some t | _ \<Rightarrow> None);
        i \<leftarrow> bk_value index B; p \<leftarrow> bk_value base B;
        (gep, B) \<leftarrow> makePointerOffsetGEP pointee i p B;
        (rval, B) \<leftarrow> on_s (mkArrayIndex (en_P E) (Some bt) (Some gep) base index loc) B;
        e \<leftarrow> bk_expr base B;
        B \<leftarrow> upd_s (setTag rval (e_tag e @ ''.ptroff'')) B;
        Some (rval, B) })"

definition array_index_expression :: "benv \<Rightarrow> nref \<Rightarrow> nref \<Rightarrow> location \<Rightarrow> nref bm" where
  "array_index_expression E barray index loc B =
     (if barray = en_errorExpression E \<or> index = en_errorExpression E then Some (en_errorExpression E, B)
      else do {
        (index, B) \<leftarrow> resolveVarContext E index VE_rvalue B;
        bt \<leftarrow> bk_btype barray B; llat \<leftarrow> bk_type bt B;
        check (isArrayTy llat);
        i \<leftarrow> bk_value index B; p \<leftarrow> bk_value barray B;
        (gep, B) \<leftarrow> makeArrayIndexGEP llat i p B;
        bet \<leftarrow> elementTypeByIndex bt 0 (bk_tm B);
        (rval, B) \<leftarrow> on_s (mkArrayIndex (en_P E) (Some bet) (Some gep) barray index loc) B;
        derived barray rval ''.index'' B })"

definition compound_expression :: "benv \<Rightarrow> nref \<Rightarrow> nref \<Rightarrow> location \<Rightarrow> nref bm" where
  "compound_expression E bstat bexpr loc B =
     (if bstat = en_errorStatement E \<or> bexpr = en_errorExpression E then Some (en_errorExpression E, B)
      else on_s (mkCompound (en_P E) bstat bexpr loc) B)"

section \<open>Operators\<close>

definition compare_op_to_pred :: "Operator \<Rightarrow> llty \<Rightarrow> bool \<Rightarrow> Predicate option" where
  "compare_op_to_pred op typ isUnsigned =
     (if isFloatingPointTy typ then
        (case op of OPERATOR_EQEQ \<Rightarrow> Some FCMP_OEQ | OPERATOR_NOTEQ \<Rightarrow> Some FCMP_ONE | OPERATOR_LT \<Rightarrow> Some FCMP_OLT
         | OPERATOR_LE \<Rightarrow> Some FCMP_OLE | OPERATOR_GT \<Rightarrow> Some FCMP_OGT | OPERATOR_GE \<Rightarrow> Some FCMP_OGE | _ \<Rightarrow> None)
      else
        (case op of OPERATOR_EQEQ \<Rightarrow> Some ICMP_EQ | OPERATOR_NOTEQ \<Rightarrow> Some ICMP_NE
         | OPERATOR_LT \<Rightarrow> Some (if isUnsigned then ICMP_ULT else ICMP_SLT)
         | OPERATOR_LE \<Rightarrow> Some (if isUnsigned then ICMP_ULE else ICMP_SLE)
         | OPERATOR_GT \<Rightarrow> Some (if isUnsigned then ICMP_UGT else ICMP_SGT)
         | OPERATOR_GE \<Rightarrow> Some (if isUnsigned then ICMP_UGE else ICMP_SGE) | _ \<Rightarrow> None))"

text \<open>
  A null pointer takes the type of the other operand. The builder would append the cast to the operand; a
  cast of null is folded, so nothing is appended.
\<close>

definition convertForBinary :: "nref \<Rightarrow> nref \<Rightarrow> (vref \<times> vref) bm" where
  "convertForBinary left right B =
     do { lv \<leftarrow> bk_value left B; rv \<leftarrow> bk_value right B;
          let lt = val_type B lv;
          let rt = val_type B rv;
          if lt = rt then Some ((lv, rv), B)
          else if isNullPointer lv (nd_ir (bk_s B)) \<and> isPointerTy rt
          then do { (tag, B) \<leftarrow> bk_namegen ''cast'' B;
                    (bitcast, B) \<leftarrow> on_ir (CreateCast BitCast lv rt tag) B;
                    Some ((bitcast, rv), B) }
          else if isNullPointer rv (nd_ir (bk_s B)) \<and> isPointerTy lt
          then do { (tag, B) \<leftarrow> bk_namegen ''cast'' B;
                    (bitcast, B) \<leftarrow> on_ir (CreateCast BitCast rv lt tag) B;
                    Some ((lv, bitcast), B) }
          else Some ((lv, rv), B) }"

text \<open>The instruction and the tag for an arithmetic or logical operator; every other operator is unhandled.\<close>

definition arith_op :: "Operator \<Rightarrow> bool \<Rightarrow> bool \<Rightarrow> (string \<times> string) option" where
  "arith_op op fp isUnsigned =
     (case op of
        OPERATOR_MINUS \<Rightarrow> Some (if fp then (''fsub'', ''fsub'') else (''sub'', ''sub''))
      | OPERATOR_PLUS \<Rightarrow> Some (if fp then (''fadd'', ''fadd'') else (''add'', ''add''))
      | OPERATOR_MULT \<Rightarrow> Some (if fp then (''fmul'', ''fmul'') else (''mul'', ''mul''))
      | OPERATOR_MOD \<Rightarrow> (if fp then None else Some (if isUnsigned then ''urem'' else ''srem'', ''mod''))
      | OPERATOR_DIV \<Rightarrow> Some (if fp then (''fdiv'', ''fdiv'') else (if isUnsigned then ''udiv'' else ''sdiv'', ''div''))
      | OPERATOR_OROR \<Rightarrow> (if fp then None else Some (''or'', ''ior''))
      | OPERATOR_ANDAND \<Rightarrow> (if fp then None else Some (''and'', ''iand''))
      | OPERATOR_AND \<Rightarrow> (if fp then None else Some (''and'', ''iand''))
      | OPERATOR_XOR \<Rightarrow> (if fp then None else Some (''xor'', ''xor''))
      | _ \<Rightarrow> None)"

definition is_compare :: "Operator \<Rightarrow> bool" where
  "is_compare op \<longleftrightarrow> op \<in> {OPERATOR_EQEQ, OPERATOR_NOTEQ, OPERATOR_LT, OPERATOR_LE, OPERATOR_GT, OPERATOR_GE}"

definition compare_expression :: "benv \<Rightarrow> Operator \<Rightarrow> bool \<Rightarrow> vref \<Rightarrow> vref \<Rightarrow> nref \<Rightarrow> nref \<Rightarrow> location \<Rightarrow> nref bm" where
  "compare_expression E op isUnsigned leftVal rightVal left right loc B =
     do { let ltype = val_type B leftVal;
          pred \<leftarrow> compare_op_to_pred op ltype isUnsigned;
          (val, B) \<leftarrow> (if isFloatingPointTy ltype
             then do { (nm, B) \<leftarrow> bk_namegen ''fcmp'' B; on_ir (CreateFCmp pred leftVal rightVal nm) B }
             else do { (nm, B) \<leftarrow> bk_namegen ''icmp'' B; on_ir (CreateICmp pred leftVal rightVal nm) B });
          (bcmpt, B) \<leftarrow> bk_aux (IntTy 1) B;
          (cmpex, B) \<leftarrow> on_s (mkBinaryOp (en_P E) op (Some bcmpt) (Some val) left right loc) B;
          (bt, B) \<leftarrow> bool_type E B;
          convert_expression E bt cmpex loc B }"

definition binary_expression :: "benv \<Rightarrow> Operator \<Rightarrow> nref \<Rightarrow> nref \<Rightarrow> location \<Rightarrow> nref bm" where
  "binary_expression E op left right loc B =
     (if left = en_errorExpression E \<or> right = en_errorExpression E then Some (en_errorExpression E, B)
      else do {
        (left, B) \<leftarrow> resolveVarContext E left VE_rvalue B;
        (right, B) \<leftarrow> resolveVarContext E right VE_rvalue B;
        bltype \<leftarrow> bk_btype left B; brtype \<leftarrow> bk_btype right B;
        ((leftVal, rightVal), B) \<leftarrow> convertForBinary left right B;
        let ltype = val_type B leftVal;
        check (ltype = val_type B rightVal);
        let lu = is_unsigned_of bltype B;
        let ru = is_unsigned_of brtype B;
        check (lu = ru);
        let isUnsigned = (lu = Some True);
        if is_compare op then compare_expression E op isUnsigned leftVal rightVal left right loc B
        else do {
          (opname, tag) \<leftarrow> arith_op op (isFloatingPointTy ltype) isUnsigned;
          (nm, B) \<leftarrow> bk_namegen tag B;
          (val, B) \<leftarrow> on_ir (CreateBinOp opname (isFloatingPointTy ltype) leftVal rightVal nm) B;
          on_s (mkBinaryOp (en_P E) op (Some bltype) (Some val) left right loc) B } })"

definition not_expression :: "benv \<Rightarrow> nref \<Rightarrow> tref \<Rightarrow> location \<Rightarrow> nref bm" where
  "not_expression E expr bt loc B =
     do { isb \<leftarrow> isBooleanType bt (bk_tm B); check isb;
          (bzero, B) \<leftarrow> zero_expression E bt B;
          v \<leftarrow> bk_value expr B; z \<leftarrow> bk_value bzero B;
          (nm, B) \<leftarrow> bk_namegen ''icmp'' B;
          (cmp, B) \<leftarrow> on_ir (CreateICmp ICMP_NE v z nm) B;
          (lbt, B) \<leftarrow> bk_aux (IntTy 1) B;
          (cmpex, B) \<leftarrow> on_s (mkBinaryOp (en_P E) OPERATOR_EQEQ (Some lbt) (Some cmp) bzero expr loc) B;
          (one, B) \<leftarrow> on_const (getInt (IntTy 1) 1) B;
          (nm, B) \<leftarrow> bk_namegen ''xor'' B;
          (xorex, B) \<leftarrow> on_ir (CreateBinOp ''xor'' False cmp one nm) B;
          (notex, B) \<leftarrow> on_s (mkUnaryOp (en_P E) OPERATOR_NOT (Some lbt) (Some xorex) cmpex loc) B;
          (bbt, B) \<leftarrow> bool_type E B;
          convert_expression E bbt notex loc B }"

definition unary_expression :: "benv \<Rightarrow> Operator \<Rightarrow> nref \<Rightarrow> location \<Rightarrow> nref bm" where
  "unary_expression E op expr loc B =
     (if expr = en_errorExpression E then Some (en_errorExpression E, B)
      else do {
        (expr, B) \<leftarrow> resolveVarContext E expr VE_rvalue B;
        bt \<leftarrow> bk_btype expr B;
        (case op of
           OPERATOR_MINUS \<Rightarrow> do { (z, B) \<leftarrow> zero_expression E bt B; binary_expression E OPERATOR_MINUS z expr loc B }
         | OPERATOR_NOT \<Rightarrow> not_expression E expr bt loc B
         | OPERATOR_XOR \<Rightarrow>
             do { t \<leftarrow> bk_type bt B; check (isIntegerTy t);
                  (onesval, B) \<leftarrow> on_const (getInt t (-1)) B;
                  v \<leftarrow> bk_value expr B;
                  (nm, B) \<leftarrow> bk_namegen ''xor'' B;
                  (xorExpr, B) \<leftarrow> on_ir (CreateBinOp ''xor'' False v onesval nm) B;
                  on_s (mkUnaryOp (en_P E) op (Some bt) (Some xorExpr) expr loc) B }
         | _ \<Rightarrow> None) })"

section \<open>Composites\<close>

definition valuesAreConstant :: "nref list \<Rightarrow> backend \<Rightarrow> bool option" where
  "valuesAreConstant vals B =
     do { es \<leftarrow> map_opt (\<lambda>x. bk_expr x B) vals;
          Some (list_all (\<lambda>e. case e_value e of None \<Rightarrow> False | Some v \<Rightarrow> isConstant v) es) }"

definition getTypeAtIndex :: "llctx \<Rightarrow> llty \<Rightarrow> nat \<Rightarrow> llty option" where
  "getTypeAtIndex c llct i =
     (case llct of ArrayTy t n \<Rightarrow> Some t | _ \<Rightarrow> do { ts \<leftarrow> struct_elems c llct; nth_opt ts i })"

text \<open>Filling a vector by index; an index outside is undefined.\<close>

fun place :: "nat list \<Rightarrow> 'a list \<Rightarrow> 'a option list \<Rightarrow> 'a option list option" where
  "place [] vs slots = Some slots"
| "place (i # is) (v # vs) slots = do { check (i < length slots); place is vs (slots[i := Some v]) }"
| "place (i # is) [] slots = None"

fun zero_fill :: "benv \<Rightarrow> tref \<Rightarrow> nat \<Rightarrow> nref option list \<Rightarrow> nref list bm" where
  "zero_fill E btype i [] B = Some ([], B)"
| "zero_fill E btype i (s # ss) B =
     do { bElemTyp \<leftarrow> elementTypeByIndex btype i (bk_tm B);
          (x, B) \<leftarrow> (case s of Some x \<Rightarrow> Some (x, B) | None \<Rightarrow> zero_expression E bElemTyp B);
          (xs, B) \<leftarrow> zero_fill E btype (Suc i) ss B;
          Some (x # xs, B) }"

definition makeDelayedCompositeExpr :: "benv \<Rightarrow> tref \<Rightarrow> nat \<Rightarrow> nat list \<Rightarrow> nref list \<Rightarrow> location \<Rightarrow> nref bm" where
  "makeDelayedCompositeExpr E btype numElements indexes vals loc B =
     do { slots \<leftarrow> place indexes vals (replicate numElements None);
          (init_vals, B) \<leftarrow> (if numElements \<noteq> length vals then zero_fill E btype 0 slots B
                             else do { xs \<leftarrow> map_opt (\<lambda>s. s) slots; Some (xs, B) });
          on_s (mkComposite (en_P E) (Some btype) None init_vals [] loc) B }"

text \<open>An element of a constant, cast to the type of the element where it differs.\<close>

definition const_element :: "llty \<Rightarrow> nat \<times> nref \<Rightarrow> vref bm" where
  "const_element llct = (\<lambda>(ii, bex) B.
     do { con \<leftarrow> bk_value bex B; check (isConstant con);
          elt \<leftarrow> getTypeAtIndex (tm_context (bk_tm B)) llct ii;
          if elt \<noteq> val_type B con then on_ir (CreateCast BitCast con elt '''') B else Some (con, B) })"

fun null_fill :: "llty \<Rightarrow> nat \<Rightarrow> vref option list \<Rightarrow> vref list bm" where
  "null_fill llct i [] B = Some ([], B)"
| "null_fill llct i (s # ss) B =
     do { elt \<leftarrow> getTypeAtIndex (tm_context (bk_tm B)) llct i;
          (x, B) \<leftarrow> (case s of Some x \<Rightarrow> Some (x, B) | None \<Rightarrow> on_const (getNullValue elt) B);
          (xs, B) \<leftarrow> null_fill llct (Suc i) ss B;
          Some (x # xs, B) }"

text \<open>\<open>ConstantStruct::get\<close> and \<open>ConstantArray::get\<close>: all zero or all undefined is a constant of its own.\<close>

definition get_aggregate :: "llty \<Rightarrow> vref list \<Rightarrow> irmem \<Rightarrow> vref \<times> irmem" where
  "get_aggregate t ops m =
     (if list_all (\<lambda>v. case v of ConstantV k \<Rightarrow> ir_op m v = ConstOp CNull | _ \<Rightarrow> False) ops then getNullValue t m
      else if list_all (\<lambda>v. isUndef v m) ops then getUndef t m
      else get_constant (ConstOp CAggregate) ops t m)"

definition makeConstCompositeExpr :: "benv \<Rightarrow> tref \<Rightarrow> llty \<Rightarrow> nat \<Rightarrow> nat list \<Rightarrow> nref list \<Rightarrow> location \<Rightarrow> nref bm" where
  "makeConstCompositeExpr E btype llct numElements indexes vals loc B =
     do { (cons, B) \<leftarrow> map_st (const_element llct) (zip [0..<length indexes] vals) B;
          slots \<leftarrow> place indexes cons (replicate numElements None);
          (llvals, B) \<leftarrow> (if numElements \<noteq> length vals then null_fill llct 0 slots B
                          else do { xs \<leftarrow> map_opt (\<lambda>s. s) slots; Some (xs, B) });
          (scon, B) \<leftarrow> on_const (get_aggregate llct llvals) B;
          (bcon, B) \<leftarrow> on_s (mkComposite (en_P E) (Some btype) (Some scon) vals [] loc) B;
          makeGlobalExpression bcon scon btype B }"

definition composite_expression :: "benv \<Rightarrow> tref \<Rightarrow> llty \<Rightarrow> nat \<Rightarrow> nat list \<Rightarrow> nref list \<Rightarrow> location \<Rightarrow> nref bm" where
  "composite_expression E btype llct numElements indexes vals loc B =
     do { c \<leftarrow> valuesAreConstant vals B;
          if c then makeConstCompositeExpr E btype llct numElements indexes vals loc B
          else makeDelayedCompositeExpr E btype numElements indexes vals loc B }"

definition constructor_expression :: "benv \<Rightarrow> tref \<Rightarrow> nref list \<Rightarrow> location \<Rightarrow> nref bm" where
  "constructor_expression E btype vals loc B =
     (if btype = errorType (bk_tm B) \<or> exprVectorHasError E vals then Some (en_errorExpression E, B)
      else do { llt \<leftarrow> bk_type btype B;
                check (isStructTy llt);
                ts \<leftarrow> struct_elems (tm_context (bk_tm B)) llt;
                check (length vals = length ts);
                composite_expression E btype llt (length ts) [0..<length vals] vals loc B })"

definition array_constructor_expression :: "benv \<Rightarrow> tref \<Rightarrow> nat list \<Rightarrow> nref list \<Rightarrow> location \<Rightarrow> nref bm" where
  "array_constructor_expression E array_btype indexes vals loc B =
     (if array_btype = errorType (bk_tm B) \<or> exprVectorHasError E vals then Some (en_errorExpression E, B)
      else do { llt \<leftarrow> bk_type array_btype B;
                numElements \<leftarrow> (case llt of ArrayTy t n \<Rightarrow> Some (unat (ucast n :: u32)) | _ \<Rightarrow> None);
                check (length indexes = length vals);
                composite_expression E array_btype llt numElements indexes vals loc B })"

end
