(* ===== verification/Stores.thy ===== *)
theory Stores
  imports Expressions
begin

text \<open>
  Storing values (\<^verbatim>\<open>go-llvm.cpp\<close>): the conversions an assignment makes without being asked, single stores and
  copies of memory, and the construction of composites in place. A composite that is not constant has no
  value until its storage is known; \<open>resolve\<close> gives it one, recursively for its elements, with fuel for the
  nesting depth of composites.

  A \<open>BlockLIRBuilder\<close> is the list of the instructions made so far in its dummy block.
\<close>

section \<open>Instructions in a dummy block\<close>

definition emit :: "(irmem \<Rightarrow> (vref \<times> irmem) option) \<Rightarrow> vref list \<Rightarrow> (vref \<times> vref list) bm" where
  "emit f insts B =
     do { let n = ir_next (nd_ir (bk_s B));
          (v, B) \<leftarrow> on_ir f B;
          Some ((v, insts @ (case v of InstV k \<Rightarrow> if n \<le> k then [v] else [] | _ \<Rightarrow> [])), B) }"

definition mk_store :: "vref \<Rightarrow> vref \<Rightarrow> irmem \<Rightarrow> (vref \<times> irmem) option" where
  "mk_store v p m = do { check (ir_type m p = PointerTy (ir_type m v)); Some (new_inst StoreOp [v, p] VoidTy '''' m) }"

definition CreateGEP_const :: "llty \<Rightarrow> vref \<Rightarrow> nat \<Rightarrow> string \<Rightarrow> irmem \<Rightarrow> (vref \<times> irmem) option" where
  "CreateGEP_const llat p i nm m =
     do { check (ir_type m p = PointerTy llat);
          t \<leftarrow> (case llat of ArrayTy t n \<Rightarrow> Some t | _ \<Rightarrow> None);
          Some (build (GepOp [0, of_nat i]) [p] (PointerTy t) nm m) }"

text \<open>\<open>BlockLIRBuilder::instructions\<close> takes the instructions out of the block.\<close>

definition take_instructions :: "vref list \<Rightarrow> backend \<Rightarrow> backend option" where
  "take_instructions insts B =
     do { nt \<leftarrow> tm_nametags (bk_tm B);
          let (m, nt) = block_instructions insts (nd_ir (bk_s B)) nt;
          Some (B\<lparr>bk_s := (bk_s B)\<lparr>nd_ir := m\<rparr>, bk_tm := (bk_tm B)\<lparr>tm_nametags := Some nt\<rparr>\<rparr>) }"

section \<open>Conversions for an assignment\<close>

definition assign_cast :: "vref \<Rightarrow> llty \<Rightarrow> vref list \<Rightarrow> (vref \<times> vref list) bm" where
  "assign_cast srcVal dstToType insts B =
     do { (tag, B) \<leftarrow> bk_namegen ''cast'' B; emit (CreateCast BitCast srcVal dstToType tag) insts B }"

text \<open>The pairs of types that are converted whatever the value is: cases 1 to 4, and 6 to 8.\<close>

definition descriptor_cases :: "typemanager \<Rightarrow> llty \<Rightarrow> llty \<Rightarrow> bool" where
  "descriptor_cases tm srcType dstToType \<longleftrightarrow>
     isPtrToFuncDescriptorType tm srcType \<and> isPtrToFuncDescriptorType tm dstToType \<or>
     isPtrToFuncDescriptorType tm srcType \<and> isCircularPointerType_ll dstToType tm \<or>
     isPtrToVoidType dstToType \<and> isPtrToFuncType srcType \<or>
     isPtrToFuncDescriptorType tm dstToType \<and> isPtrToFuncType srcType"

definition pointer_cases :: "typemanager \<Rightarrow> llty \<Rightarrow> llty \<Rightarrow> bool" where
  "pointer_cases tm srcType dstToType \<longleftrightarrow>
     isPtrToVoidType dstToType \<and> isPtrToIfaceStructType tm srcType \<or>
     (case dstToType of PointerTy elt \<Rightarrow> isPtrToArrayOf srcType elt | _ \<Rightarrow> False) \<or>
     dstToType = llvmPtrType \<and> isPointerTy srcType"

definition convertForAssignment_value :: "benv \<Rightarrow> tref \<Rightarrow> vref \<Rightarrow> llty \<Rightarrow> vref list \<Rightarrow> (vref \<times> vref list) bm" where
  "convertForAssignment_value E srcBType srcVal dstToType insts B =
     do { srcType \<leftarrow> bk_type srcBType B;
          if dstToType = srcType then Some ((srcVal, insts), B)
          else if descriptor_cases (bk_tm B) srcType dstToType then assign_cast srcVal dstToType insts B
          else do {
            (nilx, B) \<leftarrow> nil_pointer_expression E B;
            nilv \<leftarrow> bk_value nilx B;
            if srcVal = nilv \<or> pointer_cases (bk_tm B) srcType dstToType then assign_cast srcVal dstToType insts B
            else Some ((srcVal, insts), B) } }"

definition convertForAssignment :: "benv \<Rightarrow> nref \<Rightarrow> llty \<Rightarrow> fref option \<Rightarrow> vref bm" where
  "convertForAssignment E src dstToType bfunc B =
     do { v \<leftarrow> bk_value src B;
          if val_type B v = dstToType then Some (v, B)
          else do { fr \<leftarrow> bfunc; f \<leftarrow> bk_functions B fr;
                    bt \<leftarrow> bk_btype src B;
                    ((val, insts), B) \<leftarrow> convertForAssignment_value E bt v dstToType [] B;
                    B \<leftarrow> take_instructions insts B;
                    B \<leftarrow> upd_s (fold_opt (appendInstruction src) insts) B;
                    Some (val, B) } }"

section \<open>Stores\<close>

definition genMemCpy :: "benv \<Rightarrow> vref \<Rightarrow> vref \<Rightarrow> tref \<Rightarrow> vref list \<Rightarrow> (vref \<times> vref list) bm" where
  "genMemCpy E dstLoc srcVal srcType insts B =
     do { sz \<leftarrow> typeSize (en_fuel E) srcType (bk_tm B);
          algn \<leftarrow> typeAlignment srcType (bk_tm B);
          let (is, m) = en_memcpy E dstLoc srcVal sz (ucast (ucast algn :: u32)) (nd_ir (bk_s B));
          check (is \<noteq> []);
          Some ((last is, insts @ is), B\<lparr>bk_s := (bk_s B)\<lparr>nd_ir := m\<rparr>\<rparr>) }"

definition genStore_value :: "benv \<Rightarrow> tref \<Rightarrow> llty \<Rightarrow> vref \<Rightarrow> vref \<Rightarrow> vref list \<Rightarrow> (vref \<times> vref list) bm" where
  "genStore_value E srcType dstType srcVal dstLoc insts B =
     (if val_type B srcVal = VoidTy then do { (u, B) \<leftarrow> on_const (getUndef VoidTy) B; Some ((u, insts), B) }
      else do {
        st \<leftarrow> bk_type srcType B;
        if \<not> isAggregateType st then do {
          ((srcVal, insts), B) \<leftarrow>
            (if isPointerTy (val_type B srcVal)
             then do { elt \<leftarrow> (case dstType of PointerTy t \<Rightarrow> Some t | _ \<Rightarrow> None);
                       convertForAssignment_value E srcType srcVal elt insts B }
             else Some ((srcVal, insts), B));
          check (dstType = PointerTy (val_type B srcVal));
          emit (mk_store srcVal dstLoc) insts B }
        else do {
          check (isPointerTy (val_type B dstLoc));
          (srcVal, B) \<leftarrow> spill_constant E srcVal srcType B;
          check (isPointerTy (val_type B srcVal));
          genMemCpy E dstLoc srcVal srcType insts B } })"

section \<open>Composites in place\<close>

fun init_loop :: "(nat \<times> nref \<Rightarrow> vref list \<Rightarrow> (nref \<times> vref list) bm) \<Rightarrow> (nat \<times> nref) list \<Rightarrow> vref list \<Rightarrow>
    (nref list \<times> vref list) bm" where
  "init_loop f [] insts B = Some (([], insts), B)"
| "init_loop f (x # xs) insts B =
     do { ((v, insts), B) \<leftarrow> f x insts B;
          ((vs, insts), B) \<leftarrow> init_loop f xs insts B;
          Some ((v # vs, insts), B) }"

definition store_element :: "benv \<Rightarrow> nref \<Rightarrow> vref \<Rightarrow> vref list \<Rightarrow> (nref \<times> vref list) bm" where
  "store_element E valexp gep insts B =
     do { bt \<leftarrow> bk_btype valexp B; v \<leftarrow> bk_value valexp B;
          ((st, insts), B) \<leftarrow> genStore_value E bt (val_type B gep) v gep insts B;
          Some ((valexp, insts), B) }"

definition context_of :: "nref \<Rightarrow> backend \<Rightarrow> Varexpr_context option" where
  "context_of x B = do { e \<leftarrow> bk_expr x B; varContextDisp (tm_heap (bk_tm B)) e }"

text \<open>The address of an array element is computed before its value, that of a field after it.\<close>

definition init_element :: "benv \<Rightarrow> (nref \<Rightarrow> Varexpr_context \<Rightarrow> nref bm) \<Rightarrow> llty \<Rightarrow> vref \<Rightarrow> nat \<times> nref \<Rightarrow> vref list \<Rightarrow>
    (nref \<times> vref list) bm" where
  "init_element E rs llat storage = (\<lambda>(eidx, x) insts B.
     do { (tag, B) \<leftarrow> bk_namegen ''index'' B;
          ((gep, insts), B) \<leftarrow> emit (CreateGEP_const llat storage eidx tag) insts B;
          ctx \<leftarrow> context_of x B;
          (valexp, B) \<leftarrow> rs x ctx B;
          store_element E valexp gep insts B })"

definition init_field :: "benv \<Rightarrow> (nref \<Rightarrow> Varexpr_context \<Rightarrow> nref bm) \<Rightarrow> llty \<Rightarrow> vref \<Rightarrow> nat \<times> nref \<Rightarrow> vref list \<Rightarrow>
    (nref \<times> vref list) bm" where
  "init_field E rs llst storage = (\<lambda>(fidx, x) insts B.
     do { ctx \<leftarrow> context_of x B;
          (valexp, B) \<leftarrow> rs x ctx B;
          (tag, B) \<leftarrow> bk_namegen ''field'' B;
          ((gep, insts), B) \<leftarrow> emit (CreateGEP_field (tm_context (bk_tm B)) llst storage (of_nat fidx) tag) insts B;
          store_element E valexp gep insts B })"

definition genArrayInit :: "(nref \<Rightarrow> Varexpr_context \<Rightarrow> nref bm) \<Rightarrow> benv \<Rightarrow> llty \<Rightarrow> nref \<Rightarrow> vref \<Rightarrow> fref option \<Rightarrow> nref bm" where
  "genArrayInit rs E llat expr storage bfunc B =
     do { loc \<leftarrow> bk_loc expr B; btype \<leftarrow> bk_btype expr B;
          (aexprs, B) \<leftarrow> on_s (extractChildenAndDestroy expr) B;
          nElements \<leftarrow> (case llat of ArrayTy t n \<Rightarrow> Some (unat (ucast n :: u32)) | _ \<Rightarrow> None);
          check (nElements = length aexprs);
          fr \<leftarrow> bfunc; f \<leftarrow> bk_functions B fr;
          ((values, insts), B) \<leftarrow> init_loop (init_element E rs llat storage) (enumerate 0 aexprs) [] B;
          B \<leftarrow> take_instructions insts B;
          on_s (mkComposite (en_P E) (Some btype) (Some storage) values insts loc) B }"

definition genStructInit :: "(nref \<Rightarrow> Varexpr_context \<Rightarrow> nref bm) \<Rightarrow> benv \<Rightarrow> llty \<Rightarrow> nref \<Rightarrow> vref \<Rightarrow> fref option \<Rightarrow> nref bm" where
  "genStructInit rs E llst expr storage bfunc B =
     do { loc \<leftarrow> bk_loc expr B; btype \<leftarrow> bk_btype expr B;
          (fexprs, B) \<leftarrow> on_s (extractChildenAndDestroy expr) B;
          ts \<leftarrow> struct_elems (tm_context (bk_tm B)) llst;
          check (length ts = length fexprs);
          fr \<leftarrow> bfunc; f \<leftarrow> bk_functions B fr;
          ((values, insts), B) \<leftarrow> init_loop (init_field E rs llst storage) (enumerate 0 fexprs) [] B;
          B \<leftarrow> take_instructions insts B;
          on_s (mkComposite (en_P E) (Some btype) (Some storage) values insts loc) B }"

definition mark_temporary :: "vbref \<Rightarrow> backend \<Rightarrow> backend option" where
  "mark_temporary x B =
     do { v \<leftarrow> vb_heap (bk_s B) x;
          Some (B\<lparr>bk_s := (bk_s B)\<lparr>vb_heap := (vb_heap (bk_s B))(x \<mapsto> markAsTemporary v)\<rparr>\<rparr>) }"

definition resolve_storage :: "benv \<Rightarrow> nref \<Rightarrow> fref option \<Rightarrow> vref option \<Rightarrow> (vref \<times> vbref option) bm" where
  "resolve_storage E expr func storage B =
     (case storage of
        Some st \<Rightarrow> Some ((st, None), B)
      | None \<Rightarrow>
          do { fr \<leftarrow> func;
               (tname, B) \<leftarrow> bk_namegen ''tmp'' B;
               bt \<leftarrow> bk_btype expr B;
               (tvar, B) \<leftarrow> local_variable E fr tname bt True 0 B;
               check (tvar \<noteq> en_errorVariable E);
               B \<leftarrow> mark_temporary tvar B;
               st \<leftarrow> var_value tvar B;
               Some ((st, Some tvar), B) })"

definition resolveCompositeInit :: "(nref \<Rightarrow> Varexpr_context \<Rightarrow> nref bm) \<Rightarrow> benv \<Rightarrow> nref \<Rightarrow> fref option \<Rightarrow> vref option \<Rightarrow>
    nref bm" where
  "resolveCompositeInit rs E expr func storage B =
     (if expr = en_errorExpression E \<or> func = Some (en_errorFunction E) then Some (en_errorExpression E, B)
      else do {
        ((storage, tvar), B) \<leftarrow> resolve_storage E expr func storage B;
        bt \<leftarrow> bk_btype expr B; llt \<leftarrow> bk_type bt B;
        check (isStructTy llt \<or> isArrayTy llt);
        (rval, B) \<leftarrow> (if isStructTy llt then genStructInit rs E llt expr storage func B
                      else genArrayInit rs E llt expr storage func B);
        (case tvar of
           None \<Rightarrow> Some (rval, B)
         | Some tv \<Rightarrow>
             do { B \<leftarrow> upd_s (setVarExprPending rval False 0) B;
                  B \<leftarrow> upd_s (setInitializerExpr (en_fuel E) tv rval) B;
                  Some (rval, B) }) })"

fun resolve :: "nat \<Rightarrow> benv \<Rightarrow> nref \<Rightarrow> fref option \<Rightarrow> Varexpr_context \<Rightarrow> nref bm" where
  "resolve 0 E expr func ctx B = None"
| "resolve (Suc n) E expr func ctx B =
     do { p \<leftarrow> compositeInitPending expr (bk_s B);
          (expr, B) \<leftarrow> (if p then resolveCompositeInit (\<lambda>x c. resolve n E x func c) E expr func None B else Some (expr, B));
          resolveVarContext E expr ctx B }"

definition resolve_composite :: "benv \<Rightarrow> nref \<Rightarrow> fref option \<Rightarrow> vref option \<Rightarrow> nref bm" where
  "resolve_composite E expr func storage B =
     resolveCompositeInit (\<lambda>x c. resolve (en_fuel E) E x func c) E expr func storage B"

section \<open>Assignments\<close>

definition genStore :: "benv \<Rightarrow> fref \<Rightarrow> nref \<Rightarrow> nref \<Rightarrow> location \<Rightarrow> nref bm" where
  "genStore E func srcExpr dstExpr loc B =
     do { f \<leftarrow> bk_functions B func;
          ctx \<leftarrow> context_of srcExpr B;
          (valexp, B) \<leftarrow> resolve (en_fuel E) E srcExpr (Some func) ctx B;
          val \<leftarrow> bk_value valexp B; dst \<leftarrow> bk_value dstExpr B;
          st \<leftarrow> bk_btype srcExpr B;
          ((result, insts), B) \<leftarrow> genStore_value E st (val_type B dst) val dst [] B;
          B \<leftarrow> take_instructions insts B;
          vt \<leftarrow> bk_btype valexp B;
          on_s (mkBinaryOp_insts (en_P E) OPERATOR_EQ (Some vt) (Some result) dstExpr valexp insts loc) B }"

definition makeAssignment :: "benv \<Rightarrow> fref \<Rightarrow> vref \<Rightarrow> nref \<Rightarrow> nref \<Rightarrow> location \<Rightarrow> nref bm" where
  "makeAssignment E func lval lhs rhs loc B =
     do { check (isPointerTy (val_type B lval));
          p \<leftarrow> compositeInitPending rhs (bk_s B); check (\<not> p);
          (stexp, B) \<leftarrow> genStore E func rhs lhs loc B;
          on_s (mkExprStmt (en_P E) (Some func) stexp loc) B }"

text \<open>The check of every statement that is built: sharing is repaired, or reported.\<close>

definition enforceTreeIntegrity :: "benv \<Rightarrow> nref \<Rightarrow> backend \<Rightarrow> backend option" where
  "enforceTreeIntegrity E x B =
     do { (res, ig, s) \<leftarrow> examine (en_fuel E) (en_P E) x
            (mk_integ \<lparr>ptrDisp = DumpPointers, varDisp = IgnoreVarExprs, repairDisp = RepairSharing\<rparr>) (bk_s B);
          check (res \<or> \<not> en_checkIntegrity E);
          Some (B\<lparr>bk_s := s\<rparr>) }"

definition enforced :: "benv \<Rightarrow> nref \<Rightarrow> nref bm" where
  "enforced E x B = do { B \<leftarrow> enforceTreeIntegrity E x B; Some (x, B) }"

definition assignment_statement :: "benv \<Rightarrow> fref \<Rightarrow> nref \<Rightarrow> nref \<Rightarrow> location \<Rightarrow> nref bm" where
  "assignment_statement E bfunction lhs rhs loc B =
     (if lhs = en_errorExpression E \<or> rhs = en_errorExpression E \<or> bfunction = en_errorFunction E
      then Some (en_errorStatement E, B)
      else do {
        let B = set_curFcn bfunction B;
        (lhs2, B) \<leftarrow> resolveVarContext E lhs VE_lvalue B;
        p \<leftarrow> compositeInitPending rhs (bk_s B);
        if p then do {
          lv \<leftarrow> bk_value lhs2 B;
          (rhs2, B) \<leftarrow> resolve_composite E rhs (Some bfunction) (Some lv) B;
          (vt, B) \<leftarrow> void_type B;
          (stexp, B) \<leftarrow> on_s (mkBinaryOp (en_P E) OPERATOR_EQ (Some vt) (Some lv) lhs2 rhs2 loc) B;
          (es, B) \<leftarrow> on_s (mkExprStmt (en_P E) (Some bfunction) stexp loc) B;
          enforced E es B }
        else do {
          lv \<leftarrow> bk_value lhs B;
          (st, B) \<leftarrow> makeAssignment E bfunction lv lhs2 rhs loc B;
          enforced E st B } })"

definition init_from_value :: "benv \<Rightarrow> fref \<Rightarrow> vbref \<Rightarrow> nref \<Rightarrow> nref bm" where
  "init_from_value E bfunction var init B =
     do { v \<leftarrow> vb_heap (bk_s B) var;
          (varexp, B) \<leftarrow> on_s (mkVar (en_P E) var (bv_location v)) B;
          lv \<leftarrow> bv_value v;
          (st, B) \<leftarrow> makeAssignment E bfunction lv varexp init 0 B;
          x \<leftarrow> getExprStmtExpr st (bk_s B);
          ival \<leftarrow> bk_value x B;
          B \<leftarrow> (if isUndef ival (nd_ir (bk_s B)) then Some B else upd_s (var_setInitializer var ival) B);
          enforced E st B }"

definition init_statement :: "benv \<Rightarrow> fref \<Rightarrow> vbref \<Rightarrow> nref option \<Rightarrow> nref bm" where
  "init_statement E bfunction var init B =
     (if var = en_errorVariable E \<or> init = Some (en_errorExpression E) \<or> bfunction = en_errorFunction E
      then Some (en_errorStatement E, B)
      else do {
        let B = set_curFcn bfunction B;
        (case init of
           None \<Rightarrow>
             do { v \<leftarrow> vb_heap (bk_s B) var;
                  (z, B) \<leftarrow> zero_expression E (bv_type v) B;
                  init_from_value E bfunction var z B }
         | Some x \<Rightarrow>
             do { p \<leftarrow> compositeInitPending x (bk_s B);
                  if \<not> p then init_from_value E bfunction var x B
                  else do { v \<leftarrow> vb_heap (bk_s B) var; lv \<leftarrow> bv_value v;
                            (x, B) \<leftarrow> resolve_composite E x (Some bfunction) (Some lv) B;
                            loc \<leftarrow> bk_loc x B;
                            (es, B) \<leftarrow> on_s (mkExprStmt (en_P E) (Some bfunction) x loc) B;
                            e \<leftarrow> getExprStmtExpr es (bk_s B);
                            ev \<leftarrow> bk_value e B;
                            B \<leftarrow> upd_s (var_setInitializer var ev) B;
                            enforced E es B } }) })"

definition global_variable_set_init :: "benv \<Rightarrow> vbref \<Rightarrow> nref \<Rightarrow> backend \<Rightarrow> backend option" where
  "global_variable_set_init E var expr B =
     (if var = en_errorVariable E \<or> expr = en_errorExpression E then Some B
      else do { gvar \<leftarrow> var_value var B;
                check (case gvar of GlobalV k \<Rightarrow> True | _ \<Rightarrow> False);
                p \<leftarrow> compositeInitPending expr (bk_s B);
                (expr, B) \<leftarrow> (if p then resolve_composite E expr None (Some gvar) B else Some (expr, B));
                econ \<leftarrow> bk_value expr B; check (isConstant econ);
                set_global_init var econ B })"

definition implicit_variable_set_init :: "benv \<Rightarrow> vbref \<Rightarrow> tref \<Rightarrow> nref option \<Rightarrow> backend \<Rightarrow> backend option" where
  "implicit_variable_set_init E var type init B =
     (if init = Some (en_errorExpression E) \<or> var = en_errorVariable E then Some B
      else do { (x, B) \<leftarrow> (case init of Some x \<Rightarrow> Some (x, B) | None \<Rightarrow> zero_expression E type B);
                global_variable_set_init E var x B })"

end
