(* ===== verification/Calls.thy ===== *)
theory Calls
  imports Stores
begin

text \<open>
  Calls (\<^verbatim>\<open>go-llvm.cpp\<close>, \<open>GenCallState\<close> to \<open>call_expression\<close>): what the C ABI oracle says of the callee's type
  decides which LLVM arguments each argument of the call becomes, whether the result comes back through
  memory of the caller, and which attributes the call carries. \<open>callstate\<close> is \<open>GenCallState\<close>; its builder appends
  to \<open>cs_instructions\<close>.
\<close>

record callstate =
  cs_oracle :: CABIOracle
  cs_instructions :: "vref list"
  cs_resolvedArgs :: "nref list"
  cs_llargs :: "vref list"
  cs_chainVal :: "vref option"
  cs_sretTemp :: "vref option"
  cs_calleeFcnType :: tref
  cs_callerFcn :: "fref option"

definition mk_callstate :: "benv \<Rightarrow> fref option \<Rightarrow> tref \<Rightarrow> backend \<Rightarrow> callstate option" where
  "mk_callstate E callerFunc calleeFcnTyp B =
     do { (ps, rt, cabi) \<leftarrow> fcn_parts calleeFcnTyp (bk_tm B);
          oracle \<leftarrow> cabiOracle (en_fuel E) (bk_tm B) ps rt cabi;
          Some \<lparr>cs_oracle = oracle, cs_instructions = [], cs_resolvedArgs = [], cs_llargs = [], cs_chainVal = None,
                cs_sretTemp = None, cs_calleeFcnType = calleeFcnTyp, cs_callerFcn = callerFunc\<rparr> }"

definition push_llarg :: "vref \<Rightarrow> callstate \<Rightarrow> callstate" where
  "push_llarg v cs = cs\<lparr>cs_llargs := cs_llargs cs @ [v]\<rparr>"

definition push_resolved :: "nref \<Rightarrow> callstate \<Rightarrow> callstate" where
  "push_resolved x cs = cs\<lparr>cs_resolvedArgs := cs_resolvedArgs cs @ [x]\<rparr>"

definition call_emit :: "(irmem \<Rightarrow> (vref \<times> irmem) option) \<Rightarrow> callstate \<Rightarrow> (vref \<times> callstate) bm" where
  "call_emit f cs B =
     do { ((v, insts), B) \<leftarrow> emit f (cs_instructions cs) B; Some ((v, cs\<lparr>cs_instructions := insts\<rparr>), B) }"

definition named_emit :: "string \<Rightarrow> (string \<Rightarrow> irmem \<Rightarrow> (vref \<times> irmem) option) \<Rightarrow> callstate \<Rightarrow> (vref \<times> callstate) bm" where
  "named_emit tag f cs B = do { (nm, B) \<leftarrow> bk_namegen tag B; call_emit (f nm) cs B }"

definition needSretTemp :: "CABIParamInfo \<Rightarrow> llty \<Rightarrow> bool option" where
  "needSretTemp rinfo resultType =
     (if pi_disp rinfo = ParmIgnore then Some False
      else if pi_disp rinfo = ParmIndirect then Some True
      else do { t \<leftarrow> abiType rinfo; Some (isAggregateType t \<or> isAggregateType resultType) })"

definition call_needSretTemp :: "callstate \<Rightarrow> backend \<Rightarrow> bool option" where
  "call_needSretTemp cs B =
     do { rinfo \<leftarrow> returnInfo (bk_tm B) (cs_oracle cs);
          (ps, rt, cabi) \<leftarrow> fcn_parts (cs_calleeFcnType cs) (bk_tm B);
          t \<leftarrow> bk_type rt B;
          needSretTemp rinfo t }"

definition call_sret :: "callstate \<Rightarrow> callstate bm" where
  "call_sret cs B =
     do { rinfo \<leftarrow> returnInfo (bk_tm B) (cs_oracle cs);
          need \<leftarrow> call_needSretTemp cs B;
          if \<not> need then Some (cs, B)
          else do {
            (tname, B) \<leftarrow> bk_namegen ''sret.actual'' B;
            (ps, rt, cabi) \<leftarrow> fcn_parts (cs_calleeFcnType cs) (bk_tm B);
            caller \<leftarrow> cs_callerFcn cs;
            (tmp, B) \<leftarrow> upd_fcn caller (createTemporary_btype rt tname (bk_tm B)) B;
            let cs = cs\<lparr>cs_sretTemp := Some tmp\<rparr>;
            Some (if pi_disp rinfo = ParmIndirect then push_llarg tmp cs else cs, B) } }"

definition call_chain :: "callstate \<Rightarrow> callstate bm" where
  "call_chain cs B =
     do { cinfo \<leftarrow> chainInfo (bk_tm B) (cs_oracle cs);
          if pi_disp cinfo = ParmIgnore then Some (cs, B)
          else do { check (pi_disp cinfo = ParmDirect);
                    (cval, B) \<leftarrow> (case cs_chainVal cs of Some v \<Rightarrow> Some (v, B) | None \<Rightarrow> on_const (getUndef llvmPtrType) B);
                    Some (push_llarg cval cs, B) } }"

definition genCallProlog :: "callstate \<Rightarrow> callstate bm" where
  "genCallProlog cs B = do { (cs, B) \<leftarrow> call_sret cs B; call_chain cs B }"

section \<open>Arguments\<close>

text \<open>An argument passed in memory: its address, with a constant in a module-scope variable.\<close>

definition marshall_indirect :: "benv \<Rightarrow> nref \<Rightarrow> callstate \<Rightarrow> callstate bm" where
  "marshall_indirect E arg cs B =
     do { p \<leftarrow> compositeInitPending arg (bk_s B);
          (fnarg, B) \<leftarrow> (if p then resolve_composite E arg (cs_callerFcn cs) None B else Some (arg, B));
          val \<leftarrow> bk_value fnarg B;
          (val, B) \<leftarrow> (if isConstant val then do { bt \<leftarrow> bk_btype arg B; spill_constant E val bt B } else Some (val, B));
          check (isPointerTy (val_type B val));
          Some (push_llarg val (push_resolved fnarg cs), B) }"

text \<open>A struct or an array of at most eight bytes is loaded as one value.\<close>

definition marshall_loaded :: "llty \<Rightarrow> vref \<Rightarrow> callstate \<Rightarrow> callstate bm" where
  "marshall_loaded abit val cs B =
     do { ((bitcast, cs), B) \<leftarrow> named_emit ''cast'' (CreateCast BitCast val (makeLLVMPointerType abit)) cs B;
          ((ld, cs), B) \<leftarrow> named_emit ''ld'' (mk_load bitcast) cs B;
          Some (push_llarg ld cs, B) }"

text \<open>Any other value, converted to the type of the parameter if it is a pointer, and extended.\<close>

definition marshall_value :: "benv \<Rightarrow> CABIParamInfo \<Rightarrow> llty \<Rightarrow> tref \<Rightarrow> nref \<Rightarrow> vref \<Rightarrow> callstate \<Rightarrow> callstate bm" where
  "marshall_value E pinfo abit paramTyp resarg val cs B =
     do { (val, B) \<leftarrow> (if isPointerTy (val_type B val)
             then do { pt \<leftarrow> bk_type paramTyp B; convertForAssignment E resarg pt (cs_callerFcn cs) B }
             else Some (val, B));
          ((val, cs), B) \<leftarrow>
            (if isIntegerTy abit \<and> pi_attr pinfo = AttrZext then named_emit ''zext'' (CreateCast cast.ZExt val abit) cs B
             else if isIntegerTy abit \<and> pi_attr pinfo = AttrSext then named_emit ''sext'' (CreateCast cast.ZExt val abit) cs B
             else Some ((val, cs), B));
          Some (push_llarg val cs, B) }"

text \<open>A struct of two eight-byte regions is loaded as two values.\<close>

definition marshall_pair :: "benv \<Rightarrow> CABIParamInfo \<Rightarrow> nref \<Rightarrow> vref \<Rightarrow> callstate \<Rightarrow> callstate bm" where
  "marshall_pair E pinfo resarg val cs B =
     do { check (length (pi_abiTypes pinfo) = 2);
          check (pi_attr pinfo = AttrNone);
          llst \<leftarrow> computeABIStructType pinfo;
          (val, B) \<leftarrow> (if isConstant val then do { bt \<leftarrow> bk_btype resarg B; spill_constant E val bt B } else Some (val, B));
          let c = tm_context (bk_tm B);
          ((bitcast, cs), B) \<leftarrow> named_emit ''cast'' (CreateCast BitCast val (makeLLVMPointerType llst)) cs B;
          ((gep0, cs), B) \<leftarrow> named_emit ''field0'' (CreateGEP_field c llst bitcast 0) cs B;
          ((ld0, cs), B) \<leftarrow> named_emit ''ld'' (mk_load gep0) cs B;
          let cs = push_llarg ld0 cs;
          ((gep1, cs), B) \<leftarrow> named_emit ''field1'' (CreateGEP_field c llst bitcast 1) cs B;
          ((ld1, cs), B) \<leftarrow> named_emit ''ld'' (mk_load gep1) cs B;
          Some (push_llarg ld1 cs, B) }"

definition marshall_direct :: "benv \<Rightarrow> CABIParamInfo \<Rightarrow> tref option \<Rightarrow> nref \<Rightarrow> callstate \<Rightarrow> callstate bm" where
  "marshall_direct E pinfo paramTyp arg cs B =
     do { disp \<leftarrow> context_of arg B;
          let ctx = (if length (pi_abiTypes pinfo) = 2 then VE_lvalue else disp);
          (resarg, B) \<leftarrow> resolve (en_fuel E) E arg (cs_callerFcn cs) ctx B;
          let cs = push_resolved resarg cs;
          if pi_disp pinfo = ParmIgnore then Some (cs, B)
          else do {
            check (pi_disp pinfo = ParmDirect);
            val \<leftarrow> bk_value resarg B;
            if length (pi_abiTypes pinfo) = 1
            then do { abit \<leftarrow> abiType pinfo;
                      if ctx = VE_lvalue then marshall_loaded abit val cs B
                      else do { pt \<leftarrow> paramTyp; marshall_value E pinfo abit pt resarg val cs B } }
            else marshall_pair E pinfo resarg val cs B } }"

definition marshall_arg :: "benv \<Rightarrow> nat \<times> nref \<Rightarrow> callstate \<times> backend \<Rightarrow> (callstate \<times> backend) option" where
  "marshall_arg E = (\<lambda>(idx, arg) (cs, B).
     do { (ps, rt, cabi) \<leftarrow> fcn_parts (cs_calleeFcnType cs) (bk_tm B);
          pinfo \<leftarrow> paramInfo (bk_tm B) (cs_oracle cs) (of_nat idx);
          if pi_attr pinfo = AttrNest then Some (cs, B)
          else if pi_disp pinfo = ParmIndirect then marshall_indirect E arg cs B
          else marshall_direct E pinfo (nth_opt ps idx) arg cs B })"

definition genCallMarshallArgs :: "benv \<Rightarrow> nref list \<Rightarrow> callstate \<Rightarrow> callstate bm" where
  "genCallMarshallArgs E fn_args cs B = fold_opt (marshall_arg E) (enumerate 0 fn_args) (cs, B)"

section \<open>The call\<close>

fun attr_code :: "CABIParamAttr \<Rightarrow> arg_attr list" where
  "attr_code AttrByVal = [ByVal]"
| "attr_code AttrZext = [arg_attr.ZExt]"
| "attr_code AttrSext = [arg_attr.SExt]"
| "attr_code _ = []"

fun param_attrs :: "typemanager \<Rightarrow> CABIOracle \<Rightarrow> nat list \<Rightarrow> (u32 \<times> arg_attr) list option" where
  "param_attrs tm oracle [] = Some []"
| "param_attrs tm oracle (idx # is) =
     do { pinfo \<leftarrow> paramInfo tm oracle (of_nat idx);
          as \<leftarrow> (if pi_disp pinfo = ParmIgnore then Some []
                else do { check (pi_attr pinfo \<noteq> AttrNest); check (pi_attr pinfo \<noteq> AttrStructReturn);
                          Some (map (\<lambda>a. (pi_sigOffset pinfo + 1, a)) (attr_code (pi_attr pinfo))) });
          bs \<leftarrow> param_attrs tm oracle is;
          Some (as @ bs) }"

definition genCallAttributes :: "callstate \<Rightarrow> vref \<Rightarrow> backend \<Rightarrow> backend option" where
  "genCallAttributes cs call B =
     do { rinfo \<leftarrow> returnInfo (bk_tm B) (cs_oracle cs);
          cinfo \<leftarrow> chainInfo (bk_tm B) (cs_oracle cs);
          (ps, rt, cabi) \<leftarrow> fcn_parts (cs_calleeFcnType cs) (bk_tm B);
          as \<leftarrow> param_attrs (bk_tm B) (cs_oracle cs) [0..<length ps];
          let attrs = (if pi_disp rinfo = ParmIndirect then [(1, StructRet)] else []) @
                      (if pi_disp cinfo \<noteq> ParmIgnore then [(pi_sigOffset cinfo + 1, Nest)] else []) @ as;
          Some (B\<lparr>bk_callAttrs := (bk_callAttrs B)(call \<mapsto> attrs)\<rparr>) }"

text \<open>
  A result that came back in registers but is used from memory is stored into the temporary. The enumerator
  \<open>VE_rvalue\<close> is passed where a bool is expected.
\<close>

definition genCallEpilog :: "benv \<Rightarrow> callstate \<Rightarrow> vref \<Rightarrow> nref \<Rightarrow> backend \<Rightarrow> backend option" where
  "genCallEpilog E cs callInst callExpr B =
     do { rinfo \<leftarrow> returnInfo (bk_tm B) (cs_oracle cs);
          need \<leftarrow> call_needSretTemp cs B;
          if \<not> need then Some B
          else do {
            tmp \<leftarrow> cs_sretTemp cs;
            v \<leftarrow> bk_value callExpr B; check (v = tmp);
            B \<leftarrow> upd_s (setVarExprPending callExpr (en_rvalue_as_bool E) 0) B;
            if pi_disp rinfo \<noteq> ParmDirect then Some B
            else do {
              rt \<leftarrow> (if length (pi_abiTypes rinfo) = 1 then abiType rinfo else computeABIStructType rinfo);
              (castname, B) \<leftarrow> bk_namegen ''cast'' B;
              ((bitcast, insts), B) \<leftarrow> emit (CreateCast BitCast tmp (makeLLVMPointerType rt) castname) [] B;
              (stname, B) \<leftarrow> bk_namegen ''st'' B;
              ((st, insts), B) \<leftarrow> emit (mk_store callInst bitcast) insts B;
              upd_s (fold_opt (appendInstruction callExpr) insts) B } } }"

definition CreateCall :: "llty \<Rightarrow> vref \<Rightarrow> vref list \<Rightarrow> string \<Rightarrow> irmem \<Rightarrow> (vref \<times> irmem) option" where
  "CreateCall llft fn llargs nm m =
     (case llft of
        FunctionTy r ps va \<Rightarrow>
          do { check (if va then length ps \<le> length llargs else length ps = length llargs);
               check (take (length ps) (map (ir_type m) llargs) = ps);
               Some (new_inst CallOp (fn # llargs) r nm m) }
      | _ \<Rightarrow> None)"

definition set_chain :: "benv \<Rightarrow> nref option \<Rightarrow> location \<Rightarrow> callstate \<Rightarrow> callstate bm" where
  "set_chain E chain_expr loc cs B =
     (case chain_expr of
        None \<Rightarrow> Some (cs, B)
      | Some x \<Rightarrow>
          do { (x, B) \<leftarrow> resolveVarContext E x VE_rvalue B;
               bt \<leftarrow> bk_btype x B; t \<leftarrow> bk_type bt B; check (isPointerTy t);
               (bpt, B) \<leftarrow> bk_aux llvmPtrType B;
               (x, B) \<leftarrow> convert_expression E bpt x loc B;
               v \<leftarrow> bk_value x B;
               Some ((push_resolved x cs)\<lparr>cs_chainVal := Some v\<rparr>, B) })"

definition callee_type :: "nref \<Rightarrow> backend \<Rightarrow> tref option" where
  "callee_type fn_expr B =
     do { bt \<leftarrow> bk_btype fn_expr B;
          b \<leftarrow> obj bt (bk_tm B);
          to \<leftarrow> (case bt_kind b of KPointer t \<Rightarrow> t | _ \<Rightarrow> None);
          fb \<leftarrow> obj to (bk_tm B);
          check (flavor (bt_kind fb) = FunctionT);
          Some to }"

definition call_expression :: "benv \<Rightarrow> fref option \<Rightarrow> nref \<Rightarrow> nref list \<Rightarrow> nref option \<Rightarrow> location \<Rightarrow> nref bm" where
  "call_expression E caller fn_expr fn_args chain_expr loc B =
     (if fn_expr = en_errorExpression E \<or> exprVectorHasError E fn_args \<or> chain_expr = Some (en_errorExpression E)
      then Some (en_errorExpression E, B)
      else do {
        (fn_expr, B) \<leftarrow> resolveVarContext E fn_expr VE_rvalue B;
        bt \<leftarrow> bk_btype fn_expr B; t \<leftarrow> bk_type bt B; check (isPointerTy t);
        rbtype \<leftarrow> functionReturnType bt (bk_tm B);
        calleeFcnTyp \<leftarrow> callee_type fn_expr B;
        cs \<leftarrow> mk_callstate E caller calleeFcnTyp B;
        (cs, B) \<leftarrow> set_chain E chain_expr loc (push_resolved fn_expr cs) B;
        (cs, B) \<leftarrow> genCallProlog cs B;
        (cs, B) \<leftarrow> genCallMarshallArgs E fn_args cs B;
        llft \<leftarrow> bk_type calleeFcnTyp B;
        r \<leftarrow> (case llft of FunctionTy r ps va \<Rightarrow> Some r | _ \<Rightarrow> None);
        (callname, B) \<leftarrow> (if r = VoidTy then Some ([], B) else bk_namegen ''call'' B);
        fn \<leftarrow> bk_value fn_expr B;
        ((call, cs), B) \<leftarrow> call_emit (CreateCall llft fn (cs_llargs cs) callname) cs B;
        B \<leftarrow> genCallAttributes cs call B;
        let callValue = (case cs_sretTemp cs of Some tmp \<Rightarrow> tmp | None \<Rightarrow> call);
        (rval, B) \<leftarrow> on_s (mkCall (en_P E) (Some rbtype) (Some callValue) (cs_resolvedArgs cs) (cs_instructions cs) loc) B;
        B \<leftarrow> genCallEpilog E cs call rval B;
        Some (rval, B) })"

end
