(* ===== verification/Statements.thy ===== *)
theory Statements
  imports Calls
begin

text \<open>
  The statements and blocks of \<^verbatim>\<open>go-llvm.cpp\<close>: expression, return, if, switch, exception and defer statements,
  lists and blocks, temporary variables, and the conditional expression, which is built from statements. Each
  function resolves its operands, builds the node and has the tree checked.
\<close>

section \<open>Simple statements\<close>

text \<open>
  The location is read from the operand after \<open>resolve\<close>, which destroys a pending composite; the model takes the
  location the operand has.
\<close>

definition expression_statement :: "benv \<Rightarrow> fref \<Rightarrow> nref \<Rightarrow> nref bm" where
  "expression_statement E bfunction expr B =
     (if expr = en_errorExpression E \<or> bfunction = en_errorFunction E then Some (en_errorStatement E, B)
      else do { let B = set_curFcn bfunction B;
                loc \<leftarrow> bk_loc expr B;
                (x, B) \<leftarrow> resolve (en_fuel E) E expr (Some bfunction) VE_rvalue B;
                (es, B) \<leftarrow> on_s (mkExprStmt (en_P E) (Some bfunction) x loc) B;
                enforced E es B })"

definition temporary_variable :: "benv \<Rightarrow> fref \<Rightarrow> tref \<Rightarrow> nref option \<Rightarrow> bool \<Rightarrow> location \<Rightarrow> (vbref \<times> nref option) bm" where
  "temporary_variable E function btype binit is_address_taken loc B =
     (if binit = Some (en_errorExpression E) then Some ((en_errorVariable E, None), B)
      else do { let B = set_curFcn function B;
                (tname, B) \<leftarrow> bk_namegen ''tmpv'' B;
                (tvar, B) \<leftarrow> local_variable E function tname btype is_address_taken loc B;
                if tvar = en_errorVariable E then Some ((tvar, None), B)
                else do { B \<leftarrow> mark_temporary tvar B;
                          (st, B) \<leftarrow> init_statement E function tvar binit B;
                          Some ((tvar, Some st), B) } })"

section \<open>Return\<close>

text \<open>\<open>genReturnSequence\<close> with the backend as name generator; its names and those of the type manager are the same.\<close>

definition return_sequence :: "benv \<Rightarrow> fref \<Rightarrow> nref \<Rightarrow> (vref option \<times> vref list) bm" where
  "return_sequence E bfunction toret B =
     do { f \<leftarrow> bk_functions B bfunction;
          nt \<leftarrow> tm_nametags (bk_tm B);
          rinfo \<leftarrow> returnInfo (bk_tm B) (bf_oracle f);
          (rval, insts, nt, f, s, tm) \<leftarrow> genReturnSequence (en_memcpy E) (en_fuel E) toret [] nt (f, bk_s B, bk_tm B);
          let tm = (if pi_disp rinfo = ParmIndirect then tm\<lparr>tm_nametags := Some nt\<rparr> else tm);
          Some ((rval, insts), B\<lparr>bk_s := s, bk_tm := tm, bk_functions := (bk_functions B)(bfunction \<mapsto> f)\<rparr>) }"

definition return_operand :: "benv \<Rightarrow> fref \<Rightarrow> nref list \<Rightarrow> location \<Rightarrow> nref bm" where
  "return_operand E bfunction resolvedVals loc B =
     (case resolvedVals of
        [] \<Rightarrow> do { (vt, B) \<leftarrow> void_type B;
                   (u, B) \<leftarrow> on_const (getUndef VoidTy) B;
                   on_s (mkConst (en_P E) (Some vt) (Some u)) B }
      | [x] \<Rightarrow> Some (x, B)
      | _ \<Rightarrow>
          do { f \<leftarrow> bk_functions B bfunction;
               (ps, rtyp, cabi) \<leftarrow> fcn_parts (bf_fcnType f) (bk_tm B);
               (structVal, B) \<leftarrow> constructor_expression E rtyp resolvedVals loc B;
               p \<leftarrow> compositeInitPending structVal (bk_s B);
               if p then resolve_composite E structVal (Some bfunction) None B
               else do { v \<leftarrow> bk_value structVal B;
                         if \<not> isConstant v then Some (structVal, B)
                         else do { bt \<leftarrow> bk_btype structVal B;
                                   (cv, B) \<leftarrow> genVarForConstant E v bt B;
                                   (x, B) \<leftarrow> var_expression E cv VE_rvalue loc B;
                                   address_expression E x loc B } } })"

definition resolve_return :: "benv \<Rightarrow> fref \<Rightarrow> nref \<Rightarrow> nref bm" where
  "resolve_return E bfunction x B =
     do { ctx \<leftarrow> context_of x B; resolve (en_fuel E) E x (Some bfunction) ctx B }"

definition return_statement :: "benv \<Rightarrow> fref \<Rightarrow> nref list \<Rightarrow> location \<Rightarrow> nref bm" where
  "return_statement E bfunction vals loc B =
     (if bfunction = en_errorFunction E \<or> exprVectorHasError E vals then Some (en_errorStatement E, B)
      else do {
        let B = set_curFcn bfunction B;
        (resolvedVals, B) \<leftarrow> map_st (resolve_return E bfunction) vals B;
        (toret, B) \<leftarrow> return_operand E bfunction resolvedVals loc B;
        ((rval, insts), B) \<leftarrow> return_sequence E bfunction toret B;
        (ri, B) \<leftarrow> on_const (new_inst RetOp (case rval of None \<Rightarrow> [] | Some v \<Rightarrow> [v]) VoidTy '''') B;
        B \<leftarrow> upd_s (fold_opt (appendInstruction toret) insts) B;
        B \<leftarrow> upd_s (appendInstruction toret ri) B;
        on_s (mkReturn (en_P E) (Some bfunction) toret loc) B })"

section \<open>Control statements\<close>

definition stmt_function :: "nref \<Rightarrow> backend \<Rightarrow> fref option option" where
  "stmt_function x B =
     do { b \<leftarrow> as_stmt x (bk_s B);
          case nd_data b of StmtNode f \<Rightarrow> Some f | BlockNode f vs \<Rightarrow> Some f | _ \<Rightarrow> None }"

text \<open>A null exception clause is dereferenced by the assertion.\<close>

definition exception_handler_statement :: "benv \<Rightarrow> nref \<Rightarrow> nref option \<Rightarrow> nref option \<Rightarrow> location \<Rightarrow> nref bm" where
  "exception_handler_statement E bstat except_stmt finally_stmt loc B =
     (if bstat = en_errorStatement E \<or> except_stmt = Some (en_errorStatement E) \<or> finally_stmt = Some (en_errorStatement E)
      then Some (en_errorStatement E, B)
      else do {
        func \<leftarrow> stmt_function bstat B;
        ex \<leftarrow> except_stmt; ef \<leftarrow> stmt_function ex B; check (func = ef);
        (case finally_stmt of None \<Rightarrow> Some () | Some fs \<Rightarrow> do { ff \<leftarrow> stmt_function fs B; check (func = ff) });
        (excepst, B) \<leftarrow> on_s (mkExcepStmt (en_P E) func (Some bstat) except_stmt finally_stmt loc) B;
        enforced E excepst B })"

definition if_statement :: "benv \<Rightarrow> fref \<Rightarrow> nref \<Rightarrow> nref \<Rightarrow> nref option \<Rightarrow> location \<Rightarrow> nref bm" where
  "if_statement E bfunction condition then_block else_block loc B =
     (if condition = en_errorExpression E then Some (en_errorStatement E, B)
      else do {
        let B = set_curFcn bfunction B;
        (condition, B) \<leftarrow> resolve (en_fuel E) E condition (Some bfunction) VE_rvalue B;
        (bt, B) \<leftarrow> bk_aux (IntTy 1) B;
        (conv, B) \<leftarrow> convert_expression E bt condition loc B;
        (ifst, B) \<leftarrow> on_s (mkIfStmt (en_P E) (Some bfunction) conv then_block else_block loc) B;
        enforced E ifst B })"

definition switch_statement :: "benv \<Rightarrow> fref \<Rightarrow> nref \<Rightarrow> nref list list \<Rightarrow> nref list \<Rightarrow> location \<Rightarrow> nref bm" where
  "switch_statement E bfunction value cases statements loc B =
     (if value = en_errorExpression E then Some (en_errorStatement E, B)
      else do {
        let B = set_curFcn bfunction B;
        if (\<exists>casev \<in> set cases. exprVectorHasError E casev) \<or> stmtVectorHasError E statements
        then Some (en_errorStatement E, B)
        else do {
          (value, B) \<leftarrow> resolve (en_fuel E) E value (Some bfunction) VE_rvalue B;
          vs \<leftarrow> map_opt (\<lambda>x. bk_value x B) (concat cases);
          check (list_all isConstant vs);
          (swst, B) \<leftarrow> on_s (mkSwitchStmt (en_P E) (Some bfunction) value cases statements loc) B;
          enforced E swst B } })"

section \<open>Lists and blocks\<close>

text \<open>The function of a list of statements: all that have one agree.\<close>

fun common_function :: "benv \<Rightarrow> fref option \<Rightarrow> nref list \<Rightarrow> backend \<Rightarrow> fref option option option" where
  "common_function E func [] B = Some (Some func)"
| "common_function E func (st # sts) B =
     (if st = en_errorStatement E then Some None
      else do { sf \<leftarrow> stmt_function st B;
                (case sf of
                   None \<Rightarrow> common_function E func sts B
                 | Some f \<Rightarrow> do { check (func = None \<or> func = Some f); common_function E (Some f) sts B }) })"

definition add_statements :: "nref \<Rightarrow> nref list \<Rightarrow> backend \<Rightarrow> backend option" where
  "add_statements block sts = upd_s (fold_opt (addStatementToBlock block) sts)"

definition statement_list :: "benv \<Rightarrow> nref list \<Rightarrow> nref bm" where
  "statement_list E statements B =
     do { r \<leftarrow> common_function E None statements B;
          (case r of
             None \<Rightarrow> Some (en_errorStatement E, B)
           | Some func \<Rightarrow>
               do { (block, B) \<leftarrow> on_s (mkBlock (en_P E) func [] 0) B;
                    B \<leftarrow> add_statements block statements B;
                    enforced E block B }) }"

definition compound_statement :: "benv \<Rightarrow> nref \<Rightarrow> nref \<Rightarrow> nref bm" where
  "compound_statement E s1 s2 B =
     (if s1 = en_errorStatement E \<or> s2 = en_errorStatement E then Some (en_errorStatement E, B)
      else do { f1 \<leftarrow> stmt_function s1 B; f2 \<leftarrow> stmt_function s2 B;
                check (f1 = None \<or> f2 = None \<or> f1 = f2);
                statement_list E [s1, s2] B })"

definition bk_block :: "benv \<Rightarrow> fref \<Rightarrow> vbref list \<Rightarrow> location \<Rightarrow> nref bm" where
  "bk_block E function vars start_location B =
     do { (bb, B) \<leftarrow> on_s (mkBlock (en_P E) (Some function) vars start_location) B;
          (u, B) \<leftarrow> upd_fcn function (\<lambda>(f, s). Some ((), addBlock bb f, s)) B;
          Some (bb, B) }"

definition block_add_statements :: "benv \<Rightarrow> nref \<Rightarrow> nref list \<Rightarrow> backend \<Rightarrow> backend option" where
  "block_add_statements E bblock statements B =
     (if stmtVectorHasError E statements then Some B
      else do { B \<leftarrow> add_statements bblock statements B; enforceTreeIntegrity E bblock B })"

definition block_statement :: "nref \<Rightarrow> nref" where
  "block_statement bblock = bblock"

definition function_defer_statement :: "benv \<Rightarrow> fref \<Rightarrow> nref \<Rightarrow> nref \<Rightarrow> location \<Rightarrow> nref bm" where
  "function_defer_statement E function undefer defer_expr loc B =
     (if function = en_errorFunction E \<or> undefer = en_errorExpression E \<or> defer_expr = en_errorExpression E
      then Some (en_errorStatement E, B)
      else do { (defst, B) \<leftarrow> on_s (mkDeferStmt (en_P E) (Some function) undefer defer_expr loc) B;
                enforced E defst B })"

definition function_set_parameters :: "fref \<Rightarrow> vbref list \<Rightarrow> bool" where
  "function_set_parameters function param_vars = True"

section \<open>Conditional expressions\<close>

definition is_void :: "nref \<Rightarrow> bool bm" where
  "is_void x B = do { bt \<leftarrow> bk_btype x B; (vt, B) \<leftarrow> void_type B; Some (bt = vt, B) }"

text \<open>
  A null type, or a branch of void type, makes the branch an expression statement; otherwise the value goes into
  a temporary variable.
\<close>

definition branch_is_stmt :: "tref option \<Rightarrow> nref \<Rightarrow> bool bm" where
  "branch_is_stmt btype x B = (if btype = None then Some (True, B) else is_void x B)"

definition conditional_then :: "benv \<Rightarrow> fref \<Rightarrow> tref option \<Rightarrow> nref \<Rightarrow> location \<Rightarrow> (nref option \<times> vbref option) bm" where
  "conditional_then E function btype then_expr loc B =
     do { (st, B) \<leftarrow> branch_is_stmt btype then_expr B;
          if st then do { (s, B) \<leftarrow> expression_statement E function then_expr B; Some ((Some s, None), B) }
          else do { bt \<leftarrow> bk_btype then_expr B;
                    ((tempv, s), B) \<leftarrow> temporary_variable E function bt (Some then_expr) False loc B;
                    Some ((s, Some tempv), B) } }"

definition conditional_else :: "benv \<Rightarrow> fref \<Rightarrow> tref option \<Rightarrow> nref \<Rightarrow> nref \<Rightarrow> vbref option \<Rightarrow> location \<Rightarrow>
    (nref option \<times> vbref option) bm" where
  "conditional_else E function btype then_expr else_expr tempv loc B =
     do { (st, B) \<leftarrow> branch_is_stmt btype else_expr B;
          if st then do { (s, B) \<leftarrow> expression_statement E function else_expr B; Some ((Some s, tempv), B) }
          else do {
            bt \<leftarrow> bk_btype else_expr B;
            (case tempv of
               None \<Rightarrow> do { ((tv, s), B) \<leftarrow> temporary_variable E function bt (Some else_expr) False loc B; Some ((s, Some tv), B) }
             | Some tv \<Rightarrow>
                 do { tt \<leftarrow> bk_btype then_expr B; check (tt = bt);
                      (varExpr, B) \<leftarrow> var_expression E tv VE_lvalue loc B;
                      (s, B) \<leftarrow> assignment_statement E function varExpr else_expr loc B;
                      Some ((Some s, tempv), B) }) } }"

definition conditional_expression :: "benv \<Rightarrow> fref \<Rightarrow> tref option \<Rightarrow> nref \<Rightarrow> nref \<Rightarrow> nref option \<Rightarrow> location \<Rightarrow> nref bm" where
  "conditional_expression E function btype condition then_expr else_expr loc B =
     (if function = en_errorFunction E \<or> btype = Some (errorType (bk_tm B)) \<or> condition = en_errorExpression E \<or>
         then_expr = en_errorExpression E \<or> else_expr = Some (en_errorExpression E)
      then Some (en_errorExpression E, B)
      else do {
        let B = set_curFcn function B;
        (condition, B) \<leftarrow> resolveVarContext E condition VE_rvalue B;
        (then_expr, B) \<leftarrow> resolve (en_fuel E) E then_expr (Some function) VE_rvalue B;
        (else_expr, B) \<leftarrow> (case else_expr of
           None \<Rightarrow> Some (None, B)
         | Some x \<Rightarrow> do { (x, B) \<leftarrow> resolve (en_fuel E) E x (Some function) VE_rvalue B; Some (Some x, B) });
        (thenBlock, B) \<leftarrow> on_s (mkBlock (en_P E) (Some function) [] loc) B;
        ((thenStmt, tempv), B) \<leftarrow> conditional_then E function btype then_expr loc B;
        ts \<leftarrow> thenStmt;
        B \<leftarrow> add_statements thenBlock [ts] B;
        (elseBlock, tempv, B) \<leftarrow> (case else_expr of
           None \<Rightarrow> Some (None, tempv, B)
         | Some x \<Rightarrow>
             do { (eb, B) \<leftarrow> on_s (mkBlock (en_P E) (Some function) [] loc) B;
                  ((elseStmt, tempv), B) \<leftarrow> conditional_else E function btype then_expr x tempv loc B;
                  es \<leftarrow> elseStmt;
                  B \<leftarrow> add_statements eb [es] B;
                  Some (Some eb, tempv, B) });
        (ifStmt, B) \<leftarrow> if_statement E function condition thenBlock elseBlock loc B;
        (rval, B) \<leftarrow> (case tempv of
           Some tv \<Rightarrow> var_expression E tv VE_rvalue loc B
         | None \<Rightarrow> do { (vt, B) \<leftarrow> void_type B; on_s (mkVoidValue (en_P E) (Some vt)) B });
        compound_expression E ifStmt rval loc B })"

end
