(* ===== verification/CallFacts.thy ===== *)
theory CallFacts
  imports Statements CabiFacts BfunctionFacts
begin

text \<open>
  The arguments of a call against the signature the C ABI oracle computes: what the caller marshals for a
  parameter is what the constructor of the callee's \<open>Bfunction\<close> reads for it (\<open>param_args\<close>).
\<close>

section \<open>What marshalling an argument adds\<close>

definition adds :: "nat \<Rightarrow> callstate \<Rightarrow> callstate \<Rightarrow> bool" where
  "adds n cs cs' \<longleftrightarrow> cs_oracle cs' = cs_oracle cs \<and> cs_sretTemp cs' = cs_sretTemp cs \<and> cs_chainVal cs' = cs_chainVal cs \<and>
     (\<exists>vs. length vs = n \<and> cs_llargs cs' = cs_llargs cs @ vs)"

lemma adds_resolved [simp]: "adds n (push_resolved x cs) cs' \<longleftrightarrow> adds n cs cs'" "adds 0 cs (push_resolved x cs)"
  by (simp_all add: adds_def push_resolved_def)

lemma adds_refl [simp]: "adds 0 cs cs"
  by (simp add: adds_def)

lemma adds_push [intro!]: "adds n cs cs' \<Longrightarrow> adds (Suc n) cs (push_llarg v cs')"
  by (auto simp: adds_def push_llarg_def)

lemma adds_trans: "adds m cs cs1 \<Longrightarrow> adds n cs1 cs2 \<Longrightarrow> k = m + n \<Longrightarrow> adds k cs cs2"
  by (auto simp: adds_def)

lemma call_emit_adds: "call_emit f cs B = Some ((v, cs'), B') \<Longrightarrow> adds 0 cs cs'"
  by (auto simp: call_emit_def bind_Some_iff adds_def split: prod.splits)

lemma named_emit_adds: "named_emit tag f cs B = Some ((v, cs'), B') \<Longrightarrow> adds 0 cs cs'"
  by (auto simp: named_emit_def bind_Some_iff dest: call_emit_adds split: prod.splits)

lemma marshall_indirect_adds: "marshall_indirect E x cs B = Some (cs', B') \<Longrightarrow> adds (Suc 0) cs cs'"
  by (auto simp: marshall_indirect_def bind_Some_iff simp del: check_bind)

lemma marshall_loaded_adds: "marshall_loaded t v cs B = Some (cs', B') \<Longrightarrow> adds (Suc 0) cs cs'"
proof -
  assume "marshall_loaded t v cs B = Some (cs', B')"
  then obtain cs1 cs2 l where "adds 0 cs cs1" "adds 0 cs1 cs2" "cs' = push_llarg l cs2"
    by (auto simp: marshall_loaded_def bind_Some_iff dest!: named_emit_adds split: prod.splits)
  then show ?thesis by (auto intro: adds_trans)
qed

lemma marshall_value_adds: "marshall_value E p t pt x v cs B = Some (cs', B') \<Longrightarrow> adds (Suc 0) cs cs'"
  by (auto simp: marshall_value_def bind_Some_iff dest!: named_emit_adds split: prod.splits if_split_asm)

lemma marshall_pair_adds:
  assumes "marshall_pair E p x v cs B = Some (cs', B')"
  shows "length (pi_abiTypes p) = 2 \<and> adds (Suc (Suc 0)) cs cs'"
proof -
  obtain cs1 cs2 cs3 cs4 cs5 l0 l1 where "length (pi_abiTypes p) = 2" "adds 0 cs cs1" "adds 0 cs1 cs2" "adds 0 cs2 cs3"
    "adds 0 (push_llarg l0 cs3) cs4" "adds 0 cs4 cs5" "cs' = push_llarg l1 cs5"
    using assms by (auto simp: marshall_pair_def bind_Some_iff Let_def dest!: named_emit_adds split: prod.splits if_split_asm)
  moreover from this have "adds (Suc 0) cs (push_llarg l0 cs3)" by (auto intro: adds_trans)
  ultimately show ?thesis by (auto intro: adds_trans)
qed

lemma marshall_direct_adds:
  assumes "marshall_direct E p pt x cs B = Some (cs', B')"
  shows "adds (if pi_disp p = ParmIgnore then 0 else numArgSlots p) cs cs'"
  using assms
  by (auto simp: marshall_direct_def bind_Some_iff Let_def numArgSlots_def numeral_2_eq_2 dest!: marshall_loaded_adds marshall_value_adds
      marshall_pair_adds split: prod.splits if_split_asm)

definition slots_of :: "CABIParamInfo \<Rightarrow> nat" where
  "slots_of p = (if pi_disp p = ParmIgnore then 0 else numArgSlots p)"

definition plain_param :: "CABIParamInfo \<Rightarrow> bool" where
  "plain_param p \<longleftrightarrow> pi_attr p \<noteq> AttrNest \<and> (pi_disp p = ParmIndirect \<longrightarrow> numArgSlots p = 1)"

lemma marshall_arg_adds:
  assumes "marshall_arg E (k, x) (cs, B) = Some (cs', B')" "paramInfo tm (cs_oracle cs) (of_nat k) = Some p"
    and "plain_param p"
  shows "adds (slots_of p) cs cs'"
proof -
  from assms(1) obtain ps rt cabi q where q: "paramInfo (bk_tm B) (cs_oracle cs) (of_nat k) = Some q"
    "(if pi_attr q = AttrNest then Some (cs, B)
      else if pi_disp q = ParmIndirect then marshall_indirect E x cs B else marshall_direct E q (nth_opt ps k) x cs B) = Some (cs', B')"
    by (auto simp: marshall_arg_def bind_Some_iff split: prod.splits)
  with assms(2) have "q = p" by (auto simp: paramInfo_def bind_Some_iff split: if_split_asm)
  with q(2) assms(3) show ?thesis
    by (auto simp: slots_of_def plain_param_def split: if_split_asm dest!: marshall_indirect_adds marshall_direct_adds)
qed

section \<open>All arguments\<close>

lemma eightByteInfo_attr:
  assumes "eightByteInfo n tm x = Some ebrs" "s \<in> set ebrs"
  shows "ebr_attr s \<noteq> AttrNest"
proof -
  from assms(1) obtain b where "tm_heap tm x = Some b" by (auto simp: eightByteInfo_def bind_Some_iff)
  with assms(1) obtain rs where rs: "determineABITypes n tm rs = Some ebrs"
    "(case flavor (bt_kind b) of StructT \<Rightarrow> explodeStruct n tm x | ArrayT \<Rightarrow> explodeArray tm x
      | _ \<Rightarrow> incorporateScalar tm x) = Some rs"
    by (auto simp: eightByteInfo_def bind_Some_iff split: if_split_asm)
  from rs(1) assms(2) obtain r where r: "r \<in> set rs" "region_abi_type n tm r = Some s"
    unfolding determineABITypes_def by (blast dest: map_opt_back)
  have "incorporateScalar tm x = Some rs \<Longrightarrow> ebr_attr r \<noteq> AttrNest"
    using r(1) by (auto simp: incorporateScalar_def bind_Some_iff simp del: not_None_eq split: if_split_asm btkind.splits)
  moreover have "fresh_regions rs \<or> incorporateScalar tm x = Some rs"
    using rs(2) explodeStruct_fresh [of n tm x rs] explodeArray_fresh [of tm x rs] by (cases "flavor (bt_kind b)") auto
  ultimately have "ebr_attr r \<noteq> AttrNest" using r(1) by (auto simp: fresh_regions_def)
  then show ?thesis using r(2) by (auto simp: region_abi_type_def bind_Some_iff Let_def split: option.splits if_split_asm)
qed

lemma pass_regions_attr:
  "pass_regions n tm rs attr st = Some (ts, attr', st') \<Longrightarrow> attr \<noteq> AttrNest \<Longrightarrow> \<forall>r \<in> set rs. ebr_attr r \<noteq> AttrNest \<Longrightarrow>
   attr' \<noteq> AttrNest"
  by (induction rs arbitrary: attr st ts) (fastforce simp: bind_Some_iff Let_def split: prod.splits if_split_asm)+

lemma analyzeABIParam_plain: "analyzeABIParam n tm x st = Some (p, st') \<Longrightarrow> plain_param p"
  by (auto simp: analyzeABIParam_def bind_Some_iff Let_def param_infos plain_param_def numArgSlots_def
      dest: pass_regions_attr eightByteInfo_attr split: prod.splits if_split_asm)

lemma analyzeABIParams_plain: "analyzeABIParams n tm ps st = Some (infos, st') \<Longrightarrow> p \<in> set infos \<Longrightarrow> plain_param p"
  by (induction ps arbitrary: st infos) (auto simp: bind_Some_iff dest: analyzeABIParam_plain split: prod.splits)

text \<open>Folding over a prefix of the arguments, and one more.\<close>

lemma marshall_prefix:
  assumes "fold_opt (marshall_arg E) (enumerate 0 args) (cs, B) = Some (cs', B')" "k < length args"
  shows "\<exists>ck Bk cn Bn. fold_opt (marshall_arg E) (enumerate 0 (take k args)) (cs, B) = Some (ck, Bk) \<and>
    marshall_arg E (k, args ! k) (ck, Bk) = Some (cn, Bn) \<and>
    fold_opt (marshall_arg E) (enumerate (Suc k) (drop (Suc k) args)) (cn, Bn) = Some (cs', B')"
proof -
  have "enumerate 0 args = enumerate 0 (take k args) @ (k, args ! k) # enumerate (Suc k) (drop (Suc k) args)"
    using assms(2) by (subst id_take_nth_drop [OF assms(2)]) (simp add: enumerate_append_eq)
  with assms(1) show ?thesis by (auto simp: fold_opt_append bind_Some_iff)
qed

lemma marshall_args_adds:
  assumes "fold_opt (marshall_arg E) (enumerate j args) (cs, B) = Some (cs', B')"
    and "or_infov (cs_oracle cs) = rinfo # cinfo # infos" "j + length args \<le> length infos" "length infos + 2 < 2 ^ 32"
    and "\<forall>p \<in> set infos. plain_param p" "supported tm"
  shows "adds (\<Sum>p \<leftarrow> take (length args) (drop j infos). slots_of p) cs cs'"
  using assms(1-3)
proof (induction args arbitrary: j cs B)
  case (Cons x args)
  from Cons.prems(1) obtain c1 B1 where s: "marshall_arg E (j, x) (cs, B) = Some (c1, B1)"
    "fold_opt (marshall_arg E) (enumerate (Suc j) args) (c1, B1) = Some (cs', B')"
    by (auto simp: bind_Some_iff)
  have j: "j < length infos" using Cons.prems(3) by simp
  then have "unat (of_nat j + 2 :: u32) = j + 2" using assms(4) by (simp add: unat_index)
  then have pj: "paramInfo tm (cs_oracle cs) (of_nat j) = Some (infos ! j)"
    using Cons.prems(2) j assms(6) by (simp add: paramInfo_Some)
  have "plain_param (infos ! j)" using assms(5) j by simp
  from marshall_arg_adds [OF s(1) pj this] have a: "adds (slots_of (infos ! j)) cs c1" .
  then have "or_infov (cs_oracle c1) = rinfo # cinfo # infos" using Cons.prems(2) by (simp add: adds_def)
  from Cons.IH [OF s(2) this] Cons.prems(3)
  have "adds (\<Sum>p \<leftarrow> take (length args) (drop (Suc j) infos). slots_of p) c1 cs'" by simp
  with a show ?case using j by (auto intro: adds_trans simp: Cons_nth_drop_Suc [symmetric])
qed simp

lemma adds_ext: "adds n cs cs' \<Longrightarrow> \<exists>vs. length vs = n \<and> cs_llargs cs' = cs_llargs cs @ vs \<and> cs_oracle cs' = cs_oracle cs"
  by (auto simp: adds_def)

section \<open>The result and the static chain\<close>

lemma call_sret_effect:
  assumes "call_sret cs B = Some (cs', B')" "or_infov (cs_oracle cs) = rinfo # rest"
  shows "cs_oracle cs' = cs_oracle cs \<and> cs_chainVal cs' = cs_chainVal cs \<and>
    (if pi_disp rinfo = ParmIndirect then \<exists>tmp. cs_sretTemp cs' = Some tmp \<and> cs_llargs cs' = cs_llargs cs @ [tmp]
     else cs_llargs cs' = cs_llargs cs)"
proof -
  from assms obtain need where n: "call_needSretTemp cs B = Some need"
    "(if \<not> need then Some (cs, B) else do {
        (tname, B) \<leftarrow> bk_namegen ''sret.actual'' B;
        (ps, rt, cabi) \<leftarrow> fcn_parts (cs_calleeFcnType cs) (bk_tm B);
        caller \<leftarrow> cs_callerFcn cs;
        (tmp, B) \<leftarrow> upd_fcn caller (createTemporary_btype rt tname (bk_tm B)) B;
        let cs = cs\<lparr>cs_sretTemp := Some tmp\<rparr>;
        Some (if pi_disp rinfo = ParmIndirect then push_llarg tmp cs else cs, B) }) = Some (cs', B')"
    by (auto simp: call_sret_def bind_Some_iff returnInfo_Some)
  from n(1) assms(2) obtain t where need: "needSretTemp rinfo t = Some need"
    by (auto simp: call_needSretTemp_def bind_Some_iff returnInfo_Some split: prod.splits)
  show ?thesis
  proof (cases need)
    case False
    with n need show ?thesis by (auto simp: needSretTemp_def split: if_split_asm)
  next
    case True
    with n(2) show ?thesis by (auto simp: bind_Some_iff push_llarg_def Let_def split: prod.splits)
  qed
qed

lemma call_chain_effect:
  assumes "call_chain cs B = Some (cs', B')" "or_infov (cs_oracle cs) = rinfo # cinfo # rest" "pi_disp cinfo = ParmDirect"
  shows "cs_oracle cs' = cs_oracle cs \<and> cs_sretTemp cs' = cs_sretTemp cs \<and>
    (\<exists>c. cs_llargs cs' = cs_llargs cs @ [c] \<and> (\<forall>v. cs_chainVal cs = Some v \<longrightarrow> c = v))"
  using assms
  by (auto simp: call_chain_def bind_Some_iff chainInfo_Some push_llarg_def split: prod.splits option.splits if_split_asm)

section \<open>Caller and callee\<close>

lemma slots_from_sum: "slots_from elems k ps \<Longrightarrow> length elems = k + (\<Sum>p \<leftarrow> ps. slots_of p)"
  by (induction ps arbitrary: k) (auto simp: slots_of_def split: if_split_asm)

lemma slots_from_drop:
  "slots_from elems k ps \<Longrightarrow> j \<le> length ps \<Longrightarrow> slots_from elems (k + (\<Sum>p \<leftarrow> take j ps. slots_of p)) (drop j ps)"
proof (induction ps arbitrary: k j)
  case (Cons p ps)
  show ?case
  proof (cases j)
    case 0
    then show ?thesis using Cons.prems by simp
  next
    case (Suc i)
    with Cons.prems have "slots_from elems (k + slots_of p) ps" "i \<le> length ps" by (auto simp: slots_of_def split: if_split_asm)
    from Cons.IH [OF this] Suc show ?thesis by (simp add: add.assoc)
  qed
qed simp

lemma cabiOracle_plain:
  assumes "cabiOracle n tm ps rt True = Some orc" "or_infov orc = rinfo # cinfo # infos"
  shows "\<forall>p \<in> set infos. plain_param p"
  using cabiOracle_parts [OF assms(1)] assms(2) by (metis analyzeABIParams_plain list.inject)

lemma prolog_effect:
  assumes "genCallProlog cs B = Some (cs1, B1)" "or_infov (cs_oracle cs) = rinfo # cinfo # infos" "pi_disp cinfo = ParmDirect"
    and "cs_llargs cs = []"
  shows "cs_oracle cs1 = cs_oracle cs \<and> supported (bk_tm B) \<and>
    (\<exists>c. cs_llargs cs1 = (if pi_disp rinfo = ParmIndirect then [the (cs_sretTemp cs1)] else []) @ [c] \<and>
         (\<forall>v. cs_chainVal cs = Some v \<longrightarrow> c = v))"
proof -
  from assms(1) obtain cs' B' where s: "call_sret cs B = Some (cs', B')" "call_chain cs' B' = Some (cs1, B1)"
    by (auto simp: genCallProlog_def bind_Some_iff)
  from s(1) have "supported (bk_tm B)" by (auto simp: call_sret_def bind_Some_iff returnInfo_Some)
  with call_sret_effect [OF s(1) assms(2)] call_chain_effect [OF s(2) _ assms(3)] assms(2,4) show ?thesis
    by (auto split: if_split_asm)
qed

text \<open>One argument: what is added for it is what \<open>param_args\<close> selects from all arguments.\<close>

lemma marshalled_param:
  assumes run: "fold_opt (marshall_arg E) (enumerate 0 args) (cs1, B1) = Some (cs2, B2)"
    and infov: "or_infov (cs_oracle cs1) = rinfo # cinfo # infos" and slots: "slots_from elems (length (cs_llargs cs1)) infos"
    and len: "length args = length infos" "length (cs_llargs cs2) = length elems" "length elems < 2 ^ 32" "length infos + 2 < 2 ^ 32"
    and plain: "\<forall>p \<in> set infos. plain_param p" and sup: "supported tm" and k: "k < length infos"
  shows "\<exists>ck Bk cn Bn. fold_opt (marshall_arg E) (enumerate 0 (take k args)) (cs1, B1) = Some (ck, Bk) \<and>
      marshall_arg E (k, args ! k) (ck, Bk) = Some (cn, Bn) \<and>
      cs_llargs cn = cs_llargs ck @ param_args (cs_llargs cs2) (infos ! k)"
proof -
  note adds = marshall_args_adds [OF _ _ _ len(4) plain sup, of E _ _ _ _ _ _ rinfo cinfo]
  have "k < length args" using k len(1) by simp
  from marshall_prefix [OF run this] obtain ck Bk cn Bn where
    r: "fold_opt (marshall_arg E) (enumerate 0 (take k args)) (cs1, B1) = Some (ck, Bk)"
      "marshall_arg E (k, args ! k) (ck, Bk) = Some (cn, Bn)"
      "fold_opt (marshall_arg E) (enumerate (Suc k) (drop (Suc k) args)) (cn, Bn) = Some (cs2, B2)" by blast
  have a1: "adds (\<Sum>p \<leftarrow> take k infos. slots_of p) cs1 ck" using adds [OF r(1)] infov len(1) k by simp
  then have o1: "or_infov (cs_oracle ck) = rinfo # cinfo # infos" using infov by (simp add: adds_def)
  have pk: "paramInfo tm (cs_oracle ck) (of_nat k) = Some (infos ! k)"
    using k o1 sup unat_index [of k] len(4) by (simp add: paramInfo_Some)
  have "plain_param (infos ! k)" using plain k by simp
  from marshall_arg_adds [OF r(2) pk this] have a2: "adds (slots_of (infos ! k)) ck cn" .
  have a3: "\<exists>n. adds n cn cs2" using adds [OF r(3)] a2 o1 len(1) k by (fastforce simp: adds_def)
  have d: "slots_from elems (length (cs_llargs ck)) (infos ! k # drop (Suc k) infos)"
    using slots_from_drop [OF slots, of k] a1 k by (auto simp: adds_def Cons_nth_drop_Suc)
  from a2 a3 obtain vs ws where v: "cs_llargs cn = cs_llargs ck @ vs" "cs_llargs cs2 = cs_llargs ck @ vs @ ws" "length vs = slots_of (infos ! k)"
    by (auto simp: adds_def)
  have "vs = param_args (cs_llargs cs2) (infos ! k)"
  proof (cases "pi_disp (infos ! k) = ParmIgnore")
    case True
    then show ?thesis using v(3) by (simp add: slots_of_def param_args_def)
  next
    case False
    with slots_from_head [OF d False len(2,3)] v(2,3) show ?thesis by (simp add: slots_of_def)
  qed
  with r(1,2) v(1) show ?thesis by blast
qed

text \<open>
  C3. Calling conventions meet. When a call of a function that follows the C ABI is marshalled, the LLVM
  arguments are as many as the function type of the ABI has parameters: the address for the result, if it is
  returned in memory, the static chain, and then for each argument of the call, in order, what marshalling it
  adds. And that is exactly what the constructor of the callee reads for this parameter (\<open>param_args\<close>, see
  \<open>param_values\<close>), none for an ignored one.
\<close>

theorem call_arguments:
  assumes "cabiOracle n tm ps rt True = Some orc" "or_fcnTypeForABI orc = Some (FunctionTy lrt elems False)"
    and "length elems < 2 ^ 32" "length ps + 2 < 2 ^ 32" "cs_oracle cs = orc" "cs_llargs cs = []"
    and "genCallProlog cs B = Some (cs1, B1)" "genCallMarshallArgs E fn_args cs1 B1 = Some (cs2, B2)"
    and "length fn_args = length ps"
  shows "\<exists>rinfo cinfo infos c. or_infov orc = rinfo # cinfo # infos \<and> length infos = length ps \<and>
     length (cs_llargs cs2) = length elems \<and> (\<forall>v. cs_chainVal cs = Some v \<longrightarrow> c = v) \<and>
     cs_llargs cs2 = (if pi_disp rinfo = ParmIndirect then [the (cs_sretTemp cs2)] else []) @ [c] @
       concat (map (param_args (cs_llargs cs2)) infos) \<and>
     (\<forall>k < length ps. \<exists>ck Bk cn Bn. genCallMarshallArgs E (take k fn_args) cs1 B1 = Some (ck, Bk) \<and>
        marshall_arg E (k, fn_args ! k) (ck, Bk) = Some (cn, Bn) \<and>
        cs_llargs cn = cs_llargs ck @ param_args (cs_llargs cs2) (infos ! k))"
proof -
  from cabiOracle_slots [OF assms(1)] obtain rinfo cinfo infos where
    o: "or_infov orc = rinfo # cinfo # infos" "length infos = length ps" "numArgSlots rinfo = 1" "pi_disp cinfo = ParmDirect"
      "pi_abiTypes cinfo = [llvmPtrType]" "slots_from elems (length (sret_elems rinfo)) (cinfo # infos)"
    using assms(2) by force
  define m where "m = (if pi_disp rinfo = ParmIndirect then 1 else 0 :: nat)"
  have slots: "slots_from elems (m + 1) infos"
    using o(3-6) by (simp add: m_def sret_elems_def numArgSlots_def split: if_split_asm)
  note plain = cabiOracle_plain [OF assms(1) o(1)]
  from prolog_effect [OF assms(7) _ o(4) assms(6)] o(1) assms(5) obtain c where
    p: "cs_oracle cs1 = orc" "supported (bk_tm B)" "\<forall>v. cs_chainVal cs = Some v \<longrightarrow> c = v"
      "cs_llargs cs1 = (if pi_disp rinfo = ParmIndirect then [the (cs_sretTemp cs1)] else []) @ [c]"
    by auto
  have len1: "length (cs_llargs cs1) = m + 1" using p(4) by (simp add: m_def)
  note run = assms(8) [unfolded genCallMarshallArgs_def]
  note adds = marshall_args_adds [OF _ _ _ _ plain p(2), of E _ _ _ _ _ _ rinfo cinfo]
  have all: "adds (\<Sum>p \<leftarrow> infos. slots_of p) cs1 cs2"
    using adds [OF run] p(1) o(1,2) assms(4,9) by simp
  have len2: "length (cs_llargs cs2) = length elems"
    using all len1 slots_from_sum [OF slots] by (auto simp: adds_def)
  have parts: "cs_llargs cs2 = cs_llargs cs1 @ concat (map (param_args (cs_llargs cs2)) infos)"
    using param_args_partition [OF slots len2 assms(3)] all len1 by (auto simp: adds_def)
  have each: "\<exists>ck Bk cn Bn. genCallMarshallArgs E (take k fn_args) cs1 B1 = Some (ck, Bk) \<and>
      marshall_arg E (k, fn_args ! k) (ck, Bk) = Some (cn, Bn) \<and>
      cs_llargs cn = cs_llargs ck @ param_args (cs_llargs cs2) (infos ! k)" if k: "k < length ps" for k
    unfolding genCallMarshallArgs_def
    by (rule marshalled_param [OF run, of rinfo cinfo infos elems "bk_tm B"])
      (use p(1,2) o(1,2) slots len1 len2 assms(3,4,9) plain k in simp_all)
  have "cs_sretTemp cs2 = cs_sretTemp cs1" using all by (simp add: adds_def)
  with o(1,2) len2 p(3,4) parts each show ?thesis by (intro exI [of _ rinfo] exI [of _ cinfo] exI [of _ infos] exI [of _ c]) auto
qed

end
