(* ===== verification/BackendSamples.thy ===== *)
theory BackendSamples
  imports CallFacts BnodeSamples
begin

definition sample_printers :: printers where
  "sample_printers = \<lparr>pr_value = (\<lambda>v. []), pr_fname = (\<lambda>v. []), pr_btype = (\<lambda>t. []), pr_loc = (\<lambda>l. []), pr_ptr = (\<lambda>n. []),
     pr_iptr = (\<lambda>v. []), pr_linemap = False\<rparr>"

definition sample_memcpy :: memcpy_builder where
  "sample_memcpy dst src sz algn m = (let (v, m) = new_inst CallOp [FunctionV 0, dst, src] VoidTy [] m in ([v], m))"

definition sample_benv :: benv where
  "sample_benv = \<lparr>en_P = sample_printers, en_fuel = 5, en_memcpy = sample_memcpy, en_errorExpression = 0, en_errorStatement = 0,
     en_errorVariable = 0, en_errorFunction = 0, en_checkIntegrity = True, en_rvalue_as_bool = False,
     en_arguments = (\<lambda>v. [ArgumentV 0]), en_predeclared = 0,
     en_intrinsic = (\<lambda>i ts. (FunctionTy VoidTy [] False, ''intrinsic''))\<rparr>"

definition sample_ctx :: llctx where
  "sample_ctx = \<lparr>ll_next = 0, ll_names = Map.empty, ll_bodies = Map.empty\<rparr>"

definition ident :: "tref \<Rightarrow> tident" where
  "ident t = \<lparr>ti_name = ''x'', ti_btype = t, ti_location = 0\<rparr>"

text \<open>A backend without builtin functions.\<close>

definition sample_backend :: "backend option" where
  "sample_backend =
     do { tm \<leftarrow> start_tm;
          (x, s) \<leftarrow> mkError sample_printers (errorType tm) (init_bstate empty_irmem);
          Some (empty_backend s (initializeTypeManager x x86_layout Map.empty tm)) }"

definition call_types :: "(tref \<times> tref \<times> tref \<times> tref \<times> tref \<times> backend) option" where
  "call_types =
     do { B \<leftarrow> sample_backend;
          (i8, B) \<leftarrow> integer_type sample_benv False 8 B;
          (f64, B) \<leftarrow> float_type sample_benv 64 B;
          (st, B) \<leftarrow> struct_type sample_benv [ident f64, ident i8] B;
          (big, B) \<leftarrow> struct_type sample_benv [ident f64, ident f64, ident f64] B;
          (ft0, B) \<leftarrow> function_type sample_benv None [] [] None 0 B;
          (ft, B) \<leftarrow> function_type sample_benv None [ident i8, ident st, ident big] [ident big] None 0 B;
          Some (i8, st, big, ft0, ft, B) }"

definition sample_call :: "(tref list \<times> tref \<times> callstate \<times> nref list \<times> backend) option" where
  "sample_call =
     do { (i8, st, big, ft0, ft, B) \<leftarrow> call_types;
          (caller, B) \<leftarrow> bk_function sample_benv ft0 ''f'' ''f'' True False False False False 0 B;
          (x, B) \<leftarrow> integer_constant_expression sample_benv i8 (-3) B;
          (y, B) \<leftarrow> zero_expression sample_benv st B;
          (z, B) \<leftarrow> zero_expression sample_benv big B;
          cs \<leftarrow> mk_callstate sample_benv (Some caller) ft B;
          Some ([i8, st, big], big, cs, [x, y, z], B) }"

definition signature_of :: "CABIOracle \<Rightarrow> llty list option" where
  "signature_of orc = (case or_fcnTypeForABI orc of Some (FunctionTy r ts va) \<Rightarrow> if va then None else Some ts | _ \<Rightarrow> None)"

lemma signature_of_Some: "signature_of orc = Some ts \<Longrightarrow> \<exists>r. or_fcnTypeForABI orc = Some (FunctionTy r ts False)"
  by (auto simp: signature_of_def split: option.splits llty.splits if_split_asm)

definition sample_marshalled :: "(vref list \<times> llty list) option" where
  "sample_marshalled =
     do { (ps, rt, cs, xs, B) \<leftarrow> sample_call;
          orc \<leftarrow> cabiOracle 5 (bk_tm B) ps rt True;
          check (cs_oracle cs = orc \<and> cs_llargs cs = [] \<and> length xs = length ps \<and> length ps = 3);
          (cs, B) \<leftarrow> genCallProlog cs B;
          (cs, B) \<leftarrow> genCallMarshallArgs sample_benv xs cs B;
          ts \<leftarrow> signature_of orc;
          Some (cs_llargs cs, ts) }"

lemma sample_marshalled_Some: "map_option (\<lambda>(vs, ts). (length vs, length ts)) sample_marshalled = Some (6, 6)"
  by code_simp

text \<open>A call with an int8, a struct for two registers and a struct for memory, whose result is returned in memory.\<close>

lemma call_arguments_witness:
  "\<exists>ps rt cs xs B cs1 B1 cs2 B2 rinfo cinfo infos c. sample_call = Some (ps, rt, cs, xs, B) \<and>
     genCallProlog cs B = Some (cs1, B1) \<and> genCallMarshallArgs sample_benv xs cs1 B1 = Some (cs2, B2) \<and>
     or_infov (cs_oracle cs) = rinfo # cinfo # infos \<and> length infos = 3 \<and> length (cs_llargs cs2) = 6 \<and>
     cs_llargs cs2 = (if pi_disp rinfo = ParmIndirect then [the (cs_sretTemp cs2)] else []) @ [c] @
       concat (map (param_args (cs_llargs cs2)) infos)"
proof -
  obtain vs ts where m: "sample_marshalled = Some (vs, ts)" "length vs = 6" "length ts = 6"
    using sample_marshalled_Some by auto
  from m(1) obtain ps rt cs xs B orc cs1 B1 cs2 B2 where r: "sample_call = Some (ps, rt, cs, xs, B)"
    "cabiOracle 5 (bk_tm B) ps rt True = Some orc" "cs_oracle cs = orc" "cs_llargs cs = []" "length xs = length ps" "length ps = 3"
    "genCallProlog cs B = Some (cs1, B1)" "genCallMarshallArgs sample_benv xs cs1 B1 = Some (cs2, B2)"
    "signature_of orc = Some ts" "vs = cs_llargs cs2"
    unfolding sample_marshalled_def by (clarsimp simp: bind_Some_iff simp del: check_bind)
  from signature_of_Some [OF r(9)] obtain t where t: "or_fcnTypeForABI orc = Some (FunctionTy t ts False)" by blast
  from call_arguments [OF r(2) t _ _ r(3,4,7,8,5)] m(3) r(6) obtain rinfo cinfo infos c where
    "or_infov orc = rinfo # cinfo # infos" "length infos = 3"
    "cs_llargs cs2 = (if pi_disp rinfo = ParmIndirect then [the (cs_sretTemp cs2)] else []) @ [c] @
       concat (map (param_args (cs_llargs cs2)) infos)"
    by auto
  with r m(2) show ?thesis by blast
qed

end
