(* ===== verification/ExprFacts.thy ===== *)
theory ExprFacts
  imports Statements TypeFacts BnodeFacts
begin

text \<open>
  Types of expressions. A state is typed (\<open>types_ok\<close>) if every expression with a value has one that exists and whose
  LLVM type is the one of the expression's type. Building values, nodes and types only adds (\<open>bext\<close>), so
  typed states stay typed (\<open>keeps\<close>), operation by operation; the conversions of \<open>convert_expression\<close> are put
  together from these.
\<close>

section \<open>What building values adds\<close>

text \<open>A value the store knows: its entry is not in the future.\<close>

fun known :: "irmem \<Rightarrow> vref \<Rightarrow> bool" where
  "known m (InstV k) = (k < ir_next m)"
| "known m (AllocaV k) = (k < ir_next m)"
| "known m (ConstantV k) = (k < ir_next m)"
| "known m _ = True"

lemma known_iff: "known m v \<longleftrightarrow> (\<forall>k. v = InstV k \<or> v = AllocaV k \<or> v = ConstantV k \<longrightarrow> k < ir_next m)"
  by (cases v) auto

lemma ir_grows_known:
  "ir_grows m m' \<Longrightarrow> known m v \<Longrightarrow> known m' v \<and> ir_type m' v = ir_type m v \<and> ir_op m' v = ir_op m v \<and> ir_operands m' v = ir_operands m v"
  by (auto simp: ir_grows_def known_iff)

text \<open>
  Making a value of type \<open>t\<close> with operation \<open>iop\<close> and operands \<open>ops\<close>: what existed is untouched, and the value is
  there.
\<close>

definition makes :: "iop \<Rightarrow> vref list \<Rightarrow> llty \<Rightarrow> irmem \<Rightarrow> vref \<times> irmem \<Rightarrow> bool" where
  "makes iop ops t m = (\<lambda>(v, m'). ir_grows m m' \<and> known m' v \<and> ir_type m' v = t \<and> ir_op m' v = iop \<and> ir_operands m' v = Some ops)"

lemma makesD:
  "makes iop ops t m (v, m') \<Longrightarrow> ir_grows m m' \<and> known m' v \<and> ir_type m' v = t \<and> ir_op m' v = iop \<and> ir_operands m' v = Some ops"
  by (simp add: makes_def)

lemma new_inst_makes: "makes iop ops t m (new_inst iop ops t nm m)"
  by (auto simp: makes_def new_inst_def Let_def ir_grows_def known_iff split: iop.splits)

lemma folded_constant_makes: "makes iop ops t m (folded_constant iop ops t m)"
  by (auto simp: makes_def folded_constant_def Let_def ir_grows_def known_iff)

lemma get_constant_makes: "makes iop ops t m (get_constant iop ops t m)"
proof (cases "List.find (\<lambda>k. ir_op m (ConstantV k) = iop \<and> ir_operands m (ConstantV k) = Some ops \<and> ir_type m (ConstantV k) = t)
             [0..<ir_next m]")
  case None
  then show ?thesis using folded_constant_makes by (simp add: get_constant_def)
next
  case (Some k)
  then have "get_constant iop ops t m = (ConstantV k, m)" by (simp add: get_constant_def)
  with Some show ?thesis by (auto simp: makes_def find_Some_iff)
qed

lemma get_constant_constant: "isConstant (fst (get_constant iop ops t m))"
  by (auto simp: get_constant_def folded_constant_def Let_def split: option.split)

lemma build_makes: "makes iop ops t m (build iop ops t nm m)"
  by (simp add: build_def new_inst_makes get_constant_makes)

text \<open>Of integer constants and casts only the type is needed.\<close>

definition makes_type :: "llty \<Rightarrow> irmem \<Rightarrow> vref \<times> irmem \<Rightarrow> bool" where
  "makes_type t m = (\<lambda>(v, m'). ir_grows m m' \<and> known m' v \<and> ir_type m' v = t)"

lemma makes_makes_type: "makes iop ops t m r \<Longrightarrow> makes_type t m r"
  by (auto simp: makes_def makes_type_def)

lemma getNullValue_type: "makes_type t m (getNullValue t m)"
  by (simp add: getNullValue_def makes_makes_type [OF get_constant_makes])

lemma getInt_type: "makes_type t m (getInt t i m)"
  by (simp add: getInt_def Let_def getNullValue_type makes_makes_type [OF get_constant_makes])

lemma build_cast_type: "makes_type t m (build_cast c v t nm m)"
  by (cases c; cases "int_value v m"; simp add: build_cast_def getInt_type getNullValue_type makes_makes_type [OF build_makes])

lemma CreateCast_type:
  "CreateCast c v t nm m = Some r \<Longrightarrow> known m v \<Longrightarrow> makes_type t m r"
  using build_cast_type [of t m c v nm] by (auto simp: CreateCast_def makes_type_def split: if_split_asm)

lemma CreateBinOp_type:
  "CreateBinOp nm fp a b tag m = Some r \<Longrightarrow> known m a \<Longrightarrow> makes_type (ir_type m a) m r"
  using makes_makes_type [OF build_makes [of "BinaryOp nm" "[a, b]" "ir_type m a" m tag]]
  by (auto simp: CreateBinOp_def makes_type_def split: if_split_asm)

lemma CreateICmp_type: "CreateICmp p a b tag m = Some r \<Longrightarrow> makes_type (IntTy 1) m r"
  by (auto simp: CreateICmp_def makes_makes_type [OF build_makes] split: if_split_asm)

lemma CreateFCmp_type: "CreateFCmp p a b tag m = Some r \<Longrightarrow> makes_type (IntTy 1) m r"
  by (auto simp: CreateFCmp_def makes_makes_type [OF build_makes] split: if_split_asm)

lemma mk_load_type: "mk_load p nm m = Some r \<Longrightarrow> ir_type m p = PointerTy t \<Longrightarrow> makes_type t m r"
  by (auto simp: mk_load_def makes_makes_type [OF new_inst_makes])

section \<open>Typed expressions\<close>

text \<open>
  An expression with a value is typed if the value has the LLVM type of its \<open>Btype\<close>; while its variable context is
  pending and no address was taken, the value is the address of the variable.
\<close>

definition expr_typed :: "exprdata \<Rightarrow> backend \<Rightarrow> bool" where
  "expr_typed e B \<longleftrightarrow>
     (\<forall>v. e_value e = Some v \<longrightarrow> known (nd_ir (bk_s B)) v \<and>
        (\<exists>t l. e_btype e = Some t \<and> bk_type t B = Some l \<and>
           val_type B v = (if varExprPending e \<and> vc_addrLevel (e_ctx e) = 0 then PointerTy l else l)))"

text \<open>
  The table of auxiliary types holds objects of these types, and the error type is no scalar; operations that only
  add objects to the heap.
\<close>

definition aux_ok :: "typemanager \<Rightarrow> bool" where
  "aux_ok s \<longleftrightarrow> (\<forall>lt x. auxTypeMap s lt = Some x \<longrightarrow> ll_of x s = Some lt) \<and>
     (\<exists>b. tm_heap s (tm_errorType s) = Some b \<and> \<not> scalar_kind (bt_kind b))"

definition tm_adds :: "typemanager \<Rightarrow> typemanager \<Rightarrow> bool" where
  "tm_adds s t \<longleftrightarrow> moves s t \<and> (tm_live s \<longrightarrow> (\<forall>x b. tm_heap s x = Some b \<longrightarrow> tm_heap t x = Some b) \<and> (aux_ok s \<longrightarrow> aux_ok t))"

lemma ll_of_adds: "\<forall>x b. tm_heap s x = Some b \<longrightarrow> tm_heap t x = Some b \<Longrightarrow> ll_of x s = Some l \<Longrightarrow> ll_of x t = Some l"
  by (auto simp: ll_of_def obj_def bind_Some_iff)

lemma aux_ok_adds: "\<forall>x b. tm_heap s x = Some b \<longrightarrow> tm_heap t x = Some b \<Longrightarrow> auxTypeMap t = auxTypeMap s \<Longrightarrow>
    tm_errorType t = tm_errorType s \<Longrightarrow> aux_ok s \<Longrightarrow> aux_ok t"
  unfolding aux_ok_def using ll_of_adds [of s t] by metis

lemma same_core_adds: "same_core s t \<Longrightarrow> tm_adds s t"
  by (auto simp: tm_adds_def same_core_def aux_ok_def ll_of_def obj_def intro: same_core_moves)

lemma makeAuxType_adds:
  assumes "makeAuxType lt s = (x, t)"
  shows "tm_adds s t" "tm_live s \<Longrightarrow> aux_ok s \<Longrightarrow> ll_of x t = Some lt"
proof -
  show "tm_adds s t"
  proof (cases "auxTypeMap s lt")
    case None
    with assms have t: "t = s\<lparr>tm_heap := (tm_heap s)(tm_next s \<mapsto> mk_btype KAux (Some lt) 0), tm_next := Suc (tm_next s),
        auxTypeMap := (auxTypeMap s)(lt \<mapsto> tm_next s)\<rparr>" by (auto simp: makeAuxType_def new_btype_def)
    have "aux_ok t" if live: "tm_live s" and ok: "aux_ok s"
    proof -
      have mono: "\<forall>x b. tm_heap s x = Some b \<longrightarrow> tm_heap t x = Some b" using live_fresh [OF live] by (auto simp: t)
      have "ll_of x' t = Some lt'" if x': "auxTypeMap t lt' = Some x'" for lt' x'
      proof (cases "lt' = lt")
        case True
        then show ?thesis using x' by (simp add: t ll_of_def obj_def mk_btype_def)
      next
        case False
        then have "ll_of x' s = Some lt'" using x' ok by (simp add: t aux_ok_def)
        with mono show ?thesis by (rule ll_of_adds)
      qed
      moreover have "tm_errorType t = tm_errorType s" by (simp add: t)
      ultimately show ?thesis using ok mono unfolding aux_ok_def by metis
    qed
    then show ?thesis using makeAuxType_moves [OF assms] by (auto simp: tm_adds_def t live_fresh)
  next
    case Some
    with assms show ?thesis by (auto simp: makeAuxType_def tm_adds_def)
  qed
  show "ll_of x t = Some lt" if "tm_live s" "aux_ok s"
    using assms that by (auto simp: makeAuxType_def new_btype_def aux_ok_def ll_of_def obj_def mk_btype_def split: option.split_asm)
qed

lemma integerType_adds:
  assumes "integerType k u bits s = Some (x, t)"
  shows "tm_adds s t"
proof (unfold tm_adds_def, intro conjI impI integerType_moves [OF assms])
  assume live: "tm_live s"
  have h: "(\<forall>x b. tm_heap s x = Some b \<longrightarrow> tm_heap t x = Some b) \<and> auxTypeMap t = auxTypeMap s \<and> tm_errorType t = tm_errorType s"
    using assms live_fresh [OF live]
    by (auto simp: integerType_def new_btype_def insert_anon_def bind_Some_iff Let_def split: option.split_asm if_split_asm)
  show "\<forall>x b. tm_heap s x = Some b \<longrightarrow> tm_heap t x = Some b" using h by blast
  show "aux_ok t" if "aux_ok s" using aux_ok_adds [OF _ _ _ that] h by blast
qed

lemma pointerType_adds:
  assumes "pointerType k to s = Some (x, t)"
  shows "tm_adds s t"
proof (unfold tm_adds_def, intro conjI impI pointerType_moves [OF assms])
  assume live: "tm_live s"
  note h = pointerType_old [OF assms live]
  show "\<forall>x b. tm_heap s x = Some b \<longrightarrow> tm_heap t x = Some b" using h by blast
  show "aux_ok t" if "aux_ok s" using aux_ok_adds [OF _ _ _ that] h by blast
qed

definition types_ok :: "backend \<Rightarrow> bool" where
  "types_ok B \<longleftrightarrow> tm_live (bk_tm B) \<and> aux_ok (bk_tm B) \<and> (\<forall>x. node x (bk_s B) \<noteq> None \<longrightarrow> x < nd_next (bk_s B)) \<and>
     (\<forall>x e. bk_expr x B = Some e \<longrightarrow> expr_typed e B)"

text \<open>What existed keeps its value and its type.\<close>

definition bext :: "backend \<Rightarrow> backend \<Rightarrow> bool" where
  "bext B B' \<longleftrightarrow> ir_grows (nd_ir (bk_s B)) (nd_ir (bk_s B')) \<and> nd_next (bk_s B) \<le> nd_next (bk_s B') \<and>
     (\<forall>x < nd_next (bk_s B). node x (bk_s B') = node x (bk_s B)) \<and>
     (\<forall>t b. tm_heap (bk_tm B) t = Some b \<longrightarrow> tm_heap (bk_tm B') t = Some b) \<and> errorType (bk_tm B') = errorType (bk_tm B)"

definition keeps :: "backend \<Rightarrow> backend \<Rightarrow> bool" where
  "keeps B B' \<longleftrightarrow> (types_ok B \<longrightarrow> types_ok B' \<and> bext B B')"

lemma bext_refl [simp]: "bext B B"
  by (simp add: bext_def)

lemma bext_trans: "bext B B' \<Longrightarrow> bext B' B'' \<Longrightarrow> bext B B''"
  by (auto simp: bext_def intro: ir_grows_trans)

lemma keeps_refl [simp]: "keeps B B"
  by (simp add: keeps_def)

lemma keeps_trans [trans]: "keeps B B' \<Longrightarrow> keeps B' B'' \<Longrightarrow> keeps B B''"
  by (auto simp: keeps_def intro: bext_trans)

lemma bk_type_mono: "\<forall>t b. tm_heap (bk_tm B) t = Some b \<longrightarrow> tm_heap (bk_tm B') t = Some b \<Longrightarrow> bk_type t B = Some l \<Longrightarrow> bk_type t B' = Some l"
  by (auto simp: bk_type_def ll_of_def obj_def bind_Some_iff)

lemma expr_typed_bext:
  assumes "expr_typed e B" "bext B B'"
  shows "expr_typed e B'"
proof (unfold expr_typed_def, intro allI impI)
  fix v
  assume v: "e_value e = Some v"
  with assms(1) obtain t l where t: "known (nd_ir (bk_s B)) v" "e_btype e = Some t" "bk_type t B = Some l"
    "val_type B v = (if varExprPending e \<and> vc_addrLevel (e_ctx e) = 0 then PointerTy l else l)" unfolding expr_typed_def by blast
  from assms(2) have g: "ir_grows (nd_ir (bk_s B)) (nd_ir (bk_s B'))" and h: "bk_type t B' = Some l"
    using bk_type_mono [OF _ t(3)] by (auto simp: bext_def)
  from ir_grows_known [OF g t(1)] t(4) have "known (nd_ir (bk_s B')) v"
    "val_type B' v = (if varExprPending e \<and> vc_addrLevel (e_ctx e) = 0 then PointerTy l else l)" by (simp_all add: val_type_def)
  with t(2) h show "known (nd_ir (bk_s B')) v \<and> (\<exists>t l. e_btype e = Some t \<and> bk_type t B' = Some l \<and>
      val_type B' v = (if varExprPending e \<and> vc_addrLevel (e_ctx e) = 0 then PointerTy l else l))" by blast
qed

lemma bk_expr_bext: "types_ok B \<Longrightarrow> bext B B' \<Longrightarrow> bk_expr x B = Some e \<Longrightarrow> bk_expr x B' = Some e"
  by (auto simp: types_ok_def bext_def bk_expr_def as_expr_def bind_Some_iff)

lemma types_ok_bext:
  assumes "types_ok B" "bext B B'" "tm_live (bk_tm B')" "aux_ok (bk_tm B')" "nd_next (bk_s B') = nd_next (bk_s B)" "\<forall>x. node x (bk_s B) = None \<longrightarrow> node x (bk_s B') = None"
  shows "types_ok B'"
proof -
  have "node x (bk_s B') = node x (bk_s B)" for x
    using assms(1,2,6) by (metis bext_def types_ok_def)
  then have "bk_expr x B' = bk_expr x B" for x by (simp add: bk_expr_def as_expr_def)
  with assms show ?thesis unfolding types_ok_def using expr_typed_bext by metis
qed

text \<open>Operations of the type manager that only add types, and values that are built.\<close>

lemma on_tm_keeps:
  assumes "on_tm f B = Some (y, B')" "\<And>tm. f (bk_tm B) = Some (y, tm) \<Longrightarrow> tm_adds (bk_tm B) tm"
  shows "keeps B B'"
proof -
  from assms(1) obtain tm where tm: "f (bk_tm B) = Some (y, tm)" "B' = B\<lparr>bk_tm := tm\<rparr>" by (auto simp: on_tm_def bind_Some_iff)
  show ?thesis unfolding keeps_def
  proof (intro impI conjI)
    assume ok: "types_ok B"
    then have live: "tm_live (bk_tm B)" "aux_ok (bk_tm B)" by (simp_all add: types_ok_def)
    then have t: "tm_live tm" "aux_ok tm" "grows (bk_tm B) tm" "\<forall>x b. tm_heap (bk_tm B) x = Some b \<longrightarrow> tm_heap tm x = Some b"
      using assms(2) [OF tm(1)] by (auto simp: tm_adds_def moves_def)
    then show "bext B B'" using tm(2) by (simp add: bext_def grows_def errorType_def)
    then show "types_ok B'" by (rule types_ok_bext [OF ok]) (use tm(2) t in simp_all)
  qed
qed

lemma on_ir_keeps:
  assumes "on_ir f B = Some (v, B')" "\<And>r. f (nd_ir (bk_s B)) = Some r \<Longrightarrow> makes_type t (nd_ir (bk_s B)) r"
  shows "keeps B B'" "known (nd_ir (bk_s B')) v" "val_type B' v = t"
proof -
  from assms(1) obtain m where m: "f (nd_ir (bk_s B)) = Some (v, m)" "B' = B\<lparr>bk_s := (bk_s B)\<lparr>nd_ir := m\<rparr>\<rparr>"
    by (auto simp: on_ir_def bind_Some_iff)
  from assms(2) [OF m(1)] have mt: "ir_grows (nd_ir (bk_s B)) m" "known m v" "ir_type m v = t" by (auto simp: makes_type_def)
  then show "known (nd_ir (bk_s B')) v" "val_type B' v = t" using m(2) by (simp_all add: val_type_def)
  have ext: "bext B B'" using m(2) mt(1) by (simp add: bext_def node_def)
  show "keeps B B'" unfolding keeps_def
  proof (intro impI conjI ext)
    assume ok: "types_ok B"
    then show "types_ok B'" by (rule types_ok_bext [OF _ ext]) (use m(2) ok in \<open>simp_all add: node_def types_ok_def\<close>)
  qed
qed

section \<open>New nodes\<close>

lemma as_expr_iff: "as_expr x s = Some (b, e) \<longleftrightarrow> node x s = Some b \<and> \<not> isStmt_fl (nd_flavor b) \<and> nd_data b = ExprNode e"
  by (cases "nd_data b") (auto simp: as_expr_def castToBexpression_def bind_Some_iff split: if_split_asm ndata.split_asm)

lemma expr_flavors [simp]:
  "\<not> isStmt_fl N_Const" "\<not> isStmt_fl N_BinaryOp" "\<not> isStmt_fl N_UnaryOp" "\<not> isStmt_fl N_Conversion" "\<not> isStmt_fl N_Deref"
  by (simp_all add: isStmt_fl_def N_FirstStmt_def N_LastStmt_def)

text \<open>
  The node \<open>x\<close> under construction: nothing else of the heap and no value changes, and it has this value, type and
  variable context.
\<close>

definition building :: "nref \<Rightarrow> vref option \<Rightarrow> tref option \<Rightarrow> varctx \<Rightarrow> bstate \<Rightarrow> bstate \<Rightarrow> bool" where
  "building x val typ c s t \<longleftrightarrow> x = nd_next s \<and> nd_next t = Suc x \<and> nd_ir t = nd_ir s \<and> (\<forall>z. z \<noteq> x \<longrightarrow> node z t = node z s) \<and>
     (\<exists>b e. as_expr x t = Some (b, e) \<and> e_value e = val \<and> e_btype e = typ \<and> e_ctx e = c)"

lemma new_bexpression_building:
  "new_bexpression fl kids val typ loc s = Some (x, t) \<Longrightarrow> \<not> isStmt_fl fl \<Longrightarrow> building x val typ mk_varctx s t"
  by (auto simp: new_bexpression_def mk_bexpression_def mk_bnode_def new_node_def building_def as_expr_iff node_def bind_Some_iff
      split: if_split_asm)

lemma set_expr_building:
  assumes "building x val typ c s t" "as_expr x t = Some (b, e)" "set_expr x e' t = Some u"
  shows "building x (e_value e') (e_btype e') (e_ctx e') s u"
  using assms by (auto simp: building_def set_expr_def as_expr_iff set_node_def node_def bind_Some_iff)

lemma appendInstruction_building:
  assumes "building x val typ c s t" "appendInstruction x i t = Some u"
  shows "building x val typ c s u"
proof -
  from assms(2) obtain b e ins where "as_expr x t = Some (b, e)" "set_expr x (e\<lparr>e_insts := ins\<rparr>) t = Some u"
    by (auto simp: appendInstruction_def bind_Some_iff)
  from set_expr_building [OF assms(1) this] this(1) assms(1) show ?thesis by (auto simp: building_def)
qed

lemma appendInstIfNeeded_building:
  "building x val typ c s t \<Longrightarrow> appendInstIfNeeded x v t = Some u \<Longrightarrow> building x val typ c s u"
  by (auto simp: appendInstIfNeeded_def bind_Some_iff intro: appendInstruction_building split: if_split_asm)

lemma setTag_building:
  assumes "building x val typ c s t" "setTag x tag t = Some u"
  shows "building x val typ c s u"
proof -
  from assms(2) obtain b e where "as_expr x t = Some (b, e)" "set_expr x (e\<lparr>e_tag := tag\<rparr>) t = Some u"
    by (auto simp: setTag_def bind_Some_iff)
  from set_expr_building [OF assms(1) this] this(1) assms(1) show ?thesis by (auto simp: building_def)
qed

lemma setVarExprPending_ctx_building:
  assumes "building x val typ c s t" "setVarExprPending_ctx x d t = Some u"
  shows "building x val typ d s u"
proof -
  from assms(2) obtain b e where "as_expr x t = Some (b, e)" "set_expr x (e\<lparr>e_ctx := d\<rparr>) t = Some u"
    by (auto simp: setVarExprPending_ctx_def with_ctx_def bind_Some_iff split: if_split_asm)
  from set_expr_building [OF assms(1) this] this(1) assms(1) show ?thesis by (auto simp: building_def)
qed

lemma set_u_building:
  "building x val typ c s t \<Longrightarrow> set_u x u t = Some t' \<Longrightarrow> building x val typ c s t'"
  by (auto simp: building_def set_u_def as_expr_iff set_node_def node_def bind_Some_iff)

lemma archive_expr_building:
  assumes "building x val typ c s t" "archive_expr P x t = Some u"
  shows "building x val typ c s u"
proof -
  from assms(1) obtain b where b: "nd_heap t x = Some b" by (auto simp: building_def as_expr_iff node_def)
  from archive_expr_effect [OF assms(2) b] b assms(1) show ?thesis by (auto simp: building_def as_expr_iff node_def)
qed

lemma archived_building:
  "building x val typ c s t \<Longrightarrow> archived P x t = Some (y, u) \<Longrightarrow> y = x \<and> building x val typ c s u"
  by (auto simp: archived_def bind_Some_iff intro: archive_expr_building)

text \<open>The context that moves up: the one of the operand if that is pending, else none.\<close>

definition inherited :: "exprdata \<Rightarrow> varctx" where
  "inherited e = (if varExprPending e then e_ctx e else mk_varctx)"

lemma inherit_ctx_building:
  assumes "building x val typ mk_varctx s t" "inherit_ctx src x t = Some u" "as_expr src s = Some (b, e)" "src \<noteq> x"
  shows "building x val typ (inherited e) s u"
proof -
  have "as_expr src t = Some (b, e)" using assms(1,3,4) by (auto simp: building_def as_expr_def)
  with assms(1,2) show ?thesis
    by (auto simp: inherit_ctx_def inherited_def intro: setVarExprPending_ctx_building)
qed

lemmas building_intros = appendInstIfNeeded_building appendInstruction_building set_u_building setTag_building

lemma mkConst_building:
  "mkConst P typ val s = Some (x, t) \<Longrightarrow> building x val typ mk_varctx s t"
  by (auto simp: mkConst_def bind_Some_iff dest!: new_bexpression_building dest: archived_building split: if_split_asm)

lemma mkBinaryOp_building:
  assumes "mkBinaryOp P op typ val l r loc s = Some (x, t)"
  shows "building x val typ mk_varctx s t"
proof -
  from assms obtain y t1 t2 t3 where "new_bexpression N_BinaryOp [l, r] val typ loc s = Some (y, t1)"
    "(if val \<noteq> None then appendInstIfNeeded y val t1 else Some t1) = Some t2" "set_u y (UOp op) t2 = Some t3" "archived P y t3 = Some (x, t)"
    by (auto simp: mkBinaryOp_def bind_Some_iff)
  then show ?thesis
    by (metis archived_building building_intros(1,3) new_bexpression_building expr_flavors(2) option.inject)
qed

lemma mkConversion_building:
  assumes "mkConversion P typ val src loc s = Some (x, t)" "as_expr src s = Some (b, e)" "src \<noteq> nd_next s"
  shows "building x val typ (inherited e) s t"
proof -
  from assms(1) obtain y t1 t2 t3 where t: "new_bexpression N_Conversion [src] val typ loc s = Some (y, t1)"
    "appendInstIfNeeded y val t1 = Some t2" "inherit_ctx src y t2 = Some t3" "archived P y t3 = Some (x, t)"
    by (auto simp: mkConversion_def bind_Some_iff)
  from new_bexpression_building [OF t(1)] have "building y val typ mk_varctx s t2"
    by (simp add: appendInstIfNeeded_building [OF _ t(2)])
  moreover from this have "y = nd_next s" by (simp add: building_def)
  ultimately have "building y val typ (inherited e) s t3" using inherit_ctx_building [OF _ t(3) assms(2)] assms(3) by blast
  from archived_building [OF this t(4)] show ?thesis by blast
qed

text \<open>A node whose value has the type the node announces is a typed one.\<close>

lemma on_s_keeps:
  assumes "on_s f B = Some (x, B')" "\<And>t. f (bk_s B) = Some (x, t) \<Longrightarrow> building x (Some v) (Some typ) c (bk_s B) t"
    and "types_ok B \<Longrightarrow> known (nd_ir (bk_s B)) v \<and>
      (\<exists>l. bk_type typ B = Some l \<and> val_type B v = (if vc_pending c \<and> vc_addrLevel c = 0 then PointerTy l else l))"
  shows "keeps B B'" "\<exists>e. bk_expr x B' = Some e \<and> e_value e = Some v \<and> e_btype e = Some typ \<and> e_ctx e = c"
    "x = nd_next (bk_s B)"
proof -
  from assms(1) obtain t where t: "f (bk_s B) = Some (x, t)" "B' = B\<lparr>bk_s := t\<rparr>" by (auto simp: on_s_def bind_Some_iff)
  note b = assms(2) [OF t(1)]
  then show "x = nd_next (bk_s B)" by (simp add: building_def)
  show new: "\<exists>e. bk_expr x B' = Some e \<and> e_value e = Some v \<and> e_btype e = Some typ \<and> e_ctx e = c"
    using b t(2) by (auto simp: building_def bk_expr_def bind_Some_iff)
  show "keeps B B'" unfolding keeps_def
  proof (intro impI conjI)
    assume ok: "types_ok B"
    have same: "bk_expr z B' = bk_expr z B" if "z \<noteq> x" for z
      using b t(2) that by (auto simp: building_def bk_expr_def as_expr_def)
    show ext: "bext B B'" using b t(2) by (auto simp: bext_def building_def)
    have "expr_typed e B'" if "bk_expr z B' = Some e" for z e
    proof (cases "z = x")
      case True
      with that new have "e_value e = Some v" "e_btype e = Some typ" "e_ctx e = c" by auto
      then have "expr_typed e B" using assms(3) [OF ok] by (auto simp: expr_typed_def varExprPending_def)
      then show ?thesis using ext by (rule expr_typed_bext)
    next
      case False
      with that ok have "expr_typed e B" by (simp add: same types_ok_def)
      then show ?thesis using ext by (rule expr_typed_bext)
    qed
    moreover have "node z (bk_s B') \<noteq> None \<longrightarrow> z < nd_next (bk_s B')" for z
      using ok b t(2) by (cases "z = x") (auto simp: types_ok_def building_def)
    ultimately show "types_ok B'" using ok t(2) by (simp add: types_ok_def)
  qed
qed

lemma bk_namegen_keeps: "bk_namegen tag B = Some (nm, B') \<Longrightarrow> keeps B B'"
  unfolding bk_namegen_def
  by (erule on_tm_keeps) (drule tnamegen_core, rule same_core_adds)

lemma bk_namegen_same: "bk_namegen tag B = Some (nm, B') \<Longrightarrow> bk_s B' = bk_s B \<and> tm_heap (bk_tm B') = tm_heap (bk_tm B)"
  by (auto simp: bk_namegen_def on_tm_def bind_Some_iff same_core_def dest!: tnamegen_core)

section \<open>Conversions\<close>

lemma keeps_ext: "keeps B B' \<Longrightarrow> types_ok B \<Longrightarrow> types_ok B' \<and> bext B B'"
  by (simp add: keeps_def)

lemma pointer_type_keeps: "pointer_type E t B = Some (p, B') \<Longrightarrow> keeps B B' \<and> bk_s B' = bk_s B"
  unfolding pointer_type_def by (auto simp: on_tm_def bind_Some_iff intro!: on_tm_keeps [of "pointerType (en_fuel E) t" B p]
      dest: pointerType_adds)

text \<open>The expressions of a state have known values whose type is the one a conversion sees.\<close>

lemma typed_value:
  assumes "types_ok B" "bk_expr x B = Some e" "e_value e = Some v"
  obtains t l where "known (nd_ir (bk_s B)) v" "e_btype e = Some t" "bk_type t B = Some l"
    "val_type B v = (if varExprPending e \<and> vc_addrLevel (e_ctx e) = 0 then PointerTy l else l)"
  using assms unfolding types_ok_def expr_typed_def by meson

lemma convert_value_typed:
  assumes "convert_value E type toType v from_t x loc B = Some (y, B')" "types_ok B" "bk_expr x B = Some e"
    and "known (nd_ir (bk_s B)) v"
    and "bk_type type B = Some l" "toType = (if varExprPending e \<and> vc_addrLevel (e_ctx e) = 0 then PointerTy l else l)"
  shows "types_ok B' \<and> bext B B' \<and> y = nd_next (bk_s B) \<and>
    (\<exists>ey w. bk_expr y B' = Some ey \<and> e_value ey = Some w \<and> e_btype ey = Some type \<and> e_ctx ey = inherited e)"
proof -
  from assms(1) obtain c tag nm B1 w B2 where w: "bk_namegen tag B = Some (nm, B1)"
    "on_ir (CreateCast c v toType nm) B1 = Some (w, B2)" "on_s (mkConversion (en_P E) (Some type) (Some w) x loc) B2 = Some (y, B')"
    by (auto simp: convert_value_def bind_Some_iff)
  note 1 = keeps_ext [OF bk_namegen_keeps [OF w(1)] assms(2)] note s1 = bk_namegen_same [OF w(1)]
  have r: "CreateCast c v toType nm (nd_ir (bk_s B1)) = Some r \<Longrightarrow> makes_type toType (nd_ir (bk_s B1)) r" for r
    using CreateCast_type assms(4) s1 by simp
  note k = on_ir_keeps [OF w(2) r] note 2 = keeps_ext [OF k(1) conjunct1 [OF 1]]
  have ext: "bext B B2" using 1 2 bext_trans by blast
  have e: "bk_expr x B2 = Some e" by (rule bk_expr_bext [OF assms(2) ext assms(3)])
  then obtain b where b: "as_expr x (bk_s B2) = Some (b, e)" by (auto simp: bk_expr_def bind_Some_iff)
  then have "x < nd_next (bk_s B2)" using 2 by (auto simp: types_ok_def as_expr_iff)
  then have bd: "mkConversion (en_P E) (Some type) (Some w) x loc (bk_s B2) = Some (y, t) \<Longrightarrow>
      building y (Some w) (Some type) (inherited e) (bk_s B2) t" for t
    using mkConversion_building [OF _ b] by auto
  have l: "bk_type type B2 = Some l" using bk_type_mono [OF _ assms(5)] ext by (auto simp: bext_def)
  have ctx: "(vc_pending (inherited e) \<and> vc_addrLevel (inherited e) = 0) = (varExprPending e \<and> vc_addrLevel (e_ctx e) = 0)"
    by (auto simp: inherited_def varExprPending_def mk_varctx_def)
  have ty: "known (nd_ir (bk_s B2)) w \<and> (\<exists>l. bk_type type B2 = Some l \<and>
      val_type B2 w = (if vc_pending (inherited e) \<and> vc_addrLevel (inherited e) = 0 then PointerTy l else l))"
    using k(2,3) l assms(6) by (simp add: ctx)
  note n = on_s_keeps [OF w(3) bd ty]
  have nx: "nd_next (bk_s B2) = nd_next (bk_s B)"
    using w(2) s1 by (auto simp: on_ir_def bind_Some_iff)
  from keeps_ext [OF n(1) conjunct1 [OF 2]] ext n(2,3) nx show ?thesis using bext_trans by auto
qed

text \<open>
  C40. Conversions are typed. In a state whose expressions all have values of the LLVM type of their type (addresses
  of such values for variables that are still pending), a conversion leaves every expression and value as it
  was and the state typed. Its result is the error expression if the type or the expression is erroneous; the
  expression itself if it has the type already, or its value has the LLVM type; and else a new expression of the
  type (of the pointer to it, for a function type) with the variable context of the old one.
\<close>

theorem convert_typed:
  assumes "types_ok B" "convert_expression E type x loc B = Some (y, B')"
  shows "types_ok B' \<and> bext B B' \<and>
    (if type = errorType (bk_tm B) \<or> x = en_errorExpression E then y = en_errorExpression E \<and> B' = B
     else \<exists>e. bk_expr x B = Some e \<and>
       (if e_btype e = Some type then y = x \<and> B' = B
        else \<exists>l. bk_type type B = Some l \<and>
          (if map_option (val_type B) (e_value e) = Some l then y = x \<and> B' = B
           else y = nd_next (bk_s B) \<and> (\<exists>ey t'. bk_expr y B' = Some ey \<and> e_value ey \<noteq> None \<and> e_btype ey = Some t' \<and>
             e_ctx ey = inherited e \<and> (if isFunctionTy l then \<exists>B1. pointer_type E type B = Some (t', B1) else t' = type)))))"
proof (cases "type = errorType (bk_tm B) \<or> x = en_errorExpression E")
  case True
  with assms show ?thesis by (auto simp: convert_expression_def)
next
  case False
  with assms(2) obtain e where e: "bk_expr x B = Some e" by (auto simp: convert_expression_def bind_Some_iff)
  show ?thesis
  proof (cases "e_btype e = Some type")
    case True
    with assms False e show ?thesis by (auto simp: convert_expression_def)
  next
    case diff: False
    with assms(2) False e obtain v l where v: "e_value e = Some v" "bk_type type B = Some l"
      by (auto simp: convert_expression_def bind_Some_iff)
    show ?thesis
    proof (cases "l = val_type B v")
      case True
      with assms False e diff v show ?thesis by (auto simp: convert_expression_def)
    next
      case neq: False
      define target where "target = (if isFunctionTy l then do { (pt, B) \<leftarrow> pointer_type E type B; t \<leftarrow> bk_type pt B; Some (pt, t, B) }
        else Some (type, l, B))"
      define indirect where "indirect B1 l' = (if varExprPending e
        then do { et \<leftarrow> e_btype e; t \<leftarrow> bk_type et B1; Some (if val_type B1 v = PointerTy t then PointerTy l' else l') }
        else Some l')" for B1 l'
      have "do { (t', l', B1) \<leftarrow> target; toType \<leftarrow> indirect B1 l'; convert_value E t' toType v (e_btype e) x loc B1 } = Some (y, B')"
        using assms(2) False e diff v neq by (simp add: convert_expression_def target_def indirect_def)
      then obtain t' l' B1 toType where c0: "target = Some (t', l', B1)" "indirect B1 l' = Some toType"
        and c3: "convert_value E t' toType v (e_btype e) x loc B1 = Some (y, B')"
        by (auto simp: bind_Some_iff)
      note c = c0(1) [unfolded target_def] c0(2) [unfolded indirect_def] c3
      have p: "keeps B B1 \<and> bk_s B1 = bk_s B \<and> bk_type t' B1 = Some l' \<and> (if isFunctionTy l then \<exists>B1. pointer_type E type B = Some (t', B1) else t' = type)"
        using c(1) v(2) pointer_type_keeps by (fastforce simp: bind_Some_iff split: if_split_asm)
      note 1 = keeps_ext [OF conjunct1 [OF p] assms(1)]
      have e1: "bk_expr x B1 = Some e" using e p by (simp add: bk_expr_def)
      from 1 e1 v(1) obtain t le where t: "known (nd_ir (bk_s B1)) v" "e_btype e = Some t" "bk_type t B1 = Some le"
        "val_type B1 v = (if varExprPending e \<and> vc_addrLevel (e_ctx e) = 0 then PointerTy le else le)"
        using typed_value by blast
      have "PointerTy le \<noteq> le" by (rule size_neq_size_imp_neq) simp
      then have "toType = (if varExprPending e \<and> vc_addrLevel (e_ctx e) = 0 then PointerTy l' else l')"
        using c(2) t by (auto split: if_split_asm)
      from convert_value_typed [OF c(3) conjunct1 [OF 1] e1 t(1) conjunct1 [OF conjunct2 [OF conjunct2 [OF p]]] this]
      have "types_ok B' \<and> bext B1 B' \<and> y = nd_next (bk_s B) \<and>
        (\<exists>ey w. bk_expr y B' = Some ey \<and> e_value ey = Some w \<and> e_btype ey = Some t' \<and> e_ctx ey = inherited e)" using p by auto
      then show ?thesis using 1 bext_trans False e v neq diff p by fastforce
    qed
  qed
qed

end
