(* ===== verification/OperatorFacts.thy ===== *)
theory OperatorFacts
  imports ExprFacts "HOL-Library.Signed_Division"
begin

text \<open>
  The integer operators of \<open>binary_expression\<close> against Go. \<open>ir_eval\<close> runs the values the backend builds, with the meaning
  LLVM documents for its instructions on bit patterns; \<open>go_arith\<close> and \<open>go_compare\<close> are the operators of the
  language on the integers of a type. The values of loads, calls and arguments are given by \<open>env\<close>.
\<close>

unbundle bit_operations_syntax

section \<open>What instructions compute\<close>

text \<open>
  Bit patterns of \<open>n\<close> bits are integers from 0 to \<open>2 ^ n - 1\<close>. Division by zero and the overflow of a signed
  division are undefined.
\<close>

definition signed_of :: "nat \<Rightarrow> int \<Rightarrow> int" where
  "signed_of n x = signed_take_bit (n - 1) x"

definition bin_sem :: "string \<Rightarrow> nat \<Rightarrow> int \<Rightarrow> int \<Rightarrow> int option" where
  "bin_sem opname n x y =
     (if opname = ''add'' then Some ((x + y) mod 2 ^ n)
      else if opname = ''sub'' then Some ((x - y) mod 2 ^ n)
      else if opname = ''mul'' then Some ((x * y) mod 2 ^ n)
      else if opname = ''udiv'' then (if y = 0 then None else Some (x div y))
      else if opname = ''urem'' then (if y = 0 then None else Some (x mod y))
      else if opname = ''sdiv'' \<or> opname = ''srem'' then
        (if y = 0 \<or> signed_of n x = - (2 ^ (n - 1)) \<and> signed_of n y = -1 then None
         else Some ((if opname = ''sdiv'' then signed_of n x sdiv signed_of n y else signed_of n x smod signed_of n y) mod 2 ^ n))
      else if opname = ''and'' then Some (x AND y)
      else if opname = ''or'' then Some (x OR y)
      else if opname = ''xor'' then Some (x XOR y)
      else None)"

lemma bin_sem_simps:
  "bin_sem ''add'' n x y = Some ((x + y) mod 2 ^ n)" "bin_sem ''sub'' n x y = Some ((x - y) mod 2 ^ n)"
  "bin_sem ''mul'' n x y = Some ((x * y) mod 2 ^ n)"
  "bin_sem ''udiv'' n x y = (if y = 0 then None else Some (x div y))" "bin_sem ''urem'' n x y = (if y = 0 then None else Some (x mod y))"
  "bin_sem ''sdiv'' n x y = (if y = 0 \<or> signed_of n x = - (2 ^ (n - 1)) \<and> signed_of n y = -1 then None
     else Some ((signed_of n x sdiv signed_of n y) mod 2 ^ n))"
  "bin_sem ''srem'' n x y = (if y = 0 \<or> signed_of n x = - (2 ^ (n - 1)) \<and> signed_of n y = -1 then None
     else Some ((signed_of n x smod signed_of n y) mod 2 ^ n))"
  "bin_sem ''and'' n x y = Some (x AND y)" "bin_sem ''or'' n x y = Some (x OR y)" "bin_sem ''xor'' n x y = Some (x XOR y)"
  by (simp_all add: bin_sem_def)

definition cmp_sem :: "string \<Rightarrow> nat \<Rightarrow> int \<Rightarrow> int \<Rightarrow> bool option" where
  "cmp_sem pred n x y =
     (if pred = ''eq'' then Some (x = y)
      else if pred = ''ne'' then Some (x \<noteq> y)
      else if pred = ''ult'' then Some (x < y)
      else if pred = ''ule'' then Some (x \<le> y)
      else if pred = ''ugt'' then Some (x > y)
      else if pred = ''uge'' then Some (x \<ge> y)
      else if pred = ''slt'' then Some (signed_of n x < signed_of n y)
      else if pred = ''sle'' then Some (signed_of n x \<le> signed_of n y)
      else if pred = ''sgt'' then Some (signed_of n x > signed_of n y)
      else if pred = ''sge'' then Some (signed_of n x \<ge> signed_of n y)
      else None)"

definition cast_sem :: "string \<Rightarrow> nat \<Rightarrow> nat \<Rightarrow> int \<Rightarrow> int option" where
  "cast_sem c m n x =
     (if c = ''zext'' then Some x
      else if c = ''sext'' then Some (signed_of m x mod 2 ^ n)
      else if c = ''trunc'' then Some (x mod 2 ^ n)
      else None)"

type_synonym env = "vref \<Rightarrow> int option"

fun ir_eval :: "nat \<Rightarrow> irmem \<Rightarrow> env \<Rightarrow> vref \<Rightarrow> int option" where
  "ir_eval 0 m env v = None"
| "ir_eval (Suc k) m env v =
     do { check (known m v);
          (case (ir_op m v, ir_operands m v) of
             (ConstOp CNull, _) \<Rightarrow> Some 0
           | (ConstOp (CInt i), _) \<Rightarrow> Some i
           | (ConstOp _, _) \<Rightarrow> None
           | (BinaryOp opname, Some [a, b]) \<Rightarrow>
               do { x \<leftarrow> ir_eval k m env a; y \<leftarrow> ir_eval k m env b; bin_sem opname (int_bits (ir_type m v)) x y }
           | (CmpOp pred, Some [a, b]) \<Rightarrow>
               do { x \<leftarrow> ir_eval k m env a; y \<leftarrow> ir_eval k m env b; c \<leftarrow> cmp_sem pred (int_bits (ir_type m a)) x y;
                    Some (if c then 1 else 0) }
           | (CastOp c, Some [a]) \<Rightarrow>
               do { x \<leftarrow> ir_eval k m env a; cast_sem c (int_bits (ir_type m a)) (int_bits (ir_type m v)) x }
           | (BinaryOp _, _) \<Rightarrow> None
           | (CmpOp _, _) \<Rightarrow> None
           | (CastOp _, _) \<Rightarrow> None
           | _ \<Rightarrow> env v) }"

text \<open>More fuel and more values do not change a result.\<close>

lemma eval_known: "ir_eval k m env v = Some x \<Longrightarrow> known m v"
  by (cases k) (auto split: if_split_asm)

lemma eval_grows:
  "ir_eval k m env v = Some x \<Longrightarrow> ir_grows m m' \<Longrightarrow> ir_eval (k + j) m' env v = Some x"
proof (induction k arbitrary: v x)
  case (Suc k)
  note IH = Suc.IH [OF _ Suc.prems(2)]
  have kn: "known m v" using Suc.prems(1) by (rule eval_known)
  note g = ir_grows_known [OF Suc.prems(2) kn]
  have ty: "ir_type m' a = ir_type m a" if "ir_eval k m env a = Some y" for a y
    using ir_grows_known [OF Suc.prems(2) eval_known [OF that]] by simp
  show ?case
  proof (cases "ir_op m v")
    case (BinaryOp nm)
    with Suc.prems(1) kn obtain a b where "ir_operands m v = Some [a, b]"
      by (auto split: option.split_asm list.split_asm)
    with Suc.prems(1) kn g BinaryOp show ?thesis by (auto simp: bind_Some_iff dest!: IH)
  next
    case (CmpOp nm)
    with Suc.prems(1) kn obtain a b where "ir_operands m v = Some [a, b]"
      by (auto split: option.split_asm list.split_asm)
    with Suc.prems(1) kn g CmpOp ty show ?thesis by (fastforce simp: bind_Some_iff dest: IH)
  next
    case (CastOp nm)
    with Suc.prems(1) kn obtain a where "ir_operands m v = Some [a]"
      by (auto split: option.split_asm list.split_asm)
    with Suc.prems(1) kn g CastOp ty show ?thesis by (fastforce simp: bind_Some_iff dest: IH)
  next
    case (ConstOp d)
    with Suc.prems(1) kn g show ?thesis by (cases d) auto
  qed (use Suc.prems(1) g kn in auto)
qed simp

section \<open>The operators of the language\<close>

text \<open>
  Integers of a type of \<open>n\<close> bits: arithmetic wraps around, division truncates and panics for zero, bitwise operators
  work on the two's complement, the logical ones on 0 and 1.
\<close>

definition in_type :: "bool \<Rightarrow> nat \<Rightarrow> int \<Rightarrow> bool" where
  "in_type u n x \<longleftrightarrow> (if u then 0 \<le> x \<and> x < 2 ^ n else - (2 ^ (n - 1)) \<le> x \<and> x < 2 ^ (n - 1))"

definition wrap :: "bool \<Rightarrow> nat \<Rightarrow> int \<Rightarrow> int" where
  "wrap u n x = (if u then x mod 2 ^ n else signed_of n x)"

definition go_arith :: "Operator \<Rightarrow> bool \<Rightarrow> nat \<Rightarrow> int \<Rightarrow> int \<Rightarrow> int option" where
  "go_arith op u n x y =
     (case op of
        OPERATOR_PLUS \<Rightarrow> Some (wrap u n (x + y))
      | OPERATOR_MINUS \<Rightarrow> Some (wrap u n (x - y))
      | OPERATOR_MULT \<Rightarrow> Some (wrap u n (x * y))
      | OPERATOR_DIV \<Rightarrow> if y = 0 then None else Some (wrap u n (x sdiv y))
      | OPERATOR_MOD \<Rightarrow> if y = 0 then None else Some (wrap u n (x smod y))
      | OPERATOR_AND \<Rightarrow> Some (x AND y)
      | OPERATOR_OR \<Rightarrow> Some (x OR y)
      | OPERATOR_XOR \<Rightarrow> Some (x XOR y)
      | OPERATOR_ANDAND \<Rightarrow> if {x, y} \<subseteq> {0, 1} then Some (if x = 1 \<and> y = 1 then 1 else 0) else None
      | OPERATOR_OROR \<Rightarrow> if {x, y} \<subseteq> {0, 1} then Some (if x = 1 \<or> y = 1 then 1 else 0) else None
      | _ \<Rightarrow> None)"

definition go_compare :: "Operator \<Rightarrow> int \<Rightarrow> int \<Rightarrow> bool option" where
  "go_compare op x y =
     (case op of
        OPERATOR_EQEQ \<Rightarrow> Some (x = y) | OPERATOR_NOTEQ \<Rightarrow> Some (x \<noteq> y) | OPERATOR_LT \<Rightarrow> Some (x < y)
      | OPERATOR_LE \<Rightarrow> Some (x \<le> y) | OPERATOR_GT \<Rightarrow> Some (x > y) | OPERATOR_GE \<Rightarrow> Some (x \<ge> y) | _ \<Rightarrow> None)"

text \<open>The bit pattern of a value.\<close>

definition bits :: "nat \<Rightarrow> int \<Rightarrow> int" where
  "bits n x = x mod 2 ^ n"

lemma bits_take_bit: "bits n x = take_bit n x"
  by (simp add: bits_def take_bit_eq_mod)

lemma bits_wrap: "0 < n \<Longrightarrow> bits n (wrap u n x) = bits n x"
  by (simp add: bits_take_bit wrap_def signed_of_def take_bit_eq_mod [symmetric] take_bit_signed_take_bit)

lemma bits_unsigned: "in_type True n x \<Longrightarrow> bits n x = x"
  by (simp add: in_type_def bits_def)

lemma signed_of_bits: "in_type False n x \<Longrightarrow> 0 < n \<Longrightarrow> signed_of n (bits n x) = x"
  by (cases n) (simp_all add: in_type_def signed_of_def bits_take_bit signed_take_bit_take_bit signed_take_bit_int_eq_self)

lemma sdiv_nonneg: "0 \<le> (x::int) \<Longrightarrow> 0 \<le> y \<Longrightarrow> x sdiv y = x div y \<and> x smod y = x mod y"
  by (auto simp: signed_divide_int_def signed_modulo_int_def sgn_if)

lemma bits_of_bits: "bits n (bits n x + bits n y) = bits n (x + y)" "bits n (bits n x - bits n y) = bits n (x - y)"
  "bits n (bits n x * bits n y) = bits n (x * y)" "bits n x AND bits n y = bits n (x AND y)" "bits n x XOR bits n y = bits n (x XOR y)"
  by (simp_all add: bits_def mod_simps) (simp_all add: bits_take_bit take_bit_eq_mod [symmetric])

text \<open>The instruction chosen for an operator computes the operator.\<close>

lemma arith_sem:
  assumes "arith_op op False u = Some (opname, tag)" "go_arith op u n x y = Some z" "in_type u n x" "in_type u n y" "0 < n"
    and "op = OPERATOR_DIV \<or> op = OPERATOR_MOD \<Longrightarrow> u \<or> x \<noteq> - (2 ^ (n - 1)) \<or> y \<noteq> -1"
  shows "bin_sem opname n (bits n x) (bits n y) = Some (bits n z)"
proof (cases "op = OPERATOR_DIV \<or> op = OPERATOR_MOD")
  case True
  with assms(2) have y: "y \<noteq> 0" by (auto simp: go_arith_def split: if_split_asm)
  show ?thesis
  proof (cases u)
    case True
    with assms(3,4) have r: "bits n x = x" "bits n y = y" "0 \<le> x" "0 \<le> y" "x < 2 ^ n"
      by (simp_all add: bits_unsigned) (simp_all add: in_type_def)
    moreover have "x div y \<le> x" "x mod y \<le> x" using r y zdiv_mono2 [of x 1 y] by (simp_all add: zmod_le_nonneg_dividend)
    ultimately have m: "(x div y) mod 2 ^ n = x div y" "(x mod y) mod 2 ^ n = x mod y"
      using y by (simp_all add: pos_imp_zdiv_nonneg_iff)
    from \<open>op = OPERATOR_DIV \<or> op = OPERATOR_MOD\<close> show ?thesis
    proof
      assume op: "op = OPERATOR_DIV"
      with assms(1) True have "opname = ''udiv''" by (auto simp: arith_op_def)
      with assms(2) True y r m op show ?thesis
        by (auto simp: go_arith_def bin_sem_simps wrap_def sdiv_nonneg) (simp_all add: bits_def)
    next
      assume op: "op = OPERATOR_MOD"
      with assms(1) True have "opname = ''urem''" by (auto simp: arith_op_def)
      with assms(2) True y r m op show ?thesis
        by (auto simp: go_arith_def bin_sem_simps wrap_def sdiv_nonneg) (simp_all add: bits_def)
    qed
  next
    case False
    with assms(3-5) have r: "signed_of n (bits n x) = x" "signed_of n (bits n y) = y" by (simp_all add: signed_of_bits)
    then have "bits n y \<noteq> 0" using y assms(5) by (auto simp: signed_of_def)
    moreover from \<open>op = OPERATOR_DIV \<or> op = OPERATOR_MOD\<close> assms(1) False
    have "op = OPERATOR_DIV \<and> opname = ''sdiv'' \<or> op = OPERATOR_MOD \<and> opname = ''srem''" by (auto simp: arith_op_def)
    moreover have "\<not> (x = - (2 ^ (n - 1)) \<and> y = -1)" using assms(6) False \<open>op = OPERATOR_DIV \<or> op = OPERATOR_MOD\<close> by blast
    ultimately show ?thesis using assms(2,5) y r
      by (auto simp: go_arith_def bin_sem_simps bits_wrap) (simp_all add: bits_def)
  qed
next
  case False
  have l: "bits n 0 = 0" "bits n 1 = 1" using assms(5) by (simp_all add: bits_def)
  show ?thesis
    using False assms(1,2,5) bits_of_bits [of n x y]
    by (cases op) (auto simp: arith_op_def go_arith_def bin_sem_simps bits_wrap l bits_def [symmetric] split: if_split_asm)
qed

lemma compare_sem:
  assumes "compare_op_to_pred op t u = Some p" "go_compare op x y = Some c" "\<not> isFloatingPointTy t"
    and "in_type u n x" "in_type u n y" "0 < n"
  shows "cmp_sem (pred_name p) n (bits n x) (bits n y) = Some c"
proof (cases u)
  case True
  with assms show ?thesis
    by (cases op) (auto simp: compare_op_to_pred_def go_compare_def cmp_sem_def bits_unsigned)
next
  case False
  with assms(4-6) have r: "signed_of n (bits n x) = x" "signed_of n (bits n y) = y" by (simp_all add: signed_of_bits)
  then have "bits n x = bits n y \<longleftrightarrow> x = y" by metis
  with False assms r show ?thesis
    by (cases op) (auto simp: compare_op_to_pred_def go_compare_def cmp_sem_def)
qed

section \<open>What is built computes\<close>

lemma makes_eval:
  assumes "makes iop ops t m (w, m')"
  shows "known m' w" "ir_op m' w = iop" "ir_operands m' w = Some ops" "ir_type m' w = t"
    "\<And>a x. ir_eval k m env a = Some x \<Longrightarrow> ir_eval k m' env a = Some x \<and> ir_type m' a = ir_type m a"
  using makesD [OF assms(1)] eval_grows [of k m env _ _ m' 0] ir_grows_known [of m m'] by (auto dest: eval_known)

lemma constant_eval:
  "isNullValue v m \<Longrightarrow> ir_eval k m env v = Some x \<Longrightarrow> x = 0"
  "int_value v m = Some i \<Longrightarrow> ir_eval k m env v = Some x \<Longrightarrow> x = i"
  by (cases k; auto simp: isNullValue_def int_value_def split: vref.split_asm iop.split_asm cdesc.split_asm if_split_asm)+

lemma getInt_eval:
  assumes "getInt t i m = (w, m')"
  shows "ir_eval (Suc k) m' env w = Some (i mod 2 ^ int_bits t)"
proof (cases "i mod 2 ^ int_bits t = 0")
  case True
  with assms have "makes (ConstOp CNull) [] t m (w, m')"
    using get_constant_makes [of "ConstOp CNull" "[]" t m] by (simp add: getInt_def getNullValue_def)
  then show ?thesis using True by (simp add: makes_def)
next
  case False
  with assms have "makes (ConstOp (CInt (i mod 2 ^ int_bits t))) [] t m (w, m')"
    using get_constant_makes [of "ConstOp (CInt (i mod 2 ^ int_bits t))" "[]" t m] by (simp add: getInt_def Let_def)
  then show ?thesis by (simp add: makes_def)
qed

lemma CreateBinOp_eval:
  assumes "CreateBinOp opname False a b tag m = Some (w, m')" "ir_eval k m env a = Some (bits n x)" "ir_eval k m env b = Some y"
    and "bin_sem opname n (bits n x) y = Some z" "int_bits (ir_type m a) = n"
  shows "ir_eval (Suc k) m' env w = Some z"
proof (cases "opname = ''or'' \<and> isNullValue b m \<or> opname = ''and'' \<and> int_value b m = Some (2 ^ n - 1)")
  case True
  with assms(1,5) have w: "w = a" "m' = m" by (auto simp: CreateBinOp_def split: if_split_asm)
  have "take_bit n x AND mask n = take_bit n x" by (simp flip: take_bit_eq_mask)
  then have "x mod 2 ^ n AND 2 ^ n - 1 = x mod 2 ^ n" by (simp add: take_bit_eq_mod mask_eq_exp_minus_1)
  moreover have "opname = ''or'' \<and> y = 0 \<or> opname = ''and'' \<and> y = 2 ^ n - 1"
    using True constant_eval [OF _ assms(3)] by blast
  ultimately have "z = bits n x" using assms(4) by (auto simp: bin_sem_simps bits_def)
  then show ?thesis using eval_grows [OF assms(2) ir_grows_refl, of 1] w by simp
next
  case False
  with assms(1,5) have "makes (BinaryOp opname) [a, b] (ir_type m a) m (w, m')"
    using build_makes [of "BinaryOp opname" "[a, b]" "ir_type m a" m tag] by (auto simp: CreateBinOp_def split: if_split_asm)
  from makes_eval [OF this] assms(2-5) show ?thesis by simp
qed

lemma CreateICmp_eval:
  assumes "CreateICmp p a b tag m = Some (w, m')" "ir_eval k m env a = Some x" "ir_eval k m env b = Some y"
    and "cmp_sem (pred_name p) (int_bits (ir_type m a)) x y = Some c"
  shows "ir_eval (Suc k) m' env w = Some (if c then 1 else 0)" "known m' w" "ir_type m' w = IntTy 1" "ir_op m' w = CmpOp (pred_name p)"
proof -
  have "makes (CmpOp (pred_name p)) [a, b] (IntTy 1) m (w, m')"
    using assms(1) build_makes [of "CmpOp (pred_name p)" "[a, b]" "IntTy 1" m tag] by (auto simp: CreateICmp_def split: if_split_asm)
  from makes_eval [OF this] assms(2-4)
  show "ir_eval (Suc k) m' env w = Some (if c then 1 else 0)" "known m' w" "ir_type m' w = IntTy 1" "ir_op m' w = CmpOp (pred_name p)"
    by simp_all
qed

lemma CreateZExt_eval:
  assumes "CreateCast cast.ZExt v t nm m = Some (w, m')" "ir_eval k m env v = Some x" "0 \<le> x" "x < 2 ^ int_bits (ir_type m v)"
  shows "ir_eval (Suc k) m' env w = Some x"
proof (cases "ir_type m v = t")
  case True
  with assms show ?thesis using eval_grows [OF assms(2) ir_grows_refl, of 1] by (simp add: CreateCast_def)
next
  case False
  with assms(1) have wide: "int_bits (ir_type m v) < int_bits t" and bc: "build_cast cast.ZExt v t nm m = (w, m')"
    by (auto simp: CreateCast_def split: if_split_asm)
  have "(2::int) ^ int_bits (ir_type m v) \<le> 2 ^ int_bits t" using wide by (intro power_increasing) auto
  then have "x < 2 ^ int_bits t" using assms(4) by (rule less_le_trans [rotated])
  then have small: "x mod 2 ^ int_bits t = x" using assms(3) by simp
  show ?thesis
  proof (cases "int_value v m")
    case (Some i)
    with constant_eval(2) [OF Some assms(2)] bc small getInt_eval [of t i m w m' k env] show ?thesis by (simp add: build_cast_def)
  next
    case None
    show ?thesis
    proof (cases "isNullValue v m")
      case True
      with None bc have "makes (ConstOp CNull) [] t m (w, m')"
        using get_constant_makes [of "ConstOp CNull" "[]" t m] by (simp add: build_cast_def getNullValue_def)
      then show ?thesis using constant_eval(1) [OF True assms(2)] by (simp add: makes_def)
    next
      case False
      with None bc have "makes (CastOp ''zext'') [v] t m (w, m')"
        using build_makes [of "CastOp ''zext''" "[v]" t m nm] by (simp add: build_cast_def)
      from makes_eval [OF this] assms(2) show ?thesis by (simp add: cast_sem_def)
    qed
  qed
qed

declare ir_eval.simps(2) [simp del]

section \<open>The result of a comparison becomes a bool\<close>

lemma bool_scalar:
  assumes "is_scalar tm (Some True, 8) bt" "bk_tm B = tm"
  shows "bk_type bt B = Some (IntTy 8)" "is_unsigned_of bt B = Some True"
proof -
  from assms obtain b where b: "tm_heap (bk_tm B) bt = Some b" "key_kind (Some True, 8) (bt_kind b) (bt_type b)"
    by (auto simp: is_scalar_def split: option.split_asm)
  from b(2) have "bt_type b = Some (IntTy 8)" "\<exists>n. bt_kind b = KInteger True n" by (cases "bt_kind b"; simp)+
  with b(1) show "bk_type bt B = Some (IntTy 8)" "is_unsigned_of bt B = Some True"
    by (auto simp: bk_type_def is_unsigned_of_def ll_of_def obj_def)
qed

lemma bool_type_scalar:
  assumes "bool_type E B = Some (bt, B')" "types_ok B"
  shows "keeps B B'" "is_scalar (bk_tm B') (Some True, 8) bt" "bk_s B' = bk_s B"
proof -
  from assms(1) obtain tm where tm: "integerType (en_fuel E) True 8 (bk_tm B) = Some (bt, tm)" "B' = B\<lparr>bk_tm := tm\<rparr>"
    by (auto simp: bool_type_def boolType_def on_tm_def bind_Some_iff)
  show "keeps B B'" using assms(1) unfolding bool_type_def boolType_def
    by (rule on_tm_keeps) (rule integerType_adds)
  have "scalar_of tm (Some True, 8) = Some bt"
    by (rule scalarType_reads [of "en_fuel E" _ "bk_tm B"]) (use tm(1) assms(2) in \<open>simp_all add: scalarType_def types_ok_def\<close>)
  then show "is_scalar (bk_tm B') (Some True, 8) bt" "bk_s B' = bk_s B" using tm(2) scalar_of_is_scalar by auto
qed

lemma bk_aux_aux:
  assumes "bk_aux t B = Some (at, B')" "types_ok B"
  shows "keeps B B'" "bk_type at B' = Some t" "bk_s B' = bk_s B"
proof -
  from assms(1) obtain tm where tm: "makeAuxType t (bk_tm B) = (at, tm)" "B' = B\<lparr>bk_tm := tm\<rparr>"
    by (auto simp: bk_aux_def on_tm_def split: prod.split_asm)
  show "keeps B B'" using assms(1) unfolding bk_aux_def
    by (rule on_tm_keeps) (use makeAuxType_adds(1) in auto)
  show "bk_type at B' = Some t" "bk_s B' = bk_s B"
    using makeAuxType_adds(2) [OF tm(1)] tm(2) assms(2) by (auto simp: types_ok_def bk_type_def)
qed

lemma not_error_type:
  assumes "is_scalar (bk_tm B) key bt" "types_ok B"
  shows "bt \<noteq> errorType (bk_tm B)"
  using assms by (auto simp: is_scalar_def types_ok_def aux_ok_def errorType_def dest: key_kind_scalar)

lemma convert_bool:
  assumes "convert_expression E bt x loc B = Some (y, B')" "types_ok B" "bk_expr x B = Some e" "e_value e = Some v"
    and "e_btype e = Some at" "bk_type at B = Some (IntTy 1)" "\<not> varExprPending e" "is_scalar (bk_tm B) (Some True, 8) bt"
    and "x \<noteq> en_errorExpression E" "ir_eval k (nd_ir (bk_s B)) env v = Some c" "c \<in> {0, 1}"
  shows "types_ok B' \<and> bext B B' \<and> y = nd_next (bk_s B) \<and>
    (\<exists>ey w. bk_expr y B' = Some ey \<and> e_value ey = Some w \<and> e_btype ey = Some bt \<and> \<not> varExprPending ey \<and>
       ir_eval (Suc k) (nd_ir (bk_s B')) env w = Some c)"
proof -
  note bt = bool_scalar [OF assms(8) refl] not_error_type [OF assms(8,2)]
  have "at \<noteq> bt" using bt(1) assms(6) by auto
  from assms(2,3,4) have v: "val_type B v = IntTy 1"
    by (rule typed_value) (use assms(5-7) in auto)
  have cv: "convert_value E bt (IntTy 8) v (Some at) x loc B = Some (y, B')"
    using assms(1,3-5,7,9) bt v \<open>at \<noteq> bt\<close> by (simp add: convert_expression_def)
  then obtain it c' tag nm B1 w B2 where w: "cast_kind it (is_unsigned_of bt B) (do { t \<leftarrow> Some at; is_unsigned_of t B }) (IntTy 1) (IntTy 8) = Some (c', tag)"
    "bk_namegen tag B = Some (nm, B1)" "on_ir (CreateCast c' v (IntTy 8) nm) B1 = Some (w, B2)"
    "on_s (mkConversion (en_P E) (Some bt) (Some w) x loc) B2 = Some (y, B')"
    using v by (auto simp: convert_value_def bind_Some_iff)
  note s1 = bk_namegen_same [OF w(2)]
  from w(3) obtain m where m: "CreateCast c' v (IntTy 8) nm (nd_ir (bk_s B)) = Some (w, m)" "bk_s B2 = (bk_s B)\<lparr>nd_ir := m\<rparr>"
    using s1 by (auto simp: on_ir_def bind_Some_iff)
  have vt: "ir_type (nd_ir (bk_s B)) v = IntTy 1" using v by (simp add: val_type_def)
  have "it \<noteq> IntTy 1 \<or> c' = IntToPtr" using w(1) by (auto simp: cast_kind_def)
  moreover have "c' \<noteq> IntToPtr" using m(1) vt by (auto simp: CreateCast_def)
  ultimately have "c' = cast.ZExt" using w(1) bt(2) by (auto simp: cast_kind_def)
  then have ev: "ir_eval (Suc k) m env w = Some c"
    by (intro CreateZExt_eval [of v "IntTy 8" nm "nd_ir (bk_s B)"]) (use m(1) assms(10,11) vt in \<open>auto simp del: ir_eval.simps\<close>)
  have wk: "known (nd_ir (bk_s B)) v" using assms(10) by (rule eval_known)
  from convert_value_typed [OF cv assms(2,3) wk bt(1)] assms(7)
  have "types_ok B' \<and> bext B B' \<and> y = nd_next (bk_s B) \<and>
    (\<exists>ey w. bk_expr y B' = Some ey \<and> e_value ey = Some w \<and> e_btype ey = Some bt \<and> \<not> varExprPending ey)"
    by (auto simp: inherited_def mk_varctx_def varExprPending_def)
  moreover have "nd_ir (bk_s B') = m \<and> (\<exists>ey. bk_expr y B' = Some ey \<and> e_value ey = Some w)"
  proof -
    from w(4) obtain t where t: "mkConversion (en_P E) (Some bt) (Some w) x loc (bk_s B2) = Some (y, t)" "B' = B2\<lparr>bk_s := t\<rparr>"
      by (auto simp: on_s_def bind_Some_iff)
    from assms(3) obtain b where b: "as_expr x (bk_s B2) = Some (b, e)" "x < nd_next (bk_s B2)"
      using assms(2) m(2) by (auto simp: bk_expr_def as_expr_iff bind_Some_iff node_def types_ok_def)
    from mkConversion_building [OF t(1) b(1)] b(2) t(2) m(2) show ?thesis by (auto simp: building_def bk_expr_def bind_Some_iff)
  qed
  ultimately show ?thesis using ev by auto
qed

section \<open>Expressions that stand for integers\<close>

lemma in_type_wrap: "0 < n \<Longrightarrow> in_type u n (wrap u n x)"
  by (cases n) (auto simp: in_type_def wrap_def signed_of_def signed_take_bit_int_less_exp signed_take_bit_int_greater_eq_minus_exp)

lemma in_type_iff: "0 < n \<Longrightarrow> in_type u n x \<longleftrightarrow> wrap u n x = x"
  using in_type_wrap [of n u x] signed_of_bits [of n x]
  by (auto simp: wrap_def bits_unsigned [unfolded bits_def] signed_of_def bits_take_bit signed_take_bit_take_bit split: if_split_asm)

lemma in_type_0: "in_type u n 0"
  by (simp add: in_type_def)

lemma signed_take_bit_bitwise:
  "signed_take_bit k ((x::int) AND y) = signed_take_bit k x AND signed_take_bit k y"
  "signed_take_bit k ((x::int) XOR y) = signed_take_bit k x XOR signed_take_bit k y"
  "signed_take_bit k ((x::int) OR y) = signed_take_bit k x OR signed_take_bit k y"
  by (rule bit_eqI, auto simp: bit_simps)+

lemma go_arith_in_type:
  assumes "go_arith op u n x y = Some z" "in_type u n x" "in_type u n y" "0 < n"
  shows "in_type u n z"
proof (cases op)
  case OPERATOR_AND
  with assms show ?thesis
    by (auto simp: go_arith_def in_type_iff wrap_def signed_of_def take_bit_eq_mod [symmetric] signed_take_bit_bitwise split: if_split_asm)
next
  case OPERATOR_XOR
  with assms show ?thesis
    by (auto simp: go_arith_def in_type_iff wrap_def signed_of_def take_bit_eq_mod [symmetric] signed_take_bit_bitwise split: if_split_asm)
next
  case OPERATOR_OR
  with assms show ?thesis
    by (auto simp: go_arith_def in_type_iff wrap_def signed_of_def take_bit_eq_mod [symmetric] signed_take_bit_bitwise split: if_split_asm)
qed (use assms in \<open>auto simp: go_arith_def in_type_wrap in_type_0 split: if_split_asm\<close>)

text \<open>
  Expression \<open>x\<close> stands for the integer \<open>a\<close> of a type of \<open>n\<close> bits: its value is computed to the bit pattern of \<open>a\<close>,
  with \<open>k\<close> bounding the depth of the computation.
\<close>

definition stands_for :: "benv \<Rightarrow> backend \<Rightarrow> nat \<Rightarrow> env \<Rightarrow> nref \<Rightarrow> bool \<Rightarrow> nat \<Rightarrow> int \<Rightarrow> bool" where
  "stands_for E B k env x u n a \<longleftrightarrow> x \<noteq> en_errorExpression E \<and>
     (\<exists>e v t w. bk_expr x B = Some e \<and> \<not> varExprPending e \<and> e_value e = Some v \<and> e_btype e = Some t \<and>
        bk_type t B = Some (IntTy w) \<and> unat w = n \<and> is_unsigned_of t B = Some u \<and> in_type u n a \<and>
        ir_eval k (nd_ir (bk_s B)) env v = Some (bits n a))"

lemma is_unsigned_bext: "bext B B' \<Longrightarrow> is_unsigned_of t B = Some u \<Longrightarrow> is_unsigned_of t B' = Some u"
  by (auto simp: bext_def is_unsigned_of_def obj_def bind_Some_iff)

text \<open>A new binary expression over a value that was just built.\<close>

lemma new_binary:
  assumes "on_s (mkBinaryOp P op (Some t) (Some v) l r loc) B = Some (x, B')" "types_ok B" "known (nd_ir (bk_s B)) v"
    and "bk_type t B = Some (val_type B v)"
  shows "types_ok B' \<and> bext B B' \<and> x = nd_next (bk_s B) \<and> nd_ir (bk_s B') = nd_ir (bk_s B) \<and>
    (\<exists>e. bk_expr x B' = Some e \<and> e_value e = Some v \<and> e_btype e = Some t \<and> \<not> varExprPending e)"
proof -
  have "vc_pending mk_varctx = False" by (simp add: mk_varctx_def)
  with assms(3,4) have ty: "known (nd_ir (bk_s B)) v \<and> (\<exists>l. bk_type t B = Some l \<and>
      val_type B v = (if vc_pending mk_varctx \<and> vc_addrLevel mk_varctx = 0 then PointerTy l else l))" by auto
  have k: "keeps B B'" "\<exists>e. bk_expr x B' = Some e \<and> e_value e = Some v \<and> e_btype e = Some t \<and> e_ctx e = mk_varctx" "x = nd_next (bk_s B)"
    by (rule on_s_keeps [OF assms(1) mkBinaryOp_building ty], assumption)+
  have "nd_ir (bk_s B') = nd_ir (bk_s B)"
    using assms(1) by (auto simp: on_s_def bind_Some_iff building_def dest!: mkBinaryOp_building)
  then show ?thesis using keeps_ext [OF k(1) assms(2)] k(2,3) by (auto simp: varExprPending_def mk_varctx_def)
qed

lemma compare_expression_correct:
  assumes "compare_expression E op u lv rv l r loc B = Some (x, B')" "types_ok B" "en_errorExpression E < nd_next (bk_s B)"
    and "ir_eval k (nd_ir (bk_s B)) env lv = Some (bits n a)" "ir_eval k (nd_ir (bk_s B)) env rv = Some (bits n b)"
    and "val_type B lv = IntTy w" "unat w = n" "0 < n" "in_type u n a" "in_type u n b" "go_compare op a b = Some c"
  shows "types_ok B' \<and> bext B B' \<and> stands_for E B' (k + 2) env x True 8 (if c then 1 else 0)"
proof -
  from assms(1,6) obtain p nm B1 v B2 at B3 y B4 bt B5 where r: "compare_op_to_pred op (IntTy w) u = Some p" "bk_namegen ''icmp'' B = Some (nm, B1)"
    "on_ir (CreateICmp p lv rv nm) B1 = Some (v, B2)" "bk_aux (IntTy 1) B2 = Some (at, B3)"
    "on_s (mkBinaryOp (en_P E) op (Some at) (Some v) l r loc) B3 = Some (y, B4)" "bool_type E B4 = Some (bt, B5)"
    "convert_expression E bt y loc B5 = Some (x, B')"
    by (auto simp: compare_expression_def bind_Some_iff Let_def isFloatingPointTy_def)
  note s1 = bk_namegen_same [OF r(2)]
  note k1 = keeps_ext [OF bk_namegen_keeps [OF r(2)] assms(2)]
  have k2: "keeps B1 B2" "known (nd_ir (bk_s B2)) v" "val_type B2 v = IntTy 1"
    by (rule on_ir_keeps [OF r(3)], erule CreateICmp_type)+
  note g2 = keeps_ext [OF k2(1) conjunct1 [OF k1]]
  note k3 = bk_aux_aux [OF r(4) conjunct1 [OF g2]]
  note g3 = keeps_ext [OF k3(1) conjunct1 [OF g2]]
  have v3: "known (nd_ir (bk_s B3)) v" "bk_type at B3 = Some (val_type B3 v)" using k2(2,3) k3 by (simp_all add: val_type_def)
  note k4 = new_binary [OF r(5) conjunct1 [OF g3] v3]
  from k4 have ok4: "types_ok B4" by blast
  note k5 = bool_type_scalar [OF r(6) ok4]
  note g5 = keeps_ext [OF k5(1) ok4]
  from r(3) obtain m where m: "CreateICmp p lv rv nm (nd_ir (bk_s B)) = Some (v, m)" "nd_ir (bk_s B2) = m" "nd_next (bk_s B2) = nd_next (bk_s B)"
    using s1 by (auto simp: on_ir_def bind_Some_iff)
  have "cmp_sem (pred_name p) n (bits n a) (bits n b) = Some c"
    by (rule compare_sem [OF r(1) assms(11) _ assms(9,10,8)]) (simp add: isFloatingPointTy_def)
  with CreateICmp_eval(1) [OF m(1) assms(4,5)] assms(6,7) have ev: "ir_eval (Suc k) m env v = Some (if c then 1 else 0)"
    by (simp add: val_type_def)
  have ir5: "nd_ir (bk_s B5) = m" using k5(3) k4 k3(3) m(2) by simp
  from k4 obtain e where e: "bk_expr y B4 = Some e" "e_value e = Some v" "e_btype e = Some at" "\<not> varExprPending e" by blast
  have e5: "bk_expr y B5 = Some e" using e(1) k5(3) by (simp add: bk_expr_def)
  have at5: "bk_type at B5 = Some (IntTy 1)"
    using k3(2) k4 g5 bk_type_mono [of B3 B5 at] bext_trans [of B3 B4 B5] by (auto simp: bext_def)
  have y: "y \<noteq> en_errorExpression E" using k4 k3(3) m(3) assms(3) by simp
  have ev5: "ir_eval (Suc k) (nd_ir (bk_s B5)) env v = Some (if c then 1 else 0)" using ev ir5 by simp
  have "(if c then 1 else 0) \<in> {0, 1 :: int}" by simp
  from convert_bool [OF r(7) conjunct1 [OF g5] e5 e(2,3) at5 e(4) k5(2) y ev5 this]
  obtain ey w' where x: "bk_expr x B' = Some ey" "e_value ey = Some w'" "e_btype ey = Some bt"
    "\<not> varExprPending ey" "x = nd_next (bk_s B5)" "bext B5 B'" and ok': "types_ok B'" and ev': "ir_eval (Suc (Suc k)) (nd_ir (bk_s B')) env w' = Some (if c then 1 else 0)" by auto
  have "is_scalar (bk_tm B') (Some True, 8) bt" using k5(2) x(6) by (auto simp: is_scalar_def bext_def split: option.split_asm)
  note b = bool_scalar [OF this refl]
  have "x \<noteq> en_errorExpression E" using x(5) k5(3) k4 k3(3) m(3) assms(3) by (auto simp: bext_def)
  then have "stands_for E B' (k + 2) env x True 8 (if c then 1 else 0)" unfolding stands_for_def
    using x ev' b by (intro conjI exI [of _ ey] exI [of _ w'] exI [of _ bt] exI [of _ 8]) (auto simp: bits_def in_type_def)
  moreover have "bext B B5" using k1 g2 g3 k4 g5 bext_trans by blast
  ultimately show ?thesis using x(6) ok' bext_trans by blast
qed

lemma arith_expression_correct:
  assumes "arith_op op False u = Some (opname, tag)" "bk_namegen tag B = Some (nm, B1)"
    and "on_ir (CreateBinOp opname False lv rv nm) B1 = Some (v, B2)"
    and "on_s (mkBinaryOp (en_P E) op (Some t) (Some v) l r loc) B2 = Some (x, B')" "types_ok B" "en_errorExpression E < nd_next (bk_s B)"
    and "ir_eval k (nd_ir (bk_s B)) env lv = Some (bits n a)" "ir_eval k (nd_ir (bk_s B)) env rv = Some (bits n b)"
    and "val_type B lv = IntTy w" "bk_type t B = Some (IntTy w)" "is_unsigned_of t B = Some u" "unat w = n" "0 < n"
    and "in_type u n a" "in_type u n b" "go_arith op u n a b = Some c"
    and "op = OPERATOR_DIV \<or> op = OPERATOR_MOD \<Longrightarrow> u \<or> a \<noteq> - (2 ^ (n - 1)) \<or> b \<noteq> -1"
  shows "types_ok B' \<and> bext B B' \<and> stands_for E B' (k + 2) env x u n c"
proof -
  note s1 = bk_namegen_same [OF assms(2)]
  note k1 = keeps_ext [OF bk_namegen_keeps [OF assms(2)] assms(5)]
  have lv: "known (nd_ir (bk_s B)) lv" using assms(7) by (rule eval_known)
  have "ir_type (nd_ir (bk_s B)) lv = IntTy w" using assms(9) by (simp add: val_type_def)
  with lv s1 have r: "CreateBinOp opname False lv rv nm (nd_ir (bk_s B1)) = Some q \<Longrightarrow> makes_type (IntTy w) (nd_ir (bk_s B1)) q" for q
    using CreateBinOp_type [of opname False lv rv nm "nd_ir (bk_s B1)" q] by simp
  note k2 = on_ir_keeps [OF assms(3) r]
  note g2 = keeps_ext [OF k2(1) conjunct1 [OF k1]]
  have ext: "bext B B2" using k1 g2 bext_trans by blast
  then have "bk_type t B2 = Some (val_type B2 v)" using bk_type_mono [of B B2 t] assms(10) k2(3) by (auto simp: bext_def)
  note k3 = new_binary [OF assms(4) conjunct1 [OF g2] k2(2) this]
  from assms(3) obtain m where m: "CreateBinOp opname False lv rv nm (nd_ir (bk_s B)) = Some (v, m)" "nd_ir (bk_s B2) = m" "nd_next (bk_s B2) = nd_next (bk_s B)"
    using s1 by (auto simp: on_ir_def bind_Some_iff)
  have "bin_sem opname n (bits n a) (bits n b) = Some (bits n c)"
    by (rule arith_sem [OF assms(1,16,14,15,13,17)])
  then have ev: "ir_eval (Suc k) m env v = Some (bits n c)"
    using CreateBinOp_eval [OF m(1) assms(7,8)] assms(9,12) by (simp add: val_type_def)
  have ext': "bext B B'" using ext k3 bext_trans by blast
  from k3 obtain e where e: "bk_expr x B' = Some e" "e_value e = Some v" "e_btype e = Some t" "\<not> varExprPending e" "nd_ir (bk_s B') = m" using m(2) by auto
  have "bk_type t B' = Some (IntTy w)" "is_unsigned_of t B' = Some u"
    using ext' bk_type_mono [of B B' t] assms(10) is_unsigned_bext [OF ext' assms(11)] by (auto simp: bext_def)
  moreover have "x \<noteq> en_errorExpression E" using k3 m(3) assms(6) by simp
  moreover have "in_type u n c" by (rule go_arith_in_type [OF assms(16,14,15,13)])
  moreover have "ir_eval (k + 2) (nd_ir (bk_s B')) env v = Some (bits n c)" using eval_grows [OF ev ir_grows_refl, of 1] e(5) by simp
  ultimately have "stands_for E B' (k + 2) env x u n c" unfolding stands_for_def using e assms(12) by blast
  with k3 ext' show ?thesis by blast
qed

text \<open>Older expressions keep their meaning.\<close>

lemma stands_for_bext:
  assumes "stands_for E B k env x u n a" "types_ok B" "bext B B'"
  shows "stands_for E B' k env x u n a"
proof -
  from assms(1) obtain e v t w where x: "x \<noteq> en_errorExpression E" "bk_expr x B = Some e" "\<not> varExprPending e" "e_value e = Some v"
    "e_btype e = Some t" "bk_type t B = Some (IntTy w)" "unat w = n" "is_unsigned_of t B = Some u" "in_type u n a"
    "ir_eval k (nd_ir (bk_s B)) env v = Some (bits n a)" unfolding stands_for_def by blast
  have "bk_type t B' = Some (IntTy w)" using bk_type_mono [OF _ x(6)] assms(3) by (auto simp: bext_def)
  moreover have "ir_eval k (nd_ir (bk_s B')) env v = Some (bits n a)"
    using eval_grows [OF x(10), of _ 0] assms(3) by (simp add: bext_def)
  ultimately show ?thesis
    unfolding stands_for_def using x bk_expr_bext [OF assms(2,3) x(2)] is_unsigned_bext [OF assms(3) x(8)] by blast
qed

definition go_binary :: "Operator \<Rightarrow> bool \<Rightarrow> nat \<Rightarrow> int \<Rightarrow> int \<Rightarrow> int option" where
  "go_binary op u n x y =
     (if is_compare op then map_option (\<lambda>c. if c then 1 else 0) (go_compare op x y) else go_arith op u n x y)"


end
