(* ===== verification/OperatorSamples.thy ===== *)
theory OperatorSamples
  imports OperatorFacts BackendSamples
begin

text \<open>
  A backend is well typed from the start; two constants of an unsigned 32-bit type, a conversion and operators on
  them show that the statements about conversions and operators apply.
\<close>

lemma new_typemanager_aux_ok:
  assumes "new_typemanager conv c = Some s"
  shows "aux_ok s"
proof -
  define s0 where "s0 = \<lparr>tm_datalayout = None, tm_context = snd (create_struct ''$Error$'' c), tm_cconv = conv, tm_heap = Map.empty,
    tm_errorType = 0, tm_next = 0, tm_nametags = None, tm_errorExpression = None, anonTypes = [], auxTypeMap = Map.empty,
    namedTypes = [], revNames = Map.empty, placeholders = [], duplicates = [], placeholderRefs = Map.empty,
    circularPointerTypes = [], circularPointerTypeMap = Map.empty, circularConversionLoadMap = Map.empty,
    circularConversionAddrMap = Map.empty, circularPointerLoop = [], complexFloatType = None,
    complexDoubleType = None, stringType = None, llvmIntegerType = None\<rparr>"
  obtain e s1 where e: "makeAuxType (fst (create_struct ''$Error$'' c)) s0 = (e, s1)" by fastforce
  from assms e obtain u s2 p s3 where r: "integerType 1 True 8 (s1\<lparr>tm_errorType := e\<rparr>) = Some (u, s2)"
    "pointerType 1 u s2 = Some (p, s3)" "s = s3\<lparr>stringType := Some p\<rparr>"
    by (auto simp: new_typemanager_def s0_def bind_Some_iff case_prod_beta Let_def)
  have "tm_live s0" by (simp add: tm_live_def s0_def)
  then have "tm_live s1" using makeAuxType_moves [OF e] by (rule moves_live [rotated])
  then have live: "tm_live (s1\<lparr>tm_errorType := e\<rparr>)" by (simp add: tm_live_def scalar_at_def)
  have ok: "aux_ok (s1\<lparr>tm_errorType := e\<rparr>)"
    using e by (auto simp: aux_ok_def makeAuxType_def s0_def new_btype_def mk_btype_def ll_of_def obj_def Let_def scalar_kind_def
        split: if_split_asm)
  have "tm_live s2" using live integerType_moves [OF r(1)] by (blast intro: moves_live)
  with live ok integerType_adds [OF r(1)] pointerType_adds [OF r(2)] have "aux_ok s3" by (simp add: tm_adds_def)
  then show ?thesis by (simp add: r(3) aux_ok_def ll_of_def obj_def)
qed

lemma start_types_ok:
  assumes "sample_backend = Some B"
  shows "types_ok B"
proof -
  from assms obtain tm x s where a: "start_tm = Some tm" "mkError sample_printers (errorType tm) (init_bstate empty_irmem) = Some (x, s)"
    "B = empty_backend s (initializeTypeManager x x86_layout Map.empty tm)" by (auto simp: sample_backend_def bind_Some_iff)
  have "tm_live tm" "aux_ok tm" using a(1) by (auto simp: start_tm_def intro: new_typemanager_live new_typemanager_aux_ok)
  then have tm: "tm_live (bk_tm B)" "aux_ok (bk_tm B)"
    using initialize_live [of tm x x86_layout Map.empty] by (simp_all add: a(3) empty_backend_def initializeTypeManager_def aux_ok_def ll_of_def obj_def)
  have "\<not> isStmt_fl N_Error" by (simp add: isStmt_fl_def N_FirstStmt_def N_LastStmt_def)
  then have b: "building x None (Some (errorType tm)) mk_varctx (init_bstate empty_irmem) s"
    using a(2) by (auto simp: mkError_def bind_Some_iff dest!: new_bexpression_building dest: archived_building)
  have "e_value e = None" if "bk_expr z B = Some e" for z e
    using that b a(3) by (cases "z = x")
      (auto simp: building_def bk_expr_def empty_backend_def init_bstate_def as_expr_def node_def bind_Some_iff)
  then have "\<forall>z e. bk_expr z B = Some e \<longrightarrow> expr_typed e B" by (simp add: expr_typed_def)
  moreover have "z < nd_next (bk_s B)" if "node z (bk_s B) \<noteq> None" for z
    using that b a(3) by (cases "z = x") (auto simp: building_def empty_backend_def init_bstate_def node_def)
  ultimately show ?thesis using tm by (simp add: types_ok_def)
qed

text \<open>A constant of a type of the backend.\<close>

definition sample_const :: "tref \<Rightarrow> int \<Rightarrow> nref bm" where
  "sample_const t i B =
     do { l \<leftarrow> bk_type t B; (v, B) \<leftarrow> on_const (getInt l i) B; on_s (mkConst sample_printers (Some t) (Some v)) B }"

lemma sample_const_keeps:
  assumes "sample_const t i B = Some (x, B')"
  shows "keeps B B'"
proof -
  from assms obtain l v B1 where a: "bk_type t B = Some l" "on_ir (\<lambda>m. Some (getInt l i m)) B = Some (v, B1)"
    "on_s (mkConst sample_printers (Some t) (Some v)) B1 = Some (x, B')" by (auto simp: sample_const_def on_const_def bind_Some_iff)
  have r: "Some (getInt l i (nd_ir (bk_s B))) = Some r \<Longrightarrow> makes_type l (nd_ir (bk_s B)) r" for r
    using getInt_type [of l "nd_ir (bk_s B)" i] by simp
  note k = on_ir_keeps [OF a(2) r]
  have "bk_tm B1 = bk_tm B" using a(2) by (auto simp: on_ir_def bind_Some_iff split: prod.split_asm)
  then have "bk_type t B1 = Some l" using a(1) by (simp add: bk_type_def)
  with k(2,3) have "keeps B1 B'"
    by (intro on_s_keeps(1) [OF a(3) mkConst_building]) (auto simp: mk_varctx_def)
  with k(1) show ?thesis by (rule keeps_trans)
qed

definition op_sample :: "(tref \<times> nref \<times> nref \<times> backend) option" where
  "op_sample =
     do { B \<leftarrow> sample_backend;
          (i8, B) \<leftarrow> integer_type sample_benv False 8 B;
          (u32, B) \<leftarrow> integer_type sample_benv True 32 B;
          (x, B) \<leftarrow> sample_const u32 5 B;
          (y, B) \<leftarrow> sample_const u32 7 B;
          Some (i8, x, y, B) }"

lemma op_sample_ok:
  assumes "op_sample = Some (i8, x, y, B)"
  shows "types_ok B"
proof -
  from assms obtain B0 B1 B2 B3 t where a: "sample_backend = Some B0" "integer_type sample_benv False 8 B0 = Some (i8, B1)"
    "integer_type sample_benv True 32 B1 = Some (t, B2)" "sample_const t 5 B2 = Some (x, B3)" "sample_const t 7 B3 = Some (y, B)"
    by (auto simp: op_sample_def bind_Some_iff)
  have k: "integer_type E u n C = Some (t, C') \<Longrightarrow> keeps C C'" for E u n C t C'
    by (auto simp: integer_type_def intro!: on_tm_keeps dest: integerType_adds)
  have "keeps B0 B" using k [OF a(2)] k [OF a(3)] a(4,5) [THEN sample_const_keeps] by (meson keeps_trans)
  with start_types_ok [OF a(1)] show ?thesis by (simp add: keeps_def)
qed

text \<open>What the constants stand for, in a form that computes.\<close>

definition stands :: "benv \<Rightarrow> backend \<Rightarrow> nat \<Rightarrow> env \<Rightarrow> nref \<Rightarrow> (bool \<times> nat \<times> int) option" where
  "stands E B k env x =
     do { check (x \<noteq> en_errorExpression E); e \<leftarrow> bk_expr x B; check (\<not> varExprPending e); v \<leftarrow> e_value e; t \<leftarrow> e_btype e;
          l \<leftarrow> bk_type t B; check (isIntegerTy l); u \<leftarrow> is_unsigned_of t B;
          a \<leftarrow> ir_eval k (nd_ir (bk_s B)) env v;
          Some (u, int_bits l, if u then a else signed_of (int_bits l) a) }"

lemma stands_stands_for:
  "stands E B k env x = Some (True, n, a) \<Longrightarrow> 0 \<le> a \<Longrightarrow> a < 2 ^ n \<Longrightarrow> stands_for E B k env x True n a"
proof -
  assume a: "stands E B k env x = Some (True, n, a)" "0 \<le> a" "a < 2 ^ n"
  from a(1) obtain e v t l where e: "x \<noteq> en_errorExpression E" "bk_expr x B = Some e" "\<not> varExprPending e" "e_value e = Some v"
    "e_btype e = Some t" "bk_type t B = Some l" "is_unsigned_of t B = Some True" "ir_eval k (nd_ir (bk_s B)) env v = Some a"
    "\<exists>w. l = IntTy w \<and> unat w = n"
    by (auto simp: stands_def bind_Some_iff split: if_split_asm elim!: isIntegerTy.elims(2))
  then show ?thesis using a(2,3) by (auto simp: stands_for_def in_type_def bits_def)
qed

lemma sample_error [simp]: "en_errorExpression sample_benv = 0"
  by (simp add: sample_benv_def)

lemma op_sample_Some:
  "map_option (\<lambda>(i8, x, y, B). (stands sample_benv B 1 Map.empty x, stands sample_benv B 1 Map.empty y,
     (case binary_expression sample_benv OPERATOR_MINUS x y 0 B of
        Some (z, B) \<Rightarrow> stands sample_benv B 3 Map.empty z | None \<Rightarrow> None),
     (case convert_expression sample_benv i8 x 0 B of Some (z, B') \<Rightarrow> z = nd_next (bk_s B) | None \<Rightarrow> False),
     nd_next (bk_s B))) op_sample =
   Some (Some (True, 32, 5), Some (True, 32, 7), Some (True, 32, 4294967294), True, 3)"
  by code_simp


text \<open>The conversion of an unsigned 32-bit constant to a signed 8-bit type makes a new node of that type.\<close>

lemma convert_typed_witness:
  "\<exists>i8 x y B z B' ey. op_sample = Some (i8, x, y, B) \<and> convert_expression sample_benv i8 x 0 B = Some (z, B') \<and>
     z = nd_next (bk_s B) \<and> bk_expr z B' = Some ey \<and> e_value ey \<noteq> None \<and> types_ok B'"
proof -
  from op_sample_Some obtain i8 x y B z B' where s: "op_sample = Some (i8, x, y, B)"
    "convert_expression sample_benv i8 x 0 B = Some (z, B')" "z = nd_next (bk_s B)" "stands sample_benv B 1 Map.empty x = Some (True, 32, 5)"
    "nd_next (bk_s B) = 3"
    by (auto split: option.split_asm prod.split_asm)
  from s(4) have "stands_for sample_benv B 1 Map.empty x True 32 5" by (auto intro: stands_stands_for)
  then obtain e where "bk_expr x B = Some e" by (auto simp: stands_for_def)
  with op_sample_ok [OF s(1)] have "x < nd_next (bk_s B)"
    by (auto simp: types_ok_def bk_expr_def as_expr_iff bind_Some_iff)
  with convert_typed [OF op_sample_ok [OF s(1)] s(2)] s(3,5)
  have "types_ok B' \<and> (\<exists>ey. bk_expr z B' = Some ey \<and> e_value ey \<noteq> None)"
    by (auto split: if_split_asm)
  with s(1-3) show ?thesis by blast
qed

end
